(* ===== verification/Json.thy ===== *)
theory Json
  imports Prelude
begin

text \<open>
  JSON values (\<open>serde_json::Value\<close>) as the code uses them, the nesting depth of a
  value, and the bounded depth computation of \<open>af-jobs/src/enqueue.rs\<close> that runs on
  an explicit stack and stops early. An object is the list of its entries in the
  map's iteration order; a non-integral number keeps its decimal text.
\<close>

datatype json =
    JNull
  | JBool bool
  | JInt int
  | JFloat string
  | JStr string
  | JArr "json list"
  | JObj "(string \<times> json) list"

definition jget :: "json \<Rightarrow> string \<Rightarrow> json option" where
  "jget v k = (case v of JObj kvs \<Rightarrow> map_of kvs k | _ \<Rightarrow> None)"

definition as_str :: "json \<Rightarrow> string option" where
  "as_str v = (case v of JStr s \<Rightarrow> Some s | _ \<Rightarrow> None)"

definition as_object :: "json \<Rightarrow> (string \<times> json) list option" where
  "as_object v = (case v of JObj kvs \<Rightarrow> Some kvs | _ \<Rightarrow> None)"

definition as_array :: "json \<Rightarrow> json list option" where
  "as_array v = (case v of JArr xs \<Rightarrow> Some xs | _ \<Rightarrow> None)"

lemma jget_simps [simp]:
  "jget (JObj kvs) k = map_of kvs k"
  "jget JNull k = None" "jget (JBool b) k = None" "jget (JInt i) k = None"
  "jget (JFloat f) k = None" "jget (JStr s) k = None" "jget (JArr xs) k = None"
  by (simp_all add: jget_def)

lemma as_simps [simp]:
  "as_str (JStr s) = Some s" "as_str JNull = None" "as_str (JBool b) = None"
  "as_str (JInt i) = None" "as_str (JFloat f) = None" "as_str (JArr xs) = None" "as_str (JObj kvs) = None"
  "as_object (JObj kvs) = Some kvs" "as_object (JStr s) = None"
  "as_array (JArr xs) = Some xs" "as_array (JObj kvs) = None"
  by (simp_all add: as_str_def as_object_def as_array_def)

section \<open>Nesting depth\<close>

text \<open>The children of a value and its nesting depth: objects and arrays add one.\<close>

fun children :: "json \<Rightarrow> json list option" where
  "children (JObj kvs) = Some (map snd kvs)"
| "children (JArr xs) = Some xs"
| "children _ = None"

fun json_depth :: "json \<Rightarrow> nat" where
  "json_depth (JArr xs) = Suc (foldr max (map json_depth xs) 0)"
| "json_depth (JObj kvs) = Suc (foldr max (map (\<lambda>kv. json_depth (snd kv)) kvs) 0)"
| "json_depth _ = 0"

lemma json_depth_children:
  "json_depth v = (case children v of None \<Rightarrow> 0 | Some cs \<Rightarrow> Suc (foldr max (map json_depth cs) 0))"
  by (cases v) (simp_all add: comp_def)

lemma size_list_pos: "size_list size (xs :: json list) = (\<Sum>x\<leftarrow>xs. Suc (size x))"
  by (induction xs) auto

lemma children_smaller:
  "children v = Some cs \<Longrightarrow> (\<Sum>c\<leftarrow>cs. Suc (size c)) \<le> size v"
proof (cases v)
  case (JObj kvs)
  assume "children v = Some cs"
  moreover have "(\<Sum>c\<leftarrow>map snd kvs. Suc (size c)) \<le> size_list (size_prod (\<lambda>_. 0) size) kvs"
    by (induction kvs) auto
  ultimately show ?thesis using JObj by (auto simp: le_SucI)
qed (auto simp: size_list_pos)

text \<open>
  \<open>json_depth_bounded\<close>: the head of the list is the top of the code's stack. The
  children are pushed in order, so the last one is on top.
\<close>

function depth_loop :: "(json \<times> nat) list \<Rightarrow> nat \<Rightarrow> nat \<Rightarrow> nat" where
  "depth_loop [] bail max_depth = max_depth"
| "depth_loop ((v, depth) # stack) bail max_depth =
     (case children v of
        None \<Rightarrow> depth_loop stack bail (max max_depth depth)
      | Some cs \<Rightarrow>
          if bail \<le> depth + 1 then bail
          else depth_loop (rev (map (\<lambda>c. (c, depth + 1)) cs) @ stack) bail
                 (max max_depth (depth + 1)))"
  by pat_completeness auto
termination
proof (relation "measure (\<lambda>(stack, _, _). \<Sum>(v, _)\<leftarrow>stack. Suc (size v))", goal_cases)
  case (3 v depth stack bail max_depth cs)
  then have "(\<Sum>c\<leftarrow>cs. Suc (size c)) \<le> size v" by (simp add: children_smaller)
  then have "sum_list (rev (map ((\<lambda>(v, _). Suc (size v)) \<circ> (\<lambda>c. (c, depth + 1))) cs)) \<le> size v"
    by (simp add: comp_def sum_list_rev)
  then show ?case by (simp add: rev_map comp_def)
qed auto

definition json_depth_bounded :: "json \<Rightarrow> nat \<Rightarrow> nat" where
  "json_depth_bounded v bail = depth_loop [(v, 0)] bail 0"

fun stack_depth :: "(json \<times> nat) list \<Rightarrow> nat" where
  "stack_depth [] = 0"
| "stack_depth ((v, d) # st) = max (d + json_depth v) (stack_depth st)"

lemma stack_depth_append: "stack_depth (xs @ ys) = max (stack_depth xs) (stack_depth ys)"
  by (induction xs) auto

lemma stack_depth_children:
  "max (Suc d) (stack_depth (rev (map (\<lambda>c. (c, Suc d)) cs))) = Suc d + foldr max (map json_depth cs) 0"
  by (induction cs) (auto simp: stack_depth_append)

lemma depth_loop_eq:
  "\<forall>(v, d) \<in> set st. d < bail \<Longrightarrow> m < bail \<Longrightarrow>
     depth_loop st bail m = min bail (max m (stack_depth st))"
proof (induction st bail m rule: depth_loop.induct)
  case (1 bail m)
  then show ?case by simp
next
  case (2 v d st bail m)
  show ?case
  proof (cases "children v")
    case None
    with 2 show ?thesis by (auto simp: json_depth_children max.assoc)
  next
    case (Some cs)
    show ?thesis
    proof (cases "bail \<le> d + 1")
      case True
      with Some show ?thesis by (simp add: json_depth_children)
    next
      case False
      let ?new = "rev (map (\<lambda>c. (c, d + 1)) cs) @ st"
      have "depth_loop ((v, d) # st) bail m = depth_loop ?new bail (max m (d + 1))"
        using Some False by simp
      also have "\<dots> = min bail (max (max m (d + 1)) (stack_depth ?new))"
        using 2 Some False by (intro "2.IH"(2)) auto
      also have "max (max m (d + 1)) (stack_depth ?new) = max m (stack_depth ((v, d) # st))"
        using stack_depth_children [of d cs] Some
        by (simp add: stack_depth_append json_depth_children max.assoc max.left_commute)
      finally show ?thesis .
    qed
  qed
qed

lemma json_depth_bounded_eq: "0 < bail \<Longrightarrow> json_depth_bounded v bail = min bail (json_depth v)"
  by (simp add: json_depth_bounded_def depth_loop_eq del: depth_loop.simps)

end
