(* ===== verification/Resolver.thy ===== *)
theory Resolver
  imports Json
begin

text \<open>
  \<open>af-core/src/resolver.rs\<close>: the JSON paths at which a tool's input schema refers to
  an artifact, and the artifact identifiers found at those paths in an input. The
  identifier parser (\<open>Uuid::parse_str\<close> of the \<open>uuid\<close> crate) is a parameter. Error
  messages leave out the rendering of the offending JSON value.
\<close>

definition MAX_DEPTH :: nat where "MAX_DEPTH = 16"

text \<open>
  \<open>walk_schema\<close> appends the paths it finds to a vector: here it returns them. The
  recursion ends because of the depth bound.
\<close>

definition child_path :: "string \<Rightarrow> string \<Rightarrow> string" where
  "child_path current key = (if current = [] then ''/'' @ key else current @ ''/'' @ key)"

definition is_artifact_ref :: "json \<Rightarrow> bool" where
  "is_artifact_ref schema = (case Option.bind (jget schema ''$ref'') as_str of
      None \<Rightarrow> False
    | Some r \<Rightarrow> r = ''#/$defs/ArtifactId'' \<or> r = ''#/$defs/ArtifactIds'')"

function walk_schema :: "json \<Rightarrow> string \<Rightarrow> nat \<Rightarrow> string list" where
  "walk_schema schema current depth =
     (if MAX_DEPTH < depth then []
      else if is_artifact_ref schema then [current]
      else
        (case Option.bind (jget schema ''properties'') as_object of
           None \<Rightarrow> []
         | Some props \<Rightarrow>
             concat (map (\<lambda>(key, sub). walk_schema sub (child_path current key) (depth + 1)) props))
        @ (case jget schema ''items'' of
             None \<Rightarrow> []
           | Some items \<Rightarrow> walk_schema items current (depth + 1)))"
  by pat_completeness auto
termination
  by (relation "measure (\<lambda>(_, _, depth). Suc MAX_DEPTH - depth)") auto

declare walk_schema.simps [simp del]

definition resolve_schema_paths :: "json \<Rightarrow> string list" where
  "resolve_schema_paths schema = walk_schema schema [] 0"

text \<open>\<open>extract_at_path\<close> and \<open>extract_artifact_ids\<close>, the identifiers accumulated in order.\<close>

fun extract_items ::
  "(string \<Rightarrow> uuid option) \<Rightarrow> json list \<Rightarrow> uuid list \<Rightarrow> string + uuid list" where
  "extract_items parse [] ids = Inr ids"
| "extract_items parse (JStr s # xs) ids =
     (case parse s of
        None \<Rightarrow> Inl (''invalid UUID: '' @ s)
      | Some u \<Rightarrow> extract_items parse xs (ids @ [u]))"
| "extract_items parse (_ # xs) ids = extract_items parse xs ids"

fun extract_at_path ::
  "(string \<Rightarrow> uuid option) \<Rightarrow> json \<Rightarrow> string list \<Rightarrow> uuid list \<Rightarrow> string + uuid list" where
  "extract_at_path parse v [] ids =
     (case v of
        JStr s \<Rightarrow> (case parse s of
            None \<Rightarrow> Inl (''invalid UUID: '' @ s)
          | Some u \<Rightarrow> Inr (ids @ [u]))
      | JArr xs \<Rightarrow> extract_items parse xs ids
      | JNull \<Rightarrow> Inr ids
      | _ \<Rightarrow> Inl ''expected string or array at path'')"
| "extract_at_path parse v (p # ps) ids =
     (case jget v p of
        Some child \<Rightarrow> extract_at_path parse child ps ids
      | None \<Rightarrow> Inr ids)"

definition path_parts :: "string \<Rightarrow> string list" where
  "path_parts path = filter (\<lambda>s. s \<noteq> []) (split_on CHR ''/'' path)"

definition extract_artifact_ids ::
  "(string \<Rightarrow> uuid option) \<Rightarrow> json \<Rightarrow> string list \<Rightarrow> string + uuid list" where
  "extract_artifact_ids parse input paths =
     try_fold (\<lambda>path. extract_at_path parse input (path_parts path)) paths []"

section \<open>What extraction finds\<close>

text \<open>The identifiers a value holds at the end of a path, and at a path from the root.\<close>

fun ids_here :: "(string \<Rightarrow> uuid option) \<Rightarrow> json \<Rightarrow> uuid list" where
  "ids_here parse (JStr s) = (case parse s of None \<Rightarrow> [] | Some u \<Rightarrow> [u])"
| "ids_here parse (JArr xs) =
     concat (map (\<lambda>x. case x of JStr s \<Rightarrow> (case parse s of None \<Rightarrow> [] | Some u \<Rightarrow> [u]) | _ \<Rightarrow> []) xs)"
| "ids_here parse _ = []"

fun lookup_path :: "json \<Rightarrow> string list \<Rightarrow> json option" where
  "lookup_path v [] = Some v"
| "lookup_path v (p # ps) = Option.bind (jget v p) (\<lambda>c. lookup_path c ps)"

lemma extract_items_Inr:
  "extract_items parse xs ids = Inr out \<Longrightarrow> out = ids @ ids_here parse (JArr xs)"
  by (induction parse xs ids rule: extract_items.induct) (auto split: option.splits)

lemma extract_at_path_Inr:
  "extract_at_path parse v ps ids = Inr out \<Longrightarrow>
     out = ids @ (case lookup_path v ps of None \<Rightarrow> [] | Some w \<Rightarrow> ids_here parse w)"
proof (induction ps arbitrary: v)
  case Nil
  then show ?case
    by (cases v) (auto split: option.splits dest: extract_items_Inr)
next
  case (Cons p ps)
  then show ?case by (cases "jget v p") auto
qed

lemma extract_fold_Inr:
  "try_fold (\<lambda>path. extract_at_path parse input (path_parts path)) paths ids = Inr out \<Longrightarrow>
     out = ids @ concat (map (\<lambda>path. case lookup_path input (path_parts path) of
                             None \<Rightarrow> [] | Some w \<Rightarrow> ids_here parse w) paths)"
proof (induction paths arbitrary: ids)
  case (Cons p paths)
  then obtain mid where "extract_at_path parse input (path_parts p) ids = Inr mid"
    and "try_fold (\<lambda>path. extract_at_path parse input (path_parts path)) paths mid = Inr out"
    by (auto simp: error_iff)
  with Cons.IH [of mid] show ?case by (auto dest: extract_at_path_Inr)
qed simp

lemma extract_artifact_ids_Inr:
  "extract_artifact_ids parse input paths = Inr ids \<Longrightarrow>
     ids = concat (map (\<lambda>path. case lookup_path input (path_parts path) of
                        None \<Rightarrow> [] | Some w \<Rightarrow> ids_here parse w) paths)"
  unfolding extract_artifact_ids_def by (drule extract_fold_Inr) simp

text \<open>
  A path that continues into an array finds nothing: the walk over the schema steps
  through \<open>items\<close> without leaving a mark in the path, the walk over the input does
  not step through an array.
\<close>

lemma extract_array_of_objects:
  "extract_at_path parse (JArr xs) (p # ps) ids = Inr ids"
  by simp

end
