(* ===== verification/Registry.thy ===== *)
theory Registry
  imports Json
begin

text \<open>
  \<open>af-core/src/types.rs\<close> and \<open>af-core/src/registry.rs\<close>: tool specifications with their
  execution policy, the two registries keyed by name and version, and the start-up
  validation of one against the other.

  A registry is a \<open>HashMap\<close> from names to \<open>BTreeMap\<close>s from versions: the outer map is an
  association list with distinct names, the inner one an association list whose
  versions strictly ascend. Iteration over a \<open>HashMap\<close> has no fixed order, so nothing
  below depends on the order of the outer list.
\<close>

datatype sandbox_profile =
  NoNetReadOnly | NoNetReadOnlyTmpfs | PrivateLoopback | NetEgressAllowlist | Trusted

record tool_policy =
  sandbox :: sandbox_profile
  max_input_bytes :: nat
  max_input_depth :: nat
  timeout_ms :: nat
  max_stdout_bytes :: nat
  max_stderr_bytes :: nat
  max_output_bytes :: nat
  max_produced_artifacts :: nat
  egress_allowlist :: "string list"
  allow_shell :: bool
  allow_exec :: bool
  uds_bind_mounts :: "string list"
  writable_bind_mounts :: "string list"
  extra_ro_bind_mounts :: "string list"
  max_calls_per_run :: nat

definition default_max_calls_per_run :: nat where "default_max_calls_per_run = 10"

definition default_tool_policy :: tool_policy where
  "default_tool_policy =
     \<lparr>sandbox = NoNetReadOnly, max_input_bytes = 256 * 1024, max_input_depth = 16,
      timeout_ms = 60000, max_stdout_bytes = 1024 * 1024, max_stderr_bytes = 256 * 1024,
      max_output_bytes = 64 * 1024 * 1024, max_produced_artifacts = 16,
      egress_allowlist = [], allow_shell = False, allow_exec = False,
      uds_bind_mounts = [], writable_bind_mounts = [], extra_ro_bind_mounts = [],
      max_calls_per_run = default_max_calls_per_run\<rparr>"

datatype output_redirect_policy = RedirectAllowed | RedirectForbidden

record tool_spec =
  spec_name :: string
  spec_version :: u32
  deprecated :: bool
  description :: string
  input_schema :: json
  policy :: tool_policy
  output_redirect :: output_redirect_policy

text \<open>The out-of-process spawn configuration and the executor entry.\<close>

record spawn_config =
  binary_path :: string
  protocol_version :: u32
  supported_tools :: "(string \<times> u32) list"
  context_extra :: json

text \<open>An in-process executor is the value of type \<open>'x\<close> that the plugin supplies.\<close>

datatype 'x executor_entry = InProcess 'x | OutOfProcess spawn_config

datatype registry_error =
    Duplicate string u32
  | ExecutorWithoutSpec string u32
  | SpecWithoutExecutor string u32

section \<open>Versioned maps\<close>

type_synonym 'a versions = "(u32 \<times> 'a) list"
type_synonym 'a registry = "(string \<times> 'a versions) list"

text \<open>\<open>BTreeMap::insert\<close> and \<open>values().next_back()\<close>.\<close>

fun bt_insert :: "u32 \<Rightarrow> 'a \<Rightarrow> 'a versions \<Rightarrow> 'a versions" where
  "bt_insert v x [] = [(v, x)]"
| "bt_insert v x ((w, y) # vs) =
     (if v < w then (v, x) # (w, y) # vs
      else if v = w then (v, x) # vs
      else (w, y) # bt_insert v x vs)"

definition bt_last :: "'a versions \<Rightarrow> 'a option" where
  "bt_last vs = (if vs = [] then None else Some (snd (last vs)))"

text \<open>\<open>HashMap::entry(name).or_default()\<close> followed by a write of the entry.\<close>

fun hm_set :: "string \<Rightarrow> 'b \<Rightarrow> (string \<times> 'b) list \<Rightarrow> (string \<times> 'b) list" where
  "hm_set k x [] = [(k, x)]"
| "hm_set k x ((l, y) # es) = (if k = l then (k, x) # es else (l, y) # hm_set k x es)"

definition reg_get :: "'a registry \<Rightarrow> string \<Rightarrow> u32 \<Rightarrow> 'a option" where
  "reg_get r name version = Option.bind (map_of r name) (\<lambda>vs. map_of vs version)"

definition reg_get_latest :: "'a registry \<Rightarrow> string \<Rightarrow> 'a option" where
  "reg_get_latest r name = Option.bind (map_of r name) bt_last"

definition reg_list :: "'a registry \<Rightarrow> string list" where
  "reg_list r = map fst r"

definition reg_versions :: "'a registry \<Rightarrow> string \<Rightarrow> u32 list" where
  "reg_versions r name = (case map_of r name of None \<Rightarrow> [] | Some vs \<Rightarrow> map fst vs)"

text \<open>One registration: refuse a version that is there, else insert it.\<close>

definition reg_insert :: "string \<Rightarrow> u32 \<Rightarrow> 'a \<Rightarrow> 'a registry \<Rightarrow> registry_error + 'a registry" where
  "reg_insert name version x r =
     (let vs = (case map_of r name of None \<Rightarrow> [] | Some vs \<Rightarrow> vs)
      in if map_of vs version \<noteq> None then Inl (Duplicate name version)
         else Inr (hm_set name (bt_insert version x vs) r))"

definition register_spec :: "tool_spec \<Rightarrow> tool_spec registry \<Rightarrow> registry_error + tool_spec registry" where
  "register_spec spec r = reg_insert (spec_name spec) (spec_version spec) spec r"

definition register_executor ::
  "string \<Rightarrow> u32 \<Rightarrow> 'x \<Rightarrow> 'x executor_entry registry \<Rightarrow> registry_error + 'x executor_entry registry" where
  "register_executor tool_name tool_version x r = reg_insert tool_name tool_version (InProcess x) r"

text \<open>
  \<open>register_oop\<close> inserts one tool after the other and returns at the first duplicate:
  the entries made before it stay, so the registry is part of both results.
\<close>

fun register_oop_loop ::
  "spawn_config \<Rightarrow> (string \<times> u32) list \<Rightarrow> 'x executor_entry registry \<Rightarrow>
     (registry_error + unit) \<times> 'x executor_entry registry" where
  "register_oop_loop config [] r = (Inr (), r)"
| "register_oop_loop config ((name, version) # ts) r =
     (case reg_insert name version (OutOfProcess config) r of
        Inl e \<Rightarrow> (Inl e, r)
      | Inr r' \<Rightarrow> register_oop_loop config ts r')"

definition register_oop ::
  "spawn_config \<Rightarrow> 'x executor_entry registry \<Rightarrow> (registry_error + unit) \<times> 'x executor_entry registry" where
  "register_oop config r = register_oop_loop config (supported_tools config) r"

text \<open>\<open>validate_registries\<close>: the errors, executors first.\<close>

definition executor_errors :: "tool_spec registry \<Rightarrow> 'x executor_entry registry \<Rightarrow> registry_error list" where
  "executor_errors specs executors =
     concat (map (\<lambda>name. case map_of executors name of
         None \<Rightarrow> []
       | Some versions \<Rightarrow>
           concat (map (\<lambda>version. if reg_get specs name version = None
                                  then [ExecutorWithoutSpec name version] else [])
                       (map fst versions)))
       (reg_list executors))"

definition spec_exempt :: "string \<Rightarrow> bool" where
  "spec_exempt name \<longleftrightarrow> starts_with ''internal.'' name \<or> name = ''tools.discover''"

definition spec_errors :: "tool_spec registry \<Rightarrow> 'x executor_entry registry \<Rightarrow> registry_error list" where
  "spec_errors specs executors =
     concat (map (\<lambda>name.
         if spec_exempt name then []
         else (case reg_get_latest specs name of
             None \<Rightarrow> []
           | Some spec \<Rightarrow>
               if reg_get executors name (spec_version spec) = None
               then [SpecWithoutExecutor name (spec_version spec)] else []))
       (reg_list specs))"

definition validate_registries ::
  "tool_spec registry \<Rightarrow> 'x executor_entry registry \<Rightarrow> registry_error list + unit" where
  "validate_registries specs executors =
     (let errors = executor_errors specs executors @ spec_errors specs executors
      in if errors = [] then Inr () else Inl errors)"

section \<open>Well-formed registries\<close>

definition versions_wf :: "'a versions \<Rightarrow> bool" where
  "versions_wf vs \<longleftrightarrow> sorted_wrt (<) (map fst vs)"

definition reg_wf :: "'a registry \<Rightarrow> bool" where
  "reg_wf r \<longleftrightarrow> distinct (map fst r) \<and> (\<forall>(name, vs) \<in> set r. versions_wf vs \<and> vs \<noteq> [])"

lemma set_bt_insert_keys: "fst ` set (bt_insert v x vs) = insert v (fst ` set vs)"
  by (induction v x vs rule: bt_insert.induct) auto

lemma bt_insert_wf: "versions_wf vs \<Longrightarrow> versions_wf (bt_insert v x vs)"
  unfolding versions_wf_def
proof (induction v x vs rule: bt_insert.induct)
  case (2 v x w y vs)
  then show ?case using set_bt_insert_keys [of v x vs] by auto
qed simp

lemma map_of_bt_insert:
  "versions_wf vs \<Longrightarrow> map_of (bt_insert v x vs) = (map_of vs)(v \<mapsto> x)"
  unfolding versions_wf_def by (induction v x vs rule: bt_insert.induct) (auto simp: fun_eq_iff)

lemma bt_insert_ne [simp]: "bt_insert v x vs \<noteq> []"
  by (cases vs) (auto split: if_splits)

lemma map_of_hm_set: "map_of (hm_set k x es) = (map_of es)(k \<mapsto> x)"
  by (induction k x es rule: hm_set.induct) (auto simp: fun_eq_iff)

lemma fst_hm_set: "fst ` set (hm_set k x es) = insert k (fst ` set es)"
  by (induction k x es rule: hm_set.induct) auto

lemma distinct_hm_set: "distinct (map fst es) \<Longrightarrow> distinct (map fst (hm_set k x es))"
  using fst_hm_set [of k x] by (induction k x es rule: hm_set.induct) auto

lemma set_hm_set: "p \<in> set (hm_set k x es) \<Longrightarrow> p = (k, x) \<or> p \<in> set es"
  by (induction k x es rule: hm_set.induct) (auto split: if_splits)

lemma reg_insert_wf:
  assumes "reg_insert name version x r = Inr r'" and "reg_wf r"
  shows "reg_wf r'"
proof -
  let ?vs = "case map_of r name of None \<Rightarrow> [] | Some vs \<Rightarrow> vs"
  from assms(1) have r': "r' = hm_set name (bt_insert version x ?vs) r"
    by (auto simp: reg_insert_def Let_def split: if_splits)
  have "versions_wf ?vs"
    using assms(2) by (auto simp: reg_wf_def versions_wf_def split: option.splits dest: map_of_SomeD)
  then have "versions_wf (bt_insert version x ?vs)" by (rule bt_insert_wf)
  then show ?thesis
    using assms(2) unfolding r' reg_wf_def by (auto simp: distinct_hm_set dest!: set_hm_set)
qed

lemma reg_insert_get:
  assumes "reg_insert name version x r = Inr r'" and "reg_wf r"
  shows "reg_get r' n v = (if n = name \<and> v = version then Some x else reg_get r n v)"
proof -
  let ?vs = "case map_of r name of None \<Rightarrow> [] | Some vs \<Rightarrow> vs"
  from assms(1) have r': "r' = hm_set name (bt_insert version x ?vs) r"
    by (auto simp: reg_insert_def Let_def split: if_splits)
  have "versions_wf ?vs"
    using assms(2) by (auto simp: reg_wf_def versions_wf_def split: option.splits dest: map_of_SomeD)
  then show ?thesis
    unfolding r' reg_get_def
    by (auto simp: map_of_hm_set map_of_bt_insert split: option.splits)
qed

lemma reg_insert_fresh:
  "(\<exists>r'. reg_insert name version x r = Inr r') \<longleftrightarrow> reg_get r name version = None"
  by (auto simp: reg_insert_def reg_get_def Let_def split: option.splits)

lemma reg_insert_Inl: "reg_insert name version x r = Inl e \<Longrightarrow> e = Duplicate name version"
  by (auto simp: reg_insert_def Let_def split: if_splits)

text \<open>The latest version is one that is registered, and no registered version is larger.\<close>

lemma versions_last_max:
  "versions_wf vs \<Longrightarrow> (v, x) \<in> set vs \<Longrightarrow> v \<le> fst (last vs)"
  unfolding versions_wf_def by (induction vs) (auto simp: image_iff order_less_imp_le)

lemma reg_get_latest_Some:
  assumes "reg_get_latest r name = Some x" and "reg_wf r"
  obtains v where "reg_get r name v = Some x" and "\<And>w. reg_get r name w \<noteq> None \<Longrightarrow> w \<le> v"
proof -
  from assms(1) obtain vs where vs: "map_of r name = Some vs" "vs \<noteq> []" "x = snd (last vs)"
    by (auto simp: reg_get_latest_def bt_last_def bind_eq_Some_conv split: if_splits)
  then have wf: "versions_wf vs" using assms(2) by (auto simp: reg_wf_def dest: map_of_SomeD)
  then have "distinct (map fst vs)" by (auto simp: versions_wf_def strict_sorted_iff)
  moreover have "(fst (last vs), x) \<in> set vs" using vs by simp
  ultimately have "map_of vs (fst (last vs)) = Some x" by simp
  with vs have "reg_get r name (fst (last vs)) = Some x" by (simp add: reg_get_def)
  moreover have "w \<le> fst (last vs)" if "reg_get r name w \<noteq> None" for w
    using that vs(1) wf by (auto simp: reg_get_def intro: versions_last_max dest: map_of_SomeD)
  ultimately show ?thesis by (rule that)
qed

text \<open>Every spec sits under its own name and version: what \<^const>\<open>register_spec\<close> keeps.\<close>

definition specs_keyed :: "tool_spec registry \<Rightarrow> bool" where
  "specs_keyed r \<longleftrightarrow> reg_wf r \<and>
     (\<forall>n v s. reg_get r n v = Some s \<longrightarrow> spec_name s = n \<and> spec_version s = v)"

lemma register_spec_keyed:
  "register_spec s r = Inr r' \<Longrightarrow> specs_keyed r \<Longrightarrow> specs_keyed r'"
  by (auto simp: specs_keyed_def register_spec_def reg_insert_get intro: reg_insert_wf split: if_splits)

lemma specs_keyed_empty [simp]: "specs_keyed []"
  by (simp add: specs_keyed_def reg_wf_def reg_get_def)

lemma validate_Inr:
  assumes "validate_registries specs executors = Inr ()"
    and "reg_get_latest specs name = Some s" and "\<not> spec_exempt name"
  shows "reg_get executors name (spec_version s) \<noteq> None"
proof -
  from assms(2) have "name \<in> set (reg_list specs)"
    by (force simp: reg_get_latest_def reg_list_def bind_eq_Some_conv dest: map_of_SomeD)
  moreover from assms(1) have "spec_errors specs executors = []"
    by (simp add: validate_registries_def Let_def split: if_splits)
  then have "\<forall>n\<in>set (reg_list specs). (if spec_exempt n then []
         else (case reg_get_latest specs n of
             None \<Rightarrow> []
           | Some spec \<Rightarrow>
               if reg_get executors n (spec_version spec) = None
               then [SpecWithoutExecutor n (spec_version spec)] else [])) = []"
    by (simp only: spec_errors_def concat_eq_Nil_conv set_map ball_simps)
  ultimately show ?thesis using assms(2,3) by (force split: if_splits)
qed

lemma reg_get_in:
  "reg_get r name version = Some x \<Longrightarrow> \<exists>vs. map_of r name = Some vs \<and> version \<in> fst ` set vs"
  by (force simp: reg_get_def bind_eq_Some_conv dest: map_of_SomeD)

lemma validate_executor_has_spec:
  assumes "validate_registries specs executors = Inr ()" and "reg_get executors name version \<noteq> None"
  shows "reg_get specs name version \<noteq> None"
proof -
  from assms(2) obtain vs where vs: "map_of executors name = Some vs" "version \<in> fst ` set vs"
    using reg_get_in [of executors name version] by blast
  then have "name \<in> set (reg_list executors)"
    by (force simp: reg_list_def dest: map_of_SomeD)
  moreover from assms(1) have "executor_errors specs executors = []"
    by (simp add: validate_registries_def Let_def split: if_splits)
  then have "\<forall>n\<in>set (reg_list executors). (case map_of executors n of
         None \<Rightarrow> []
       | Some versions \<Rightarrow>
           concat (map (\<lambda>version. if reg_get specs n version = None
                                  then [ExecutorWithoutSpec n version] else [])
                       (map fst versions))) = []"
    by (simp only: executor_errors_def concat_eq_Nil_conv set_map ball_simps)
  ultimately have "concat (map (\<lambda>version. if reg_get specs name version = None
                     then [ExecutorWithoutSpec name version] else []) (map fst vs)) = []"
    using vs(1) by fastforce
  then have "\<forall>version\<in>fst ` set vs. (if reg_get specs name version = None
                     then [ExecutorWithoutSpec name version] else []) = []"
    by (simp only: concat_eq_Nil_conv set_map ball_simps)
  with vs(2) show ?thesis by (metis list.distinct(1))
qed

end
