(* ===== verification/ToolRuns.thy ===== *)
theory ToolRuns
  imports Json
begin

text \<open>
  \<open>af-db/src/tool_runs.rs\<close>: the job table and the statements that move a job through
  its life. A table is the list of its rows in insertion order; a statement is one
  atomic function from the table to the table, with the database's \<open>now()\<close> as an
  argument. A comparison with a \<open>NULL\<close> lease is not true.
\<close>

text \<open>The values the table's \<open>CHECK\<close> constraint allows for \<open>status\<close>.\<close>

datatype run_status = Queued | Running | Completed | Failed | Cancelled

record tool_run =
  run_id :: uuid
  project_id :: uuid
  tool_name :: string
  tool_version :: int
  input_json :: json
  status :: run_status
  output_json :: "json option"
  output_kind :: "string option"
  error_json :: "json option"
  stdout :: "string option"
  stderr :: "string option"
  thread_id :: "uuid option"
  parent_message_id :: "uuid option"
  actor_subject :: "string option"
  actor_user_id :: "uuid option"
  attempt :: int
  lease_expires :: "instant option"
  created_at :: instant
  started_at :: "instant option"
  completed_at :: "instant option"

type_synonym run_table = "tool_run list"

definition update_where :: "('r \<Rightarrow> bool) \<Rightarrow> ('r \<Rightarrow> 'r) \<Rightarrow> 'r list \<Rightarrow> 'r list" where
  "update_where p f = map (\<lambda>r. if p r then f r else r)"

definition rows_affected :: "('r \<Rightarrow> bool) \<Rightarrow> 'r list \<Rightarrow> nat" where
  "rows_affected p t = length (filter p t)"

text \<open>\<open>INSERT\<close>: the columns that are not given take their defaults.\<close>

definition new_run :: "uuid \<Rightarrow> instant \<Rightarrow> uuid \<Rightarrow> string \<Rightarrow> int \<Rightarrow> json \<Rightarrow> uuid option \<Rightarrow>
    uuid option \<Rightarrow> string option \<Rightarrow> uuid option \<Rightarrow> tool_run" where
  "new_run fresh now proj name version input thread parent subject actor =
     \<lparr>run_id = fresh, project_id = proj, tool_name = name, tool_version = version,
      input_json = input, status = Queued, output_json = None, output_kind = None,
      error_json = None, stdout = None, stderr = None, thread_id = thread,
      parent_message_id = parent, actor_subject = subject, actor_user_id = actor,
      attempt = 0, lease_expires = None, created_at = now, started_at = None,
      completed_at = None\<rparr>"

definition enqueue_run :: "tool_run \<Rightarrow> run_table \<Rightarrow> run_table" where
  "enqueue_run r t = t @ [r]"

text \<open>
  \<open>claim\<close>: the oldest queued row that no other transaction has locked
  (\<open>FOR UPDATE SKIP LOCKED\<close>) becomes running, with a lease. Among rows of the same
  \<open>created_at\<close> the first of the table is taken.
\<close>

definition oldest :: "tool_run list \<Rightarrow> tool_run option" where
  "oldest rs = (case rs of [] \<Rightarrow> None
                 | r # rest \<Rightarrow> Some (foldl (\<lambda>b x. if created_at x < created_at b then x else b) r rest))"

definition claimable :: "uuid set \<Rightarrow> tool_run \<Rightarrow> bool" where
  "claimable locked r \<longleftrightarrow> status r = Queued \<and> run_id r \<notin> locked"

definition start_run :: "instant \<Rightarrow> nat \<Rightarrow> tool_run \<Rightarrow> tool_run" where
  "start_run now lease r =
     r\<lparr>status := Running, attempt := attempt r + 1, started_at := Some now,
       lease_expires := Some (now + lease)\<rparr>"

definition claim :: "uuid set \<Rightarrow> instant \<Rightarrow> nat \<Rightarrow> run_table \<Rightarrow> tool_run option \<times> run_table" where
  "claim locked now lease t =
     (case oldest (filter (claimable locked) t) of
        None \<Rightarrow> (None, t)
      | Some r \<Rightarrow> (Some (start_run now lease r),
                   update_where (\<lambda>x. run_id x = run_id r) (start_run now lease) t))"

text \<open>\<open>complete\<close>, \<open>fail\<close> and \<open>heartbeat\<close> select the row by its identifier alone.\<close>

definition complete_row :: "instant \<Rightarrow> json \<Rightarrow> string \<Rightarrow> string option \<Rightarrow> string option \<Rightarrow> tool_run \<Rightarrow> tool_run" where
  "complete_row now output kind out err r =
     r\<lparr>status := Completed, output_json := Some output, output_kind := Some kind,
       stdout := out, stderr := err, completed_at := Some now\<rparr>"

definition complete ::
  "uuid \<Rightarrow> instant \<Rightarrow> json \<Rightarrow> string \<Rightarrow> string option \<Rightarrow> string option \<Rightarrow> run_table \<Rightarrow> run_table" where
  "complete i now output kind out err =
     update_where (\<lambda>r. run_id r = i) (complete_row now output kind out err)"

definition fail_row :: "instant \<Rightarrow> json \<Rightarrow> string option \<Rightarrow> tool_run \<Rightarrow> tool_run" where
  "fail_row now error err r =
     r\<lparr>status := Failed, error_json := Some error, stderr := err, completed_at := Some now\<rparr>"

definition fail :: "uuid \<Rightarrow> instant \<Rightarrow> json \<Rightarrow> string option \<Rightarrow> run_table \<Rightarrow> run_table" where
  "fail i now error err = update_where (\<lambda>r. run_id r = i) (fail_row now error err)"

definition extend_lease :: "instant \<Rightarrow> nat \<Rightarrow> tool_run \<Rightarrow> tool_run" where
  "extend_lease now lease r = r\<lparr>lease_expires := Some (now + lease)\<rparr>"

definition heartbeat :: "uuid \<Rightarrow> instant \<Rightarrow> nat \<Rightarrow> run_table \<Rightarrow> run_table" where
  "heartbeat i now lease = update_where (\<lambda>r. run_id r = i) (extend_lease now lease)"

definition get_run :: "run_table \<Rightarrow> uuid \<Rightarrow> tool_run option" where
  "get_run t i = find (\<lambda>r. run_id r = i) t"

text \<open>The reaper's two statements, with the number of rows each one changes.\<close>

definition lease_expired :: "instant \<Rightarrow> tool_run \<Rightarrow> bool" where
  "lease_expired now r \<longleftrightarrow>
     status r = Running \<and> (case lease_expires r of None \<Rightarrow> False | Some l \<Rightarrow> l < now)"

definition requeue_row :: "tool_run \<Rightarrow> tool_run" where
  "requeue_row r = r\<lparr>status := Queued, lease_expires := None\<rparr>"

definition reclaim_expired :: "instant \<Rightarrow> int \<Rightarrow> run_table \<Rightarrow> nat \<times> run_table" where
  "reclaim_expired now max_attempts t =
     (let p = (\<lambda>r. lease_expired now r \<and> attempt r < max_attempts)
      in (rows_affected p t, update_where p requeue_row t))"

definition exhausted_error :: json where
  "exhausted_error = JObj
     [(''code'', JStr ''max_attempts_exceeded''),
      (''message'', JStr ''tool run exceeded maximum retry attempts''),
      (''retryable'', JBool False), (''details'', JNull)]"

definition exhaust_row :: "instant \<Rightarrow> tool_run \<Rightarrow> tool_run" where
  "exhaust_row now r =
     r\<lparr>status := Failed, error_json := Some exhausted_error, completed_at := Some now\<rparr>"

definition fail_exhausted :: "instant \<Rightarrow> int \<Rightarrow> run_table \<Rightarrow> nat \<times> run_table" where
  "fail_exhausted now max_attempts t =
     (let p = (\<lambda>r. lease_expired now r \<and> max_attempts \<le> attempt r)
      in (rows_affected p t, update_where p (exhaust_row now) t))"

section \<open>Selecting and changing rows\<close>

lemma update_where_length [simp]: "length (update_where p f t) = length t"
  by (simp add: update_where_def)

lemma set_update_where: "set (update_where p f t) = (\<lambda>r. if p r then f r else r) ` set t"
  by (simp add: update_where_def)

lemma map_update_where:
  "(\<And>r. g (f r) = g r) \<Longrightarrow> map g (update_where p f t) = map g t"
  by (auto simp: update_where_def)

lemma run_ids_update:
  "(\<And>r. g (f r) = g r) \<Longrightarrow> g ` set (update_where p f t) = g ` set t"
  by (metis list.set_map map_update_where)

lemma update_where_preserves:
  "(\<And>r. r \<in> set t \<Longrightarrow> P r) \<Longrightarrow> (\<And>r. r \<in> set t \<Longrightarrow> p r \<Longrightarrow> P r \<Longrightarrow> P (f r)) \<Longrightarrow>
     r \<in> set (update_where p f t) \<Longrightarrow> P r"
  by (auto simp: set_update_where)

lemmas row_defs = start_run_def complete_row_def fail_row_def extend_lease_def requeue_row_def exhaust_row_def

lemma row_ids [frame_simps]:
  "run_id (start_run now l r) = run_id r" "run_id (complete_row now j k o1 e r) = run_id r"
  "run_id (fail_row now j e r) = run_id r" "run_id (extend_lease now l r) = run_id r"
  "run_id (requeue_row r) = run_id r" "run_id (exhaust_row now r) = run_id r"
  by (simp_all add: row_defs)

lemma row_actors [frame_simps]:
  "actor_user_id (start_run now l r) = actor_user_id r"
  "actor_user_id (complete_row now j k o1 e r) = actor_user_id r"
  "actor_user_id (fail_row now j e r) = actor_user_id r"
  "actor_user_id (extend_lease now l r) = actor_user_id r"
  "actor_user_id (requeue_row r) = actor_user_id r" "actor_user_id (exhaust_row now r) = actor_user_id r"
  by (simp_all add: row_defs)

lemma oldest_fold:
  "foldl (\<lambda>b x. if created_at x < created_at b then x else b) r rs \<in> insert r (set rs) \<and>
   (\<forall>x\<in>insert r (set rs). created_at (foldl (\<lambda>b x. if created_at x < created_at b then x else b) r rs) \<le> created_at x)"
proof (induction rs arbitrary: r)
  case (Cons y rs)
  show ?case
    using Cons.IH [of r] Cons.IH [of y] by (cases "created_at y < created_at r") fastforce+
qed simp

lemma oldest_Some:
  "oldest rs = Some r \<Longrightarrow> r \<in> set rs \<and> (\<forall>x\<in>set rs. created_at r \<le> created_at x)"
  using oldest_fold by (cases rs) (auto simp: oldest_def)

lemma oldest_Nil [simp]: "oldest [] = None"
  by (simp add: oldest_def)

lemma oldest_None [simp]: "oldest rs = None \<longleftrightarrow> rs = []"
  by (cases rs) (auto simp: oldest_def)

lemma claim_Some:
  assumes "claim locked now lease t = (Some r, t')"
  obtains r0 where "r0 \<in> set t" "claimable locked r0" "r = start_run now lease r0"
    "\<forall>x\<in>set t. claimable locked x \<longrightarrow> created_at r0 \<le> created_at x"
    "t' = update_where (\<lambda>x. run_id x = run_id r0) (start_run now lease) t"
proof -
  from assms obtain r0 where r0: "oldest (filter (claimable locked) t) = Some r0"
    and "r = start_run now lease r0"
    and "t' = update_where (\<lambda>x. run_id x = run_id r0) (start_run now lease) t"
    by (auto simp: claim_def split: option.splits)
  with oldest_Some [OF r0] show ?thesis by (intro that) auto
qed

lemma claim_None_iff:
  "claim locked now lease t = (None, t') \<longleftrightarrow> t' = t \<and> (\<forall>r\<in>set t. \<not> claimable locked r)"
proof (cases "oldest (filter (claimable locked) t)")
  case None
  then show ?thesis by (auto simp: claim_def filter_empty_conv)
next
  case (Some r)
  then have "r \<in> set t" and "claimable locked r" using oldest_Some by fastforce+
  with Some show ?thesis by (auto simp: claim_def)
qed

section \<open>The life of a row\<close>

text \<open>
  The well-formedness of a row: the number of attempts is bounded, a running row has
  been started and holds a lease, and a finished row says how it finished.
\<close>

definition row_wf :: "int \<Rightarrow> tool_run \<Rightarrow> bool" where
  "row_wf M r \<longleftrightarrow> 0 \<le> attempt r \<and> attempt r \<le> M \<and>
     (status r = Queued \<longrightarrow> attempt r < M) \<and>
     (status r = Running \<longrightarrow> 0 < attempt r \<and> lease_expires r \<noteq> None \<and> started_at r \<noteq> None) \<and>
     (status r = Completed \<longrightarrow> output_json r \<noteq> None \<and> completed_at r \<noteq> None) \<and>
     (status r = Failed \<longrightarrow> error_json r \<noteq> None \<and> completed_at r \<noteq> None)"

definition table_wf :: "int \<Rightarrow> run_table \<Rightarrow> bool" where
  "table_wf M t \<longleftrightarrow> distinct (map run_id t) \<and> (\<forall>r\<in>set t. row_wf M r)"

lemma table_wf_update:
  assumes "table_wf M t" and "\<And>r. run_id (f r) = run_id r"
    and "\<And>r. r \<in> set t \<Longrightarrow> p r \<Longrightarrow> row_wf M r \<Longrightarrow> row_wf M (f r)"
  shows "table_wf M (update_where p f t)"
  using assms by (auto simp: table_wf_def map_update_where set_update_where)

lemma new_run_wf: "0 < M \<Longrightarrow> row_wf M (new_run i now p n v inp th pm s a)"
  by (simp add: row_wf_def new_run_def)

lemma enqueue_run_wf:
  "table_wf M t \<Longrightarrow> row_wf M r \<Longrightarrow> run_id r \<notin> run_id ` set t \<Longrightarrow> table_wf M (enqueue_run r t)"
  by (auto simp: table_wf_def enqueue_run_def)

lemma same_row: "table_wf M t \<Longrightarrow> r \<in> set t \<Longrightarrow> x \<in> set t \<Longrightarrow> run_id x = run_id r \<Longrightarrow> x = r"
  by (auto simp: table_wf_def distinct_map inj_on_def)

lemma claim_wf:
  assumes "claim locked now lease t = (res, t')" and "table_wf M t"
  shows "table_wf M t'"
proof (cases res)
  case None
  with assms show ?thesis by (simp add: claim_None_iff)
next
  case (Some r)
  with assms(1) obtain r0 where r0: "r0 \<in> set t" "claimable locked r0"
    and t': "t' = update_where (\<lambda>x. run_id x = run_id r0) (start_run now lease) t"
    by (auto elim: claim_Some)
  show ?thesis
    unfolding t'
  proof (rule table_wf_update [OF assms(2)])
    fix x assume "x \<in> set t" "run_id x = run_id r0" "row_wf M x"
    with r0 assms(2) have "x = r0" by (blast intro: same_row)
    with r0 \<open>row_wf M x\<close> show "row_wf M (start_run now lease x)"
      by (auto simp: row_wf_def claimable_def start_run_def)
  qed (simp add: frame_simps)
qed

lemma complete_wf: "table_wf M t \<Longrightarrow> table_wf M (complete i now j k o1 e t)"
  unfolding complete_def by (rule table_wf_update) (auto simp: frame_simps row_wf_def complete_row_def)

lemma fail_wf: "table_wf M t \<Longrightarrow> table_wf M (fail i now j e t)"
  unfolding fail_def by (rule table_wf_update) (auto simp: frame_simps row_wf_def fail_row_def)

lemma heartbeat_wf: "table_wf M t \<Longrightarrow> table_wf M (heartbeat i now lease t)"
  unfolding heartbeat_def by (rule table_wf_update) (auto simp: frame_simps row_wf_def extend_lease_def)

lemma reclaim_expired_wf: "table_wf M t \<Longrightarrow> table_wf M (snd (reclaim_expired now M t))"
  unfolding reclaim_expired_def Let_def snd_conv
  by (rule table_wf_update) (auto simp: frame_simps row_wf_def requeue_row_def)

lemma fail_exhausted_wf: "table_wf M t \<Longrightarrow> table_wf M (snd (fail_exhausted now M t))"
  unfolding fail_exhausted_def Let_def snd_conv
  by (rule table_wf_update) (auto simp: frame_simps row_wf_def exhaust_row_def)

end
