(* ===== verification/Quotas.thy ===== *)
theory Quotas
  imports Prelude
begin

text \<open>
  \<open>af-db/src/user_quotas.rs\<close>: per-user quotas, daily usage counters and the storage
  counter of the \<open>users\<close> table. Each statement is atomic. A \<open>BIGINT\<close> or \<open>INTEGER\<close>
  column that would leave its range makes the statement fail and change nothing.
\<close>

record quota_row =
  max_storage_bytes :: int
  max_projects :: int
  max_concurrent_runs :: int
  max_llm_tokens_per_day :: int
  max_upload_bytes :: int
  max_vt_lookups_per_day :: int

record usage_row =
  llm_prompt_tokens :: int
  llm_completion_tokens :: int
  vt_lookups :: int
  tool_run_count :: int

type_synonym date = nat

record quota_db =
  quotas :: "uuid \<rightharpoonup> quota_row"
  usage_daily :: "uuid \<times> date \<rightharpoonup> usage_row"
  storage_bytes_used :: "uuid \<rightharpoonup> int"      \<comment> \<open>the \<open>users\<close> table\<close>

text \<open>The defaults of the columns, from the table's declaration.\<close>

definition default_quota :: quota_row where
  "default_quota =
     \<lparr>max_storage_bytes = 10737418240, max_projects = 50, max_concurrent_runs = 5,
      max_llm_tokens_per_day = 1000000, max_upload_bytes = 104857600, max_vt_lookups_per_day = 100\<rparr>"

definition zero_usage :: usage_row where
  "zero_usage = \<lparr>llm_prompt_tokens = 0, llm_completion_tokens = 0, vt_lookups = 0, tool_run_count = 0\<rparr>"

definition fits :: "nat \<Rightarrow> int \<Rightarrow> bool" where
  "fits w n \<longleftrightarrow> - (2 ^ (w - 1)) \<le> n \<and> n < 2 ^ (w - 1)"

definition checked :: "nat \<Rightarrow> int \<Rightarrow> string + int" where
  "checked w n = (if fits w n then Inr n
     else Inl (if w = 64 then ''bigint out of range'' else ''integer out of range''))"

definition get_quota :: "quota_db \<Rightarrow> uuid \<Rightarrow> quota_row option" where
  "get_quota db uid = quotas db uid"

definition ensure_quota :: "uuid \<Rightarrow> quota_db \<Rightarrow> quota_row \<times> quota_db" where
  "ensure_quota uid db =
     (case quotas db uid of
        Some q \<Rightarrow> (q, db)
      | None \<Rightarrow> (default_quota, db\<lparr>quotas := (quotas db)(uid \<mapsto> default_quota)\<rparr>))"

text \<open>\<open>set_quota\<close>: the column name is checked against a list before it enters the query.\<close>

definition set_quota_field :: "string \<Rightarrow> int \<Rightarrow> quota_row \<Rightarrow> string + quota_row" where
  "set_quota_field field v q =
     (if field = ''max_storage_bytes'' then Inr (q\<lparr>max_storage_bytes := v\<rparr>)
      else if field = ''max_projects'' then sum_bind (checked 32 v) (\<lambda>v. Inr (q\<lparr>max_projects := v\<rparr>))
      else if field = ''max_concurrent_runs'' then sum_bind (checked 32 v) (\<lambda>v. Inr (q\<lparr>max_concurrent_runs := v\<rparr>))
      else if field = ''max_llm_tokens_per_day'' then Inr (q\<lparr>max_llm_tokens_per_day := v\<rparr>)
      else if field = ''max_upload_bytes'' then Inr (q\<lparr>max_upload_bytes := v\<rparr>)
      else if field = ''max_vt_lookups_per_day'' then sum_bind (checked 32 v) (\<lambda>v. Inr (q\<lparr>max_vt_lookups_per_day := v\<rparr>))
      else Inl (''invalid quota field: '' @ field))"

definition valid_quota_fields :: "string list" where
  "valid_quota_fields = [''max_storage_bytes'', ''max_projects'', ''max_concurrent_runs'',
     ''max_llm_tokens_per_day'', ''max_upload_bytes'', ''max_vt_lookups_per_day'']"

definition set_quota :: "uuid \<Rightarrow> string \<Rightarrow> int \<Rightarrow> quota_db \<Rightarrow> string + quota_db" where
  "set_quota uid field v db =
     (if field \<notin> set valid_quota_fields then Inl (''invalid quota field: '' @ field)
      else case quotas db uid of
         None \<Rightarrow> Inr db
       | Some q \<Rightarrow> sum_bind (set_quota_field field v q) (\<lambda>q'. Inr (db\<lparr>quotas := (quotas db)(uid \<mapsto> q')\<rparr>)))"

text \<open>The upserts into \<open>usage_daily\<close>.\<close>

definition usage_of :: "quota_db \<Rightarrow> uuid \<Rightarrow> date \<Rightarrow> usage_row" where
  "usage_of db uid today = (case usage_daily db (uid, today) of None \<Rightarrow> zero_usage | Some u \<Rightarrow> u)"

definition put_usage :: "uuid \<Rightarrow> date \<Rightarrow> usage_row \<Rightarrow> quota_db \<Rightarrow> quota_db" where
  "put_usage uid today u db = db\<lparr>usage_daily := (usage_daily db)((uid, today) \<mapsto> u)\<rparr>"

definition record_llm_usage :: "uuid \<Rightarrow> date \<Rightarrow> int \<Rightarrow> int \<Rightarrow> quota_db \<Rightarrow> string + quota_db" where
  "record_llm_usage uid today prompt completion db =
     (let u = usage_of db uid today in
      sum_bind (checked 64 (llm_prompt_tokens u + prompt)) (\<lambda>p.
      sum_bind (checked 64 (llm_completion_tokens u + completion)) (\<lambda>c.
        Inr (put_usage uid today (u\<lparr>llm_prompt_tokens := p, llm_completion_tokens := c\<rparr>) db))))"

definition record_tool_run :: "uuid \<Rightarrow> date \<Rightarrow> quota_db \<Rightarrow> string + quota_db" where
  "record_tool_run uid today db =
     (let u = usage_of db uid today in
      sum_bind (checked 32 (tool_run_count u + 1)) (\<lambda>n.
        Inr (put_usage uid today (u\<lparr>tool_run_count := n\<rparr>) db)))"

definition record_vt_lookup :: "uuid \<Rightarrow> date \<Rightarrow> quota_db \<Rightarrow> string + quota_db" where
  "record_vt_lookup uid today db =
     (let u = usage_of db uid today in
      sum_bind (checked 32 (vt_lookups u + 1)) (\<lambda>n.
        Inr (put_usage uid today (u\<lparr>vt_lookups := n\<rparr>) db)))"

definition get_daily_usage :: "quota_db \<Rightarrow> uuid \<Rightarrow> date \<Rightarrow> usage_row option" where
  "get_daily_usage db uid today = usage_daily db (uid, today)"

definition check_llm_quota :: "quota_db \<Rightarrow> uuid \<Rightarrow> date \<Rightarrow> bool" where
  "check_llm_quota db uid today =
     (case get_quota db uid of
        None \<Rightarrow> True
      | Some q \<Rightarrow>
          (case get_daily_usage db uid today of
             None \<Rightarrow> 0
           | Some u \<Rightarrow> llm_prompt_tokens u + llm_completion_tokens u) < max_llm_tokens_per_day q)"

definition check_storage_quota :: "quota_db \<Rightarrow> uuid \<Rightarrow> int \<Rightarrow> bool" where
  "check_storage_quota db uid additional =
     (case get_quota db uid of
        None \<Rightarrow> True
      | Some q \<Rightarrow>
          (case storage_bytes_used db uid of None \<Rightarrow> 0 | Some n \<Rightarrow> n) + additional \<le> max_storage_bytes q)"

definition update_storage_used :: "uuid \<Rightarrow> int \<Rightarrow> quota_db \<Rightarrow> string + quota_db" where
  "update_storage_used uid delta db =
     (case storage_bytes_used db uid of
        None \<Rightarrow> Inr db
      | Some n \<Rightarrow> sum_bind (checked 64 (n + delta)) (\<lambda>n'.
          Inr (db\<lparr>storage_bytes_used := (storage_bytes_used db)(uid \<mapsto> n')\<rparr>)))"

text \<open>\<open>reserve_storage_atomic\<close> and \<open>release_storage\<close>.\<close>

definition storage_limit :: "quota_db \<Rightarrow> uuid \<Rightarrow> int" where
  "storage_limit db uid = (case quotas db uid of None \<Rightarrow> i64_max | Some q \<Rightarrow> max_storage_bytes q)"

definition reserve_storage :: "uuid \<Rightarrow> int \<Rightarrow> quota_db \<Rightarrow> string + bool \<times> quota_db" where
  "reserve_storage uid delta db =
     (case storage_bytes_used db uid of
        None \<Rightarrow> Inr (False, db)
      | Some n \<Rightarrow> sum_bind (checked 64 (n + delta)) (\<lambda>n'.
          if n' \<le> storage_limit db uid
          then Inr (True, db\<lparr>storage_bytes_used := (storage_bytes_used db)(uid \<mapsto> n')\<rparr>)
          else Inr (False, db)))"

definition release_storage :: "uuid \<Rightarrow> int \<Rightarrow> quota_db \<Rightarrow> string + quota_db" where
  "release_storage uid delta db =
     (case storage_bytes_used db uid of
        None \<Rightarrow> Inr db
      | Some n \<Rightarrow> sum_bind (checked 64 (n - delta)) (\<lambda>n'.
          Inr (db\<lparr>storage_bytes_used := (storage_bytes_used db)(uid \<mapsto> max 0 n')\<rparr>)))"

text \<open>\<open>reserve_llm_tokens\<close>: make sure the row exists, then one conditional increment.\<close>

definition llm_limit :: "quota_db \<Rightarrow> uuid \<Rightarrow> int" where
  "llm_limit db uid = (case quotas db uid of None \<Rightarrow> i64_max | Some q \<Rightarrow> max_llm_tokens_per_day q)"

definition touch_usage :: "uuid \<Rightarrow> date \<Rightarrow> quota_db \<Rightarrow> quota_db" where
  "touch_usage uid today db = put_usage uid today (usage_of db uid today) db"

definition reserve_llm_tokens :: "uuid \<Rightarrow> date \<Rightarrow> int \<Rightarrow> quota_db \<Rightarrow> (string + bool) \<times> quota_db" where
  "reserve_llm_tokens uid today est db0 =
     (let db = touch_usage uid today db0; u = usage_of db uid today in
      case sum_bind (checked 64 (llm_prompt_tokens u + llm_completion_tokens u)) (\<lambda>total.
           sum_bind (checked 64 (total + est)) (\<lambda>total'.
             if total' \<le> llm_limit db uid
             then sum_bind (checked 64 (llm_prompt_tokens u + est)) (\<lambda>p. Inr (Some p))
             else Inr None)) of
        Inl e \<Rightarrow> (Inl e, db)
      | Inr None \<Rightarrow> (Inr False, db)
      | Inr (Some p) \<Rightarrow> (Inr True, put_usage uid today (u\<lparr>llm_prompt_tokens := p\<rparr>) db))"

definition adjust_llm_tokens :: "uuid \<Rightarrow> date \<Rightarrow> int \<Rightarrow> int \<Rightarrow> quota_db \<Rightarrow> string + quota_db" where
  "adjust_llm_tokens uid today prompt_delta completion db =
     (case usage_daily db (uid, today) of
        None \<Rightarrow> Inr db
      | Some u \<Rightarrow>
          sum_bind (checked 64 (llm_prompt_tokens u + prompt_delta)) (\<lambda>p.
          sum_bind (checked 64 (llm_completion_tokens u + completion)) (\<lambda>c.
            Inr (put_usage uid today
                   (u\<lparr>llm_prompt_tokens := max 0 p, llm_completion_tokens := c\<rparr>) db))))"

section \<open>What the counters promise\<close>

definition tokens_used :: "quota_db \<Rightarrow> uuid \<Rightarrow> date \<Rightarrow> int" where
  "tokens_used db uid today =
     llm_prompt_tokens (usage_of db uid today) + llm_completion_tokens (usage_of db uid today)"

lemma usage_put [simp]:
  "usage_of (put_usage uid today u db) uid today = u"
  "quotas (put_usage uid today u db) = quotas db"
  "storage_bytes_used (put_usage uid today u db) = storage_bytes_used db"
  by (simp_all add: usage_of_def put_usage_def)

lemma usage_put_other:
  "(uid', day) \<noteq> (uid, today) \<Longrightarrow> usage_of (put_usage uid today u db) uid' day = usage_of db uid' day"
  by (auto simp: usage_of_def put_usage_def)

lemma usage_touch [simp]: "usage_of (touch_usage uid today db) = usage_of db"
  by (intro ext) (auto simp: touch_usage_def usage_of_def put_usage_def)

lemma quotas_touch [simp]: "quotas (touch_usage uid today db) = quotas db"
  by (simp add: touch_usage_def)

lemma checked_Inr [error_iff]: "checked w n = Inr m \<longleftrightarrow> m = n \<and> fits w n"
  by (auto simp: checked_def)

lemma record_tool_run_frame [frame_simps]:
  assumes "record_tool_run uid today db = Inr db'"
  shows "quotas db' = quotas db" "storage_bytes_used db' = storage_bytes_used db"
  using assms by (auto simp: record_tool_run_def Let_def error_iff)

lemma reserve_llm_granted:
  assumes "reserve_llm_tokens uid today est db = (Inr True, db')"
  shows "tokens_used db' uid today = tokens_used db uid today + est"
    and "tokens_used db' uid today \<le> llm_limit db uid"
  using assms
  by (auto simp: reserve_llm_tokens_def Let_def tokens_used_def llm_limit_def error_iff
           split: sum.splits option.splits if_splits)

lemma reserve_llm_refused:
  assumes "reserve_llm_tokens uid today est db = (res, db')" and "res \<noteq> Inr True"
  shows "usage_of db' = usage_of db"
  using assms by (auto simp: reserve_llm_tokens_def Let_def split: sum.splits option.splits)

end
