(* ===== verification/Enqueue.thy ===== *)
theory Enqueue
  imports Resolver Registry ToolRuns Quotas
begin

text \<open>
  \<open>af-jobs/src/enqueue.rs\<close>: validation of a tool request, then one transaction that
  checks the caller's quota under a per-user advisory lock, inserts the job and links
  its input artifacts.

  Parameters of the model (the environment): the identifier parser and printer of the
  \<open>uuid\<close> crate, the length of \<open>serde_json\<close>'s serialisation, and for every statement
  sent to the database whether it fails, and with which message.
\<close>

datatype db_stmt =
    SelArtifacts | BeginTx | AdvisoryLock | CountRuns | SelQuota | RecordRun
  | InsertRun | LinkInput uuid | CommitTx

record enq_env =
  parse_uuid :: "string \<Rightarrow> uuid option"
  show_uuid :: "uuid \<Rightarrow> string"
  ser_len :: "json \<Rightarrow> string + nat"
  db_fault :: "db_stmt \<Rightarrow> string option"

record tool_request =
  req_tool_name :: string
  req_input :: json
  req_project :: uuid
  req_thread :: "uuid option"
  req_parent :: "uuid option"
  req_actor :: "uuid option"

datatype enqueue_error =
  ToolNotFound string | InvalidInput string | DbError string | QuotaExceeded string

text \<open>The tables the job subsystem touches.\<close>

record artifact_row =
  art_id :: uuid
  art_project :: uuid
  art_sha256 :: string

datatype link_role = InputRole | OutputRole

record job_db =
  jobs :: run_table
  artifacts :: "artifact_row list"
  links :: "(uuid \<times> uuid \<times> link_role) list"
  accounts :: quota_db

definition get_artifacts_by_ids :: "artifact_row list \<Rightarrow> uuid list \<Rightarrow> artifact_row list" where
  "get_artifacts_by_ids arts ids = filter (\<lambda>a. art_id a \<in> set ids) arts"

text \<open>\<open>INSERT \<dots> ON CONFLICT DO NOTHING\<close>.\<close>

definition link_artifact :: "uuid \<Rightarrow> uuid \<Rightarrow> link_role \<Rightarrow> job_db \<Rightarrow> job_db" where
  "link_artifact run aid role db =
     (if (run, aid, role) \<in> set (links db) then db
      else db\<lparr>links := links db @ [(run, aid, role)]\<rparr>)"

definition count_active_runs :: "run_table \<Rightarrow> uuid \<Rightarrow> nat" where
  "count_active_runs t uid =
     length (filter (\<lambda>r. actor_user_id r = Some uid \<and> (status r = Queued \<or> status r = Running)) t)"

section \<open>Validation\<close>

definition invalid_ids :: "artifact_row list \<Rightarrow> uuid \<Rightarrow> uuid list \<Rightarrow> uuid list" where
  "invalid_ids rows proj ids =
     (let valid = map art_id (filter (\<lambda>a. art_project a = proj) rows)
      in filter (\<lambda>i. i \<notin> set valid) ids)"

definition enqueue_validate ::
  "enq_env \<Rightarrow> tool_spec registry \<Rightarrow> artifact_row list \<Rightarrow> tool_request \<Rightarrow>
     enqueue_error + tool_spec \<times> uuid list" where
  "enqueue_validate env specs arts req =
     (case reg_get_latest specs (req_tool_name req) of
        None \<Rightarrow> Inl (ToolNotFound (req_tool_name req))
      | Some spec \<Rightarrow>
     (case ser_len env (req_input req) of
        Inl e \<Rightarrow> Inl (InvalidInput (''failed to serialize input: '' @ e))
      | Inr len \<Rightarrow>
        if max_input_bytes (policy spec) < len
        then Inl (InvalidInput (''input size '' @ show_nat len @ '' bytes exceeds max ''
                                @ show_nat (max_input_bytes (policy spec)) @ '' bytes''))
        else
     (let depth = json_depth_bounded (req_input req) (max_input_depth (policy spec) + 1) in
        if max_input_depth (policy spec) < depth
        then Inl (InvalidInput (''input depth '' @ show_nat depth @ '' exceeds max ''
                                @ show_nat (max_input_depth (policy spec))))
        else
     (case extract_artifact_ids (parse_uuid env) (req_input req)
             (resolve_schema_paths (input_schema spec)) of
        Inl e \<Rightarrow> Inl (InvalidInput e)
      | Inr ids \<Rightarrow>
        if ids = [] then Inr (spec, ids)
        else
     (case db_fault env SelArtifacts of
        Some e \<Rightarrow> Inl (DbError e)
      | None \<Rightarrow>
        (let invalid = invalid_ids (get_artifacts_by_ids arts ids) (req_project req) ids in
         if invalid \<noteq> []
         then Inl (InvalidInput (''artifact(s) not accessible in this project: ''
                                 @ join '', '' (map (show_uuid env) invalid)))
         else Inr (spec, ids)))))))"

section \<open>The transaction\<close>

definition stmt :: "enq_env \<Rightarrow> db_stmt \<Rightarrow> 'a \<Rightarrow> enqueue_error + 'a" where
  "stmt env s x = (case db_fault env s of Some e \<Rightarrow> Inl (DbError e) | None \<Rightarrow> Inr x)"

definition aborted :: string where
  "aborted = ''current transaction is aborted, commands ignored until end of transaction block''"

text \<open>
  The quota check of a caller with an account. The result of \<open>record_tool_run\<close> is
  thrown away by the code, but a statement that fails aborts the transaction, so the
  next statement fails: the second component says whether that happened.
\<close>

definition over_quota :: "quota_row option \<Rightarrow> nat \<Rightarrow> bool" where
  "over_quota quota active = (case quota of None \<Rightarrow> False | Some q \<Rightarrow> max_concurrent_runs q \<le> int active)"

definition count_use :: "enq_env \<Rightarrow> nat \<Rightarrow> uuid \<Rightarrow> job_db \<Rightarrow> job_db \<times> bool" where
  "count_use env today uid db =
     (case db_fault env RecordRun of
        Some _ \<Rightarrow> (db, True)
      | None \<Rightarrow> (case record_tool_run uid today (accounts db) of
          Inl _ \<Rightarrow> (db, True)
        | Inr a \<Rightarrow> (db\<lparr>accounts := a\<rparr>, False)))"

definition quota_check ::
  "enq_env \<Rightarrow> nat \<Rightarrow> uuid \<Rightarrow> job_db \<Rightarrow> enqueue_error + job_db \<times> bool" where
  "quota_check env today uid db =
     sum_bind (stmt env AdvisoryLock ()) (\<lambda>_.
     sum_bind (stmt env CountRuns (count_active_runs (jobs db) uid)) (\<lambda>active.
     sum_bind (stmt env SelQuota (get_quota (accounts db) uid)) (\<lambda>quota.
       if over_quota quota active
       then Inl (QuotaExceeded (''concurrent run limit (''
                   @ show_int (max_concurrent_runs (the quota)) @ '') reached''))
       else Inr (count_use env today uid db))))"

definition insert_job ::
  "enq_env \<Rightarrow> tool_spec \<Rightarrow> tool_request \<Rightarrow> string option \<Rightarrow> uuid \<Rightarrow> instant \<Rightarrow> job_db \<Rightarrow> enqueue_error + job_db" where
  "insert_job env spec req subject fresh now db =
     stmt env InsertRun (db\<lparr>jobs := enqueue_run
        (new_run fresh now (req_project req) (req_tool_name req) (sint (spec_version spec))
           (req_input req) (req_thread req) (req_parent req) subject (req_actor req)) (jobs db)\<rparr>)"

definition enqueue_tx ::
  "enq_env \<Rightarrow> tool_spec \<Rightarrow> uuid list \<Rightarrow> tool_request \<Rightarrow> string option \<Rightarrow> uuid \<Rightarrow> instant \<Rightarrow> nat \<Rightarrow>
     job_db \<Rightarrow> enqueue_error + job_db" where
  "enqueue_tx env spec ids req subject fresh now today db =
     sum_bind (stmt env BeginTx db) (\<lambda>db.
     sum_bind (case req_actor req of None \<Rightarrow> Inr (db, False) | Some uid \<Rightarrow> quota_check env today uid db)
       (\<lambda>(db, broken).
     if broken then Inl (DbError aborted) else
     sum_bind (insert_job env spec req subject fresh now db) (\<lambda>db.
     sum_bind (try_fold (\<lambda>aid db. stmt env (LinkInput aid) (link_artifact fresh aid InputRole db)) ids db) (\<lambda>db.
     stmt env CommitTx db))))"

text \<open>An error drops the transaction, which rolls it back: the database is as before.\<close>

definition enqueue ::
  "enq_env \<Rightarrow> tool_spec registry \<Rightarrow> tool_request \<Rightarrow> string option \<Rightarrow> uuid \<Rightarrow> instant \<Rightarrow> nat \<Rightarrow>
     job_db \<Rightarrow> (enqueue_error + uuid) \<times> job_db" where
  "enqueue env specs req subject fresh now today db =
     (case sum_bind (enqueue_validate env specs (artifacts db) req)
             (\<lambda>(spec, ids). enqueue_tx env spec ids req subject fresh now today db) of
        Inl e \<Rightarrow> (Inl e, db)
      | Inr db' \<Rightarrow> (Inr fresh, db'))"

section \<open>What a successful call did\<close>

lemma stmt_Inr [error_iff]: "stmt env s x = Inr y \<longleftrightarrow> db_fault env s = None \<and> y = x"
  by (auto simp: stmt_def split: option.splits)

lemma link_artifact_frame [frame_simps]:
  "jobs (link_artifact r a role db) = jobs db" "artifacts (link_artifact r a role db) = artifacts db"
  "accounts (link_artifact r a role db) = accounts db"
  by (simp_all add: link_artifact_def)

lemma set_links_link_artifact [simp]:
  "set (links (link_artifact r a role db)) = insert (r, a, role) (set (links db))"
  by (auto simp: link_artifact_def)

lemma link_all:
  "try_fold (\<lambda>aid db. stmt env (LinkInput aid) (link_artifact fresh aid InputRole db)) ids db = Inr db' \<Longrightarrow>
     jobs db' = jobs db \<and> artifacts db' = artifacts db \<and> accounts db' = accounts db \<and>
     set (links db') = set (links db) \<union> (\<lambda>a. (fresh, a, InputRole)) ` set ids"
proof (induction ids arbitrary: db)
  case (Cons a ids)
  then have "try_fold (\<lambda>aid db. stmt env (LinkInput aid) (link_artifact fresh aid InputRole db)) ids
               (link_artifact fresh a InputRole db) = Inr db'"
    by (auto simp: error_iff)
  from Cons.IH [OF this] show ?case by (auto simp: frame_simps)
qed simp

lemma quota_check_Inr:
  assumes "quota_check env today uid db = Inr (db', broken)"
  shows "jobs db' = jobs db" "artifacts db' = artifacts db" "links db' = links db"
    "\<And>q. get_quota (accounts db) uid = Some q \<Longrightarrow> int (count_active_runs (jobs db) uid) < max_concurrent_runs q"
    "quotas (accounts db') = quotas (accounts db)"
proof -
  from assms have eq: "count_use env today uid db = (db', broken)"
    and ok: "\<not> over_quota (get_quota (accounts db) uid) (count_active_runs (jobs db) uid)"
    by (simp_all add: quota_check_def error_iff split: if_splits)
  from eq consider "db' = db" | a where "db' = db\<lparr>accounts := a\<rparr>" "record_tool_run uid today (accounts db) = Inr a"
    unfolding count_use_def by (cases "db_fault env RecordRun"; cases "record_tool_run uid today (accounts db)") auto
  then show "jobs db' = jobs db" "artifacts db' = artifacts db" "links db' = links db"
    "quotas (accounts db') = quotas (accounts db)"
    by (cases; simp add: record_tool_run_frame)+
  show "int (count_active_runs (jobs db) uid) < max_concurrent_runs q"
    if "get_quota (accounts db) uid = Some q" for q
    using ok that by (simp add: over_quota_def)
qed

text \<open>The row a successful call inserts.\<close>

definition request_row :: "tool_spec \<Rightarrow> tool_request \<Rightarrow> string option \<Rightarrow> uuid \<Rightarrow> instant \<Rightarrow> tool_run" where
  "request_row spec req subject fresh now =
     new_run fresh now (req_project req) (req_tool_name req) (sint (spec_version spec))
       (req_input req) (req_thread req) (req_parent req) subject (req_actor req)"

lemma enqueue_tx_Inr:
  assumes "enqueue_tx env spec ids req subject fresh now today db = Inr db'"
  shows "jobs db' = jobs db @ [request_row spec req subject fresh now]"
    and "artifacts db' = artifacts db"
    and "set (links db') = set (links db) \<union> (\<lambda>a. (fresh, a, InputRole)) ` set ids"
    and "\<And>uid q. req_actor req = Some uid \<Longrightarrow> get_quota (accounts db) uid = Some q \<Longrightarrow>
           int (count_active_runs (jobs db) uid) < max_concurrent_runs q"
    and "quotas (accounts db') = quotas (accounts db)"
proof -
  from assms obtain db1 where
    q: "(case req_actor req of None \<Rightarrow> Inr (db, False) | Some uid \<Rightarrow> quota_check env today uid db) = Inr (db1, False)"
    and lk: "try_fold (\<lambda>aid db. stmt env (LinkInput aid) (link_artifact fresh aid InputRole db)) ids
         (db1\<lparr>jobs := enqueue_run (request_row spec req subject fresh now) (jobs db1)\<rparr>) = Inr db'"
    by (auto simp: enqueue_tx_def insert_job_def error_iff request_row_def split: if_splits)
  have db1: "jobs db1 = jobs db" "artifacts db1 = artifacts db" "links db1 = links db"
    "quotas (accounts db1) = quotas (accounts db)"
    using q by (auto split: option.splits dest: quota_check_Inr)
  note lk' = link_all [OF lk]
  show "jobs db' = jobs db @ [request_row spec req subject fresh now]"
    using lk' db1 by (simp add: enqueue_run_def)
  show "artifacts db' = artifacts db" "quotas (accounts db') = quotas (accounts db)"
    "set (links db') = set (links db) \<union> (\<lambda>a. (fresh, a, InputRole)) ` set ids"
    using lk' db1 by simp_all
  show "int (count_active_runs (jobs db) uid) < max_concurrent_runs qq"
    if "req_actor req = Some uid" "get_quota (accounts db) uid = Some qq" for uid qq
    using q that by (auto dest: quota_check_Inr(4))
qed

lemma enqueue_Inr:
  assumes "enqueue env specs req subject fresh now today db = (Inr i, db')"
  obtains spec ids where
    "enqueue_validate env specs (artifacts db) req = Inr (spec, ids)"
    "enqueue_tx env spec ids req subject fresh now today db = Inr db'" "i = fresh"
proof -
  let ?m = "sum_bind (enqueue_validate env specs (artifacts db) req)
             (\<lambda>(spec, ids). enqueue_tx env spec ids req subject fresh now today db)"
  from assms have "?m = Inr db'" and i: "i = fresh"
    unfolding enqueue_def by (cases ?m; simp)+
  then obtain p where "enqueue_validate env specs (artifacts db) req = Inr p"
    and "(case p of (spec, ids) \<Rightarrow> enqueue_tx env spec ids req subject fresh now today db) = Inr db'"
    by (auto simp only: sum_bind_Inr_iff)
  with i show ?thesis by (cases p) (simp add: that)
qed

lemma enqueue_validate_Inr:
  assumes "enqueue_validate env specs arts req = Inr (spec, ids)"
  shows "reg_get_latest specs (req_tool_name req) = Some spec"
    and "\<exists>len. ser_len env (req_input req) = Inr len \<and> len \<le> max_input_bytes (policy spec)"
    and "json_depth (req_input req) \<le> max_input_depth (policy spec)"
    and "extract_artifact_ids (parse_uuid env) (req_input req)
           (resolve_schema_paths (input_schema spec)) = Inr ids"
    and "\<And>a. a \<in> set ids \<Longrightarrow> \<exists>row\<in>set arts. art_id row = a \<and> art_project row = req_project req"
  using assms
  by (auto simp: enqueue_validate_def Let_def invalid_ids_def get_artifacts_by_ids_def
      json_depth_bounded_eq filter_empty_conv split: option.splits sum.splits if_splits)

lemma enqueue_Inl: "enqueue env specs req subject fresh now today db = (Inl e, db') \<Longrightarrow> db' = db"
  by (auto simp: enqueue_def split: sum.splits)

end
