(* ===== verification/Worker.thy ===== *)
theory Worker
  imports Enqueue
begin

text \<open>
  \<open>af-jobs/src/worker.rs\<close>, \<open>context_builder.rs\<close> and \<open>invoker.rs\<close>: a worker claims a
  job, looks its specification and executor up, builds the tool's context, runs the
  tool and stores the outcome; the invoker waits for the stored outcome.

  The executors, the blob table and the file system are parameters, and so is, for
  every statement, whether the database refuses it. Between the claim and the report
  other transactions run: their effect is the parameter \<open>mid\<close> of
  \<open>try_execute_one\<close>. The debug output, the stderr event stream and the scratch
  directory's removal are left out.
\<close>

datatype tool_output_kind = InlineJson | JsonArtifact | TextOutput | BinaryOutput | MixedOutput

record tool_error =
  err_code :: string
  err_message :: string
  retryable :: bool
  details :: json

record tool_result =
  kind :: tool_output_kind
  res_output :: json
  res_stdout :: "string option"
  res_stderr :: "string option"
  produced_artifacts :: "uuid list"

record blob_row =
  storage_path :: string
  size_bytes :: nat

record artifact_ref =
  ref_id :: uuid
  ref_sha256 :: string
  ref_path :: string
  ref_size :: nat

record tool_context =
  ctx_project :: uuid
  ctx_run :: uuid
  ctx_actor :: "uuid option"
  ctx_artifacts :: "artifact_ref list"

datatype worker_error =
  WDb string | WToolNotFound string | WExecutorNotFound string | WContext string

datatype worker_stmt =
    ClaimStmt | CtxLinks | CtxArtifacts | CtxBlob string | CtxScratch
  | BeginScoped | LinkOutput uuid | CompleteStmt | CommitScoped | FailStmt | AuditStmt

record 'x worker_env =
  w_specs :: "tool_spec registry"
  w_executors :: "'x executor_entry registry"
  blobs :: "string \<rightharpoonup> blob_row"
  validate :: "'x \<Rightarrow> tool_context \<Rightarrow> json \<Rightarrow> string option"
  execute :: "'x \<Rightarrow> tool_context \<Rightarrow> json \<Rightarrow> tool_error + tool_result"
  execute_oop :: "spawn_config \<Rightarrow> tool_run \<Rightarrow> tool_context \<Rightarrow> tool_policy \<Rightarrow> tool_error + tool_result"
  heartbeat_lost :: bool     \<comment> \<open>the heartbeat task fails before the tool returns\<close>
  w_fault :: "worker_stmt \<Rightarrow> string option"

section \<open>The context of a job\<close>

definition get_for_run :: "job_db \<Rightarrow> uuid \<Rightarrow> (uuid \<times> link_role) list" where
  "get_for_run db run = map snd (filter (\<lambda>l. fst l = run) (links db))"

fun resolve_blobs :: "'x worker_env \<Rightarrow> artifact_row list \<Rightarrow> string + artifact_ref list" where
  "resolve_blobs env [] = Inr []"
| "resolve_blobs env (a # arts) =
     (case w_fault env (CtxBlob (art_sha256 a)) of
        Some e \<Rightarrow> Inl (''database error: '' @ e)
      | None \<Rightarrow>
     (case blobs env (art_sha256 a) of
        None \<Rightarrow> Inl (''blob missing for sha256: '' @ art_sha256 a)
      | Some b \<Rightarrow> sum_bind (resolve_blobs env arts) (\<lambda>refs.
          Inr (\<lparr>ref_id = art_id a, ref_sha256 = art_sha256 a, ref_path = storage_path b,
                ref_size = size_bytes b\<rparr> # refs))))"

definition build_context :: "'x worker_env \<Rightarrow> job_db \<Rightarrow> tool_run \<Rightarrow> string + tool_context" where
  "build_context env db run =
     (case w_fault env CtxLinks of
        Some e \<Rightarrow> Inl (''database error: '' @ e)
      | None \<Rightarrow>
     (let input_ids = map fst (filter (\<lambda>l. snd l = InputRole) (get_for_run db (run_id run))) in
     (case (if input_ids = [] then Inr []
            else case w_fault env CtxArtifacts of
              Some e \<Rightarrow> Inl (''database error: '' @ e)
            | None \<Rightarrow> Inr (get_artifacts_by_ids (artifacts db) input_ids)) of
        Inl e \<Rightarrow> Inl e
      | Inr rows \<Rightarrow> sum_bind (resolve_blobs env rows) (\<lambda>refs.
          case w_fault env CtxScratch of
            Some e \<Rightarrow> Inl (''IO error: '' @ e)
          | None \<Rightarrow> Inr \<lparr>ctx_project = project_id run, ctx_run = run_id run,
                          ctx_actor = actor_user_id run, ctx_artifacts = refs\<rparr>))))"

section \<open>Claiming and dispatching\<close>

definition worker_claim ::
  "'x worker_env \<Rightarrow> uuid set \<Rightarrow> instant \<Rightarrow> job_db \<Rightarrow> (worker_error + tool_run option) \<times> job_db" where
  "worker_claim env locked now db =
     (case w_fault env ClaimStmt of
        Some e \<Rightarrow> (Inl (WDb e), db)
      | None \<Rightarrow> (let (r, t) = claim locked now (120 * 1000000) (jobs db) in (Inr r, db\<lparr>jobs := t\<rparr>)))"

text \<open>The version column is signed, the registry's key is not: \<open>run.tool_version as u32\<close>.\<close>

definition worker_prepare ::
  "'x worker_env \<Rightarrow> job_db \<Rightarrow> tool_run \<Rightarrow> worker_error + tool_spec \<times> 'x executor_entry \<times> tool_context" where
  "worker_prepare env db run =
     (case reg_get (w_specs env) (tool_name run) (word_of_int (tool_version run)) of
        None \<Rightarrow> Inl (WToolNotFound (tool_name run))
      | Some spec \<Rightarrow>
     (case reg_get (w_executors env) (tool_name run) (word_of_int (tool_version run)) of
        None \<Rightarrow> Inl (WExecutorNotFound (tool_name run))
      | Some entry \<Rightarrow>
     (case build_context env db run of
        Inl e \<Rightarrow> Inl (WContext e)
      | Inr ctx \<Rightarrow> Inr (spec, entry, ctx))))"

definition heartbeat_lost_error :: tool_error where
  "heartbeat_lost_error =
     \<lparr>err_code = ''heartbeat_lost'',
      err_message = ''execution aborted: job heartbeat failed (likely reaped)'',
      retryable = False, details = JNull\<rparr>"

datatype run_outcome = ValidationFailed string | RunOk tool_result | RunErr tool_error

definition worker_run ::
  "'x worker_env \<Rightarrow> tool_run \<Rightarrow> tool_spec \<Rightarrow> 'x executor_entry \<Rightarrow> tool_context \<Rightarrow> run_outcome" where
  "worker_run env run spec entry ctx =
     (let out = (\<lambda>r. if heartbeat_lost env then RunErr heartbeat_lost_error
                    else case r of Inl e \<Rightarrow> RunErr e | Inr res \<Rightarrow> RunOk res)
      in case entry of
           InProcess x \<Rightarrow>
             (case validate env x ctx (input_json run) of
                Some msg \<Rightarrow> ValidationFailed msg
              | None \<Rightarrow> out (execute env x ctx (input_json run)))
         | OutOfProcess cfg \<Rightarrow> out (execute_oop env cfg run ctx (policy spec)))"

section \<open>Storing the outcome\<close>

fun kind_str :: "tool_output_kind \<Rightarrow> string" where
  "kind_str InlineJson = ''inline_json''"
| "kind_str JsonArtifact = ''json_artifact''"
| "kind_str TextOutput = ''text''"
| "kind_str BinaryOutput = ''binary''"
| "kind_str MixedOutput = ''mixed''"

definition error_to_json :: "tool_error \<Rightarrow> json" where
  "error_to_json e = JObj [(''code'', JStr (err_code e)), (''message'', JStr (err_message e)),
                           (''retryable'', JBool (retryable e)), (''details'', details e)]"

definition validation_error :: "string \<Rightarrow> tool_error" where
  "validation_error msg =
     \<lparr>err_code = ''validation_error'', err_message = msg, retryable = False, details = JNull\<rparr>"

text \<open>The database together with the audit log (the run and the status that was logged).\<close>

type_synonym work_db = "job_db \<times> (uuid \<times> string) list"

definition put_complete :: "uuid \<Rightarrow> instant \<Rightarrow> tool_result \<Rightarrow> job_db \<Rightarrow> job_db" where
  "put_complete i now res db =
     db\<lparr>jobs := complete i now (res_output res) (kind_str (kind res)) (res_stdout res) (res_stderr res) (jobs db)\<rparr>"

definition link_outputs :: "uuid \<Rightarrow> uuid list \<Rightarrow> job_db \<Rightarrow> job_db" where
  "link_outputs i = fold (\<lambda>a. link_artifact i a OutputRole)"

text \<open>\<open>unscoped_complete\<close>: every statement on its own, a failure is ignored.\<close>

definition unscoped_complete :: "'x worker_env \<Rightarrow> instant \<Rightarrow> uuid \<Rightarrow> tool_result \<Rightarrow> job_db \<Rightarrow> job_db" where
  "unscoped_complete env now i res db =
     (let db = link_outputs i (filter (\<lambda>a. w_fault env (LinkOutput a) = None) (produced_artifacts res)) db
      in if w_fault env CompleteStmt = None then put_complete i now res db else db)"

text \<open>
  The scoped transaction of the success path: results are ignored, but one failed
  statement aborts the transaction, and then nothing of it is kept.
\<close>

definition store_result ::
  "'x worker_env \<Rightarrow> instant \<Rightarrow> tool_run \<Rightarrow> tool_result \<Rightarrow> job_db \<Rightarrow> job_db" where
  "store_result env now run res db =
     (case actor_user_id run of
        None \<Rightarrow> unscoped_complete env now (run_id run) res db
      | Some uid \<Rightarrow>
          if w_fault env BeginScoped \<noteq> None then unscoped_complete env now (run_id run) res db
          else if (\<forall>a\<in>set (produced_artifacts res). w_fault env (LinkOutput a) = None)
                \<and> w_fault env CompleteStmt = None \<and> w_fault env CommitScoped = None
          then put_complete (run_id run) now res (link_outputs (run_id run) (produced_artifacts res) db)
          else db)"

definition scoped_fail ::
  "'x worker_env \<Rightarrow> instant \<Rightarrow> tool_run \<Rightarrow> json \<Rightarrow> job_db \<Rightarrow> (worker_error + unit) \<times> job_db" where
  "scoped_fail env now run err db =
     (let failed = db\<lparr>jobs := fail (run_id run) now err None (jobs db)\<rparr>;
          scoped = actor_user_id run \<noteq> None \<and> w_fault env BeginScoped = None
      in case w_fault env FailStmt of
           Some e \<Rightarrow> (Inl (WDb e), db)
         | None \<Rightarrow>
             if scoped then (case w_fault env CommitScoped of
                               Some e \<Rightarrow> (Inl (WDb e), db)
                             | None \<Rightarrow> (Inr (), failed))
             else (Inr (), failed))"

definition audit :: "'x worker_env \<Rightarrow> tool_run \<Rightarrow> string \<Rightarrow> work_db \<Rightarrow> work_db" where
  "audit env run st w =
     (if w_fault env AuditStmt = None then (fst w, snd w @ [(run_id run, st)]) else w)"

definition worker_finish ::
  "'x worker_env \<Rightarrow> instant \<Rightarrow> tool_run \<Rightarrow> run_outcome \<Rightarrow> work_db \<Rightarrow> (worker_error + bool) \<times> work_db" where
  "worker_finish env now run outcome w =
     (let failing = (\<lambda>err st.
        case scoped_fail env now run err (fst w) of
          (Inl e, db) \<Rightarrow> (Inl e, (db, snd w))
        | (Inr _, db) \<Rightarrow> (Inr True, audit env run st (db, snd w)))
      in case outcome of
           ValidationFailed msg \<Rightarrow> failing (error_to_json (validation_error msg)) ''validation_failed''
         | RunErr e \<Rightarrow> failing (error_to_json e) ''failed''
         | RunOk res \<Rightarrow>
             (Inr True, audit env run ''completed'' (store_result env now run res (fst w), snd w)))"

definition try_execute_one ::
  "'x worker_env \<Rightarrow> uuid set \<Rightarrow> instant \<Rightarrow> instant \<Rightarrow> (job_db \<Rightarrow> job_db) \<Rightarrow> work_db \<Rightarrow>
     (worker_error + bool) \<times> work_db" where
  "try_execute_one env locked now later mid w =
     (case worker_claim env locked now (fst w) of
        (Inl e, db) \<Rightarrow> (Inl e, (db, snd w))
      | (Inr None, db) \<Rightarrow> (Inr False, (db, snd w))
      | (Inr (Some run), db) \<Rightarrow>
          (case worker_prepare env db run of
             Inl e \<Rightarrow> (Inl e, (db, snd w))
           | Inr (spec, entry, ctx) \<Rightarrow>
               worker_finish env later run (worker_run env run spec entry ctx) (mid db, snd w)))"

section \<open>Waiting for the outcome\<close>

text \<open>\<open>serde_json::from_value::<ToolError>\<close>: all four fields, each of its type.\<close>

definition error_from_json :: "json \<Rightarrow> tool_error option" where
  "error_from_json v =
     (case (jget v ''code'', jget v ''message'', jget v ''retryable'', jget v ''details'') of
        (Some (JStr c), Some (JStr m), Some (JBool b), Some d) \<Rightarrow>
          Some \<lparr>err_code = c, err_message = m, retryable = b, details = d\<rparr>
      | _ \<Rightarrow> None)"

definition unknown_error :: tool_error where
  "unknown_error = \<lparr>err_code = ''unknown'', err_message = ''tool run failed'',
                    retryable = False, details = JNull\<rparr>"

definition parse_output_kind :: "string option \<Rightarrow> tool_output_kind" where
  "parse_output_kind s =
     (if s = Some ''inline_json'' then InlineJson
      else if s = Some ''json_artifact'' then JsonArtifact
      else if s = Some ''text'' then TextOutput
      else if s = Some ''binary'' then BinaryOutput
      else if s = Some ''mixed'' then MixedOutput
      else InlineJson)"

text \<open>One look at the stored row: \<open>None\<close> is "not finished yet".\<close>

definition poll_row :: "job_db \<Rightarrow> tool_run \<Rightarrow> (tool_error + tool_result) option" where
  "poll_row db row =
     (case status row of
        Completed \<Rightarrow>
          Some (Inr \<lparr>kind = parse_output_kind (output_kind row),
                     res_output = (case output_json row of None \<Rightarrow> JNull | Some v \<Rightarrow> v),
                     res_stdout = stdout row, res_stderr = stderr row,
                     produced_artifacts =
                       map fst (filter (\<lambda>l. snd l = OutputRole) (get_for_run db (run_id row)))\<rparr>)
      | Failed \<Rightarrow>
          Some (Inl (case Option.bind (error_json row) error_from_json of
                       None \<Rightarrow> unknown_error | Some e \<Rightarrow> e))
      | _ \<Rightarrow> None)"

definition timeout_error :: tool_error where
  "timeout_error = \<lparr>err_code = ''timeout'', err_message = ''tool run timed out waiting for completion'',
                    retryable = True, details = JNull\<rparr>"

definition poll_db_error :: "string \<Rightarrow> tool_error" where
  "poll_db_error e = \<lparr>err_code = ''db_error'', err_message = e, retryable = True, details = JNull\<rparr>"

definition not_found_error :: "string \<Rightarrow> tool_error" where
  "not_found_error i = \<lparr>err_code = ''not_found'', err_message = ''tool run '' @ i @ '' not found'',
                        retryable = False, details = JNull\<rparr>"

text \<open>
  The polling loop over what it observes: the elapsed time (milliseconds) at each
  round, and the database then, or the error of the query. The end of the list is the
  caller still waiting.
\<close>

fun poll_loop :: "(uuid \<Rightarrow> string) \<Rightarrow> uuid \<Rightarrow> (nat \<times> (string + job_db)) list \<Rightarrow> (tool_error + tool_result) option" where
  "poll_loop show i [] = None"
| "poll_loop show i ((elapsed, obs) # rest) =
     (if 300000 < elapsed then Some (Inl timeout_error)
      else case obs of
        Inl e \<Rightarrow> Some (Inl (poll_db_error e))
      | Inr db \<Rightarrow>
          (case get_run (jobs db) i of
             None \<Rightarrow> Some (Inl (not_found_error (show i)))
           | Some row \<Rightarrow>
               (case poll_row db row of None \<Rightarrow> poll_loop show i rest | Some r \<Rightarrow> Some r)))"

section \<open>Facts about the pieces\<close>

lemma error_json_roundtrip [simp]: "error_from_json (error_to_json e) = Some e"
  by (simp add: error_from_json_def error_to_json_def)

lemma kind_roundtrip [simp]: "parse_output_kind (Some (kind_str k)) = k"
  by (cases k) (simp_all add: parse_output_kind_def)

lemma link_outputs_frame [frame_simps]:
  "jobs (link_outputs i as db) = jobs db" "artifacts (link_outputs i as db) = artifacts db"
  "accounts (link_outputs i as db) = accounts db"
  unfolding link_outputs_def by (induction as arbitrary: db) (simp_all add: frame_simps)

lemma set_link_outputs: "set (links (link_outputs i as db)) = set (links db) \<union> (\<lambda>a. (i, a, OutputRole)) ` set as"
  unfolding link_outputs_def by (induction as arbitrary: db) auto

lemma put_complete_frame [frame_simps]:
  "links (put_complete i now res db) = links db" "artifacts (put_complete i now res db) = artifacts db"
  by (simp_all add: put_complete_def)

lemma get_run_update:
  assumes "get_run t i = Some r" and "\<And>x. run_id (f x) = run_id x"
  shows "get_run (update_where (\<lambda>x. run_id x = i) f t) i = Some (f r)"
  using assms by (induction t) (auto simp: get_run_def update_where_def split: if_splits)

lemma get_run_id: "get_run t i = Some r \<Longrightarrow> run_id r = i"
  by (auto simp: get_run_def find_Some_iff)

lemma version_roundtrip: "word_of_int (sint (v :: u32)) = v"
  by simp

text \<open>The artifacts of a context are the input artifacts of the job.\<close>

lemma resolve_blobs_ids:
  "resolve_blobs env arts = Inr refs \<Longrightarrow> map ref_id refs = map art_id arts"
  by (induction arts arbitrary: refs) (auto simp: error_iff split: option.splits)

lemma build_context_ids:
  assumes "build_context env db run = Inr ctx" and "a \<in> ref_id ` set (ctx_artifacts ctx)"
  shows "(run_id run, a, InputRole) \<in> set (links db)" and "\<exists>row\<in>set (artifacts db). art_id row = a"
    and "ctx_project ctx = project_id run"
proof -
  let ?ids = "map fst (filter (\<lambda>l. snd l = InputRole) (get_for_run db (run_id run)))"
  from assms(1) obtain rows where
    rows: "(if ?ids = [] then Inr []
            else case w_fault env CtxArtifacts of
              Some e \<Rightarrow> Inl (''database error: '' @ e)
            | None \<Rightarrow> Inr (get_artifacts_by_ids (artifacts db) ?ids)) = Inr rows"
    and res: "resolve_blobs env rows = Inr (ctx_artifacts ctx)"
    and proj: "ctx_project ctx = project_id run"
    by (auto simp: build_context_def Let_def error_iff split: option.splits sum.splits if_splits)
  from proj show "ctx_project ctx = project_id run" .
  from resolve_blobs_ids [OF res] assms(2) obtain row where row: "row \<in> set rows" "art_id row = a"
    by (metis (no_types, lifting) image_iff list.set_map)
  with rows have "row \<in> set (artifacts db)" "a \<in> set ?ids"
    by (auto simp: get_artifacts_by_ids_def split: if_splits option.splits)
  with row show "(run_id run, a, InputRole) \<in> set (links db)" "\<exists>row\<in>set (artifacts db). art_id row = a"
    by (auto simp: get_for_run_def)
qed

end
