(* ===== verification/JobMachine.thy ===== *)
theory JobMachine
  imports ToolRuns
begin

text \<open>
  The job system as a state machine: the table, the executions that are in flight in
  some worker, and (a history variable) how often each job was handed out. Workers,
  heartbeats (\<open>af-jobs/src/worker.rs\<close>) and the reaper (\<open>af-jobs/src/reaper.rs\<close>) interleave
  freely and the clock readings of the steps are arbitrary. A worker may crash, and it
  may report after the reaper has taken its job away.
\<close>

definition MAX_ATTEMPTS :: int where "MAX_ATTEMPTS = 3"
definition LEASE_DURATION :: nat where "LEASE_DURATION = 120 * 1000000"

record job_sys =
  runs :: run_table
  inflight :: "uuid list"
  handed_out :: "uuid \<Rightarrow> nat"

definition job_init :: job_sys where
  "job_init = \<lparr>runs = [], inflight = [], handed_out = (\<lambda>_. 0)\<rparr>"

text \<open>One pass of the reaper's loop body: reclaim, then fail the exhausted ones.\<close>

definition reaper_tick :: "int \<Rightarrow> instant \<Rightarrow> run_table \<Rightarrow> run_table" where
  "reaper_tick M now t = snd (fail_exhausted now M (snd (reclaim_expired now M t)))"

inductive job_step :: "job_sys \<Rightarrow> job_sys \<Rightarrow> bool" where
  enqueue: "i \<notin> run_id ` set (runs s) \<Longrightarrow>
     job_step s (s\<lparr>runs := enqueue_run (new_run i now p n v inp th pm sub a) (runs s)\<rparr>)"
| hand_out: "claim locked now LEASE_DURATION (runs s) = (Some r, t) \<Longrightarrow>
     job_step s (s\<lparr>runs := t, inflight := run_id r # inflight s,
                   handed_out := (handed_out s)(run_id r := Suc (handed_out s (run_id r)))\<rparr>)"
| report: "i \<in> set (inflight s) \<Longrightarrow>
     job_step s (s\<lparr>runs := complete i now j k o1 e (runs s), inflight := remove1 i (inflight s)\<rparr>)"
| report_error: "i \<in> set (inflight s) \<Longrightarrow>
     job_step s (s\<lparr>runs := fail i now j e (runs s), inflight := remove1 i (inflight s)\<rparr>)"
| beat: "i \<in> set (inflight s) \<Longrightarrow>
     job_step s (s\<lparr>runs := heartbeat i now LEASE_DURATION (runs s)\<rparr>)"
| crash: "i \<in> set (inflight s) \<Longrightarrow> job_step s (s\<lparr>inflight := remove1 i (inflight s)\<rparr>)"
| reap: "job_step s (s\<lparr>runs := reaper_tick MAX_ATTEMPTS now (runs s)\<rparr>)"

inductive_cases job_stepE: "job_step s t"

inductive job_reachable :: "job_sys \<Rightarrow> bool" where
  init: "job_reachable job_init"
| step: "job_reachable s \<Longrightarrow> job_step s t \<Longrightarrow> job_reachable t"

section \<open>The invariant\<close>

definition job_inv :: "job_sys \<Rightarrow> bool" where
  "job_inv s \<longleftrightarrow> table_wf MAX_ATTEMPTS (runs s) \<and>
     (\<forall>r\<in>set (runs s). attempt r = int (handed_out s (run_id r))) \<and>
     (\<forall>i. i \<notin> run_id ` set (runs s) \<longrightarrow> handed_out s i = 0) \<and>
     set (inflight s) \<subseteq> run_id ` set (runs s)"

lemma reaper_tick_wf: "table_wf M t \<Longrightarrow> table_wf M (reaper_tick M now t)"
  unfolding reaper_tick_def by (intro fail_exhausted_wf reclaim_expired_wf)

text \<open>
  What a statement that leaves identifiers and attempts alone does to the invariant,
  once its table is known to be well formed.
\<close>

lemma job_inv_update:
  assumes "job_inv s" and "table_wf MAX_ATTEMPTS (update_where p f (runs s))"
    and "\<And>r. run_id (f r) = run_id r" and "\<And>r. attempt (f r) = attempt r"
    and "set fl \<subseteq> set (inflight s)"
  shows "job_inv (s\<lparr>runs := update_where p f (runs s), inflight := fl\<rparr>)"
proof -
  have ids: "run_id ` set (update_where p f (runs s)) = run_id ` set (runs s)"
    by (rule run_ids_update) (rule assms(3))
  have att: "attempt r = int (handed_out s (run_id r))" if "r \<in> set (update_where p f (runs s))" for r
    using that assms(1)
    by (elim update_where_preserves [rotated 2]) (simp_all add: job_inv_def assms(3,4))
  show ?thesis
    unfolding job_inv_def using assms(1,2,5) att by (auto simp: ids job_inv_def)
qed

lemma attempts_kept:
  "attempt (complete_row now j k o1 e r) = attempt r" "attempt (fail_row now j e r) = attempt r"
  "attempt (extend_lease now l r) = attempt r" "attempt (requeue_row r) = attempt r"
  "attempt (exhaust_row now r) = attempt r"
  by (simp_all add: row_defs)

lemma job_inv_table:
  "job_inv s \<Longrightarrow> table_wf MAX_ATTEMPTS (runs s)"
  by (simp add: job_inv_def)

lemma job_inv_reaper:
  assumes "job_inv s"
  shows "job_inv (s\<lparr>runs := reaper_tick MAX_ATTEMPTS now (runs s)\<rparr>)"
proof -
  let ?p = "\<lambda>r. lease_expired now r \<and> attempt r < MAX_ATTEMPTS"
  let ?q = "\<lambda>r. lease_expired now r \<and> MAX_ATTEMPTS \<le> attempt r"
  let ?s1 = "s\<lparr>runs := update_where ?p requeue_row (runs s), inflight := inflight s\<rparr>"
  have "table_wf MAX_ATTEMPTS (runs ?s1)"
    using reclaim_expired_wf [OF job_inv_table [OF assms]] by (simp add: reclaim_expired_def Let_def)
  then have s1: "job_inv ?s1"
    by (intro job_inv_update assms) (simp_all add: frame_simps attempts_kept)
  have "table_wf MAX_ATTEMPTS (update_where ?q (exhaust_row now) (runs ?s1))"
    using fail_exhausted_wf [OF job_inv_table [OF s1]] by (simp add: fail_exhausted_def Let_def)
  then have "job_inv (?s1\<lparr>runs := update_where ?q (exhaust_row now) (runs ?s1), inflight := inflight ?s1\<rparr>)"
    by (intro job_inv_update s1) (simp_all add: frame_simps attempts_kept)
  then show ?thesis
    by (simp add: reaper_tick_def reclaim_expired_def fail_exhausted_def Let_def)
qed

lemma job_inv_hand_out:
  assumes inv: "job_inv s" and cl: "claim locked now l (runs s) = (Some r, t)"
  shows "job_inv (s\<lparr>runs := t, inflight := run_id r # inflight s,
             handed_out := (handed_out s)(run_id r := Suc (handed_out s (run_id r)))\<rparr>)"
proof -
  from cl obtain r0 where r0: "r0 \<in> set (runs s)" "r = start_run now l r0"
    and t: "t = update_where (\<lambda>x. run_id x = run_id r0) (start_run now l) (runs s)"
    by (auto elim: claim_Some)
  have wf: "table_wf MAX_ATTEMPTS t" using claim_wf [OF cl job_inv_table [OF inv]] .
  have rid: "run_id r = run_id r0" by (simp add: r0 frame_simps)
  have att: "attempt (start_run now l x) = attempt x + 1" for x by (simp add: start_run_def)
  have ids: "run_id ` set t = run_id ` set (runs s)"
    unfolding t by (rule run_ids_update) (simp add: frame_simps)
  have "attempt x = int (((handed_out s)(run_id r := Suc (handed_out s (run_id r)))) (run_id x))"
    if x: "x \<in> set t" for x
  proof -
    from x obtain y where y: "y \<in> set (runs s)"
      and xy: "x = (if run_id y = run_id r0 then start_run now l y else y)"
      by (auto simp: t set_update_where)
    from inv y have "attempt y = int (handed_out s (run_id y))" by (simp add: job_inv_def)
    then show ?thesis by (simp add: xy rid att frame_simps)
  qed
  moreover have "\<forall>i. i \<notin> run_id ` set t \<longrightarrow> ((handed_out s)(run_id r := Suc (handed_out s (run_id r)))) i = 0"
    using inv r0(1) unfolding ids by (auto simp: job_inv_def rid)
  ultimately show ?thesis
    using inv r0(1) wf by (auto simp: job_inv_def ids rid)
qed

lemma job_step_inv:
  assumes "job_step s t" and "job_inv s"
  shows "job_inv t"
  using assms
proof (cases rule: job_step.cases)
  case (enqueue i now p n v inp th pm sub a)
  have "row_wf MAX_ATTEMPTS (new_run i now p n v inp th pm sub a)"
    by (intro new_run_wf) (simp add: MAX_ATTEMPTS_def)
  then have "table_wf MAX_ATTEMPTS (enqueue_run (new_run i now p n v inp th pm sub a) (runs s))"
    using enqueue by (intro enqueue_run_wf job_inv_table [OF assms(2)]) (simp_all add: new_run_def)
  then show ?thesis using enqueue assms(2)
    by (auto simp: job_inv_def enqueue_run_def new_run_def)
next
  case (hand_out locked now r u)
  then show ?thesis using job_inv_hand_out [OF assms(2)] by simp
next
  case (report i now j k o1 e)
  have "set (remove1 i (inflight s)) \<subseteq> set (inflight s)" by (rule set_remove1_subset)
  then show ?thesis using report complete_wf [OF job_inv_table [OF assms(2)]] assms(2)
    unfolding complete_def by (auto intro!: job_inv_update simp: frame_simps attempts_kept)
next
  case (report_error i now j e)
  have "set (remove1 i (inflight s)) \<subseteq> set (inflight s)" by (rule set_remove1_subset)
  then show ?thesis using report_error fail_wf [OF job_inv_table [OF assms(2)]] assms(2)
    unfolding fail_def by (auto intro!: job_inv_update simp: frame_simps attempts_kept)
next
  case (beat i now)
  have "job_inv (s\<lparr>runs := heartbeat i now LEASE_DURATION (runs s), inflight := inflight s\<rparr>)"
    using heartbeat_wf [OF job_inv_table [OF assms(2)]] assms(2)
    unfolding heartbeat_def by (intro job_inv_update) (auto simp: frame_simps attempts_kept)
  then show ?thesis using beat by simp
next
  case (crash i)
  then show ?thesis using assms(2) set_remove1_subset [of i "inflight s"]
    by (auto simp: job_inv_def)
next
  case (reap now)
  then show ?thesis using job_inv_reaper [OF assms(2)] by simp
qed

lemma job_init_inv: "job_inv job_init"
  by (simp add: job_inv_def job_init_def table_wf_def)

lemma job_reachable_inv: "job_reachable s \<Longrightarrow> job_inv s"
  by (induction rule: job_reachable.induct) (auto intro: job_init_inv job_step_inv)

lemma job_inv_handed_out:
  assumes "job_inv s" shows "int (handed_out s i) \<le> MAX_ATTEMPTS"
proof (cases "i \<in> run_id ` set (runs s)")
  case True
  with assms show ?thesis by (force simp: job_inv_def table_wf_def row_wf_def)
next
  case False
  with assms show ?thesis by (simp add: job_inv_def MAX_ATTEMPTS_def)
qed

section \<open>A finished job stays finished\<close>

definition finished :: "tool_run \<Rightarrow> bool" where
  "finished r \<longleftrightarrow> status r = Completed \<or> status r = Failed \<or> status r = Cancelled"

definition all_finished_in :: "uuid \<Rightarrow> run_table \<Rightarrow> bool" where
  "all_finished_in i t \<longleftrightarrow> (\<exists>r\<in>set t. run_id r = i) \<and> (\<forall>r\<in>set t. run_id r = i \<longrightarrow> finished r)"

lemma all_finished_update:
  assumes "all_finished_in i t" and "\<And>r. run_id (f r) = run_id r"
    and "\<And>r. r \<in> set t \<Longrightarrow> p r \<Longrightarrow> finished r \<Longrightarrow> finished (f r)"
  shows "all_finished_in i (update_where p f t)"
proof -
  have "run_id ` set (update_where p f t) = run_id ` set t"
    by (rule run_ids_update) (rule assms(2))
  moreover have "i \<in> run_id ` set t" using assms(1) by (auto simp: all_finished_in_def)
  moreover have "run_id r = i \<longrightarrow> finished r" if "r \<in> set (update_where p f t)" for r
    using that assms(1) by (elim update_where_preserves [rotated 2])
      (simp_all add: all_finished_in_def assms(2,3))
  ultimately show ?thesis unfolding all_finished_in_def by (metis imageE)
qed

lemma all_finished_reaper:
  "all_finished_in i t \<Longrightarrow> all_finished_in i (reaper_tick M now t)"
  unfolding reaper_tick_def reclaim_expired_def fail_exhausted_def Let_def snd_conv
  by (intro all_finished_update)
    (auto simp: frame_simps lease_expired_def finished_def exhaust_row_def)

lemma all_finished_claim:
  assumes "claim locked now l t = (Some r, t')" and "table_wf M t" and "all_finished_in i t"
  shows "all_finished_in i t'"
proof -
  from assms(1) obtain r0 where r0: "r0 \<in> set t" "claimable locked r0"
    and t': "t' = update_where (\<lambda>x. run_id x = run_id r0) (start_run now l) t"
    by (auto elim: claim_Some)
  show ?thesis unfolding t'
  proof (rule all_finished_update [OF assms(3)])
    fix x assume "x \<in> set t" "run_id x = run_id r0" "finished x"
    then have "x = r0" using assms(2) r0 by (blast intro: same_row)
    with r0 \<open>finished x\<close> show "finished (start_run now l x)"
      by (auto simp: claimable_def finished_def)
  qed (simp add: frame_simps)
qed

lemma job_step_finished:
  assumes "job_step s t" and "job_inv s" and "all_finished_in i (runs s)"
  shows "all_finished_in i (runs t)"
  using assms(1)
proof (cases rule: job_step.cases)
  case (enqueue j now p n v inp th pm sub a)
  with assms(3) show ?thesis by (auto simp: all_finished_in_def enqueue_run_def new_run_def)
next
  case (hand_out locked now r u)
  then show ?thesis using all_finished_claim [OF _ job_inv_table [OF assms(2)] assms(3)] by simp
next
  case (report j now out k o1 e)
  then show ?thesis using assms(3)
    by (auto simp: complete_def frame_simps finished_def complete_row_def intro!: all_finished_update)
next
  case (report_error j now out e)
  then show ?thesis using assms(3)
    by (auto simp: fail_def frame_simps finished_def fail_row_def intro!: all_finished_update)
next
  case (beat j now)
  then show ?thesis using assms(3)
    by (auto simp: heartbeat_def frame_simps finished_def extend_lease_def intro!: all_finished_update)
next
  case (crash j)
  with assms(3) show ?thesis by simp
next
  case (reap now)
  then show ?thesis using all_finished_reaper [OF assms(3)] by simp
qed

section \<open>Draining a queue nobody serves\<close>

text \<open>
  The worst case: every worker that claims a job dies with it. A round is one claim and
  the reaper's next pass after the lease has run out.
\<close>

definition abandon_round :: "int \<Rightarrow> nat \<Rightarrow> instant \<Rightarrow> run_table \<Rightarrow> run_table" where
  "abandon_round M lease now t = reaper_tick M (now + lease + 1) (snd (claim {} now lease t))"

definition reaper_row :: "int \<Rightarrow> instant \<Rightarrow> tool_run \<Rightarrow> tool_run" where
  "reaper_row M now r =
     (let y = (if lease_expired now r \<and> attempt r < M then requeue_row r else r)
      in if lease_expired now y \<and> M \<le> attempt y then exhaust_row now y else y)"

lemma reaper_tick_rows: "reaper_tick M now t = map (reaper_row M now) t"
  by (simp add: reaper_tick_def reclaim_expired_def fail_exhausted_def update_where_def
      reaper_row_def Let_def)

definition tries_left :: "int \<Rightarrow> tool_run \<Rightarrow> nat" where
  "tries_left M r = (if status r = Queued then nat (M - attempt r) else 0)"

definition remaining :: "int \<Rightarrow> run_table \<Rightarrow> nat" where
  "remaining M t = sum_list (map (tries_left M) t)"

definition none_running :: "run_table \<Rightarrow> bool" where
  "none_running t \<longleftrightarrow> (\<forall>r\<in>set t. status r \<noteq> Running)"

text \<open>What a round does to the one row it picks.\<close>

definition abandoned :: "int \<Rightarrow> nat \<Rightarrow> instant \<Rightarrow> tool_run \<Rightarrow> tool_run" where
  "abandoned M lease now r = reaper_row M (now + lease + 1) (start_run now lease r)"

lemma abandoned_cases:
  "attempt r + 1 < M \<Longrightarrow> abandoned M lease now r = requeue_row (start_run now lease r)"
  "\<not> attempt r + 1 < M \<Longrightarrow> abandoned M lease now r = exhaust_row (now + lease + 1) (start_run now lease r)"
  by (auto simp: abandoned_def reaper_row_def lease_expired_def row_defs)

lemma reaper_row_idle: "status r \<noteq> Running \<Longrightarrow> reaper_row M now r = r"
  by (simp add: reaper_row_def lease_expired_def)

lemma abandon_round_picks:
  assumes "table_wf M t" and "none_running t" and "\<exists>r\<in>set t. status r = Queued"
  obtains r0 where "r0 \<in> set t" "status r0 = Queued"
    "abandon_round M lease now t = map (\<lambda>x. if x = r0 then abandoned M lease now x else x) t"
proof -
  from assms(3) obtain res t' where cl: "claim {} now lease t = (Some res, t')"
    by (metis claim_None_iff claimable_def empty_iff not_None_eq surj_pair)
  then obtain r0 where r0: "r0 \<in> set t" "claimable {} r0"
    and t': "t' = update_where (\<lambda>x. run_id x = run_id r0) (start_run now lease) t"
    by (auto elim: claim_Some)
  have "abandon_round M lease now t = map (\<lambda>x. if x = r0 then abandoned M lease now x else x) t"
    unfolding abandon_round_def cl snd_conv t' reaper_tick_rows update_where_def map_map
  proof (rule map_cong [OF refl])
    fix x assume x: "x \<in> set t"
    then have "run_id x = run_id r0 \<longleftrightarrow> x = r0" using same_row [OF assms(1) r0(1)] by blast
    with x assms(2) show "(reaper_row M (now + lease + 1) \<circ> (\<lambda>r. if run_id r = run_id r0 then start_run now lease r else r)) x =
        (if x = r0 then abandoned M lease now x else x)"
      by (simp add: abandoned_def none_running_def reaper_row_idle)
  qed
  with r0 show ?thesis by (intro that) (auto simp: claimable_def)
qed

lemma tries_left_abandoned:
  "status r = Queued \<Longrightarrow> row_wf M r \<Longrightarrow> Suc (tries_left M (abandoned M lease now r)) = tries_left M r"
  by (cases "attempt r + 1 < M")
    (auto simp: abandoned_cases tries_left_def row_wf_def row_defs)

lemma abandon_round_step:
  assumes wf: "table_wf M t" and idle: "none_running t" and q: "\<exists>r\<in>set t. status r = Queued"
  shows "Suc (remaining M (abandon_round M lease now t)) = remaining M t"
    and "none_running (abandon_round M lease now t)"
proof -
  from abandon_round_picks [OF assms] obtain r0 where r0: "r0 \<in> set t" "status r0 = Queued"
    and eq: "abandon_round M lease now t = map (\<lambda>x. if x = r0 then abandoned M lease now x else x) t"
    by metis
  have "distinct t" using wf by (simp add: table_wf_def distinct_map)
  then have rest: "map (tries_left M \<circ> (\<lambda>x. if x = r0 then abandoned M lease now x else x)) (remove1 r0 t)
      = map (tries_left M) (remove1 r0 t)"
    by (intro map_cong) auto
  have "remaining M (abandon_round M lease now t) =
      tries_left M (abandoned M lease now r0) + sum_list (map (tries_left M) (remove1 r0 t))"
    unfolding remaining_def eq map_map
    using sum_list_map_remove1 [OF r0(1), of "tries_left M \<circ> (\<lambda>x. if x = r0 then abandoned M lease now x else x)"]
    by (simp add: rest)
  moreover have "remaining M t = tries_left M r0 + sum_list (map (tries_left M) (remove1 r0 t))"
    unfolding remaining_def by (rule sum_list_map_remove1 [OF r0(1)])
  moreover have "row_wf M r0" using wf r0(1) by (simp add: table_wf_def)
  ultimately show "Suc (remaining M (abandon_round M lease now t)) = remaining M t"
    using tries_left_abandoned [OF r0(2)] by simp
  have "status (abandoned M lease now r0) \<noteq> Running"
    by (cases "attempt r0 + 1 < M") (auto simp: abandoned_cases row_defs)
  with idle show "none_running (abandon_round M lease now t)"
    by (auto simp: eq none_running_def)
qed

lemma abandon_round_wf: "table_wf M t \<Longrightarrow> table_wf M (abandon_round M lease now t)"
  unfolding abandon_round_def by (metis claim_wf prod.collapse reaper_tick_wf)

lemma abandon_round_idle:
  assumes "none_running t" and "\<forall>r\<in>set t. status r \<noteq> Queued"
  shows "abandon_round M lease now t = t"
proof -
  have "claim {} now lease t = (None, t)" using assms(2) by (simp add: claim_None_iff claimable_def)
  moreover have "map (reaper_row M n) t = t" for n
    using assms(1) by (intro map_idI) (simp add: none_running_def reaper_row_idle)
  ultimately show ?thesis by (simp add: abandon_round_def reaper_tick_rows)
qed

text \<open>How a row of the start and the row at the same place later are related.\<close>

definition given_up :: "int \<Rightarrow> tool_run \<Rightarrow> bool" where
  "given_up M x \<longleftrightarrow> status x = Failed \<and> attempt x = M \<and> error_json x = Some exhausted_error"

definition drained_to :: "int \<Rightarrow> tool_run \<Rightarrow> tool_run \<Rightarrow> bool" where
  "drained_to M r x \<longleftrightarrow> (if status r = Queued then run_id x = run_id r \<and> (status x = Queued \<or> given_up M x)
                        else x = r)"

lemma drained_abandoned:
  assumes "drained_to M r x" and x: "status x = Queued" and "row_wf M x"
  shows "drained_to M r (abandoned M lease now x)"
proof -
  have r: "status r = Queued" "run_id x = run_id r"
    using assms(1) x by (cases "status r = Queued"; simp add: drained_to_def)+
  have bound: "attempt x < M" using assms(3) x by (simp add: row_wf_def)
  show ?thesis
  proof (cases "attempt x + 1 < M")
    case True
    then show ?thesis using r by (simp add: abandoned_cases drained_to_def row_defs)
  next
    case False
    with bound have "attempt x + 1 = M" by simp
    with False show ?thesis using r by (simp add: abandoned_cases drained_to_def given_up_def row_defs)
  qed
qed

lemma abandon_rounds:
  assumes "table_wf M u" and "none_running u" and "list_all2 (drained_to M) t u" and "remaining M u \<le> length nows"
  shows "let v = fold (abandon_round M lease) nows u in
           list_all2 (drained_to M) t v \<and> (\<forall>r\<in>set v. status r \<noteq> Queued \<and> status r \<noteq> Running)"
  using assms
proof (induction nows arbitrary: u)
  case Nil
  then have "\<forall>r\<in>set u. tries_left M r = 0" by (simp add: remaining_def)
  then have "status r \<noteq> Queued" if "r \<in> set u" for r
    using that Nil(1) unfolding tries_left_def table_wf_def row_wf_def
    by (metis diff_gt_0_iff_gt nat_0_iff not_le)
  with Nil show ?case by (simp add: none_running_def)
next
  case (Cons now nows)
  show ?case
  proof (cases "\<exists>r\<in>set u. status r = Queued")
    case True
    note st = abandon_round_step [OF Cons.prems(1,2) True, of lease now]
    from abandon_round_picks [OF Cons.prems(1,2) True] obtain r0 where r0: "r0 \<in> set u" "status r0 = Queued"
      and eq: "abandon_round M lease now u = map (\<lambda>x. if x = r0 then abandoned M lease now x else x) u"
      by metis
    have "row_wf M r0" using Cons.prems(1) r0 by (simp add: table_wf_def)
    then have "list_all2 (drained_to M) t (abandon_round M lease now u)"
      using Cons.prems(3) r0(2) unfolding eq list_all2_conv_all_nth
      by (auto intro: drained_abandoned)
    with Cons.IH [OF abandon_round_wf [OF Cons.prems(1)] st(2)] st(1) Cons.prems(4)
    show ?thesis by simp
  next
    case False
    then have id: "abandon_round M lease now u = u"
      using Cons.prems(2) by (intro abandon_round_idle) auto
    have "remaining M u = 0" using False by (simp add: remaining_def tries_left_def)
    with Cons.IH [OF Cons.prems(1,2,3)] show ?thesis by (simp add: id)
  qed
qed

end
