(* ===== verification/JobSystem.thy ===== *)
theory JobSystem
  imports Worker JobMachine
begin

text \<open>
  The job subsystem as a whole: callers enqueue, artifacts are uploaded, workers claim
  and report, the reaper runs, in any order and with any failures. Two invariants that
  span the components: a tenant's job only ever sees the tenant's artifacts, and a
  caller never has more active jobs than the quota allows.
\<close>

text \<open>The registries are those of the process: callers and workers share them.\<close>

definition env_of :: "tool_spec registry \<Rightarrow> 'x executor_entry registry \<Rightarrow> 'x worker_env \<Rightarrow> bool" where
  "env_of specs execs env \<longleftrightarrow> w_specs env = specs \<and> w_executors env = execs"

inductive job_sys_step ::
  "tool_spec registry \<Rightarrow> 'x executor_entry registry \<Rightarrow> job_db \<Rightarrow> job_db \<Rightarrow> bool" for specs execs where
  request: "enqueue env specs req subject fresh now today db = (res, db') \<Longrightarrow>
     fresh \<notin> run_id ` set (jobs db) \<Longrightarrow> job_sys_step specs execs db db'"
| upload: "art_id a \<notin> art_id ` set (artifacts db) \<Longrightarrow>
     job_sys_step specs execs db (db\<lparr>artifacts := artifacts db @ [a]\<rparr>)"
| take: "env_of specs execs env \<Longrightarrow> worker_claim env locked now db = (res, db') \<Longrightarrow>
     job_sys_step specs execs db db'"
| store: "env_of specs execs env \<Longrightarrow> worker_finish env now run outcome (db, log) = (res, (db', log')) \<Longrightarrow>
     run_id run \<in> run_id ` set (jobs db) \<Longrightarrow> job_sys_step specs execs db db'"
| keep_alive: "job_sys_step specs execs db (db\<lparr>jobs := heartbeat i now LEASE_DURATION (jobs db)\<rparr>)"
| reap: "job_sys_step specs execs db (db\<lparr>jobs := reaper_tick MAX_ATTEMPTS now (jobs db)\<rparr>)"

inductive job_sys_reach ::
  "tool_spec registry \<Rightarrow> 'x executor_entry registry \<Rightarrow> quota_db \<Rightarrow> job_db \<Rightarrow> bool" for specs execs acc where
  start: "job_sys_reach specs execs acc \<lparr>jobs = [], artifacts = [], links = [], accounts = acc\<rparr>"
| step: "job_sys_reach specs execs acc db \<Longrightarrow> job_sys_step specs execs db db' \<Longrightarrow> job_sys_reach specs execs acc db'"

section \<open>Invariants of the tables\<close>

text \<open>Every statement on the job table changes rows in place, keeping owner and project.\<close>

definition same_rows :: "run_table \<Rightarrow> run_table \<Rightarrow> bool" where
  "same_rows t t' \<longleftrightarrow>
     map (\<lambda>r. (run_id r, project_id r, actor_user_id r)) t' = map (\<lambda>r. (run_id r, project_id r, actor_user_id r)) t"

lemma same_rows_refl [simp]: "same_rows t t"
  by (simp add: same_rows_def)

lemma same_rows_trans [trans]: "same_rows t u \<Longrightarrow> same_rows u v \<Longrightarrow> same_rows t v"
  by (simp add: same_rows_def)

lemma row_projects [frame_simps]:
  "project_id (start_run now l r) = project_id r" "project_id (complete_row now j k o1 e r) = project_id r"
  "project_id (fail_row now j e r) = project_id r" "project_id (extend_lease now l r) = project_id r"
  "project_id (requeue_row r) = project_id r" "project_id (exhaust_row now r) = project_id r"
  by (simp_all add: row_defs)

lemma same_rows_update:
  "(\<And>r. run_id (f r) = run_id r) \<Longrightarrow> (\<And>r. project_id (f r) = project_id r) \<Longrightarrow>
   (\<And>r. actor_user_id (f r) = actor_user_id r) \<Longrightarrow> same_rows t (update_where p f t)"
  unfolding same_rows_def by (intro map_update_where [symmetric, THEN sym]) simp

lemma same_rows_ops:
  "same_rows t (complete i now j k o1 e t)" "same_rows t (fail i now j e t)"
  "same_rows t (heartbeat i now l t)"
  unfolding complete_def fail_def heartbeat_def
  by (intro same_rows_update; simp add: frame_simps)+

lemma same_rows_reaper: "same_rows t (reaper_tick M now t)"
  unfolding reaper_tick_def reclaim_expired_def fail_exhausted_def Let_def snd_conv
  by (rule same_rows_trans [OF same_rows_update same_rows_update]) (simp_all add: frame_simps)

lemma same_rows_claim: "claim locked now l t = (res, t') \<Longrightarrow> same_rows t t'"
  by (cases res) (auto simp: claim_None_iff frame_simps elim!: claim_Some intro!: same_rows_update)

lemma same_rows_ids: "same_rows t t' \<Longrightarrow> map run_id t' = map run_id t"
  unfolding same_rows_def by (drule arg_cong [where f = "map fst"]) (simp add: comp_def)

lemma same_rows_project:
  assumes "same_rows t t'" and "r \<in> set t'"
  shows "\<exists>s\<in>set t. run_id s = run_id r \<and> project_id s = project_id r"
proof -
  from assms have "(run_id r, project_id r, actor_user_id r) \<in> set (map (\<lambda>r. (run_id r, project_id r, actor_user_id r)) t)"
    unfolding same_rows_def by (metis (mono_tags, lifting) image_eqI list.set_map)
  then show ?thesis by auto
qed

text \<open>Isolation of the projects, with what it rests on.\<close>

definition isolated :: "job_db \<Rightarrow> bool" where
  "isolated db \<longleftrightarrow>
     distinct (map run_id (jobs db)) \<and> distinct (map art_id (artifacts db)) \<and>
     (\<forall>r a role. (r, a, role) \<in> set (links db) \<longrightarrow> r \<in> run_id ` set (jobs db)) \<and>
     (\<forall>r a. (r, a, InputRole) \<in> set (links db) \<longrightarrow>
        (\<forall>run\<in>set (jobs db). run_id run = r \<longrightarrow>
           (\<exists>row\<in>set (artifacts db). art_id row = a \<and> art_project row = project_id run)))"

lemma isolated_same_rows:
  assumes "isolated db" and "same_rows (jobs db) t"
  shows "isolated (db\<lparr>jobs := t\<rparr>)"
proof -
  have ids: "map run_id t = map run_id (jobs db)" by (rule same_rows_ids [OF assms(2)])
  then have "run_id ` set t = run_id ` set (jobs db)" by (metis list.set_map)
  moreover have "\<exists>row\<in>set (artifacts db). art_id row = a \<and> art_project row = project_id run"
    if "(r, a, InputRole) \<in> set (links db)" "run \<in> set t" "run_id run = r" for r a run
    using same_rows_project [OF assms(2) that(2)] assms(1) that unfolding isolated_def by metis
  ultimately show ?thesis using assms(1) unfolding isolated_def by (auto simp: ids)
qed

lemma isolated_link_output:
  "isolated db \<Longrightarrow> r \<in> run_id ` set (jobs db) \<Longrightarrow> isolated (link_artifact r a OutputRole db)"
  unfolding isolated_def by (auto simp: frame_simps)

lemma isolated_link_outputs:
  "isolated db \<Longrightarrow> r \<in> run_id ` set (jobs db) \<Longrightarrow> isolated (link_outputs r as db)"
  unfolding link_outputs_def
  by (induction as arbitrary: db) (simp_all add: isolated_link_output frame_simps)

lemma isolated_enqueue:
  assumes "enqueue env specs req subject fresh now today db = (res, db')"
    and fresh: "fresh \<notin> run_id ` set (jobs db)" and iso: "isolated db"
  shows "isolated db'"
proof (cases res)
  case (Inl e)
  with assms show ?thesis using enqueue_Inl by metis
next
  case (Inr i)
  with assms(1) obtain spec ids where
    val: "enqueue_validate env specs (artifacts db) req = Inr (spec, ids)"
    and tx: "enqueue_tx env spec ids req subject fresh now today db = Inr db'"
    by (auto elim: enqueue_Inr)
  let ?r = "request_row spec req subject fresh now"
  have row: "run_id ?r = fresh" "project_id ?r = req_project req"
    by (simp_all add: request_row_def new_run_def)
  note tx' = enqueue_tx_Inr [OF tx]
  have old: "r \<in> run_id ` set (jobs db)" if "(r, a, role) \<in> set (links db)" for r a role
    using that iso unfolding isolated_def by blast
  have "\<exists>row\<in>set (artifacts db'). art_id row = a \<and> art_project row = project_id run"
    if l: "(r, a, InputRole) \<in> set (links db')" and run: "run \<in> set (jobs db')" "run_id run = r" for r a run
  proof (cases "r = fresh")
    case True
    then have "run = ?r" using run fresh by (auto simp: tx'(1))
    moreover have "a \<in> set ids" using l True old fresh by (auto simp: tx'(3))
    ultimately show ?thesis using enqueue_validate_Inr(5) [OF val] by (auto simp: tx'(2) row)
  next
    case False
    then have "run \<in> set (jobs db)" using run by (auto simp: tx'(1) row)
    moreover have "(r, a, InputRole) \<in> set (links db)" using l False by (auto simp: tx'(3))
    ultimately show ?thesis using iso run(2) unfolding isolated_def by (auto simp: tx'(2))
  qed
  moreover have "r \<in> run_id ` set (jobs db')" if "(r, a, role) \<in> set (links db')" for r a role
    using that old by (auto simp: tx'(1,3) row)
  ultimately show ?thesis
    using iso fresh unfolding isolated_def by (auto simp: tx'(1,2) row)
qed

text \<open>Storing an outcome: the table's rows stay, and at most output links are added.\<close>

lemma store_result_cases:
  "\<exists>as f. store_result env now run res db = db \<or>
     store_result env now run res db = link_outputs (run_id run) as db \<or>
     store_result env now run res db = put_complete (run_id run) now res (link_outputs (run_id run) as db)"
  unfolding store_result_def unscoped_complete_def Let_def by (auto split: option.splits)

lemma worker_finish_cases:
  assumes "worker_finish env now run outcome (db, log) = (res, (db', log'))"
  shows "db' = db \<or> (\<exists>as. db' = link_outputs (run_id run) as db) \<or>
     (\<exists>as r. db' = put_complete (run_id run) now r (link_outputs (run_id run) as db)) \<or>
     (\<exists>err. db' = db\<lparr>jobs := fail (run_id run) now err None (jobs db)\<rparr>)"
proof (cases outcome)
  case (RunOk r)
  with assms have "db' = store_result env now run r db"
    by (auto simp: worker_finish_def Let_def audit_def split: if_splits)
  with store_result_cases [of env now run r db] show ?thesis by metis
qed (use assms in \<open>auto simp: worker_finish_def Let_def audit_def scoped_fail_def
        split: if_splits option.splits sum.splits prod.splits\<close>)

lemma isolated_put_complete: "isolated db \<Longrightarrow> isolated (put_complete i now res db)"
  unfolding put_complete_def by (intro isolated_same_rows same_rows_ops)

lemma job_sys_step_isolated: "job_sys_step specs execs db db' \<Longrightarrow> isolated db \<Longrightarrow> isolated db'"
proof (induction rule: job_sys_step.induct)
  case (request env req subject fresh now today db res db')
  then show ?case by (rule isolated_enqueue)
next
  case (upload a db)
  then show ?case unfolding isolated_def by auto
next
  case (take env locked now db res db')
  then show ?case
    by (auto simp: worker_claim_def split: option.splits prod.splits
        intro!: isolated_same_rows dest: same_rows_claim)
next
  case (store env now run outcome db log res db' log')
  then show ?case
    using worker_finish_cases [OF store(2)]
    by (auto intro!: isolated_put_complete isolated_link_outputs intro: isolated_same_rows same_rows_ops)
next
  case (keep_alive db i now)
  then show ?case by (intro isolated_same_rows same_rows_ops)
next
  case (reap db now)
  then show ?case by (intro isolated_same_rows same_rows_reaper)
qed

lemma job_sys_reach_isolated: "job_sys_reach specs execs acc db \<Longrightarrow> isolated db"
proof (induction rule: job_sys_reach.induct)
  case start
  then show ?case by (simp add: isolated_def)
next
  case (step db db')
  then show ?case by (blast intro: job_sys_step_isolated)
qed

section \<open>Active jobs and the quota\<close>

definition active_for :: "uuid \<Rightarrow> tool_run \<Rightarrow> bool" where
  "active_for uid r \<longleftrightarrow> actor_user_id r = Some uid \<and> (status r = Queued \<or> status r = Running)"

lemma count_active_alt: "count_active_runs t uid = length (filter (active_for uid) t)"
  by (simp add: count_active_runs_def active_for_def [abs_def])

lemma count_active_update:
  assumes "\<And>r. r \<in> set t \<Longrightarrow> p r \<Longrightarrow> active_for uid (f r) \<Longrightarrow> active_for uid r"
  shows "count_active_runs (update_where p f t) uid \<le> count_active_runs t uid"
  using assms unfolding count_active_alt update_where_def by (induction t) auto

lemma count_active_finish:
  "count_active_runs (complete i now j k o1 e t) uid \<le> count_active_runs t uid"
  "count_active_runs (fail i now j2 e2 t) uid \<le> count_active_runs t uid"
  "count_active_runs (heartbeat i now l t) uid \<le> count_active_runs t uid"
  unfolding complete_def fail_def heartbeat_def
  by (intro count_active_update; simp add: active_for_def row_defs)+

lemma count_active_reaper: "count_active_runs (reaper_tick M now t) uid \<le> count_active_runs t uid"
  unfolding reaper_tick_def reclaim_expired_def fail_exhausted_def Let_def snd_conv
  by (rule order_trans [OF count_active_update count_active_update])
    (auto simp: active_for_def row_defs lease_expired_def)

lemma count_active_claim:
  assumes "claim locked now l t = (res, t')" and "distinct (map run_id t)"
  shows "count_active_runs t' uid \<le> count_active_runs t uid"
proof (cases res)
  case None
  with assms show ?thesis by (simp add: claim_None_iff)
next
  case (Some r)
  with assms(1) obtain r0 where r0: "r0 \<in> set t" "claimable locked r0"
    and t': "t' = update_where (\<lambda>x. run_id x = run_id r0) (start_run now l) t"
    by (auto elim: claim_Some)
  show ?thesis unfolding t'
  proof (rule count_active_update)
    fix x assume "x \<in> set t" "run_id x = run_id r0" "active_for uid (start_run now l x)"
    moreover from this assms(2) r0 have "x = r0" by (auto simp: distinct_map inj_on_def)
    ultimately show "active_for uid x" using r0 by (simp add: active_for_def claimable_def start_run_def)
  qed
qed

definition within_quota :: "quota_db \<Rightarrow> job_db \<Rightarrow> bool" where
  "within_quota acc db \<longleftrightarrow> quotas (accounts db) = quotas acc \<and>
     (\<forall>uid q. quotas acc uid = Some q \<longrightarrow> int (count_active_runs (jobs db) uid) \<le> max 0 (max_concurrent_runs q))"

lemma within_quota_le:
  assumes "within_quota acc db" and "quotas (accounts db') = quotas (accounts db)"
    and "\<And>uid. count_active_runs (jobs db') uid \<le> count_active_runs (jobs db) uid"
  shows "within_quota acc db'"
  using assms unfolding within_quota_def by (metis of_nat_mono order_trans)

lemma within_quota_enqueue:
  assumes "enqueue env specs req subject fresh now today db = (res, db')" and wq: "within_quota acc db"
  shows "within_quota acc db'"
proof (cases res)
  case (Inl e)
  with assms show ?thesis using enqueue_Inl by metis
next
  case (Inr i)
  with assms(1) obtain spec ids where
    tx: "enqueue_tx env spec ids req subject fresh now today db = Inr db'"
    by (auto elim: enqueue_Inr)
  note tx' = enqueue_tx_Inr [OF tx]
  have "int (count_active_runs (jobs db') uid) \<le> max 0 (max_concurrent_runs q)"
    if q: "quotas acc uid = Some q" for uid q
  proof (cases "req_actor req = Some uid")
    case True
    with q wq have "int (count_active_runs (jobs db) uid) < max_concurrent_runs q"
      by (intro tx'(4)) (auto simp: within_quota_def get_quota_def)
    then show ?thesis
      using True by (simp add: tx'(1) count_active_alt active_for_def request_row_def new_run_def)
  next
    case False
    with q wq show ?thesis
      by (simp add: tx'(1) count_active_alt active_for_def request_row_def new_run_def within_quota_def)
  qed
  with wq show ?thesis by (simp add: within_quota_def tx'(5))
qed

lemma job_sys_step_quota:
  "job_sys_step specs execs db db' \<Longrightarrow> isolated db \<Longrightarrow> within_quota acc db \<Longrightarrow> within_quota acc db'"
proof (induction rule: job_sys_step.induct)
  case (request env req subject fresh now today db res db')
  then show ?case by (blast intro: within_quota_enqueue)
next
  case (upload a db)
  then show ?case by (simp add: within_quota_def)
next
  case (take env locked now db res db')
  then have "distinct (map run_id (jobs db))" by (simp add: isolated_def)
  with take show ?case
    by (elim within_quota_le)
      (auto simp: worker_claim_def split: option.splits prod.splits dest: count_active_claim)
next
  case (store env now run outcome db log res db' log')
  then show ?case
    using worker_finish_cases [OF store(2)]
    by (elim within_quota_le)
      (auto simp: frame_simps put_complete_def intro: count_active_finish)
next
  case (keep_alive db i now)
  then show ?case by (elim within_quota_le) (simp_all add: count_active_finish)
next
  case (reap db now)
  then show ?case by (elim within_quota_le) (simp_all add: count_active_reaper)
qed

lemma job_sys_reach_quota: "job_sys_reach specs execs acc db \<Longrightarrow> within_quota acc db"
proof (induction rule: job_sys_reach.induct)
  case start
  then show ?case by (simp add: within_quota_def count_active_runs_def)
next
  case (step db db')
  then show ?case by (blast intro: job_sys_step_quota job_sys_reach_isolated)
qed

end
