(* ===== verification/JobProps.thy ===== *)
theory JobProps
  imports JobSystem
begin

text \<open>
  The properties of the job subsystem, each with a concrete instance. The sample data
  describe one tool with one artifact parameter, one project and one caller.
\<close>

section \<open>Sample data\<close>

definition sample_schema :: json where
  "sample_schema = JObj [(''type'', JStr ''object''),
     (''properties'', JObj [(''artifact_id'', JObj [(''$ref'', JStr ''#/$defs/ArtifactId'')])])]"

definition sample_spec :: tool_spec where
  "sample_spec = \<lparr>spec_name = ''file.info'', spec_version = 1, deprecated = False, description = [],
     input_schema = sample_schema, policy = default_tool_policy, output_redirect = RedirectAllowed\<rparr>"

definition sample_specs :: "tool_spec registry" where
  "sample_specs = [(''file.info'', [(1, sample_spec)])]"

definition sample_executors :: "unit executor_entry registry" where
  "sample_executors = [(''file.info'', [(1, InProcess ())])]"

definition sample_env :: enq_env where
  "sample_env = \<lparr>parse_uuid = (\<lambda>s. if s = ''a'' then Some 5 else None), show_uuid = show_nat,
     ser_len = (\<lambda>_. Inr 10), db_fault = (\<lambda>_. None)\<rparr>"

definition sample_request :: tool_request where
  "sample_request = \<lparr>req_tool_name = ''file.info'', req_input = JObj [(''artifact_id'', JStr ''a'')],
     req_project = 7, req_thread = None, req_parent = None, req_actor = Some 3\<rparr>"

definition sample_accounts :: quota_db where
  "sample_accounts = \<lparr>quotas = (\<lambda>u. if u = 3 then Some default_quota else None),
     usage_daily = (\<lambda>_. None), storage_bytes_used = (\<lambda>_. None)\<rparr>"

definition sample_artifact :: artifact_row where
  "sample_artifact = \<lparr>art_id = 5, art_project = 7, art_sha256 = ''ff''\<rparr>"

definition sample_start :: job_db where
  "sample_start = \<lparr>jobs = [], artifacts = [sample_artifact], links = [], accounts = sample_accounts\<rparr>"

definition sample_db :: job_db where
  "sample_db = snd (enqueue sample_env sample_specs sample_request None 1 100 0 sample_start)"

definition sample_worker :: "unit worker_env" where
  "sample_worker = \<lparr>w_specs = sample_specs, w_executors = sample_executors,
     blobs = (\<lambda>s. if s = ''ff'' then Some \<lparr>storage_path = ''/b/ff'', size_bytes = 4\<rparr> else None),
     validate = (\<lambda>_ _ _. None),
     execute = (\<lambda>_ _ _. Inr \<lparr>kind = InlineJson, res_output = JNull, res_stdout = None,
                              res_stderr = None, produced_artifacts = []\<rparr>),
     execute_oop = (\<lambda>_ _ _ _. Inl heartbeat_lost_error), heartbeat_lost = False,
     w_fault = (\<lambda>_. None)\<rparr>"

text \<open>The samples are evaluated by rewriting, one call after the other.\<close>

lemma sample_paths: "resolve_schema_paths sample_schema = [''/artifact_id'']"
  by (simp add: resolve_schema_paths_def sample_schema_def walk_schema.simps is_artifact_ref_def
      MAX_DEPTH_def child_path_def)

lemma sample_validate:
  "enqueue_validate sample_env sample_specs [sample_artifact] sample_request = Inr (sample_spec, [5])"
proof -
  have "reg_get_latest sample_specs ''file.info'' = Some sample_spec"
    by (simp add: reg_get_latest_def sample_specs_def bt_last_def)
  moreover have "json_depth_bounded (req_input sample_request) 17 = 1"
    by (simp add: json_depth_bounded_eq sample_request_def)
  moreover have "extract_artifact_ids (parse_uuid sample_env) (req_input sample_request) [''/artifact_id''] = Inr [5]"
    by (simp add: extract_artifact_ids_def path_parts_def sample_env_def sample_request_def)
  ultimately show ?thesis
    by (simp add: enqueue_validate_def sample_paths sample_spec_def [THEN arg_cong [where f = input_schema]]
        sample_spec_def [THEN arg_cong [where f = policy]] default_tool_policy_def sample_env_def
        sample_request_def invalid_ids_def get_artifacts_by_ids_def sample_artifact_def)
qed

definition sample_job :: tool_run where
  "sample_job = request_row sample_spec sample_request None 1 100"

lemma sample_tx:
  "\<exists>db. enqueue_tx sample_env sample_spec [5] sample_request None 1 100 0 sample_start = Inr db"
  by (simp add: enqueue_tx_def stmt_def sample_env_def sample_request_def quota_check_def
      sample_start_def sample_accounts_def get_quota_def count_active_runs_def over_quota_def
      default_quota_def count_use_def record_tool_run_def usage_of_def zero_usage_def checked_def
      fits_def insert_job_def Let_def)

lemma sample_enqueue: "enqueue sample_env sample_specs sample_request None 1 100 0 sample_start = (Inr 1, sample_db)"
proof -
  have "artifacts sample_start = [sample_artifact]" by (simp add: sample_start_def)
  with sample_tx show ?thesis
    by (auto simp: sample_db_def enqueue_def sample_validate)
qed

lemma sample_db_reach: "job_sys_reach sample_specs sample_executors sample_accounts sample_db"
proof -
  have "job_sys_reach sample_specs sample_executors sample_accounts
          (\<lparr>jobs = [], artifacts = [], links = [], accounts = sample_accounts\<rparr>
             \<lparr>artifacts := artifacts \<lparr>jobs = [], artifacts = [], links = [], accounts = sample_accounts\<rparr> @ [sample_artifact]\<rparr>)"
    by (intro job_sys_reach.step [OF job_sys_reach.start] job_sys_step.upload) simp
  then have "job_sys_reach sample_specs sample_executors sample_accounts sample_start"
    by (simp add: sample_start_def)
  moreover have "job_sys_step sample_specs sample_executors sample_start sample_db"
    unfolding sample_db_def
    by (rule job_sys_step.request [OF sample_enqueue [unfolded sample_db_def]]) (simp add: sample_start_def)
  ultimately show ?thesis by (rule job_sys_reach.step)
qed

lemma sample_jobs:
  shows "jobs sample_db = [sample_job]" and "artifacts sample_db = [sample_artifact]"
    and "set (links sample_db) = {(1, 5, InputRole)}"
proof -
  obtain spec ids where "enqueue_validate sample_env sample_specs (artifacts sample_start) sample_request = Inr (spec, ids)"
    and tx: "enqueue_tx sample_env spec ids sample_request None 1 100 0 sample_start = Inr sample_db"
    using enqueue_Inr [OF sample_enqueue] by metis
  then have "spec = sample_spec" "ids = [5]" by (simp_all add: sample_start_def sample_validate)
  with enqueue_tx_Inr(1-3) [OF tx] show "jobs sample_db = [sample_job]" "artifacts sample_db = [sample_artifact]"
    "set (links sample_db) = {(1, 5, InputRole)}"
    by (simp_all add: sample_start_def sample_job_def)
qed

text \<open>
  C1. Tenant isolation: whatever the callers, the workers and the reaper have done, the
  context a worker builds for a job contains only artifacts of the job's own project.
\<close>

theorem context_isolated:
  assumes "job_sys_reach specs execs acc db" and "run \<in> set (jobs db)"
    and "build_context env db run = Inr ctx" and "ref \<in> set (ctx_artifacts ctx)"
  shows "\<exists>row\<in>set (artifacts db). art_id row = ref_id ref \<and> art_project row = project_id run \<and>
           ctx_project ctx = project_id run"
proof -
  have "ref_id ref \<in> ref_id ` set (ctx_artifacts ctx)" using assms(4) by simp
  note ids = build_context_ids [OF assms(3) this]
  with job_sys_reach_isolated [OF assms(1)] assms(2) show ?thesis
    unfolding isolated_def by metis
qed

definition sample_ref :: artifact_ref where
  "sample_ref = \<lparr>ref_id = 5, ref_sha256 = ''ff'', ref_path = ''/b/ff'', ref_size = 4\<rparr>"

lemma sample_context:
  "build_context sample_worker (sample_db\<lparr>links := [(1, 5, InputRole)]\<rparr>) sample_job =
      Inr \<lparr>ctx_project = 7, ctx_run = 1, ctx_actor = Some 3, ctx_artifacts = [sample_ref]\<rparr>"
  by (simp add: build_context_def sample_worker_def sample_job_def request_row_def new_run_def
      sample_request_def get_for_run_def sample_jobs get_artifacts_by_ids_def sample_artifact_def
      sample_ref_def)

lemma sample_links: "links sample_db = [(1, 5, InputRole)]"
proof -
  obtain spec ids where "enqueue_validate sample_env sample_specs (artifacts sample_start) sample_request = Inr (spec, ids)"
    and tx: "enqueue_tx sample_env spec ids sample_request None 1 100 0 sample_start = Inr sample_db"
    using enqueue_Inr [OF sample_enqueue] by metis
  then have "spec = sample_spec" "ids = [5]" by (simp_all add: sample_start_def sample_validate)
  with tx show ?thesis
    by (auto simp: enqueue_tx_def insert_job_def error_iff link_artifact_def sample_start_def
        sample_request_def split: if_splits dest!: quota_check_Inr(3) dest: arg_cong [where f = links])
qed

lemma links_update_same: "links db = l \<Longrightarrow> db\<lparr>links := l\<rparr> = (db :: job_db)"
  by (cases db) simp

theorem context_isolated_witness:
  "\<exists>row\<in>set (artifacts sample_db). art_id row = 5 \<and> art_project row = 7"
proof -
  have "sample_db\<lparr>links := [(1, 5, InputRole)]\<rparr> = sample_db"
    by (rule links_update_same) (rule sample_links)
  then have ctx: "build_context sample_worker sample_db sample_job =
      Inr \<lparr>ctx_project = 7, ctx_run = 1, ctx_actor = Some 3, ctx_artifacts = [sample_ref]\<rparr>"
    using sample_context by simp
  have "sample_job \<in> set (jobs sample_db)" by (simp add: sample_jobs)
  from context_isolated [OF sample_db_reach this ctx, of sample_ref] show ?thesis
    by (simp add: sample_ref_def sample_job_def request_row_def new_run_def sample_request_def)
qed

text \<open>
  C6. The concurrency quota: at every moment a caller with an account has at most
  \<open>max_concurrent_runs\<close> jobs that are queued or running, over all interleavings of
  requests, workers and reaper passes.
\<close>

theorem concurrency_quota:
  assumes "job_sys_reach specs execs acc db" and "quotas acc uid = Some q"
  shows "int (count_active_runs (jobs db) uid) \<le> max 0 (max_concurrent_runs q)"
  using job_sys_reach_quota [OF assms(1)] assms(2) by (simp add: within_quota_def)

theorem concurrency_quota_witness:
  "count_active_runs (jobs sample_db) 3 = 1 \<and> int (count_active_runs (jobs sample_db) 3) \<le> 5"
proof -
  have "count_active_runs (jobs sample_db) 3 = 1"
    by (simp add: sample_jobs count_active_runs_def sample_job_def request_row_def new_run_def sample_request_def)
  moreover have "quotas sample_accounts 3 = Some default_quota" by (simp add: sample_accounts_def)
  ultimately show ?thesis
    using concurrency_quota [OF sample_db_reach, of 3 default_quota] by (simp add: default_quota_def)
qed

text \<open>
  C7. Bounded retries: in every reachable state of the job machine, with crashes, late
  reports and reaper passes interleaved freely, no job has been handed to a worker more
  than \<open>MAX_ATTEMPTS\<close> times, and every row of the table is well formed.
\<close>

theorem bounded_attempts:
  assumes "job_reachable s"
  shows "int (handed_out s i) \<le> MAX_ATTEMPTS \<and> table_wf MAX_ATTEMPTS (runs s)"
  using job_inv_handed_out job_inv_table job_reachable_inv [OF assms] by blast

definition sample_row :: tool_run where
  "sample_row = new_run 1 100 7 ''file.info'' 1 JNull None None None (Some 3)"

definition sample_sys :: job_sys where
  "sample_sys = job_init\<lparr>runs := [sample_row]\<rparr>"

lemma sample_sys_reach: "job_reachable sample_sys"
proof -
  have "job_step job_init (job_init\<lparr>runs := enqueue_run sample_row (runs job_init)\<rparr>)"
    unfolding sample_row_def by (rule job_step.enqueue) (simp add: job_init_def)
  then show ?thesis
    using job_reachable.step [OF job_reachable.init]
    by (simp add: sample_sys_def enqueue_run_def job_init_def)
qed

definition sample_taken :: job_sys where
  "sample_taken = sample_sys\<lparr>runs := [start_run 200 LEASE_DURATION sample_row], inflight := [1],
     handed_out := (handed_out sample_sys)(1 := 1)\<rparr>"

lemma sample_taken_reach: "job_reachable sample_taken"
proof -
  have "claim {} 200 LEASE_DURATION (runs sample_sys) =
      (Some (start_run 200 LEASE_DURATION sample_row), [start_run 200 LEASE_DURATION sample_row])"
    by (simp add: sample_sys_def job_init_def claim_def oldest_def claimable_def sample_row_def
        new_run_def update_where_def)
  from job_step.hand_out [OF this]
  have "job_step sample_sys sample_taken"
    by (simp add: sample_taken_def sample_row_def new_run_def start_run_def sample_sys_def job_init_def)
  with sample_sys_reach show ?thesis by (rule job_reachable.step)
qed

theorem bounded_attempts_witness:
  "handed_out sample_taken 1 = 1 \<and> int (handed_out sample_taken 1) \<le> MAX_ATTEMPTS"
  using bounded_attempts [OF sample_taken_reach, of 1] by (simp add: sample_taken_def)

text \<open>
  C16. The queue drains even if every worker dies with its job: starting from a
  well-formed table with no running job, after as many rounds (one claim, then the
  reaper once the lease is over) as there are attempts left, every job that was queued
  has failed with the reaper's error after exactly \<open>M\<close> attempts, and every other job is
  untouched.
\<close>

theorem abandoned_queue_drains:
  assumes "table_wf M t" and "none_running t" and "remaining M t \<le> length nows"
  shows "list_all2 (\<lambda>r x. if status r = Queued
             then run_id x = run_id r \<and> status x = Failed \<and> attempt x = M \<and> error_json x = Some exhausted_error
             else x = r)
           t (fold (abandon_round M lease) nows t)"
proof -
  have "list_all2 (drained_to M) t t" by (simp add: list.rel_refl drained_to_def)
  from abandon_rounds [OF assms(1,2) this assms(3), of lease]
  have rel: "list_all2 (drained_to M) t (fold (abandon_round M lease) nows t)"
    and fin: "\<forall>r\<in>set (fold (abandon_round M lease) nows t). status r \<noteq> Queued \<and> status r \<noteq> Running"
    by (simp_all add: Let_def)
  show ?thesis
    by (rule list.rel_mono_strong [OF rel]) (use fin in \<open>auto simp: drained_to_def given_up_def\<close>)
qed

theorem abandoned_queue_drains_witness:
  "list_all2 (\<lambda>r x. if status r = Queued
             then run_id x = run_id r \<and> status x = Failed \<and> attempt x = 3 \<and> error_json x = Some exhausted_error
             else x = r)
     [sample_row] (fold (abandon_round 3 10) [200, 300, 400] [sample_row])"
proof (rule abandoned_queue_drains)
  show "table_wf 3 [sample_row]" by (simp add: table_wf_def sample_row_def new_run_wf)
  show "none_running [sample_row]" by (simp add: none_running_def sample_row_def new_run_def)
  show "remaining 3 [sample_row] \<le> length [200, 300, 400 :: instant]"
    by (simp add: remaining_def tries_left_def sample_row_def new_run_def)
qed

text \<open>
  C17. No lost job: with registries that pass the start-up validation, a job that was
  enqueued for a tool (other than the exempt internal ones) always finds its
  specification and its executor again when a worker takes it, whatever happened to
  the database in between: preparing it can only fail while building the context.
\<close>

theorem enqueued_job_dispatches:
  assumes "specs_keyed specs" and "validate_registries specs execs = Inr ()"
    and "enqueue env specs req subject fresh now today db = (Inr i, db')"
    and "\<not> spec_exempt (req_tool_name req)"
    and "w_specs wenv = specs" and "w_executors wenv = execs"
  shows "\<exists>run. jobs db' = jobs db @ [run] \<and> run_id run = i \<and> status run = Queued \<and>
     (\<forall>db2 e. worker_prepare wenv db2 run = Inl e \<longrightarrow> (\<exists>m. e = WContext m))"
proof -
  from assms(3) obtain spec ids where
    val: "enqueue_validate env specs (artifacts db) req = Inr (spec, ids)"
    and tx: "enqueue_tx env spec ids req subject fresh now today db = Inr db'" and i: "i = fresh"
    by (auto elim: enqueue_Inr)
  let ?run = "request_row spec req subject fresh now"
  have latest: "reg_get_latest specs (req_tool_name req) = Some spec"
    by (rule enqueue_validate_Inr(1) [OF val])
  have "reg_wf specs" using assms(1) by (simp add: specs_keyed_def)
  from reg_get_latest_Some [OF latest this]
  obtain v where v: "reg_get specs (req_tool_name req) v = Some spec" by metis
  with assms(1) have "spec_version spec = v" by (auto simp: specs_keyed_def)
  with v have "reg_get specs (tool_name ?run) (word_of_int (tool_version ?run)) = Some spec"
    by (simp add: request_row_def new_run_def)
  moreover have "reg_get execs (tool_name ?run) (word_of_int (tool_version ?run)) \<noteq> None"
    using validate_Inr [OF assms(2) latest assms(4)] by (simp add: request_row_def new_run_def)
  ultimately have "\<forall>db2 e. worker_prepare wenv db2 ?run = Inl e \<longrightarrow> (\<exists>m. e = WContext m)"
    using assms(5,6) by (auto simp: worker_prepare_def split: option.splits sum.splits)
  then show ?thesis
    using enqueue_tx_Inr(1) [OF tx] i by (intro exI [of _ ?run]) (simp add: request_row_def new_run_def)
qed

theorem enqueued_job_dispatches_witness:
  "\<exists>run. jobs sample_db = jobs sample_start @ [run] \<and> run_id run = 1 \<and> status run = Queued \<and>
     (\<forall>db2 e. worker_prepare sample_worker db2 run = Inl e \<longrightarrow> (\<exists>m. e = WContext m))"
proof (rule enqueued_job_dispatches [OF _ _ sample_enqueue])
  have "register_spec sample_spec [] = Inr sample_specs"
    by (simp add: register_spec_def reg_insert_def sample_specs_def sample_spec_def)
  then show "specs_keyed sample_specs" by (rule register_spec_keyed) simp
  show "validate_registries sample_specs sample_executors = Inr ()"
    by (simp add: validate_registries_def executor_errors_def spec_errors_def sample_specs_def
        sample_executors_def reg_list_def reg_get_def reg_get_latest_def bt_last_def sample_spec_def
        spec_exempt_def starts_with_def)
  show "\<not> spec_exempt (req_tool_name sample_request)"
    by (simp add: spec_exempt_def sample_request_def starts_with_def)
qed (simp_all add: sample_worker_def)




text \<open>
  A finished job never runs again: once every row of an identifier is completed,
  failed or cancelled, no step of the machine (late reports, heartbeats and reaper
  passes included) makes it queued or running.
\<close>

theorem finished_stays_finished:
  assumes "job_reachable s" and "job_step s t" and "all_finished_in i (runs s)"
  shows "all_finished_in i (runs t)"
  using job_step_finished [OF assms(2) job_reachable_inv [OF assms(1)] assms(3)] .

text \<open>A worker that reports after the reaper has given its job up.\<close>

definition sample_failed :: job_sys where
  "sample_failed = sample_taken\<lparr>runs := fail 1 250 JNull None (runs sample_taken), inflight := []\<rparr>"

lemma sample_failed_reach: "job_reachable sample_failed"
proof -
  have "job_step sample_taken (sample_taken\<lparr>runs := fail 1 250 JNull None (runs sample_taken),
          inflight := remove1 1 (inflight sample_taken)\<rparr>)"
    by (rule job_step.report_error) (simp add: sample_taken_def)
  with sample_taken_reach show ?thesis
    using job_reachable.step by (auto simp: sample_failed_def sample_taken_def)
qed

theorem finished_stays_finished_witness:
  "all_finished_in 1 (runs sample_failed) \<and> all_finished_in 1 (reaper_tick MAX_ATTEMPTS 900 (runs sample_failed))"
proof -
  have fin: "all_finished_in 1 (runs sample_failed)"
    by (simp add: all_finished_in_def sample_failed_def sample_taken_def fail_def update_where_def
        fail_row_def finished_def start_run_def sample_row_def new_run_def)
  with finished_stays_finished [OF sample_failed_reach job_step.reap [of sample_failed 900] fin]
  show ?thesis by simp
qed

text \<open>
  What the statements do not promise: \<^const>\<open>complete\<close> looks at the identifier only, so a
  report that arrives after a job has failed overwrites its status, and a heartbeat
  of a job that is no longer running succeeds.
\<close>

lemma late_report_overwrites_failure:
  "get_run t i = Some r \<Longrightarrow> status r = Failed \<Longrightarrow>
     (\<exists>x. get_run (complete i now j k o1 e t) i = Some x \<and> status x = Completed \<and> error_json x = error_json r)"
  unfolding complete_def
  by (subst get_run_update) (auto simp: frame_simps complete_row_def)

lemma heartbeat_of_reaped_job_succeeds:
  "get_run t i = Some r \<Longrightarrow>
     (\<exists>x. get_run (heartbeat i now l t) i = Some x \<and> status x = status r \<and> lease_expires x = Some (now + l))"
  unfolding heartbeat_def
  by (subst get_run_update) (auto simp: frame_simps extend_lease_def)

text \<open>
  An enqueue call is all or nothing: if it returns an error, the database is as
  before; if it returns an identifier, the tool is registered, the input respects the
  tool's size and nesting bounds, every artifact it names belongs to the request's
  project and is linked to the one queued row that was added.
\<close>

theorem enqueue_all_or_nothing:
  "case enqueue env specs req subject fresh now today db of
     (Inl e, db') \<Rightarrow> db' = db
   | (Inr i, db') \<Rightarrow> i = fresh \<and>
       (\<exists>spec ids len. reg_get_latest specs (req_tool_name req) = Some spec \<and>
          ser_len env (req_input req) = Inr len \<and> len \<le> max_input_bytes (policy spec) \<and>
          json_depth (req_input req) \<le> max_input_depth (policy spec) \<and>
          extract_artifact_ids (parse_uuid env) (req_input req) (resolve_schema_paths (input_schema spec)) = Inr ids \<and>
          set ids \<subseteq> art_id ` {a \<in> set (artifacts db). art_project a = req_project req} \<and>
          jobs db' = jobs db @ [request_row spec req subject fresh now] \<and>
          set (links db') = set (links db) \<union> (\<lambda>a. (fresh, a, InputRole)) ` set ids)"
proof (cases "enqueue env specs req subject fresh now today db")
  case (Pair res db')
  show ?thesis
  proof (cases res)
    case (Inl e)
    with Pair enqueue_Inl show ?thesis by fastforce
  next
    case (Inr i)
    with Pair obtain spec ids where
      val: "enqueue_validate env specs (artifacts db) req = Inr (spec, ids)"
      and tx: "enqueue_tx env spec ids req subject fresh now today db = Inr db'" and "i = fresh"
      by (auto elim: enqueue_Inr)
    moreover have "set ids \<subseteq> art_id ` {a \<in> set (artifacts db). art_project a = req_project req}"
      using enqueue_validate_Inr(5) [OF val] by fastforce
    ultimately show ?thesis
      using Pair Inr enqueue_validate_Inr(1-4) [OF val] enqueue_tx_Inr(1,3) [OF tx] by auto
  qed
qed

text \<open>
  The early-exit stack computation of the nesting depth decides the bound exactly:
  it reports more than \<open>m\<close> levels if and only if the value has more than \<open>m\<close> levels.
\<close>

theorem depth_check_exact: "m < json_depth_bounded v (m + 1) \<longleftrightarrow> m < json_depth v"
  by (auto simp: json_depth_bounded_eq)

text \<open>
  Token reservation: a granted reservation adds exactly the estimate and keeps the
  day's total within the limit; a refused or failed one changes no counter.
\<close>

theorem reserve_tokens_atomic:
  "case reserve_llm_tokens uid today est db of
     (Inr True, db') \<Rightarrow> tokens_used db' uid today = tokens_used db uid today + est \<and>
        tokens_used db' uid today \<le> llm_limit db uid
   | (_, db') \<Rightarrow> usage_of db' = usage_of db \<and> quotas db' = quotas db"
proof (cases "reserve_llm_tokens uid today est db")
  case (Pair res db')
  have q: "quotas db' = quotas db"
    using Pair by (auto simp: reserve_llm_tokens_def Let_def split: sum.splits option.splits)
  show ?thesis
  proof (cases "res = Inr True")
    case True
    with Pair reserve_llm_granted show ?thesis by auto
  next
    case False
    with Pair reserve_llm_refused [OF Pair False] q show ?thesis
      by (auto split: sum.splits bool.splits)
  qed
qed

text \<open>
  Extraction is exact: the identifiers collected for a job are those found at the
  schema's artifact paths of the input, in the order of the paths.
\<close>

theorem extraction_exact:
  assumes "extract_artifact_ids parse input paths = Inr ids"
  shows "ids = concat (map (\<lambda>path. case lookup_path input (path_parts path) of
                              None \<Rightarrow> [] | Some w \<Rightarrow> ids_here parse w) paths)"
  using extract_artifact_ids_Inr [OF assms] .

theorem extraction_exact_witness:
  "[5] = concat (map (\<lambda>path. case lookup_path (req_input sample_request) (path_parts path) of
                              None \<Rightarrow> [] | Some w \<Rightarrow> ids_here (parse_uuid sample_env) w) [''/artifact_id''])"
proof (rule extraction_exact)
  show "extract_artifact_ids (parse_uuid sample_env) (req_input sample_request) [''/artifact_id''] = Inr [5]"
    by (simp add: extract_artifact_ids_def path_parts_def sample_env_def sample_request_def)
qed

end
