(* ===== verification/Projects.thy ===== *)
theory Projects
  imports Json
begin

text \<open>
  Projects, their members and the rows that hang off a project
  (\<open>af-db/src/projects.rs\<close>, \<open>project_members.rs\<close>, \<open>threads.rs\<close>, \<open>thread_memory.rs\<close>,
  \<open>audit_log.rs\<close>, \<open>scoped.rs\<close>), with the foreign keys and the row-level security of
  \<open>af-db/migrations\<close>. Every statement is a function on the tables; a statement that
  leaves a dangling reference is an error and its transaction is rolled back.

  A table keeps the columns some statement here reads or writes; for the tables that
  are only deleted from, these are the key columns. Tables whose foreign keys all
  cascade (usage log, embeddings, rules, queues) cannot make a statement fail and are
  left out.
\<close>

section \<open>Tables\<close>

record project_row =
  proj_id :: uuid
  proj_name :: string
  proj_owner :: "uuid option"
  proj_created :: instant
  proj_updated :: instant
  proj_settings :: json
  proj_nda :: bool

record member_row =
  mem_project :: uuid
  mem_user :: uuid
  mem_role :: string
  mem_created :: instant

record thread_row =
  thr_id :: uuid
  thr_project :: uuid
  thr_agent :: string
  thr_title :: "string option"
  thr_parent :: "uuid option"
  thr_type :: string
  thr_target :: "uuid option"
  thr_created :: instant
  thr_updated :: instant

record memory_row =
  tm_thread :: uuid
  tm_key :: string
  tm_value :: string

record audit_row =
  aud_event :: string
  aud_actor :: "string option"
  aud_user :: "uuid option"
  aud_detail :: "json option"

record email_log_row =
  log_project :: "uuid option"
  log_thread :: "uuid option"
  log_scheduled :: "uuid option"

record email_sched_row =
  sched_id :: uuid
  sched_project :: uuid
  sched_thread :: "uuid option"

record store =
  projects :: "project_row list"
  members :: "member_row list"
  user_ids :: "uuid list"
  threads :: "thread_row list"
  memories :: "memory_row list"
  messages :: "(uuid \<times> uuid) list"        \<comment> \<open>id, thread\<close>
  evidence :: "uuid list"                \<comment> \<open>message\<close>
  email_log :: "email_log_row list"
  email_sched :: "email_sched_row list"
  runs :: "(uuid \<times> uuid) list"            \<comment> \<open>id, project\<close>
  run_arts :: "(uuid \<times> uuid) list"        \<comment> \<open>run, artifact\<close>
  run_events :: "uuid list"              \<comment> \<open>run\<close>
  arts :: "(uuid \<times> uuid) list"            \<comment> \<open>id, project\<close>
  hooks :: "uuid list"                   \<comment> \<open>project\<close>
  audit :: "audit_row list"

datatype db_error = ForeignKey | RlsDenied | CheckFailed | OutOfRange | Fault string

text \<open>Looking a key up, and the sort order of a listing.\<close>

definition find_by :: "('a \<Rightarrow> 'k) \<Rightarrow> 'k \<Rightarrow> 'a list \<Rightarrow> 'a option" where
  "find_by key k xs = find (\<lambda>x. key x = k) xs"

lemma find_by_Some: "find_by key k xs = Some x \<Longrightarrow> x \<in> set xs \<and> key x = k"
  unfolding find_by_def by (auto simp: find_Some_iff)

lemma find_by_None: "find_by key k xs = None \<longleftrightarrow> (\<forall>x\<in>set xs. key x \<noteq> k)"
  unfolding find_by_def by (auto simp: find_None_iff)

definition ref_in :: "'k option \<Rightarrow> 'k list \<Rightarrow> bool" where
  "ref_in r ks \<longleftrightarrow> (case r of None \<Rightarrow> True | Some k \<Rightarrow> k \<in> set ks)"

lemma ref_in_simps [simp]: "ref_in None ks" "ref_in (Some k) ks \<longleftrightarrow> k \<in> set ks"
  by (simp_all add: ref_in_def)

section \<open>Row-level security\<close>

text \<open>
  A transaction is plain (\<^const>\<open>None\<close>, no policy applies) or scoped to a user.
  \<open>sees\<close> is the function \<open>af_visible_projects\<close> of migrations 018 and 031.
\<close>

definition ALL_USERS :: uuid where "ALL_USERS = 0"

definition is_member :: "store \<Rightarrow> uuid \<Rightarrow> uuid \<Rightarrow> bool" where
  "is_member db p u \<longleftrightarrow> (\<exists>m\<in>set (members db). mem_project m = p \<and> mem_user m = u)"

definition owns :: "store \<Rightarrow> uuid \<Rightarrow> uuid \<Rightarrow> bool" where
  "owns db p u \<longleftrightarrow> (\<exists>r\<in>set (projects db). proj_id r = p \<and> proj_owner r = Some u)"

definition visible_projects :: "store \<Rightarrow> uuid \<Rightarrow> uuid list" where
  "visible_projects db u =
     map proj_id (filter (\<lambda>r. proj_owner r = Some u) (projects db)) @
     map mem_project (filter (\<lambda>m. mem_user m = u) (members db)) @
     map mem_project (filter (\<lambda>m. mem_user m = ALL_USERS) (members db))"

definition sees :: "store \<Rightarrow> uuid option \<Rightarrow> uuid \<Rightarrow> bool" where
  "sees db v p \<longleftrightarrow> (case v of None \<Rightarrow> True | Some u \<Rightarrow> p \<in> set (visible_projects db u))"

definition sees_thread :: "store \<Rightarrow> uuid option \<Rightarrow> uuid \<Rightarrow> bool" where
  "sees_thread db v t \<longleftrightarrow> v = None \<or> (\<exists>r\<in>set (threads db). thr_id r = t \<and> sees db v (thr_project r))"

definition sees_message :: "store \<Rightarrow> uuid option \<Rightarrow> uuid \<Rightarrow> bool" where
  "sees_message db v m \<longleftrightarrow> v = None \<or> (\<exists>r\<in>set (messages db). fst r = m \<and> sees_thread db v (snd r))"

definition sees_run :: "store \<Rightarrow> uuid option \<Rightarrow> uuid \<Rightarrow> bool" where
  "sees_run db v r \<longleftrightarrow> v = None \<or> (\<exists>x\<in>set (runs db). fst x = r \<and> sees db v (snd x))"

lemma sees_plain [simp]: "sees db None p"
  by (simp add: sees_def)

lemma visible_iff: "p \<in> set (visible_projects db u) \<longleftrightarrow> owns db p u \<or> is_member db p u \<or> is_member db p ALL_USERS"
  unfolding visible_projects_def owns_def is_member_def by (auto simp: image_iff)

lemma sees_user: "sees db (Some u) p \<longleftrightarrow> owns db p u \<or> is_member db p u \<or> is_member db p ALL_USERS"
  by (simp only: sees_def option.case visible_iff)

section \<open>Foreign keys\<close>

text \<open>The references that are not declared \<open>ON DELETE CASCADE\<close> or \<open>SET NULL\<close>.\<close>

definition fk_threads :: "store \<Rightarrow> bool" where
  "fk_threads db \<longleftrightarrow> (\<forall>t\<in>set (threads db).
     thr_project t \<in> set (map proj_id (projects db)) \<and>
     ref_in (thr_parent t) (map thr_id (threads db)))"

definition fk_thread_refs :: "store \<Rightarrow> bool" where
  "fk_thread_refs db \<longleftrightarrow>
     (\<forall>m\<in>set (memories db). tm_thread m \<in> set (map thr_id (threads db))) \<and>
     (\<forall>m\<in>set (messages db). snd m \<in> set (map thr_id (threads db))) \<and>
     (\<forall>e\<in>set (evidence db). e \<in> set (map fst (messages db)))"

definition fk_email :: "store \<Rightarrow> bool" where
  "fk_email db \<longleftrightarrow>
     (\<forall>l\<in>set (email_log db). ref_in (log_project l) (map proj_id (projects db)) \<and>
        ref_in (log_thread l) (map thr_id (threads db)) \<and>
        ref_in (log_scheduled l) (map sched_id (email_sched db))) \<and>
     (\<forall>s\<in>set (email_sched db). sched_project s \<in> set (map proj_id (projects db)) \<and>
        ref_in (sched_thread s) (map thr_id (threads db)))"

definition fk_runs :: "store \<Rightarrow> bool" where
  "fk_runs db \<longleftrightarrow>
     (\<forall>r\<in>set (runs db). snd r \<in> set (map proj_id (projects db))) \<and>
     (\<forall>a\<in>set (arts db). snd a \<in> set (map proj_id (projects db))) \<and>
     (\<forall>l\<in>set (run_arts db). fst l \<in> set (map fst (runs db)) \<and> snd l \<in> set (map fst (arts db))) \<and>
     (\<forall>e\<in>set (run_events db). e \<in> set (map fst (runs db)))"

definition fk_members :: "store \<Rightarrow> bool" where
  "fk_members db \<longleftrightarrow>
     (\<forall>m\<in>set (members db). mem_project m \<in> set (map proj_id (projects db)) \<and>
        mem_user m \<in> set (user_ids db)) \<and>
     (\<forall>r\<in>set (projects db). ref_in (proj_owner r) (user_ids db)) \<and>
     (\<forall>h\<in>set (hooks db). h \<in> set (map proj_id (projects db)))"

definition fk_ok :: "store \<Rightarrow> bool" where
  "fk_ok db \<longleftrightarrow> fk_threads db \<and> fk_thread_refs db \<and> fk_email db \<and> fk_runs db \<and> fk_members db"

text \<open>A statement takes effect when it leaves no dangling reference.\<close>

definition exec :: "(store \<Rightarrow> store) \<Rightarrow> store \<Rightarrow> db_error + store" where
  "exec f db = (if fk_ok (f db) then Inr (f db) else Inl ForeignKey)"

lemma exec_Inr_iff [error_iff]: "exec f db = Inr db' \<longleftrightarrow> db' = f db \<and> fk_ok db'"
  by (auto simp: exec_def)

section \<open>Members\<close>

text \<open>The \<open>CHECK\<close> on the role column, migration 018.\<close>

definition valid_roles :: "string list" where
  "valid_roles = [''owner'', ''manager'', ''collaborator'', ''viewer'']"

definition is_key :: "uuid \<Rightarrow> uuid \<Rightarrow> member_row \<Rightarrow> bool" where
  "is_key p u m \<longleftrightarrow> mem_project m = p \<and> mem_user m = u"

definition put_member :: "uuid \<Rightarrow> uuid \<Rightarrow> string \<Rightarrow> instant \<Rightarrow> store \<Rightarrow> store" where
  "put_member p u role now db =
     (if is_member db p u
      then db\<lparr>members := map (\<lambda>m. if is_key p u m then m\<lparr>mem_role := role\<rparr> else m) (members db)\<rparr>
      else db\<lparr>members := members db @ [\<lparr>mem_project = p, mem_user = u, mem_role = role, mem_created = now\<rparr>]\<rparr>)"

definition add_member :: "uuid option \<Rightarrow> uuid \<Rightarrow> uuid \<Rightarrow> string \<Rightarrow> instant \<Rightarrow> store \<Rightarrow> db_error + store" where
  "add_member v p u role now db =
     (if \<not> sees db v p then Inl RlsDenied
      else if role \<notin> set valid_roles then Inl CheckFailed
      else exec (put_member p u role now) db)"

definition remove_member :: "uuid option \<Rightarrow> uuid \<Rightarrow> uuid \<Rightarrow> store \<Rightarrow> db_error + store" where
  "remove_member v p u db =
     exec (\<lambda>d. d\<lparr>members := filter (\<lambda>m. \<not> (is_key p u m \<and> sees d v (mem_project m))) (members d)\<rparr>) db"

definition get_role :: "uuid option \<Rightarrow> store \<Rightarrow> uuid \<Rightarrow> uuid \<Rightarrow> string option" where
  "get_role v db p u =
     map_option mem_role (find (\<lambda>m. is_key p u m \<and> sees db v (mem_project m)) (members db))"

definition list_members :: "uuid option \<Rightarrow> store \<Rightarrow> uuid \<Rightarrow> member_row list" where
  "list_members v db p =
     sort_key mem_created (filter (\<lambda>m. mem_project m = p \<and> sees db v (mem_project m)) (members db))"

section \<open>Projects\<close>

definition new_project :: "uuid \<Rightarrow> string \<Rightarrow> uuid option \<Rightarrow> instant \<Rightarrow> project_row" where
  "new_project i name own now = \<lparr>proj_id = i, proj_name = name, proj_owner = own,
     proj_created = now, proj_updated = now, proj_settings = JObj [], proj_nda = False\<rparr>"

definition create_project :: "uuid \<Rightarrow> string \<Rightarrow> instant \<Rightarrow> store \<Rightarrow> db_error + store" where
  "create_project i name now db = exec (\<lambda>d. d\<lparr>projects := projects d @ [new_project i name None now]\<rparr>) db"

definition create_project_with_owner ::
  "uuid option \<Rightarrow> uuid \<Rightarrow> string \<Rightarrow> uuid \<Rightarrow> instant \<Rightarrow> store \<Rightarrow> db_error + store" where
  "create_project_with_owner v i name own now db =
     (if v \<noteq> None \<and> v \<noteq> Some own then Inl RlsDenied
      else exec (\<lambda>d. d\<lparr>projects := projects d @ [new_project i name (Some own) now]\<rparr>) db)"

definition get_project :: "uuid option \<Rightarrow> store \<Rightarrow> uuid \<Rightarrow> project_row option" where
  "get_project v db i = find (\<lambda>r. proj_id r = i \<and> sees db v (proj_id r)) (projects db)"

text \<open>\<open>ORDER BY created_at DESC\<close>.\<close>

definition list_projects :: "store \<Rightarrow> project_row list" where
  "list_projects db = rev (sort_key proj_created (projects db))"

definition list_projects_for_user :: "store \<Rightarrow> uuid \<Rightarrow> project_row list" where
  "list_projects_for_user db u =
     rev (sort_key proj_created (filter (\<lambda>r. sees db (Some u) (proj_id r) \<and>
        (proj_owner r = Some u \<or> (\<exists>m\<in>set (members db). mem_project m = proj_id r \<and>
           (mem_user m = u \<or> mem_user m = ALL_USERS)))) (projects db)))"

text \<open>The shallow merge \<open>||\<close> of two JSONB objects.\<close>

definition merge_obj :: "json \<Rightarrow> json \<Rightarrow> json" where
  "merge_obj old new =
     (case (old, new) of
        (JObj a, JObj b) \<Rightarrow> JObj (filter (\<lambda>kv. fst kv \<notin> set (map fst b)) a @ b)
      | _ \<Rightarrow> old)"

definition update_project :: "uuid option \<Rightarrow> uuid \<Rightarrow> (project_row \<Rightarrow> project_row) \<Rightarrow> store \<Rightarrow> store" where
  "update_project v i f db =
     db\<lparr>projects := map (\<lambda>r. if proj_id r = i \<and> sees db v (proj_id r) then f r else r) (projects db)\<rparr>"

definition update_settings :: "uuid option \<Rightarrow> uuid \<Rightarrow> json \<Rightarrow> instant \<Rightarrow> store \<Rightarrow> store" where
  "update_settings v i s now =
     update_project v i (\<lambda>r. r\<lparr>proj_settings := merge_obj (proj_settings r) s, proj_updated := now\<rparr>)"

definition get_project_setting :: "uuid option \<Rightarrow> store \<Rightarrow> uuid \<Rightarrow> string \<Rightarrow> json option" where
  "get_project_setting v db i key =
     (case get_project v db i of None \<Rightarrow> None | Some r \<Rightarrow> jget (proj_settings r) key)"

definition insert_audit :: "string \<Rightarrow> string option \<Rightarrow> uuid option \<Rightarrow> json option \<Rightarrow> store \<Rightarrow> store" where
  "insert_audit ev actor u detail db =
     db\<lparr>audit := audit db @ [\<lparr>aud_event = ev, aud_actor = actor, aud_user = u, aud_detail = detail\<rparr>]\<rparr>"

definition nda_detail :: "(uuid \<Rightarrow> string) \<Rightarrow> uuid \<Rightarrow> bool \<Rightarrow> bool \<Rightarrow> json" where
  "nda_detail show i old new =
     JObj [(''project_id'', JStr (show i)), (''old_nda'', JBool old), (''new_nda'', JBool new)]"

definition set_nda ::
  "(uuid \<Rightarrow> string) \<Rightarrow> uuid option \<Rightarrow> uuid \<Rightarrow> bool \<Rightarrow> uuid option \<Rightarrow> instant \<Rightarrow> store \<Rightarrow>
     (project_row \<times> bool) option \<times> store" where
  "set_nda show v i new by now db =
     (case get_project v db i of
        None \<Rightarrow> (None, db)
      | Some r \<Rightarrow>
        if proj_nda r = new then (Some (r, proj_nda r), db)
        else
          (let db1 = insert_audit ''nda_flag_changed'' None by (Some (nda_detail show i (proj_nda r) new)) db;
               db2 = update_project v i (\<lambda>x. x\<lparr>proj_nda := new, proj_updated := now\<rparr>) db1
           in (map_option (\<lambda>x. (x, proj_nda r)) (get_project v db2 i), db2)))"

section \<open>Threads\<close>

definition create_thread_full ::
  "uuid option \<Rightarrow> uuid \<Rightarrow> uuid \<Rightarrow> string \<Rightarrow> string option \<Rightarrow> string \<Rightarrow> uuid option \<Rightarrow> instant \<Rightarrow> store \<Rightarrow>
     db_error + store" where
  "create_thread_full v i p agent title ty target now db =
     (if \<not> sees db v p then Inl RlsDenied
      else exec (\<lambda>d. d\<lparr>threads := threads d @ [\<lparr>thr_id = i, thr_project = p, thr_agent = agent,
             thr_title = title, thr_parent = None, thr_type = ty, thr_target = target,
             thr_created = now, thr_updated = now\<rparr>]\<rparr>) db)"

definition create_thread ::
  "uuid option \<Rightarrow> uuid \<Rightarrow> uuid \<Rightarrow> string \<Rightarrow> string option \<Rightarrow> instant \<Rightarrow> store \<Rightarrow> db_error + store" where
  "create_thread v i p agent title now = create_thread_full v i p agent title ''agent'' None now"

definition create_child_thread_typed ::
  "uuid option \<Rightarrow> uuid \<Rightarrow> uuid \<Rightarrow> string \<Rightarrow> string option \<Rightarrow> uuid \<Rightarrow> string \<Rightarrow> instant \<Rightarrow> store \<Rightarrow>
     db_error + store" where
  "create_child_thread_typed v i p agent title par ty now db =
     (if \<not> sees db v p then Inl RlsDenied
      else exec (\<lambda>d. d\<lparr>threads := threads d @ [\<lparr>thr_id = i, thr_project = p, thr_agent = agent,
             thr_title = title, thr_parent = Some par, thr_type = ty, thr_target = None,
             thr_created = now, thr_updated = now\<rparr>]\<rparr>) db)"

definition get_thread :: "uuid option \<Rightarrow> store \<Rightarrow> uuid \<Rightarrow> thread_row option" where
  "get_thread v db i = find (\<lambda>t. thr_id t = i \<and> sees db v (thr_project t)) (threads db)"

definition list_threads :: "uuid option \<Rightarrow> store \<Rightarrow> uuid \<Rightarrow> thread_row list" where
  "list_threads v db p =
     rev (sort_key thr_created (filter (\<lambda>t. thr_project t = p \<and> sees db v (thr_project t)) (threads db)))"

definition list_child_threads :: "uuid option \<Rightarrow> store \<Rightarrow> uuid \<Rightarrow> thread_row list" where
  "list_child_threads v db q =
     sort_key thr_created (filter (\<lambda>t. thr_parent t = Some q \<and> sees db v (thr_project t)) (threads db))"

definition upsert_memory :: "uuid \<Rightarrow> string \<Rightarrow> string \<Rightarrow> store \<Rightarrow> db_error + store" where
  "upsert_memory t k val =
     exec (\<lambda>d. if \<exists>m\<in>set (memories d). tm_thread m = t \<and> tm_key m = k
               then d\<lparr>memories := map (\<lambda>m. if tm_thread m = t \<and> tm_key m = k then m\<lparr>tm_value := val\<rparr> else m) (memories d)\<rparr>
               else d\<lparr>memories := memories d @ [\<lparr>tm_thread = t, tm_key = k, tm_value = val\<rparr>]\<rparr>)"

definition delete_thread_memory :: "uuid \<Rightarrow> store \<Rightarrow> nat \<times> store" where
  "delete_thread_memory t db =
     (length (filter (\<lambda>m. tm_thread m = t) (memories db)),
      db\<lparr>memories := filter (\<lambda>m. tm_thread m \<noteq> t) (memories db)\<rparr>)"

end
