(* ===== verification/Authz.thy ===== *)
theory Authz
  imports Projects
begin

text \<open>
  Who may do what to a project: roles and actions (\<open>af-auth/src/authz.rs\<close>), API-key
  authentication (\<open>af-auth/src/api_key.rs\<close>, \<open>af-db/src/api_keys.rs\<close>, \<open>users.rs\<close>,
  \<open>af-core/src/identity.rs\<close>) and the API's access check (\<open>af-api/src/auth.rs\<close>). The hash
  of a key is a parameter, and so is whether a statement fails.
\<close>

section \<open>Roles\<close>

datatype project_role = Owner | Manager | Collaborator | Viewer

datatype action = Read | Write | Delete | ManageMembers

datatype authz_error = AuthzForbidden string | NotMember | AuthzDb db_error

definition role_from_str :: "string \<Rightarrow> project_role option" where
  "role_from_str s =
     (if s = ''owner'' then Some Owner
      else if s = ''manager'' then Some Manager
      else if s = ''collaborator'' then Some Collaborator
      else if s = ''viewer'' then Some Viewer
      else None)"

fun role_allows :: "project_role \<Rightarrow> action \<Rightarrow> bool" where
  "role_allows Owner _ = True"
| "role_allows Manager a = (a \<in> {Read, Write, ManageMembers})"
| "role_allows Collaborator a = (a \<in> {Read, Write})"
| "role_allows Viewer a = (a = Read)"

fun priority :: "project_role \<Rightarrow> nat" where
  "priority Owner = 4"
| "priority Manager = 3"
| "priority Collaborator = 2"
| "priority Viewer = 1"

text \<open>Roles are ordered by priority.\<close>

instantiation project_role :: linorder
begin

definition less_eq_project_role :: "project_role \<Rightarrow> project_role \<Rightarrow> bool" where
  "less_eq_project_role r s \<longleftrightarrow> priority r \<le> priority s"

definition less_project_role :: "project_role \<Rightarrow> project_role \<Rightarrow> bool" where
  "less_project_role r s \<longleftrightarrow> priority r < priority s"

instance
proof
  fix r s t :: project_role
  show "r < s \<longleftrightarrow> r \<le> s \<and> \<not> s \<le> r" by (auto simp: less_eq_project_role_def less_project_role_def)
  show "r \<le> r" by (simp add: less_eq_project_role_def)
  show "r \<le> s \<Longrightarrow> s \<le> t \<Longrightarrow> r \<le> t" by (simp add: less_eq_project_role_def)
  show "r \<le> s \<Longrightarrow> s \<le> r \<Longrightarrow> r = s" by (cases r; cases s) (simp_all add: less_eq_project_role_def)
  show "r \<le> s \<or> s \<le> r" by (auto simp: less_eq_project_role_def)
qed

end

definition higher_role :: "project_role option \<Rightarrow> project_role option \<Rightarrow> project_role option" where
  "higher_role direct everyone =
     (case (direct, everyone) of
        (Some d, Some a) \<Rightarrow> if priority a \<le> priority d then Some d else Some a
      | (Some d, None) \<Rightarrow> Some d
      | (None, Some a) \<Rightarrow> Some a
      | (None, None) \<Rightarrow> None)"

definition role_name :: "project_role \<Rightarrow> string" where
  "role_name r = (case r of Owner \<Rightarrow> ''Owner'' | Manager \<Rightarrow> ''Manager''
                  | Collaborator \<Rightarrow> ''Collaborator'' | Viewer \<Rightarrow> ''Viewer'')"

definition action_name :: "action \<Rightarrow> string" where
  "action_name a = (case a of Read \<Rightarrow> ''Read'' | Write \<Rightarrow> ''Write'' | Delete \<Rightarrow> ''Delete''
                    | ManageMembers \<Rightarrow> ''ManageMembers'')"

datatype authz_stmt = SelOwner | SelDirect | SelEveryone

definition check_project_access ::
  "(authz_stmt \<Rightarrow> db_error option) \<Rightarrow> uuid option \<Rightarrow> store \<Rightarrow> uuid \<Rightarrow> uuid \<Rightarrow> action \<Rightarrow> authz_error + unit" where
  "check_project_access fault v db u p a =
     (case fault SelOwner of Some e \<Rightarrow> Inl (AuthzDb e) | None \<Rightarrow>
     (case get_project v db p of
        None \<Rightarrow> Inl (AuthzForbidden ''project not found'')
      | Some row \<Rightarrow>
        if proj_owner row = Some u then Inr ()
        else
     (case fault SelDirect of Some e \<Rightarrow> Inl (AuthzDb e) | None \<Rightarrow>
     (case fault SelEveryone of Some e \<Rightarrow> Inl (AuthzDb e) | None \<Rightarrow>
     (case higher_role (Option.bind (get_role v db p u) role_from_str)
                       (Option.bind (get_role v db p ALL_USERS) role_from_str) of
        None \<Rightarrow> Inl NotMember
      | Some r \<Rightarrow>
        if role_allows r a then Inr ()
        else Inl (AuthzForbidden (role_name r @ '' role cannot perform '' @ action_name a)))))))"

section \<open>Identities and API keys\<close>

record identity =
  id_subject :: string
  id_display :: "string option"
  id_roles :: "string list"
  id_user :: "uuid option"

definition is_admin :: "identity \<Rightarrow> bool" where
  "is_admin i \<longleftrightarrow> list_ex (\<lambda>r. r = ''admin'') (id_roles i)"

record user_row =
  usr_id :: uuid
  usr_subject :: string
  usr_display :: "string option"
  usr_roles :: "string list"
  usr_enabled :: bool

record api_key_row =
  key_id :: uuid
  key_user :: uuid
  key_hash :: string
  key_prefix :: string
  key_name :: string
  key_scopes :: "string list"
  key_expires :: "instant option"
  key_last_used :: "instant option"

datatype auth_error = InvalidKey | Expired | Disabled | AuthDb db_error

datatype auth_stmt = SelKey | SelUser | TouchKey

definition create_key ::
  "uuid \<Rightarrow> uuid \<Rightarrow> string \<Rightarrow> string \<Rightarrow> string \<Rightarrow> string list \<Rightarrow> api_key_row list \<Rightarrow> api_key_row list" where
  "create_key i u h pfx name scopes keys =
     keys @ [\<lparr>key_id = i, key_user = u, key_hash = h, key_prefix = pfx, key_name = name,
              key_scopes = scopes, key_expires = None, key_last_used = None\<rparr>]"

definition lookup_by_hash :: "api_key_row list \<Rightarrow> string \<Rightarrow> api_key_row option" where
  "lookup_by_hash keys h = find_by key_hash h keys"

definition update_last_used :: "uuid \<Rightarrow> instant \<Rightarrow> api_key_row list \<Rightarrow> api_key_row list" where
  "update_last_used i now = map (\<lambda>k. if key_id k = i then k\<lparr>key_last_used := Some now\<rparr> else k)"

definition delete_key :: "uuid \<Rightarrow> api_key_row list \<Rightarrow> bool \<times> api_key_row list" where
  "delete_key i keys = (list_ex (\<lambda>k. key_id k = i) keys, filter (\<lambda>k. key_id k \<noteq> i) keys)"

definition identity_of :: "user_row \<Rightarrow> identity" where
  "identity_of u = \<lparr>id_subject = usr_subject u, id_display = usr_display u,
     id_roles = usr_roles u, id_user = Some (usr_id u)\<rparr>"

definition authenticate_api_key ::
  "(auth_stmt \<Rightarrow> db_error option) \<Rightarrow> (string \<Rightarrow> string) \<Rightarrow> user_row list \<Rightarrow> string \<Rightarrow> instant \<Rightarrow>
     api_key_row list \<Rightarrow> (auth_error + identity) \<times> api_key_row list" where
  "authenticate_api_key fault hash users raw now keys =
     (case fault SelKey of Some e \<Rightarrow> (Inl (AuthDb e), keys) | None \<Rightarrow>
     (case lookup_by_hash keys (hash raw) of
        None \<Rightarrow> (Inl InvalidKey, keys)
      | Some k \<Rightarrow>
        if (case key_expires k of None \<Rightarrow> False | Some t \<Rightarrow> t < now) then (Inl Expired, keys)
        else
     (case fault SelUser of Some e \<Rightarrow> (Inl (AuthDb e), keys) | None \<Rightarrow>
     (case find_by usr_id (key_user k) users of
        None \<Rightarrow> (Inl InvalidKey, keys)
      | Some u \<Rightarrow>
        if \<not> usr_enabled u then (Inl Disabled, keys)
        else
     (case fault TouchKey of Some e \<Rightarrow> (Inl (AuthDb e), keys) | None \<Rightarrow>
        (Inr (identity_of u), update_last_used (key_id k) now keys))))))"

section \<open>The API's checks\<close>

datatype api_error =
    Unauthorized string | Forbidden string | NotFound string | BadRequest string
  | PayloadTooLarge string | ApiQuotaExceeded string | Internal string

definition status_code :: "api_error \<Rightarrow> nat" where
  "status_code e = (case e of Unauthorized _ \<Rightarrow> 401 | Forbidden _ \<Rightarrow> 403 | NotFound _ \<Rightarrow> 404
     | BadRequest _ \<Rightarrow> 400 | PayloadTooLarge _ \<Rightarrow> 413 | ApiQuotaExceeded _ \<Rightarrow> 429 | Internal _ \<Rightarrow> 500)"

definition api_of_db :: "db_error \<Rightarrow> api_error" where
  "api_of_db e =
     (case e of ForeignKey \<Rightarrow> BadRequest ''referenced entity not found''
      | CheckFailed \<Rightarrow> BadRequest ''invalid value''
      | _ \<Rightarrow> Internal ''internal database error'')"

definition auth_error_text :: "auth_error \<Rightarrow> string" where
  "auth_error_text e =
     (case e of InvalidKey \<Rightarrow> ''invalid API key'' | Expired \<Rightarrow> ''API key expired''
      | Disabled \<Rightarrow> ''user account disabled'' | AuthDb d \<Rightarrow> ''database error'')"

definition api_of_auth :: "auth_error \<Rightarrow> api_error" where
  "api_of_auth e = (case e of AuthDb _ \<Rightarrow> Internal (auth_error_text e) | _ \<Rightarrow> Unauthorized (auth_error_text e))"

text \<open>The \<open>Authorization\<close> header of a request, when it is there and is text.\<close>

definition bearer_token :: "string option \<Rightarrow> api_error + string" where
  "bearer_token header =
     (case header of None \<Rightarrow> Inl (Unauthorized ''missing Authorization header'')
      | Some h \<Rightarrow> (case strip_prefix ''Bearer '' h of
            None \<Rightarrow> Inl (Unauthorized ''expected Bearer token'')
          | Some t \<Rightarrow> Inr t))"

definition authenticated_user ::
  "(auth_stmt \<Rightarrow> db_error option) \<Rightarrow> (string \<Rightarrow> string) \<Rightarrow> user_row list \<Rightarrow> string option \<Rightarrow> instant \<Rightarrow>
     api_key_row list \<Rightarrow> (api_error + identity) \<times> api_key_row list" where
  "authenticated_user fault hash users header now keys =
     (case bearer_token header of
        Inl e \<Rightarrow> (Inl e, keys)
      | Inr t \<Rightarrow> (case authenticate_api_key fault hash users t now keys of
            (Inl e, keys') \<Rightarrow> (Inl (api_of_auth e), keys')
          | (Inr i, keys') \<Rightarrow> (Inr i, keys')))"

definition require_project_access ::
  "(authz_stmt \<Rightarrow> db_error option) \<Rightarrow> uuid option \<Rightarrow> store \<Rightarrow> identity \<Rightarrow> uuid \<Rightarrow> action \<Rightarrow> api_error + unit" where
  "require_project_access fault v db i p a =
     (if is_admin i then Inr ()
      else case id_user i of
        None \<Rightarrow> Inl (Forbidden ''no user_id on identity'')
      | Some u \<Rightarrow>
        (case check_project_access fault v db u p a of
           Inr _ \<Rightarrow> Inr ()
         | Inl (AuthzDb _) \<Rightarrow> Inl (Internal ''internal error'')
         | Inl _ \<Rightarrow> Inl (Forbidden ''access denied'')))"

section \<open>What the check decides\<close>

lemma allows_mono: "r \<le> s \<Longrightarrow> role_allows r a \<Longrightarrow> role_allows s a"
  by (cases r; cases s) (auto simp: less_eq_project_role_def)

lemma role_names [simp]:
  "role_from_str ''owner'' = Some Owner" "role_from_str ''manager'' = Some Manager"
  "role_from_str ''collaborator'' = Some Collaborator" "role_from_str ''viewer'' = Some Viewer"
  by (simp_all add: role_from_str_def)

lemma valid_roles_parse: "s \<in> set valid_roles \<longleftrightarrow> role_from_str s \<noteq> None"
  by (auto simp: valid_roles_def role_from_str_def)

text \<open>The roles a user holds on a project: direct ones and those of everybody.\<close>

definition granted :: "store \<Rightarrow> uuid \<Rightarrow> uuid \<Rightarrow> project_role set" where
  "granted db p u = {r. \<exists>m\<in>set (members db). mem_project m = p \<and> (mem_user m = u \<or> mem_user m = ALL_USERS)
                          \<and> role_from_str (mem_role m) = Some r}"

definition member_keys :: "store \<Rightarrow> (uuid \<times> uuid) list" where
  "member_keys db = map (\<lambda>m. (mem_project m, mem_user m)) (members db)"

text \<open>The primary keys of the three tables.\<close>

definition keys_ok :: "store \<Rightarrow> bool" where
  "keys_ok db \<longleftrightarrow> distinct (map proj_id (projects db)) \<and> distinct (member_keys db) \<and>
     (\<forall>m\<in>set (members db). mem_role m \<in> set valid_roles)"

lemma member_unique:
  assumes "keys_ok db" and "m \<in> set (members db)" "m' \<in> set (members db)"
    and "mem_project m = mem_project m'" "mem_user m = mem_user m'"
  shows "m = m'"
  using assms inj_on_contraD [of "\<lambda>m. (mem_project m, mem_user m)" "set (members db)" m m']
  by (auto simp: keys_ok_def member_keys_def distinct_map)

lemma project_unique:
  "keys_ok db \<Longrightarrow> r \<in> set (projects db) \<Longrightarrow> r' \<in> set (projects db) \<Longrightarrow> proj_id r = proj_id r' \<Longrightarrow> r = r'"
  using inj_onD [of proj_id "set (projects db)" r r'] by (auto simp: keys_ok_def distinct_map)

lemma get_role_member:
  assumes "keys_ok db" and "m \<in> set (members db)" and "mem_project m = p" "mem_user m = u" "sees db v p"
  shows "get_role v db p u = Some (mem_role m)"
proof -
  have "find (\<lambda>m. is_key p u m \<and> sees db v (mem_project m)) (members db) \<noteq> None"
    using assms(2-5) unfolding find_None_iff is_key_def by blast
  then obtain m' where m': "find (\<lambda>m. is_key p u m \<and> sees db v (mem_project m)) (members db) = Some m'" by blast
  then have "m' \<in> set (members db)" "is_key p u m'" by (auto simp: find_Some_iff)
  with member_unique [OF assms(1,2)] assms(3,4) have "m' = m" by (simp add: is_key_def)
  with m' show ?thesis by (simp add: get_role_def)
qed

lemma get_role_Some:
  "get_role v db p u = Some s \<Longrightarrow> \<exists>m\<in>set (members db). mem_project m = p \<and> mem_user m = u \<and> mem_role m = s"
  by (auto simp: get_role_def is_key_def find_Some_iff)

lemma higher_role_allows:
  "(\<exists>r. higher_role d e = Some r \<and> role_allows r a) \<longleftrightarrow> (\<exists>r. (d = Some r \<or> e = Some r) \<and> role_allows r a)"
  using allows_mono [unfolded less_eq_project_role_def]
  by (cases d; cases e) (auto simp: higher_role_def not_le dest: less_imp_le)

lemma granted_iff:
  assumes "keys_ok db" and "sees db v p"
  shows "r \<in> granted db p u \<longleftrightarrow>
     Option.bind (get_role v db p u) role_from_str = Some r \<or>
     Option.bind (get_role v db p ALL_USERS) role_from_str = Some r"
proof
  assume "r \<in> granted db p u"
  then show "Option.bind (get_role v db p u) role_from_str = Some r \<or>
     Option.bind (get_role v db p ALL_USERS) role_from_str = Some r"
    using get_role_member [OF assms(1) _ _ _ assms(2)] by (auto simp: granted_def)
qed (auto simp: granted_def bind_eq_Some_conv dest!: get_role_Some)

definition no_fault :: "'s \<Rightarrow> db_error option" where "no_fault s = None"

text \<open>
  The check against its specification: access is the owner's, or follows from one of the
  roles granted to the user or to everybody.
\<close>

definition may :: "store \<Rightarrow> uuid \<Rightarrow> uuid \<Rightarrow> action \<Rightarrow> bool" where
  "may db u p a \<longleftrightarrow> p \<in> proj_id ` set (projects db) \<and> (owns db p u \<or> (\<exists>r\<in>granted db p u. role_allows r a))"

lemma granted_sees: "r \<in> granted db p u \<Longrightarrow> sees db (Some u) p"
  by (auto simp: granted_def sees_user is_member_def)

lemma may_sees: "may db u p a \<Longrightarrow> sees db (Some u) p"
  using granted_sees by (auto simp: may_def sees_user)

lemma access_plain:
  assumes keys: "keys_ok db" and vis: "sees db v p"
  shows "check_project_access no_fault v db u p a = Inr () \<longleftrightarrow> may db u p a"
proof (cases "get_project v db p")
  case None
  with vis have "p \<notin> proj_id ` set (projects db)" by (auto simp: get_project_def find_None_iff)
  with None show ?thesis by (simp add: check_project_access_def no_fault_def may_def)
next
  case (Some row)
  then have row: "row \<in> set (projects db)" "proj_id row = p" by (auto simp: get_project_def find_Some_iff)
  have own: "owns db p u \<longleftrightarrow> proj_owner row = Some u"
    using row project_unique [OF keys row(1)] unfolding owns_def by metis
  let ?h = "higher_role (Option.bind (get_role v db p u) role_from_str)
                        (Option.bind (get_role v db p ALL_USERS) role_from_str)"
  have "(\<exists>r\<in>granted db p u. role_allows r a) \<longleftrightarrow> (\<exists>r. ?h = Some r \<and> role_allows r a)"
    unfolding higher_role_allows using granted_iff [OF keys vis] by blast
  moreover have "p \<in> proj_id ` set (projects db)" using row by blast
  ultimately show ?thesis
    using Some own by (cases ?h) (auto simp: check_project_access_def no_fault_def may_def)
qed

text \<open>A scoped transaction grants the same, since what it hides the user has no role on.\<close>

lemma access_scoped:
  assumes "keys_ok db"
  shows "check_project_access no_fault (Some u) db u p a = Inr () \<longleftrightarrow> may db u p a"
proof (cases "sees db (Some u) p")
  case False
  then have "get_project (Some u) db p = None" by (auto simp: get_project_def find_None_iff)
  then show ?thesis using False may_sees by (auto simp: check_project_access_def no_fault_def)
qed (rule access_plain [OF assms])

end
