(* ===== verification/Deletion.thy ===== *)
theory Deletion
  imports Projects
begin

text \<open>
  Deleting projects and threads (\<open>projects.rs::delete_project\<close>, \<open>threads.rs::delete_thread\<close>,
  \<open>purge_expired_threads\<close>). The first is a sequence of statements in one transaction, each
  subject to the row-level security of the transaction at that moment; the other two are
  one statement each, whose parts all read the tables as they were before it.
\<close>

section \<open>Deleting a project\<close>

definition thread_ids_of :: "uuid option \<Rightarrow> store \<Rightarrow> uuid \<Rightarrow> uuid list" where
  "thread_ids_of v db p = map thr_id (filter (\<lambda>t. thr_project t = p \<and> sees db v (thr_project t)) (threads db))"

definition message_ids_of :: "uuid option \<Rightarrow> store \<Rightarrow> uuid list \<Rightarrow> uuid list" where
  "message_ids_of v db ts = map fst (filter (\<lambda>m. snd m \<in> set ts \<and> sees_thread db v (snd m)) (messages db))"

definition run_ids_of :: "uuid option \<Rightarrow> store \<Rightarrow> uuid \<Rightarrow> uuid list" where
  "run_ids_of v db p = map fst (filter (\<lambda>r. snd r = p \<and> sees db v (snd r)) (runs db))"

definition log_of :: "uuid list \<Rightarrow> email_log_row \<Rightarrow> bool" where
  "log_of ts l \<longleftrightarrow> (case log_thread l of None \<Rightarrow> False | Some t \<Rightarrow> t \<in> set ts)"

definition sched_of :: "uuid list \<Rightarrow> email_sched_row \<Rightarrow> bool" where
  "sched_of ts s \<longleftrightarrow> (case sched_thread s of None \<Rightarrow> False | Some t \<Rightarrow> t \<in> set ts)"

definition del_evidence :: "uuid option \<Rightarrow> uuid \<Rightarrow> store \<Rightarrow> store" where
  "del_evidence v p db = db\<lparr>evidence := filter (\<lambda>e.
     \<not> (e \<in> set (message_ids_of v db (thread_ids_of v db p)) \<and> sees_message db v e)) (evidence db)\<rparr>"

definition del_messages :: "uuid option \<Rightarrow> uuid \<Rightarrow> store \<Rightarrow> store" where
  "del_messages v p db = db\<lparr>messages := filter (\<lambda>m.
     \<not> (snd m \<in> set (thread_ids_of v db p) \<and> sees_thread db v (snd m))) (messages db)\<rparr>"

definition del_thread_log :: "uuid option \<Rightarrow> uuid \<Rightarrow> store \<Rightarrow> store" where
  "del_thread_log v p db = db\<lparr>email_log := filter (\<lambda>l. \<not> log_of (thread_ids_of v db p) l) (email_log db)\<rparr>"

definition del_thread_sched :: "uuid option \<Rightarrow> uuid \<Rightarrow> store \<Rightarrow> store" where
  "del_thread_sched v p db =
     db\<lparr>email_sched := filter (\<lambda>s. \<not> sched_of (thread_ids_of v db p) s) (email_sched db)\<rparr>"

definition del_threads :: "uuid option \<Rightarrow> uuid \<Rightarrow> store \<Rightarrow> store" where
  "del_threads v p db = db\<lparr>threads := filter (\<lambda>t.
     \<not> (thr_project t = p \<and> sees db v (thr_project t))) (threads db)\<rparr>"

definition del_run_arts :: "uuid option \<Rightarrow> uuid \<Rightarrow> store \<Rightarrow> store" where
  "del_run_arts v p db = db\<lparr>run_arts := filter (\<lambda>l.
     \<not> (fst l \<in> set (run_ids_of v db p) \<and> sees_run db v (fst l))) (run_arts db)\<rparr>"

definition del_run_events :: "uuid option \<Rightarrow> uuid \<Rightarrow> store \<Rightarrow> store" where
  "del_run_events v p db = db\<lparr>run_events := filter (\<lambda>e.
     \<not> (e \<in> set (run_ids_of v db p) \<and> sees_run db v e)) (run_events db)\<rparr>"

definition del_runs :: "uuid option \<Rightarrow> uuid \<Rightarrow> store \<Rightarrow> store" where
  "del_runs v p db = db\<lparr>runs := filter (\<lambda>r. \<not> (snd r = p \<and> sees db v (snd r))) (runs db)\<rparr>"

text \<open>Deleting an artifact clears the target of the threads that point at it.\<close>

definition del_arts :: "uuid option \<Rightarrow> uuid \<Rightarrow> store \<Rightarrow> store" where
  "del_arts v p db =
     (let gone = map fst (filter (\<lambda>a. snd a = p \<and> sees db v (snd a)) (arts db)) in
      db\<lparr>arts := filter (\<lambda>a. \<not> (snd a = p \<and> sees db v (snd a))) (arts db),
         threads := map (\<lambda>t. if (case thr_target t of None \<Rightarrow> False | Some a \<Rightarrow> a \<in> set gone)
                             then t\<lparr>thr_target := None\<rparr> else t) (threads db)\<rparr>)"

definition del_members :: "uuid option \<Rightarrow> uuid \<Rightarrow> store \<Rightarrow> store" where
  "del_members v p db = db\<lparr>members := filter (\<lambda>m.
     \<not> (mem_project m = p \<and> sees db v (mem_project m))) (members db)\<rparr>"

definition del_hooks :: "uuid \<Rightarrow> store \<Rightarrow> store" where
  "del_hooks p db = db\<lparr>hooks := filter (\<lambda>h. h \<noteq> p) (hooks db)\<rparr>"

definition del_project_log :: "uuid \<Rightarrow> store \<Rightarrow> store" where
  "del_project_log p db = db\<lparr>email_log := filter (\<lambda>l. log_project l \<noteq> Some p) (email_log db)\<rparr>"

text \<open>The last statement cascades to the scheduled mail of the project.\<close>

definition del_project :: "uuid option \<Rightarrow> uuid \<Rightarrow> store \<Rightarrow> store" where
  "del_project v p db =
     (if sees db v p
      then db\<lparr>projects := filter (\<lambda>r. proj_id r \<noteq> p) (projects db),
              email_sched := filter (\<lambda>s. sched_project s \<noteq> p) (email_sched db)\<rparr>
      else db)"

definition deletions :: "uuid option \<Rightarrow> uuid \<Rightarrow> (store \<Rightarrow> store) list" where
  "deletions v p =
     [del_evidence v p, del_messages v p, del_thread_log v p, del_thread_sched v p, del_threads v p,
      del_run_arts v p, del_run_events v p, del_runs v p, del_arts v p, del_members v p, del_hooks p,
      del_project_log p]"

definition delete_project :: "uuid option \<Rightarrow> uuid \<Rightarrow> store \<Rightarrow> db_error + bool \<times> store" where
  "delete_project v p db =
     (if get_project v db p = None then Inr (False, db)
      else sum_bind (try_fold exec (deletions v p) db) (\<lambda>d.
           sum_bind (exec (del_project v p) d) (\<lambda>d'.
             Inr (get_project v d p \<noteq> None, d'))))"

section \<open>Deleting a thread\<close>

text \<open>
  The recursive query: each round joins the threads with the rows of the previous round.
  It ends when a round is empty; the fuel bounds the number of rounds.
\<close>

definition child_ids :: "thread_row list \<Rightarrow> uuid list \<Rightarrow> uuid list" where
  "child_ids ts ids = concat (map (\<lambda>q. map thr_id (filter (\<lambda>t. thr_parent t = Some q) ts)) ids)"

fun tree_rounds :: "nat \<Rightarrow> thread_row list \<Rightarrow> uuid list \<Rightarrow> uuid list option" where
  "tree_rounds n ts [] = Some []"
| "tree_rounds 0 ts (i # is) = None"
| "tree_rounds (Suc n) ts (i # is) = map_option ((@) (i # is)) (tree_rounds n ts (child_ids ts (i # is)))"

definition thread_tree :: "uuid option \<Rightarrow> store \<Rightarrow> uuid \<Rightarrow> uuid list option" where
  "thread_tree v db i =
     (let ts = filter (\<lambda>t. sees db v (thr_project t)) (threads db)
      in tree_rounds (Suc (length ts)) ts (map thr_id (filter (\<lambda>t. thr_id t = i) ts)))"

text \<open>What the statement deletes, for a set of threads.\<close>

definition drop_evidence :: "uuid list \<Rightarrow> store \<Rightarrow> uuid list" where
  "drop_evidence ids db = filter (\<lambda>e. \<not> (\<exists>m\<in>set (messages db). fst m = e \<and> snd m \<in> set ids)) (evidence db)"

definition drop_tree :: "uuid list \<Rightarrow> store \<Rightarrow> store" where
  "drop_tree ids db = db\<lparr>
     memories := filter (\<lambda>m. tm_thread m \<notin> set ids) (memories db),
     evidence := drop_evidence ids db,
     messages := filter (\<lambda>m. snd m \<notin> set ids) (messages db),
     email_log := filter (\<lambda>l. \<not> log_of ids l) (email_log db),
     email_sched := filter (\<lambda>s. \<not> sched_of ids s) (email_sched db),
     threads := filter (\<lambda>t. thr_id t \<notin> set ids) (threads db)\<rparr>"

text \<open>\<^const>\<open>None\<close>: the recursive query has not ended.\<close>

definition delete_thread :: "uuid option \<Rightarrow> uuid \<Rightarrow> store \<Rightarrow> (db_error + bool \<times> store) option" where
  "delete_thread v i db =
     map_option (\<lambda>ids. sum_bind (exec (drop_tree ids) db) (\<lambda>db'.
        Inr (\<exists>t\<in>set (threads db). thr_id t \<in> set ids, db'))) (thread_tree v db i)"

section \<open>Purging expired threads\<close>

text \<open>
  \<open>settings->>'thread_retention_days'\<close> as text, the test \<open>^[0-9]+$\<close>, the cast to a
  32-bit integer, and the subtraction of that many days, which fails below the earliest
  timestamp of the database (4713 BC, in microseconds from 1970). A settings value that is
  not a string is rendered by a parameter.
\<close>

definition all_digits :: "string \<Rightarrow> bool" where
  "all_digits s \<longleftrightarrow> s \<noteq> [] \<and> list_all is_digit s"

definition read_nat :: "string \<Rightarrow> nat" where
  "read_nat = foldl (\<lambda>n c. 10 * n + (of_char c - 48)) 0"

definition day_us :: int where "day_us = 86400000000"
definition min_timestamp :: int where "min_timestamp = - 210866803200000000"

definition retention_cutoff :: "string \<Rightarrow> instant \<Rightarrow> db_error + int" where
  "retention_cutoff s now =
     (if 2147483647 < read_nat s then Inl OutOfRange
      else let c = int now - int (read_nat s) * day_us in
           if c < min_timestamp then Inl OutOfRange else Inr c)"

definition retention_setting :: "(json \<Rightarrow> string) \<Rightarrow> store \<Rightarrow> uuid \<Rightarrow> string option" where
  "retention_setting render db p =
     (case find_by proj_id p (projects db) of
        None \<Rightarrow> None
      | Some r \<Rightarrow> (case jget (proj_settings r) ''thread_retention_days'' of
          None \<Rightarrow> None
        | Some JNull \<Rightarrow> None
        | Some (JStr s) \<Rightarrow> Some s
        | Some v \<Rightarrow> Some (render v)))"

definition expired_thread ::
  "(json \<Rightarrow> string) \<Rightarrow> store \<Rightarrow> instant \<Rightarrow> thread_row \<Rightarrow> db_error + bool" where
  "expired_thread render db now t =
     (case retention_setting render db (thr_project t) of
        None \<Rightarrow> Inr False
      | Some s \<Rightarrow>
        if all_digits s
        then sum_bind (retention_cutoff s now) (\<lambda>c. Inr (int (thr_updated t) < c))
        else Inr False)"

definition candidates :: "(json \<Rightarrow> string) \<Rightarrow> store \<Rightarrow> instant \<Rightarrow> db_error + thread_row list" where
  "candidates render db now =
     try_fold (\<lambda>t acc. sum_bind (expired_thread render db now t) (\<lambda>b.
        Inr (if b then acc @ [t] else acc))) (threads db) []"

definition leaf :: "thread_row list \<Rightarrow> thread_row \<Rightarrow> bool" where
  "leaf ts t \<longleftrightarrow> (\<forall>c\<in>set ts. thr_parent c \<noteq> Some (thr_id t))"

definition drop_expired :: "uuid list \<Rightarrow> store \<Rightarrow> store" where
  "drop_expired ids db = db\<lparr>
     memories := filter (\<lambda>m. tm_thread m \<notin> set ids) (memories db),
     evidence := drop_evidence ids db,
     messages := filter (\<lambda>m. snd m \<notin> set ids) (messages db),
     threads := filter (\<lambda>t. thr_id t \<notin> set ids) (threads db)\<rparr>"

definition purge_expired_threads ::
  "(json \<Rightarrow> string) \<Rightarrow> instant \<Rightarrow> store \<Rightarrow> db_error + nat \<times> store" where
  "purge_expired_threads render now db =
     sum_bind (candidates render db now) (\<lambda>cs.
       let ids = map thr_id (filter (leaf (threads db)) cs) in
       sum_bind (exec (drop_expired ids) db) (\<lambda>db'.
         Inr (length (threads db) - length (threads db'), db')))"

section \<open>What a scoped deletion sees\<close>

lemma sees_cong: "projects d = projects db \<Longrightarrow> members d = members db \<Longrightarrow> sees d v = sees db v"
  by (rule ext) (simp add: sees_def visible_projects_def split: option.splits)

lemma deletion_frames [frame_simps]:
  "projects (del_evidence v p db) = projects db" "members (del_evidence v p db) = members db"
  "projects (del_messages v p db) = projects db" "members (del_messages v p db) = members db"
  "projects (del_thread_log v p db) = projects db" "members (del_thread_log v p db) = members db"
  "projects (del_thread_sched v p db) = projects db" "members (del_thread_sched v p db) = members db"
  "projects (del_threads v p db) = projects db" "members (del_threads v p db) = members db"
  "projects (del_run_arts v p db) = projects db" "members (del_run_arts v p db) = members db"
  "projects (del_run_events v p db) = projects db" "members (del_run_events v p db) = members db"
  "projects (del_runs v p db) = projects db" "members (del_runs v p db) = members db"
  "projects (del_arts v p db) = projects db" "members (del_arts v p db) = members db"
  by (simp_all add: del_evidence_def del_messages_def del_thread_log_def del_thread_sched_def
      del_threads_def del_run_arts_def del_run_events_def del_runs_def del_arts_def Let_def)

definition content_deletions :: "uuid option \<Rightarrow> uuid \<Rightarrow> (store \<Rightarrow> store) list" where
  "content_deletions v p =
     [del_evidence v p, del_messages v p, del_thread_log v p, del_thread_sched v p, del_threads v p,
      del_run_arts v p, del_run_events v p, del_runs v p, del_arts v p]"

lemma deletions_split: "deletions v p = content_deletions v p @ [del_members v p, del_hooks p, del_project_log p]"
  by (simp add: deletions_def content_deletions_def)

lemma content_frames:
  "f \<in> set (content_deletions v p) \<Longrightarrow> projects (f db) = projects db \<and> members (f db) = members db"
  unfolding content_deletions_def by (auto simp: frame_simps)

text \<open>
  While the project is visible to the transaction, its statements do what the plain ones
  do.
\<close>

lemma thread_ids_plain: "sees db v p \<Longrightarrow> thread_ids_of v db p = thread_ids_of None db p"
  unfolding thread_ids_of_def by (rule arg_cong [where f = "map thr_id"], rule filter_cong) auto

lemma thread_ids_iff: "t \<in> set (thread_ids_of None db p) \<longleftrightarrow> (\<exists>r\<in>set (threads db). thr_id r = t \<and> thr_project r = p)"
  unfolding thread_ids_of_def by auto

lemma sees_thread_of: "sees db v p \<Longrightarrow> t \<in> set (thread_ids_of None db p) \<Longrightarrow> sees_thread db v t"
  unfolding sees_thread_def thread_ids_iff by auto

lemma message_ids_plain:
  assumes "sees db v p"
  shows "message_ids_of v db (thread_ids_of v db p) = message_ids_of None db (thread_ids_of None db p)"
  unfolding message_ids_of_def thread_ids_plain [OF assms]
  by (rule arg_cong [where f = "map fst"], rule filter_cong)
    (auto simp: sees_thread_of [OF assms], simp add: sees_thread_def)

lemma message_ids_iff:
  "e \<in> set (message_ids_of None db ts) \<longleftrightarrow> (\<exists>m\<in>set (messages db). fst m = e \<and> snd m \<in> set ts)"
  unfolding message_ids_of_def by (auto simp: sees_thread_def)

lemma sees_message_of:
  "sees db v p \<Longrightarrow> e \<in> set (message_ids_of None db (thread_ids_of None db p)) \<Longrightarrow> sees_message db v e"
  unfolding sees_message_def message_ids_iff using sees_thread_of by blast

lemma run_ids_plain: "sees db v p \<Longrightarrow> run_ids_of v db p = run_ids_of None db p"
  unfolding run_ids_of_def by (rule arg_cong [where f = "map fst"], rule filter_cong) auto

lemma run_ids_iff: "r \<in> set (run_ids_of None db p) \<longleftrightarrow> (r, p) \<in> set (runs db)"
  unfolding run_ids_of_def by force

lemma sees_run_of: "sees db v p \<Longrightarrow> r \<in> set (run_ids_of None db p) \<Longrightarrow> sees_run db v r"
  unfolding sees_run_def run_ids_iff by force

lemma sees_any_plain [simp]: "sees_thread db None t" "sees_message db None m" "sees_run db None r"
  by (simp_all add: sees_thread_def sees_message_def sees_run_def)

lemma content_plain_step:
  assumes "sees db v p"
  shows "map (\<lambda>f. f db) (content_deletions v p) = map (\<lambda>f. f db) (content_deletions None p)"
proof -
  note plain = message_ids_plain [OF assms] thread_ids_plain [OF assms] run_ids_plain [OF assms]
  have "del_evidence v p db = del_evidence None p db"
    unfolding del_evidence_def message_ids_plain [OF assms] using sees_message_of [OF assms]
    by (intro arg_cong [where f = "\<lambda>x. db\<lparr>evidence := x\<rparr>"] filter_cong) auto
  moreover have "del_messages v p db = del_messages None p db"
    unfolding del_messages_def plain using sees_thread_of [OF assms]
    by (intro arg_cong [where f = "\<lambda>x. db\<lparr>messages := x\<rparr>"] filter_cong) auto
  moreover have "del_thread_log v p db = del_thread_log None p db"
    and "del_thread_sched v p db = del_thread_sched None p db"
    unfolding del_thread_log_def del_thread_sched_def plain by simp_all
  moreover have "del_threads v p db = del_threads None p db" "del_runs v p db = del_runs None p db"
    unfolding del_threads_def del_runs_def using assms
    by (auto intro!: arg_cong [where f = "\<lambda>x. db\<lparr>threads := x\<rparr>"] arg_cong [where f = "\<lambda>x. db\<lparr>runs := x\<rparr>"] filter_cong)
  moreover have "del_run_arts v p db = del_run_arts None p db" "del_run_events v p db = del_run_events None p db"
    unfolding del_run_arts_def del_run_events_def plain using sees_run_of [OF assms]
    by (auto intro!: arg_cong [where f = "\<lambda>x. db\<lparr>run_arts := x\<rparr>"] arg_cong [where f = "\<lambda>x. db\<lparr>run_events := x\<rparr>"] filter_cong)
  moreover have "filter (\<lambda>a. snd a = p \<and> sees db v (snd a)) (arts db) = filter (\<lambda>a. snd a = p) (arts db)"
    and "filter (\<lambda>a. \<not> (snd a = p \<and> sees db v (snd a))) (arts db) = filter (\<lambda>a. snd a \<noteq> p) (arts db)"
    using assms by (auto intro!: filter_cong)
  then have "del_arts v p db = del_arts None p db"
    unfolding del_arts_def by simp
  ultimately show ?thesis by (simp add: content_deletions_def)
qed

lemma try_fold_plain:
  assumes "list_all2 (\<lambda>f g. \<forall>d. P d \<longrightarrow> f d = g d) fs gs" and "P db"
    and "\<And>f d. f \<in> set gs \<Longrightarrow> P d \<Longrightarrow> P (f d)"
  shows "try_fold exec fs db = try_fold exec gs db"
  using assms
proof (induction fs gs arbitrary: db rule: list_all2_induct)
  case (Cons f fs g gs)
  then have "f db = g db" by simp
  moreover have "try_fold exec fs (g db) = try_fold exec gs (g db)"
    using Cons.prems Cons.hyps by (intro Cons.IH) auto
  ultimately show ?case by (cases "fk_ok (g db)") (simp_all add: exec_def [of f db] exec_def [of g db])
qed simp

lemma content_plain:
  assumes "sees db v p"
  shows "try_fold exec (content_deletions v p) db = try_fold exec (content_deletions None p) db"
proof (rule try_fold_plain [where P = "\<lambda>d. sees d v p"])
  have "list_all2 (\<lambda>f g. f d = g d) (content_deletions v p) (content_deletions None p)" if "sees d v p" for d
    using content_plain_step [OF that] by (simp add: content_deletions_def)
  then show "list_all2 (\<lambda>f g. \<forall>d. sees d v p \<longrightarrow> f d = g d) (content_deletions v p) (content_deletions None p)"
    by (simp add: content_deletions_def)
  show "sees (f d) v p" if "f \<in> set (content_deletions None p)" "sees d v p" for f d
    using content_frames [OF that(1), of d] that(2) sees_cong by metis
qed (rule assms)

section \<open>When the statements succeed\<close>

text \<open>
  The references into the rows of a project come from the project itself. The code keeps
  it so: child threads, runs and their inputs stay inside one project.
\<close>

definition local_refs :: "store \<Rightarrow> uuid \<Rightarrow> bool" where
  "local_refs db p \<longleftrightarrow>
     (\<forall>t\<in>set (threads db). \<forall>q. thr_parent t = Some q \<longrightarrow> q \<in> set (thread_ids_of None db p) \<longrightarrow> thr_project t = p) \<and>
     (\<forall>l\<in>set (email_log db). \<forall>s\<in>set (email_sched db). log_scheduled l = Some (sched_id s) \<longrightarrow>
        (sched_of (thread_ids_of None db p) s \<longrightarrow> log_of (thread_ids_of None db p) l) \<and>
        (sched_project s = p \<longrightarrow> log_of (thread_ids_of None db p) l \<or> log_project l = Some p)) \<and>
     (\<forall>l\<in>set (run_arts db). \<forall>a\<in>set (arts db). snd l = fst a \<longrightarrow> snd a = p \<longrightarrow> (fst l, p) \<in> set (runs db))"

definition memory_of :: "store \<Rightarrow> uuid \<Rightarrow> bool" where
  "memory_of db p \<longleftrightarrow> (\<exists>m\<in>set (memories db). tm_thread m \<in> set (thread_ids_of None db p))"

text \<open>The tables without what the project holds; \<open>clear_target\<close> is the effect of \<open>SET NULL\<close>.\<close>

definition clear_target :: "uuid list \<Rightarrow> thread_row \<Rightarrow> thread_row" where
  "clear_target gone t = (if (case thr_target t of None \<Rightarrow> False | Some a \<Rightarrow> a \<in> set gone)
                          then t\<lparr>thr_target := None\<rparr> else t)"

definition without_threads :: "uuid \<Rightarrow> store \<Rightarrow> store" where
  "without_threads p db =
     (let ts = thread_ids_of None db p in
      db\<lparr>evidence := filter (\<lambda>e. e \<notin> set (message_ids_of None db ts)) (evidence db),
         messages := filter (\<lambda>m. snd m \<notin> set ts) (messages db),
         email_log := filter (\<lambda>l. \<not> log_of ts l) (email_log db),
         email_sched := filter (\<lambda>s. \<not> sched_of ts s) (email_sched db),
         threads := filter (\<lambda>t. thr_project t \<noteq> p) (threads db)\<rparr>)"

definition without_runs :: "uuid \<Rightarrow> store \<Rightarrow> store" where
  "without_runs p db =
     db\<lparr>run_arts := filter (\<lambda>l. fst l \<notin> set (run_ids_of None db p)) (run_arts db),
        run_events := filter (\<lambda>e. e \<notin> set (run_ids_of None db p)) (run_events db),
        runs := filter (\<lambda>r. snd r \<noteq> p) (runs db),
        arts := filter (\<lambda>a. snd a \<noteq> p) (arts db),
        threads := map (clear_target (map fst (filter (\<lambda>a. snd a = p) (arts db)))) (threads db)\<rparr>"

definition without_config :: "uuid \<Rightarrow> store \<Rightarrow> store" where
  "without_config p db =
     db\<lparr>members := filter (\<lambda>m. mem_project m \<noteq> p) (members db),
        hooks := filter (\<lambda>h. h \<noteq> p) (hooks db),
        email_log := filter (\<lambda>l. log_project l \<noteq> Some p) (email_log db)\<rparr>"

definition without_row :: "uuid \<Rightarrow> store \<Rightarrow> store" where
  "without_row p db =
     db\<lparr>projects := filter (\<lambda>r. proj_id r \<noteq> p) (projects db),
        email_sched := filter (\<lambda>s. sched_project s \<noteq> p) (email_sched db)\<rparr>"

definition without_content :: "uuid \<Rightarrow> store \<Rightarrow> store" where
  "without_content p db = without_config p (without_runs p (without_threads p db))"

lemmas fk_defs = fk_ok_def fk_threads_def fk_thread_refs_def fk_email_def fk_runs_def fk_members_def

lemma ref_in_mono: "ref_in r ks \<Longrightarrow> set ks \<subseteq> set ks' \<Longrightarrow> ref_in r ks'"
  by (auto simp: ref_in_def split: option.splits)

text \<open>Each statement on threads, in the order of the code.\<close>

lemma del_evidence_ok: "fk_ok db \<Longrightarrow> fk_ok (del_evidence v p db)"
  by (simp add: fk_defs del_evidence_def)

lemma del_messages_ok:
  assumes "fk_ok db" and "\<forall>e\<in>set (evidence db). e \<notin> set (message_ids_of None db (thread_ids_of None db p))"
  shows "fk_ok (del_messages None p db)"
proof -
  have "e \<in> fst ` {m \<in> set (messages db). snd m \<notin> set (thread_ids_of None db p)}" if "e \<in> set (evidence db)" for e
  proof -
    from assms(1) that have "e \<in> fst ` set (messages db)" by (simp add: fk_ok_def fk_thread_refs_def)
    then obtain m where "m \<in> set (messages db)" "fst m = e" by blast
    moreover from this assms(2) that have "snd m \<notin> set (thread_ids_of None db p)"
      unfolding message_ids_iff by blast
    ultimately show ?thesis by blast
  qed
  with assms(1) show ?thesis by (simp add: fk_defs del_messages_def)
qed

lemma del_thread_log_ok: "fk_ok db \<Longrightarrow> fk_ok (del_thread_log v p db)"
  by (simp add: fk_defs del_thread_log_def)

lemma del_thread_sched_ok:
  assumes "fk_ok db"
    and "\<forall>l\<in>set (email_log db). \<forall>s\<in>set (email_sched db). log_scheduled l = Some (sched_id s) \<longrightarrow>
           \<not> sched_of (thread_ids_of None db p) s"
  shows "fk_ok (del_thread_sched None p db)"
proof -
  have "ref_in (log_scheduled l) (map sched_id (filter (\<lambda>s. \<not> sched_of (thread_ids_of None db p) s) (email_sched db)))"
    if "l \<in> set (email_log db)" for l
  proof (cases "log_scheduled l")
    case (Some i)
    with assms(1) that have "i \<in> sched_id ` set (email_sched db)" by (auto simp: fk_ok_def fk_email_def)
    then obtain s where "s \<in> set (email_sched db)" "i = sched_id s" by blast
    with assms(2) that Some show ?thesis by auto
  qed simp
  with assms(1) show ?thesis by (simp add: fk_defs del_thread_sched_def)
qed

lemma in_filtered_ids:
  "k \<in> f ` set xs \<Longrightarrow> (\<And>x. x \<in> set xs \<Longrightarrow> f x = k \<Longrightarrow> P x) \<Longrightarrow> k \<in> f ` {x \<in> set xs. P x}"
  by blast

lemma del_threads_ok:
  assumes fk: "fk_ok db"
    and mem: "\<forall>m\<in>set (memories db). tm_thread m \<notin> set (thread_ids_of None db p)"
    and msg: "\<forall>m\<in>set (messages db). snd m \<notin> set (thread_ids_of None db p)"
    and log: "\<forall>l\<in>set (email_log db). \<not> log_of (thread_ids_of None db p) l"
    and sched: "\<forall>s\<in>set (email_sched db). \<not> sched_of (thread_ids_of None db p) s"
    and par: "\<forall>t\<in>set (threads db). \<forall>q. thr_parent t = Some q \<longrightarrow> q \<in> set (thread_ids_of None db p) \<longrightarrow> thr_project t = p"
  shows "fk_ok (del_threads None p db)"
proof -
  let ?keep = "thr_id ` {t \<in> set (threads db). thr_project t \<noteq> p}"
  have keep: "k \<in> ?keep" if "k \<in> thr_id ` set (threads db)" "k \<notin> set (thread_ids_of None db p)" for k
    using that unfolding thread_ids_iff by blast
  have "tm_thread m \<in> ?keep" if "m \<in> set (memories db)" for m
    using that fk mem by (intro keep) (simp_all add: fk_ok_def fk_thread_refs_def)
  moreover have "snd m \<in> ?keep" if "m \<in> set (messages db)" for m
    using that fk msg by (intro keep) (simp_all add: fk_ok_def fk_thread_refs_def)
  moreover have "ref_in (log_thread l) (map thr_id (filter (\<lambda>t. thr_project t \<noteq> p) (threads db)))"
    if "l \<in> set (email_log db)" for l
  proof (cases "log_thread l")
    case (Some k)
    with that fk log have "k \<in> ?keep" by (intro keep) (auto simp: fk_ok_def fk_email_def log_of_def)
    with Some show ?thesis by simp
  qed simp
  moreover have "ref_in (sched_thread x) (map thr_id (filter (\<lambda>t. thr_project t \<noteq> p) (threads db)))"
    if "x \<in> set (email_sched db)" for x
  proof (cases "sched_thread x")
    case (Some k)
    with that fk sched have "k \<in> ?keep" by (intro keep) (auto simp: fk_ok_def fk_email_def sched_of_def)
    with Some show ?thesis by simp
  qed simp
  moreover have "ref_in (thr_parent t) (map thr_id (filter (\<lambda>t. thr_project t \<noteq> p) (threads db)))"
    if "t \<in> set (threads db)" "thr_project t \<noteq> p" for t
  proof (cases "thr_parent t")
    case (Some k)
    with that fk par have "k \<in> ?keep" by (intro keep) (auto simp: fk_ok_def fk_threads_def)
    with Some show ?thesis by simp
  qed simp
  ultimately show ?thesis
    using fk by (simp add: fk_defs del_threads_def)
qed

lemma thread_statements_ok:
  assumes fk: "fk_ok db" and loc: "local_refs db p" and mem: "\<not> memory_of db p"
  shows "try_fold exec [del_evidence None p, del_messages None p, del_thread_log None p,
           del_thread_sched None p, del_threads None p] db = Inr (without_threads p db)"
    and "fk_ok (without_threads p db)"
proof -
  define T where "T = thread_ids_of None db p"
  define d1 where "d1 = del_evidence None p db"
  define d2 where "d2 = del_messages None p d1"
  define d3 where "d3 = del_thread_log None p d2"
  define d4 where "d4 = del_thread_sched None p d3"
  have e1: "d1 = db\<lparr>evidence := filter (\<lambda>e. e \<notin> set (message_ids_of None db T)) (evidence db)\<rparr>"
    by (simp add: d1_def del_evidence_def T_def)
  have T1: "thread_ids_of None d1 p = T" "message_ids_of None d1 T = message_ids_of None db T"
    by (simp_all add: e1 T_def thread_ids_of_def message_ids_of_def)
  have e2: "d2 = d1\<lparr>messages := filter (\<lambda>m. snd m \<notin> set T) (messages db)\<rparr>"
    by (simp add: d2_def del_messages_def T1) (simp add: e1)
  have T2: "thread_ids_of None d2 p = T" using T1 by (simp add: e2 thread_ids_of_def)
  have e3: "d3 = d2\<lparr>email_log := filter (\<lambda>l. \<not> log_of T l) (email_log db)\<rparr>"
    by (simp add: d3_def del_thread_log_def T2) (simp add: e2 e1)
  have T3: "thread_ids_of None d3 p = T" using T2 by (simp add: e3 thread_ids_of_def)
  have e4: "d4 = d3\<lparr>email_sched := filter (\<lambda>s. \<not> sched_of T s) (email_sched db)\<rparr>"
    by (simp add: d4_def del_thread_sched_def T3) (simp add: e3 e2 e1)
  have T4: "thread_ids_of None d4 p = T" using T3 by (simp add: e4 thread_ids_of_def)
  have e5: "del_threads None p d4 = without_threads p db"
    by (simp add: del_threads_def without_threads_def Let_def e4 e3 e2 e1 T_def)
  have f1: "fk_ok d1" unfolding d1_def using fk by (rule del_evidence_ok)
  have f2: "fk_ok d2" unfolding d2_def
    by (rule del_messages_ok [OF f1]) (simp add: T1, simp add: e1)
  have f3: "fk_ok d3" unfolding d3_def using f2 by (rule del_thread_log_ok)
  have "\<forall>l\<in>set (email_log d3). \<forall>s\<in>set (email_sched d3). log_scheduled l = Some (sched_id s) \<longrightarrow> \<not> sched_of T s"
    using loc by (simp add: e3 e2 e1 local_refs_def T_def) blast
  then have f4: "fk_ok d4" unfolding d4_def by (intro del_thread_sched_ok [OF f3]) (simp only: T3)
  have f5: "fk_ok (del_threads None p d4)"
  proof (rule del_threads_ok [OF f4], unfold T4)
    show "\<forall>m\<in>set (memories d4). tm_thread m \<notin> set T"
      using mem by (simp add: e4 e3 e2 e1 memory_of_def T_def)
    show "\<forall>t\<in>set (threads d4). \<forall>q. thr_parent t = Some q \<longrightarrow> q \<in> set T \<longrightarrow> thr_project t = p"
      using loc by (simp add: e4 e3 e2 e1 local_refs_def T_def)
  qed (simp_all add: e4 e3 e2 e1)
  then show "fk_ok (without_threads p db)" by (simp only: e5)
  have "exec (del_evidence None p) db = Inr d1" "exec (del_messages None p) d1 = Inr d2"
    "exec (del_thread_log None p) d2 = Inr d3" "exec (del_thread_sched None p) d3 = Inr d4"
    "exec (del_threads None p) d4 = Inr (without_threads p db)"
    using f1 f2 f3 f4 f5 by (simp_all add: exec_def d1_def d2_def d3_def d4_def e5 [unfolded d1_def d2_def d3_def d4_def])
  then show "try_fold exec [del_evidence None p, del_messages None p, del_thread_log None p,
           del_thread_sched None p, del_threads None p] db = Inr (without_threads p db)"
    by simp
qed

lemma run_statements_ok:
  assumes fk: "fk_ok db"
    and loc: "\<forall>l\<in>set (run_arts db). \<forall>a\<in>set (arts db). snd l = fst a \<longrightarrow> snd a = p \<longrightarrow> (fst l, p) \<in> set (runs db)"
  shows "try_fold exec [del_run_arts None p, del_run_events None p, del_runs None p, del_arts None p] db
           = Inr (without_runs p db)"
    and "fk_ok (without_runs p db)"
proof -
  define R where "R = run_ids_of None db p"
  have R: "r \<in> set R \<longleftrightarrow> (r, p) \<in> set (runs db)" for r unfolding R_def by (rule run_ids_iff)
  define d1 where "d1 = db\<lparr>run_arts := filter (\<lambda>l. fst l \<notin> set R) (run_arts db)\<rparr>"
  define d2 where "d2 = d1\<lparr>run_events := filter (\<lambda>e. e \<notin> set R) (run_events db)\<rparr>"
  define d3 where "d3 = d2\<lparr>runs := filter (\<lambda>r. snd r \<noteq> p) (runs db)\<rparr>"
  have e1: "del_run_arts None p db = d1" by (simp add: d1_def del_run_arts_def R_def)
  have e2: "del_run_events None p d1 = d2"
    by (simp add: d2_def d1_def del_run_events_def run_ids_of_def R_def)
  have e3: "del_runs None p d2 = d3" by (simp add: d3_def d2_def d1_def del_runs_def)
  have e4: "del_arts None p d3 = without_runs p db"
    by (simp add: d3_def d2_def d1_def del_arts_def without_runs_def R_def clear_target_def [abs_def])
  have f1: "fk_ok d1" using fk by (simp add: fk_defs d1_def)
  have f2: "fk_ok d2" using f1 by (simp add: fk_defs d2_def d1_def) blast
  have keep: "k \<in> fst ` {r \<in> set (runs db). snd r \<noteq> p}" if "k \<in> fst ` set (runs db)" "k \<notin> set R" for k
    using that by (intro in_filtered_ids) (auto simp: R)
  have runs_kept: "\<forall>l\<in>set (run_arts db). fst l \<notin> set R \<longrightarrow> fst l \<in> fst ` {r \<in> set (runs db). snd r \<noteq> p}"
    "\<forall>e\<in>set (run_events db). e \<notin> set R \<longrightarrow> e \<in> fst ` {r \<in> set (runs db). snd r \<noteq> p}"
    using fk keep by (simp_all add: fk_ok_def fk_runs_def)
  have arts_kept: "\<forall>l\<in>set (run_arts db). fst l \<notin> set R \<longrightarrow> snd l \<in> fst ` {a \<in> set (arts db). snd a \<noteq> p}"
  proof (intro ballI impI)
    fix l assume l: "l \<in> set (run_arts db)" "fst l \<notin> set R"
    with fk have "snd l \<in> fst ` set (arts db)" by (simp add: fk_ok_def fk_runs_def)
    then show "snd l \<in> fst ` {a \<in> set (arts db). snd a \<noteq> p}"
      by (rule in_filtered_ids) (use loc l R in auto)
  qed
  have f3: "fk_ok d3" using f2 runs_kept by (simp add: fk_defs d3_def d2_def d1_def)
  have f4: "fk_ok (without_runs p db)"
  proof -
    have "thr_id (clear_target g t) = thr_id t" "thr_parent (clear_target g t) = thr_parent t"
      "thr_project (clear_target g t) = thr_project t" for g t by (simp_all add: clear_target_def)
    then show ?thesis
      using f3 runs_kept arts_kept
      by (simp add: fk_defs d3_def d2_def d1_def without_runs_def R_def comp_def del: split_paired_All)
  qed
  show "fk_ok (without_runs p db)" by (rule f4)
  show "try_fold exec [del_run_arts None p, del_run_events None p, del_runs None p, del_arts None p] db
           = Inr (without_runs p db)"
    using f1 f2 f3 f4 by (simp add: exec_def e1 e2 e3 e4)
qed

lemma content_ok:
  assumes "fk_ok db" and "local_refs db p" and "\<not> memory_of db p"
  shows "try_fold exec (content_deletions None p) db = Inr (without_runs p (without_threads p db))"
    and "fk_ok (without_runs p (without_threads p db))"
proof -
  have "content_deletions None p =
      [del_evidence None p, del_messages None p, del_thread_log None p, del_thread_sched None p, del_threads None p]
      @ [del_run_arts None p, del_run_events None p, del_runs None p, del_arts None p]"
    by (simp add: content_deletions_def)
  moreover have loc: "\<forall>l\<in>set (run_arts (without_threads p db)). \<forall>a\<in>set (arts (without_threads p db)).
      snd l = fst a \<longrightarrow> snd a = p \<longrightarrow> (fst l, p) \<in> set (runs (without_threads p db))"
    using assms(2) by (simp add: local_refs_def without_threads_def Let_def)
  ultimately show "try_fold exec (content_deletions None p) db = Inr (without_runs p (without_threads p db))"
    using thread_statements_ok(1) [OF assms] run_statements_ok(1) [OF thread_statements_ok(2) [OF assms] loc]
    by (simp only: try_fold_append sum_bind_simps)
  show "fk_ok (without_runs p (without_threads p db))"
    by (rule run_statements_ok(2) [OF thread_statements_ok(2) [OF assms] loc])
qed

lemma config_ok:
  assumes "fk_ok d" and "sees d v p"
  shows "try_fold exec [del_members v p, del_hooks p, del_project_log p] d = Inr (without_config p d)"
    and "fk_ok (without_config p d)"
proof -
  define d1 where "d1 = d\<lparr>members := filter (\<lambda>m. mem_project m \<noteq> p) (members d)\<rparr>"
  define d2 where "d2 = d1\<lparr>hooks := filter (\<lambda>h. h \<noteq> p) (hooks d)\<rparr>"
  have "filter (\<lambda>m. \<not> (mem_project m = p \<and> sees d v (mem_project m))) (members d) = filter (\<lambda>m. mem_project m \<noteq> p) (members d)"
    using assms(2) by (auto intro!: filter_cong)
  then have e1: "del_members v p d = d1" by (simp add: del_members_def d1_def)
  have e2: "del_hooks p d1 = d2" by (simp add: del_hooks_def d2_def d1_def)
  have e3: "del_project_log p d2 = without_config p d"
    by (simp add: del_project_log_def d2_def d1_def without_config_def)
  have f1: "fk_ok d1" using assms(1) by (simp add: fk_defs d1_def)
  have f2: "fk_ok d2" using f1 by (simp add: fk_defs d2_def d1_def)
  show f3: "fk_ok (without_config p d)" using f2 by (simp add: fk_defs d2_def d1_def without_config_def)
  show "try_fold exec [del_members v p, del_hooks p, del_project_log p] d = Inr (without_config p d)"
    using f1 f2 f3 by (simp add: exec_def e1 e2 e3)
qed

lemma content_members: "projects (without_runs p (without_threads p db)) = projects db"
  "members (without_runs p (without_threads p db)) = members db"
  by (simp_all add: without_runs_def without_threads_def Let_def)

lemma statements_ok:
  assumes "fk_ok db" and "local_refs db p" and "\<not> memory_of db p" and "sees db v p"
  shows "try_fold exec (deletions v p) db = Inr (without_content p db)"
    and "fk_ok (without_content p db)"
proof -
  have sees: "sees (without_runs p (without_threads p db)) v p"
    using assms(4) sees_cong [OF content_members] by metis
  note config = config_ok [OF content_ok(2) [OF assms(1-3)] this]
  show "try_fold exec (deletions v p) db = Inr (without_content p db)"
    unfolding deletions_split try_fold_append content_plain [OF assms(4)] content_ok(1) [OF assms(1-3)]
    using config(1) by (simp only: sum_bind_simps without_content_def)
  show "fk_ok (without_content p db)"
    using config(2) by (simp only: without_content_def)
qed

lemma without_content_projects [simp]: "projects (without_content p db) = projects db"
  by (simp add: without_content_def without_config_def content_members)

lemma without_row_ok:
  assumes fk: "fk_ok d"
    and free: "\<forall>t\<in>set (threads d). thr_project t \<noteq> p" "\<forall>r\<in>set (runs d). snd r \<noteq> p"
      "\<forall>a\<in>set (arts d). snd a \<noteq> p" "\<forall>m\<in>set (members d). mem_project m \<noteq> p"
      "\<forall>h\<in>set (hooks d). h \<noteq> p" "\<forall>l\<in>set (email_log d). log_project l \<noteq> Some p"
    and log: "\<forall>l\<in>set (email_log d). \<forall>s\<in>set (email_sched d). log_scheduled l = Some (sched_id s) \<longrightarrow> sched_project s \<noteq> p"
  shows "fk_ok (without_row p d)"
proof -
  have keep: "k \<in> proj_id ` {r \<in> set (projects d). proj_id r \<noteq> p}" if "k \<in> proj_id ` set (projects d)" "k \<noteq> p" for k
    using that by blast
  have "ref_in (log_scheduled l) (map sched_id (filter (\<lambda>s. sched_project s \<noteq> p) (email_sched d)))"
    if "l \<in> set (email_log d)" for l
  proof (cases "log_scheduled l")
    case (Some i)
    have "ref_in (log_scheduled l) (map sched_id (email_sched d))"
      using fk that by (simp add: fk_ok_def fk_email_def)
    with Some obtain s where s: "s \<in> set (email_sched d)" "sched_id s = i" by auto
    with log that Some have "sched_project s \<noteq> p" by blast
    with s Some show ?thesis by auto
  qed simp
  moreover have "ref_in (log_project l) (map proj_id (filter (\<lambda>r. proj_id r \<noteq> p) (projects d)))"
    if "l \<in> set (email_log d)" for l
  proof (cases "log_project l")
    case (Some a)
    have "ref_in (log_project l) (map proj_id (projects d))"
      using fk that by (simp add: fk_ok_def fk_email_def)
    with Some free(6) that keep [of a] show ?thesis by auto
  qed simp
  ultimately have "fk_email (without_row p d)"
    using fk keep by (simp add: fk_ok_def fk_email_def without_row_def)
  moreover have "fk_threads (without_row p d)" "fk_thread_refs (without_row p d)"
    "fk_runs (without_row p d)" "fk_members (without_row p d)"
    using fk free keep
    by (simp_all add: fk_ok_def fk_threads_def fk_thread_refs_def fk_runs_def fk_members_def without_row_def)
  ultimately show ?thesis by (simp add: fk_ok_def)
qed

lemma without_content_free:
  "\<forall>t\<in>set (threads (without_content p db)). thr_project t \<noteq> p"
  "\<forall>r\<in>set (runs (without_content p db)). snd r \<noteq> p"
  "\<forall>a\<in>set (arts (without_content p db)). snd a \<noteq> p"
  "\<forall>m\<in>set (members (without_content p db)). mem_project m \<noteq> p"
  "\<forall>h\<in>set (hooks (without_content p db)). h \<noteq> p"
  "\<forall>l\<in>set (email_log (without_content p db)). log_project l \<noteq> Some p"
  by (auto simp: without_content_def without_config_def without_runs_def without_threads_def Let_def clear_target_def)

lemma without_content_log:
  assumes "local_refs db p" and "l \<in> set (email_log (without_content p db))"
    and "s \<in> set (email_sched (without_content p db))" and "log_scheduled l = Some (sched_id s)"
  shows "sched_project s \<noteq> p"
proof -
  from assms(2) have "l \<in> set (email_log db)" "\<not> log_of (thread_ids_of None db p) l" "log_project l \<noteq> Some p"
    by (simp_all add: without_content_def without_config_def without_runs_def without_threads_def Let_def)
  moreover from assms(3) have "s \<in> set (email_sched db)"
    by (simp add: without_content_def without_config_def without_runs_def without_threads_def Let_def)
  ultimately show ?thesis using assms(1,4) unfolding local_refs_def by blast
qed

text \<open>
  The outcome of deleting a project whose threads have no stored memory: an owner (or a
  plain transaction) removes everything; a caller who sees the project only as a member
  removes its content and all memberships, loses sight of the project by that, and so
  leaves its row.
\<close>

definition delete_outcome :: "uuid option \<Rightarrow> uuid \<Rightarrow> store \<Rightarrow> bool \<times> store" where
  "delete_outcome v p db =
     (if v = None \<or> (\<exists>u. v = Some u \<and> owns db p u)
      then (True, without_row p (without_content p db))
      else (False, without_content p db))"

lemma sees_after:
  "sees (without_content p db) v p \<longleftrightarrow> v = None \<or> (\<exists>u. v = Some u \<and> owns db p u)"
proof (cases v)
  case (Some u)
  have "\<not> is_member (without_content p db) p w" for w
    using without_content_free(4) [of p db] by (auto simp: is_member_def)
  then show ?thesis using Some by (simp add: sees_user owns_def)
qed simp

lemma get_project_None: "get_project v d p = None \<longleftrightarrow> \<not> (sees d v p \<and> p \<in> proj_id ` set (projects d))"
  by (auto simp: get_project_def find_None_iff)

lemma delete_project_content:
  assumes "fk_ok db" and "local_refs db p" and "\<not> memory_of db p" and "get_project v db p \<noteq> None"
  shows "delete_project v p db = Inr (delete_outcome v p db)"
proof -
  from assms(4) have vis: "sees db v p" and row: "p \<in> proj_id ` set (projects db)"
    by (simp_all add: get_project_None)
  note run = statements_ok [OF assms(1-3) vis]
  show ?thesis
  proof (cases "sees (without_content p db) v p")
    case True
    then have "exec (del_project v p) (without_content p db) = Inr (without_row p (without_content p db))"
      using without_row_ok [OF run(2) without_content_free] without_content_log [OF assms(2)]
      by (simp add: exec_def del_project_def without_row_def)
    with True assms(4) run(1) row show ?thesis
      by (simp add: delete_project_def delete_outcome_def sees_after [symmetric] get_project_None)
  next
    case False
    then have "exec (del_project v p) (without_content p db) = Inr (without_content p db)"
      using run(2) by (simp add: exec_def del_project_def)
    with False assms(4) run(1) show ?thesis
      by (simp add: delete_project_def delete_outcome_def sees_after [symmetric] get_project_None)
  qed
qed

text \<open>Stored memory of one thread is enough to make the deletion fail.\<close>

lemma try_fold_prefix_error:
  assumes "\<And>d. try_fold exec fs db = Inr d \<Longrightarrow> \<exists>e. try_fold exec gs d = Inl e"
  shows "\<exists>e. try_fold exec (fs @ gs) db = Inl e"
  using assms by (cases "try_fold exec fs db") (auto simp: try_fold_append)

lemma exec_error: "try_fold exec fs db = Inl e \<Longrightarrow> e = ForeignKey"
  by (induction fs arbitrary: db) (auto simp: exec_def split: if_splits)

lemma delete_project_memory:
  assumes "memory_of db p" and "get_project v db p \<noteq> None" and pk: "distinct (map thr_id (threads db))"
  shows "delete_project v p db = Inl ForeignKey"
proof -
  let ?fs = "[del_evidence v p, del_messages v p, del_thread_log v p, del_thread_sched v p]"
  from assms(2) have vis: "sees db v p" by (simp add: get_project_None)
  have "\<exists>e. try_fold exec (deletions v p) db = Inl e"
  proof -
    have "\<exists>e. try_fold exec (?fs @ del_threads v p # drop 5 (deletions v p)) db = Inl e"
    proof (rule try_fold_prefix_error)
      fix d assume "try_fold exec ?fs db = Inr d"
      then have "d = del_thread_sched v p (del_thread_log v p (del_messages v p (del_evidence v p db)))"
        unfolding try_fold.simps sum_bind_Inr_iff exec_Inr_iff by blast
      then have d: "threads d = threads db" "memories d = memories db" "projects d = projects db" "members d = members db"
        by (simp_all add: del_evidence_def del_messages_def del_thread_log_def del_thread_sched_def)
      from assms(1) obtain m where m: "m \<in> set (memories db)" "tm_thread m \<in> set (thread_ids_of None db p)"
        by (auto simp: memory_of_def)
      have "sees d v p" using vis sees_cong [OF d(3,4)] by metis
      moreover from m(2) obtain t where t: "t \<in> set (threads db)" "thr_id t = tm_thread m" "thr_project t = p"
        by (auto simp: thread_ids_iff)
      moreover have "thr_project u = p" if "u \<in> set (threads db)" "thr_id u = tm_thread m" for u
        using eq_key_imp_eq_value [of "map (\<lambda>t. (thr_id t, t)) (threads db)" "tm_thread m" t u] pk t that
        by (simp add: comp_def image_iff)
      ultimately have "tm_thread m \<notin> thr_id ` set (threads (del_threads v p d))"
        using d(1) by (auto simp: del_threads_def)
      moreover have "m \<in> set (memories (del_threads v p d))" using m(1) d(2) by (simp add: del_threads_def)
      ultimately have "\<not> fk_ok (del_threads v p d)" by (auto simp: fk_ok_def fk_thread_refs_def)
      then show "\<exists>e. try_fold exec (del_threads v p # drop 5 (deletions v p)) d = Inl e"
        by (simp add: exec_def)
    qed
    then show ?thesis by (simp add: deletions_def)
  qed
  with exec_error assms(2) show ?thesis by (fastforce simp: delete_project_def)
qed

section \<open>The thread tree\<close>

text \<open>
  A thread's parent exists when the thread is inserted, so it stands before it in the
  table; the recursive query therefore ends after at most as many rounds as there are
  threads, and finds the threads below the given one.
\<close>

fun parents_first :: "thread_row list \<Rightarrow> bool" where
  "parents_first [] \<longleftrightarrow> True"
| "parents_first (t # ts) \<longleftrightarrow> (\<forall>u\<in>set (t # ts). thr_parent t \<noteq> Some (thr_id u)) \<and> parents_first ts"

lemma parents_first_filter: "parents_first ts \<Longrightarrow> parents_first (filter P ts)"
  by (induction ts) auto

lemma parents_first_snoc:
  assumes "parents_first ts" and "thr_id t \<notin> Some -` thr_parent ` set ts" and "thr_parent t \<noteq> Some (thr_id t)"
  shows "parents_first (ts @ [t])"
  using assms by (induction ts) auto

lemma parents_first_drop:
  assumes "parents_first ts" and "distinct (map thr_id ts)"
    and "t \<in> set ts" "thr_parent t = Some q" "q \<in> thr_id ` set (drop k ts)"
  shows "thr_id t \<in> thr_id ` set (drop (Suc k) ts)"
  using assms
proof (induction ts arbitrary: k)
  case (Cons u ts)
  show ?case
  proof (cases k)
    case 0
    then have "t \<noteq> u" using Cons.prems by auto
    with Cons.prems(3) 0 show ?thesis by auto
  next
    case (Suc j)
    with Cons.prems(5) have q: "q \<in> thr_id ` set (drop j ts)" by simp
    then have "q \<in> thr_id ` set ts" by (meson image_mono in_mono set_drop_subset)
    with Cons.prems(1,4) have "t \<noteq> u" by (auto simp: image_iff)
    with Cons Suc q show ?thesis by auto
  qed
qed simp

lemma set_child_ids: "set (child_ids ts ids) = {thr_id t |t. t \<in> set ts \<and> (\<exists>q\<in>set ids. thr_parent t = Some q)}"
  unfolding child_ids_def by auto

lemma tree_rounds_ends:
  assumes "parents_first ts" and "distinct (map thr_id ts)" and "set ids \<subseteq> thr_id ` set (drop k ts)"
    and "length ts \<le> n + k"
  shows "tree_rounds n ts ids \<noteq> None"
  using assms(3,4)
proof (induction n arbitrary: ids k)
  case 0
  then have "ids = []" by simp
  then show ?case by simp
next
  case (Suc n)
  have "set (child_ids ts ids) \<subseteq> thr_id ` set (drop (Suc k) ts)"
  proof
    fix x assume "x \<in> set (child_ids ts ids)"
    then obtain t q where t: "x = thr_id t" "t \<in> set ts" "thr_parent t = Some q" "q \<in> set ids"
      by (auto simp: set_child_ids)
    with parents_first_drop [OF assms(1,2) t(2,3)] Suc.prems(1) show "x \<in> thr_id ` set (drop (Suc k) ts)" by blast
  qed
  from Suc.IH [OF this] Suc.prems(2) show ?case by (cases ids) auto
qed

definition child_rel :: "thread_row list \<Rightarrow> (uuid \<times> uuid) set" where
  "child_rel ts = {(q, thr_id t) |t q. t \<in> set ts \<and> thr_parent t = Some q}"

lemma tree_rounds_set:
  "tree_rounds n ts ids = Some res \<Longrightarrow> set res = (child_rel ts)\<^sup>* `` set ids"
proof (induction n ts ids arbitrary: res rule: tree_rounds.induct)
  case (3 n ts i "is")
  then obtain r where r: "tree_rounds n ts (child_ids ts (i # is)) = Some r" "res = i # is @ r" by auto
  have "set (child_ids ts (i # is)) = child_rel ts `` set (i # is)"
    unfolding set_child_ids child_rel_def by auto
  with "3.IH" [OF r(1)] have "set r = (child_rel ts)\<^sup>* `` (child_rel ts `` set (i # is))" by simp
  moreover have "(child_rel ts)\<^sup>* `` A = A \<union> (child_rel ts)\<^sup>* `` (child_rel ts `` A)" for A
    by (auto intro: converse_rtrancl_into_rtrancl elim: converse_rtranclE)
  ultimately show ?case using r(2) by (metis Un_insert_left list.simps(15) set_append)
qed simp_all

definition subtree :: "uuid option \<Rightarrow> store \<Rightarrow> uuid \<Rightarrow> uuid set" where
  "subtree v db i = (child_rel (filter (\<lambda>t. sees db v (thr_project t)) (threads db)))\<^sup>* ``
     {thr_id t |t. t \<in> set (threads db) \<and> thr_id t = i \<and> sees db v (thr_project t)}"

lemma thread_tree_Some:
  assumes "parents_first (threads db)" and "distinct (map thr_id (threads db))"
  obtains ids where "thread_tree v db i = Some ids" and "set ids = subtree v db i"
proof -
  define ts where "ts = filter (\<lambda>t. sees db v (thr_project t)) (threads db)"
  have "parents_first ts" "distinct (map thr_id ts)"
    using assms by (simp_all add: ts_def parents_first_filter distinct_map_filter)
  moreover have "set (map thr_id (filter (\<lambda>t. thr_id t = i) ts)) \<subseteq> thr_id ` set (drop 0 ts)" by auto
  ultimately have "tree_rounds (Suc (length ts)) ts (map thr_id (filter (\<lambda>t. thr_id t = i) ts)) \<noteq> None"
    by (rule tree_rounds_ends) simp
  then obtain ids where ids: "tree_rounds (Suc (length ts)) ts (map thr_id (filter (\<lambda>t. thr_id t = i) ts)) = Some ids"
    by blast
  have "set (map thr_id (filter (\<lambda>t. thr_id t = i) ts)) =
      {thr_id t |t. t \<in> set (threads db) \<and> thr_id t = i \<and> sees db v (thr_project t)}"
    by (auto simp: ts_def)
  with tree_rounds_set [OF ids] have "set ids = subtree v db i" by (simp add: subtree_def ts_def)
  moreover from ids have "thread_tree v db i = Some ids" by (simp add: thread_tree_def ts_def)
  ultimately show ?thesis by (rule that [rotated])
qed

text \<open>Removing a set of threads with everything that hangs off them.\<close>

lemma drop_evidence_kept:
  assumes "fk_ok db" and "e \<in> set (drop_evidence ids db)"
  shows "e \<in> fst ` {m \<in> set (messages db). snd m \<notin> set ids}"
proof -
  from assms have "e \<in> fst ` set (messages db)" by (simp add: fk_ok_def fk_thread_refs_def drop_evidence_def)
  then obtain m where "m \<in> set (messages db)" "fst m = e" by blast
  moreover from this assms(2) have "snd m \<notin> set ids" by (auto simp: drop_evidence_def)
  ultimately show ?thesis by blast
qed

definition closed_tree :: "uuid list \<Rightarrow> store \<Rightarrow> bool" where
  "closed_tree ids db \<longleftrightarrow>
     (\<forall>t\<in>set (threads db). \<forall>q\<in>set ids. thr_parent t = Some q \<longrightarrow> thr_id t \<in> set ids)"

lemma kept_ids:
  "ref_in r (map thr_id ts) \<Longrightarrow> (\<And>k. r = Some k \<Longrightarrow> k \<notin> set ids) \<Longrightarrow>
     ref_in r (map thr_id (filter (\<lambda>t. thr_id t \<notin> set ids) ts))"
  by (cases r) auto

lemma kept_id: "k \<in> thr_id ` set ts \<Longrightarrow> k \<notin> set ids \<Longrightarrow> k \<in> thr_id ` {t \<in> set ts. thr_id t \<notin> set ids}"
  by blast

lemma drop_expired_ok:
  assumes fk: "fk_ok db" and closed: "closed_tree ids db"
    and log: "\<forall>l\<in>set (email_log db). \<not> log_of ids l" and sched: "\<forall>s\<in>set (email_sched db). \<not> sched_of ids s"
  shows "fk_ok (drop_expired ids db)"
proof -
  have "\<forall>t\<in>set (threads db). thr_id t \<notin> set ids \<longrightarrow>
      ref_in (thr_parent t) (map thr_id (filter (\<lambda>t. thr_id t \<notin> set ids) (threads db)))"
    using fk closed by (auto simp: fk_ok_def fk_threads_def closed_tree_def intro!: kept_ids)
  then have "fk_threads (drop_expired ids db)"
    using fk by (simp add: fk_ok_def fk_threads_def drop_expired_def)
  moreover have "fk_thread_refs (drop_expired ids db)"
    using fk drop_evidence_kept [OF fk]
    by (simp add: fk_ok_def fk_thread_refs_def drop_expired_def kept_id del: split_paired_All)
  moreover have "\<forall>l\<in>set (email_log db). ref_in (log_thread l) (map thr_id (filter (\<lambda>t. thr_id t \<notin> set ids) (threads db)))"
    and "\<forall>s\<in>set (email_sched db). ref_in (sched_thread s) (map thr_id (filter (\<lambda>t. thr_id t \<notin> set ids) (threads db)))"
    using fk log sched by (fastforce simp: fk_ok_def fk_email_def log_of_def sched_of_def intro!: kept_ids)+
  then have "fk_email (drop_expired ids db)" using fk by (simp add: fk_ok_def fk_email_def drop_expired_def)
  ultimately show ?thesis
    using fk by (simp add: fk_ok_def fk_runs_def fk_members_def drop_expired_def)
qed

definition log_local :: "uuid list \<Rightarrow> store \<Rightarrow> bool" where
  "log_local ids db \<longleftrightarrow> (\<forall>l\<in>set (email_log db). \<forall>s\<in>set (email_sched db).
     log_scheduled l = Some (sched_id s) \<longrightarrow> sched_of ids s \<longrightarrow> log_of ids l)"

definition drop_mail :: "uuid list \<Rightarrow> store \<Rightarrow> store" where
  "drop_mail ids db = db\<lparr>email_log := filter (\<lambda>l. \<not> log_of ids l) (email_log db),
     email_sched := filter (\<lambda>s. \<not> sched_of ids s) (email_sched db)\<rparr>"

lemma drop_mail_ok:
  assumes fk: "fk_ok db" and loc: "log_local ids db"
  shows "fk_ok (drop_mail ids db)"
proof -
  have "ref_in (log_scheduled l) (map sched_id (filter (\<lambda>s. \<not> sched_of ids s) (email_sched db)))"
    if l: "l \<in> set (email_log db)" "\<not> log_of ids l" for l
  proof (cases "log_scheduled l")
    case (Some i)
    have "ref_in (log_scheduled l) (map sched_id (email_sched db))"
      using fk l by (simp add: fk_ok_def fk_email_def)
    with Some obtain s where s: "s \<in> set (email_sched db)" "sched_id s = i" by auto
    with loc l Some have "\<not> sched_of ids s" unfolding log_local_def by blast
    with s Some show ?thesis by auto
  qed simp
  then have "fk_email (drop_mail ids db)" using fk by (simp add: fk_ok_def fk_email_def drop_mail_def)
  then show ?thesis
    using fk by (simp add: fk_ok_def fk_threads_def fk_thread_refs_def fk_runs_def fk_members_def drop_mail_def)
qed

lemma drop_tree_split: "drop_tree ids db = drop_expired ids (drop_mail ids db)"
  by (simp add: drop_tree_def drop_expired_def drop_mail_def drop_evidence_def)

lemma drop_tree_ok:
  assumes "fk_ok db" and "closed_tree ids db" and "log_local ids db"
  shows "fk_ok (drop_tree ids db)"
  unfolding drop_tree_split using assms(2)
  by (intro drop_expired_ok drop_mail_ok assms(1,3)) (simp_all add: drop_mail_def closed_tree_def)

definition parents_local :: "store \<Rightarrow> bool" where
  "parents_local db \<longleftrightarrow> (\<forall>t\<in>set (threads db). \<forall>u\<in>set (threads db).
     thr_parent t = Some (thr_id u) \<longrightarrow> thr_project t = thr_project u)"

lemma subtree_visible:
  assumes "k \<in> subtree v db i"
  shows "\<exists>t\<in>set (threads db). thr_id t = k \<and> sees db v (thr_project t)"
proof -
  define ts where "ts = filter (\<lambda>t. sees db v (thr_project t)) (threads db)"
  from assms obtain j where "j \<in> thr_id ` set ts" "(j, k) \<in> (child_rel ts)\<^sup>*"
    by (auto simp: subtree_def ts_def)
  from this(2,1) have "k \<in> thr_id ` set ts"
    by (induction rule: rtrancl_induct) (auto simp: child_rel_def)
  then show ?thesis by (auto simp: ts_def)
qed

lemma subtree_closed:
  assumes "parents_local db" and "set ids = subtree v db i"
    and pk: "distinct (map thr_id (threads db))"
  shows "closed_tree ids db"
  unfolding closed_tree_def
proof (intro ballI impI)
  fix t q assume t: "t \<in> set (threads db)" "q \<in> set ids" "thr_parent t = Some q"
  with assms(2) have q: "q \<in> subtree v db i" by simp
  from subtree_visible [OF q] obtain u where u: "u \<in> set (threads db)" "thr_id u = q" "sees db v (thr_project u)"
    by blast
  with t assms(1) have "sees db v (thr_project t)" unfolding parents_local_def by metis
  with t have "(q, thr_id t) \<in> child_rel (filter (\<lambda>t. sees db v (thr_project t)) (threads db))"
    unfolding child_rel_def by auto
  with q have "thr_id t \<in> subtree v db i" unfolding subtree_def by (meson Image_iff rtrancl.rtrancl_into_rtrancl)
  with assms(2) show "thr_id t \<in> set ids" by simp
qed

lemma delete_thread_exact:
  assumes "fk_ok db" and "parents_first (threads db)" and "distinct (map thr_id (threads db))"
    and "parents_local db" and "\<And>ids. set ids = subtree v db i \<Longrightarrow> log_local ids db"
  obtains ids where "set ids = subtree v db i"
    and "delete_thread v i db = Some (Inr (ids \<noteq> [], drop_tree ids db))"
proof -
  obtain ids where ids: "thread_tree v db i = Some ids" "set ids = subtree v db i"
    using thread_tree_Some [OF assms(2,3)] by blast
  have "(\<exists>t\<in>set (threads db). thr_id t \<in> set ids) \<longleftrightarrow> ids \<noteq> []"
  proof
    assume "ids \<noteq> []"
    then obtain k where "k \<in> set ids" by (cases ids) auto
    with ids(2) subtree_visible show "\<exists>t\<in>set (threads db). thr_id t \<in> set ids" by metis
  qed auto
  moreover have "fk_ok (drop_tree ids db)"
    using subtree_closed [OF assms(4) ids(2) assms(3)] assms(1,5) ids(2) by (intro drop_tree_ok)
  ultimately have "delete_thread v i db = Some (Inr (ids \<noteq> [], drop_tree ids db))"
    by (simp add: delete_thread_def ids(1) exec_def)
  with ids(2) show ?thesis by (rule that)
qed

section \<open>Purging\<close>

definition bad_retention :: "(json \<Rightarrow> string) \<Rightarrow> store \<Rightarrow> instant \<Rightarrow> thread_row \<Rightarrow> bool" where
  "bad_retention render db now t \<longleftrightarrow>
     (\<exists>s. retention_setting render db (thr_project t) = Some s \<and> all_digits s \<and> retention_cutoff s now = Inl OutOfRange)"

definition is_expired :: "(json \<Rightarrow> string) \<Rightarrow> store \<Rightarrow> instant \<Rightarrow> thread_row \<Rightarrow> bool" where
  "is_expired render db now t \<longleftrightarrow> expired_thread render db now t = Inr True"

lemma retention_cutoff_error: "retention_cutoff s now = Inl e \<Longrightarrow> e = OutOfRange"
  by (auto simp: retention_cutoff_def Let_def split: if_splits)

lemma expired_thread_Inl:
  "expired_thread render db now t = Inl e \<longleftrightarrow> e = OutOfRange \<and> bad_retention render db now t"
proof (cases "retention_setting render db (thr_project t)")
  case (Some s)
  then show ?thesis
    using retention_cutoff_error [of s now]
    by (cases "retention_cutoff s now") (auto simp: expired_thread_def bad_retention_def)
qed (simp add: expired_thread_def bad_retention_def)

lemma candidates_fold:
  "try_fold (\<lambda>t acc. sum_bind (expired_thread render db now t) (\<lambda>b. Inr (if b then acc @ [t] else acc))) ts acc =
     (if \<exists>t\<in>set ts. bad_retention render db now t then Inl OutOfRange
      else Inr (acc @ filter (is_expired render db now) ts))"
proof (induction ts arbitrary: acc)
  case (Cons t ts)
  show ?case
  proof (cases "expired_thread render db now t")
    case (Inl e)
    moreover from this have "e = OutOfRange \<and> bad_retention render db now t" by (simp add: expired_thread_Inl)
    ultimately show ?thesis by simp
  next
    case (Inr b)
    then have "\<not> bad_retention render db now t" by (metis expired_thread_Inl Inl_Inr_False)
    moreover from Inr have "is_expired render db now t = b" by (simp add: is_expired_def)
    ultimately show ?thesis using Inr Cons.IH by simp
  qed
qed simp

lemma candidates_eq:
  "candidates render db now =
     (if \<exists>t\<in>set (threads db). bad_retention render db now t then Inl OutOfRange
      else Inr (filter (is_expired render db now) (threads db)))"
  unfolding candidates_def candidates_fold by simp

definition purged_ids :: "(json \<Rightarrow> string) \<Rightarrow> instant \<Rightarrow> store \<Rightarrow> uuid list" where
  "purged_ids render now db =
     map thr_id (filter (\<lambda>t. is_expired render db now t \<and> leaf (threads db) t) (threads db))"

lemma purge_eq:
  "purge_expired_threads render now db =
     (if \<exists>t\<in>set (threads db). bad_retention render db now t then Inl OutOfRange
      else if fk_ok (drop_expired (purged_ids render now db) db)
      then Inr (length (threads db) - length (threads (drop_expired (purged_ids render now db) db)),
                drop_expired (purged_ids render now db) db)
      else Inl ForeignKey)"
proof -
  have "filter (leaf (threads db)) (filter (is_expired render db now) (threads db)) =
      filter (\<lambda>t. is_expired render db now t \<and> leaf (threads db) t) (threads db)"
    by (simp add: conj_commute)
  then show ?thesis
    by (simp add: purge_expired_threads_def candidates_eq purged_ids_def exec_def Let_def)
qed

lemma purged_closed: "distinct (map thr_id (threads db)) \<Longrightarrow> closed_tree (purged_ids render now db) db"
  unfolding closed_tree_def purged_ids_def leaf_def by auto

lemma purge_ok:
  assumes "fk_ok db" and "distinct (map thr_id (threads db))"
    and "\<forall>t\<in>set (threads db). \<not> bad_retention render db now t"
    and "\<forall>l\<in>set (email_log db). \<not> log_of (purged_ids render now db) l"
    and "\<forall>s\<in>set (email_sched db). \<not> sched_of (purged_ids render now db) s"
  shows "\<exists>n. purge_expired_threads render now db = Inr (n, drop_expired (purged_ids render now db) db)"
  using drop_expired_ok [OF assms(1) purged_closed [OF assms(2)] assms(4,5)] assms(3)
  by (simp add: purge_eq)

lemma purge_mail_blocks:
  assumes "distinct (map thr_id (threads db))" and "\<forall>t\<in>set (threads db). \<not> bad_retention render db now t"
    and "l \<in> set (email_log db)" "log_of (purged_ids render now db) l"
  shows "purge_expired_threads render now db = Inl ForeignKey"
proof -
  from assms(4) obtain k where k: "log_thread l = Some k" "k \<in> set (purged_ids render now db)"
    by (auto simp: log_of_def split: option.splits)
  then have "\<not> ref_in (log_thread l) (map thr_id (threads (drop_expired (purged_ids render now db) db)))"
    by (auto simp: drop_expired_def)
  moreover have "l \<in> set (email_log (drop_expired (purged_ids render now db) db))"
    using assms(3) by (simp add: drop_expired_def)
  ultimately have "\<not> fk_email (drop_expired (purged_ids render now db) db)"
    unfolding fk_email_def by blast
  with assms(2) show ?thesis by (simp add: purge_eq fk_ok_def)
qed

end
