(* ===== verification/ProjectApi.thy ===== *)
theory ProjectApi
  imports Authz Deletion
begin

text \<open>
  The project routes of the API (\<open>af-api/src/routes/projects.rs\<close>, \<open>members.rs\<close>): every
  handler runs in one transaction, plain for an administrator and scoped to the caller
  otherwise, checks access, and changes the tables; an error rolls everything back. The
  parameters are the identifier parser and printer, the failures of the access check's
  statements, and a failure of any other statement of the transaction or its commit.
\<close>

record api_env =
  api_parse :: "string \<Rightarrow> uuid option"
  api_show :: "uuid \<Rightarrow> string"
  authz_fault :: "authz_stmt \<Rightarrow> db_error option"
  tx_fault :: "db_error option"

definition scope_of :: "identity \<Rightarrow> api_error + uuid option" where
  "scope_of i =
     (if is_admin i then Inr None
      else case id_user i of
        None \<Rightarrow> Inl (Forbidden ''no user_id on identity'')
      | Some u \<Rightarrow> Inr (Some u))"

definition resolve_user_id :: "api_env \<Rightarrow> string \<Rightarrow> api_error + uuid" where
  "resolve_user_id env s =
     (if s = ''@all'' then Inr ALL_USERS
      else case api_parse env s of
        None \<Rightarrow> Inl (BadRequest (''invalid user_id: '' @ s))
      | Some u \<Rightarrow> Inr u)"

definition lift_db :: "db_error + 'a \<Rightarrow> api_error + 'a" where
  "lift_db r = (case r of Inl e \<Rightarrow> Inl (api_of_db e) | Inr x \<Rightarrow> Inr x)"

definition commit :: "api_env \<Rightarrow> 'a \<Rightarrow> api_error + 'a" where
  "commit env x = (case tx_fault env of Some e \<Rightarrow> Inl (api_of_db e) | None \<Rightarrow> Inr x)"

definition not_found :: "api_env \<Rightarrow> uuid \<Rightarrow> api_error" where
  "not_found env p = NotFound (''project '' @ api_show env p @ '' not found'')"

text \<open>A failing statement can only turn a grant into an error.\<close>

lemma access_fault_mono:
  "check_project_access fault v db u p a = Inr () \<Longrightarrow> check_project_access no_fault v db u p a = Inr ()"
  by (auto simp: check_project_access_def no_fault_def split: option.splits if_splits)

lemma require_access:
  assumes "require_project_access fault v db i p a = Inr ()" and "scope_of i = Inr v"
    and "\<not> is_admin i" and "id_user i = Some u"
  shows "check_project_access no_fault (Some u) db u p a = Inr ()"
proof -
  from assms have v: "v = Some u" by (simp add: scope_of_def)
  have "check_project_access fault v db u p a = Inr ()"
    using assms(1,3,4) unfolding require_project_access_def
    by (cases "check_project_access fault v db u p a") (auto split: authz_error.splits)
  with v access_fault_mono show ?thesis by blast
qed

section \<open>Members\<close>

definition members_list :: "api_env \<Rightarrow> identity \<Rightarrow> uuid \<Rightarrow> store \<Rightarrow> api_error + member_row list" where
  "members_list env i p db =
     sum_bind (scope_of i) (\<lambda>v.
     sum_bind (require_project_access (authz_fault env) v db i p Read) (\<lambda>_.
     commit env (filter (\<lambda>m. mem_user m \<in> set (user_ids db)) (list_members v db p))))"

definition members_add :: "api_env \<Rightarrow> identity \<Rightarrow> uuid \<Rightarrow> string \<Rightarrow> string \<Rightarrow> instant \<Rightarrow> store \<Rightarrow> api_error + store" where
  "members_add env i p target role now db =
     (if role \<notin> {''manager'', ''collaborator'', ''viewer''}
      then Inl (BadRequest ''role must be one of: manager, collaborator, viewer'')
      else
     sum_bind (resolve_user_id env target) (\<lambda>t.
     if id_user i = Some t then Inl (BadRequest ''cannot add yourself as a member'')
     else
     sum_bind (scope_of i) (\<lambda>v.
     sum_bind (require_project_access (authz_fault env) v db i p ManageMembers) (\<lambda>_.
     if t \<noteq> ALL_USERS \<and> t \<notin> set (user_ids db)
     then Inl (NotFound (''user '' @ api_show env t @ '' not found''))
     else
     sum_bind (lift_db (add_member v p t role now db)) (commit env)))))"

definition members_remove :: "api_env \<Rightarrow> identity \<Rightarrow> uuid \<Rightarrow> string \<Rightarrow> store \<Rightarrow> api_error + store" where
  "members_remove env i p target db =
     sum_bind (resolve_user_id env target) (\<lambda>t.
     sum_bind (scope_of i) (\<lambda>v.
     sum_bind (require_project_access (authz_fault env) v db i p ManageMembers) (\<lambda>_.
     case Option.bind (get_project v db p) proj_owner of
       Some own \<Rightarrow>
         if own = t then Inl (BadRequest ''cannot remove the project owner'')
         else sum_bind (lift_db (remove_member v p t db)) (commit env)
     | None \<Rightarrow> sum_bind (lift_db (remove_member v p t db)) (commit env))))"

section \<open>Projects\<close>

definition projects_create :: "api_env \<Rightarrow> identity \<Rightarrow> uuid \<Rightarrow> string \<Rightarrow> instant \<Rightarrow> store \<Rightarrow> api_error + store" where
  "projects_create env i new name now db =
     (if trim name = [] then Inl (BadRequest ''project name is required'')
      else case id_user i of
        Some u \<Rightarrow>
          (let v = (if is_admin i then None else Some u) in
           sum_bind (lift_db (create_project_with_owner v new name u now db)) (\<lambda>d.
           sum_bind (lift_db (add_member v new u ''owner'' now d)) (commit env)))
      | None \<Rightarrow>
          if is_admin i then sum_bind (lift_db (create_project new name now db)) (commit env)
          else Inl (Forbidden ''no user_id on identity''))"

definition projects_list :: "identity \<Rightarrow> store \<Rightarrow> project_row list" where
  "projects_list i db =
     (if is_admin i then list_projects db
      else case id_user i of Some u \<Rightarrow> list_projects_for_user db u | None \<Rightarrow> [])"

definition projects_get :: "api_env \<Rightarrow> identity \<Rightarrow> uuid \<Rightarrow> store \<Rightarrow> api_error + project_row" where
  "projects_get env i p db =
     sum_bind (scope_of i) (\<lambda>v.
     case get_project v db p of
       None \<Rightarrow> Inl (not_found env p)
     | Some row \<Rightarrow>
       sum_bind (require_project_access (authz_fault env) v db i p Read) (\<lambda>_. commit env row))"

definition projects_get_settings :: "api_env \<Rightarrow> identity \<Rightarrow> uuid \<Rightarrow> store \<Rightarrow> api_error + json" where
  "projects_get_settings env i p db =
     sum_bind (projects_get env i p db) (\<lambda>row. Inr (proj_settings row))"

definition projects_delete :: "api_env \<Rightarrow> identity \<Rightarrow> uuid \<Rightarrow> store \<Rightarrow> api_error + store" where
  "projects_delete env i p db =
     sum_bind (scope_of i) (\<lambda>v.
     case get_project v db p of
       None \<Rightarrow> Inl (not_found env p)
     | Some row \<Rightarrow>
       sum_bind (require_project_access (authz_fault env) v db i p ManageMembers) (\<lambda>_.
       sum_bind (lift_db (delete_project v p db)) (\<lambda>(_, d). commit env d)))"

definition without_nda :: "json \<Rightarrow> json" where
  "without_nda body = (case body of JObj kvs \<Rightarrow> JObj (filter (\<lambda>kv. fst kv \<noteq> ''nda'') kvs) | _ \<Rightarrow> body)"

definition has_settings :: "json \<Rightarrow> bool" where
  "has_settings s \<longleftrightarrow> (case s of JObj kvs \<Rightarrow> kvs \<noteq> [] | _ \<Rightarrow> False)"

definition projects_update_settings ::
  "api_env \<Rightarrow> identity \<Rightarrow> uuid \<Rightarrow> json \<Rightarrow> instant \<Rightarrow> store \<Rightarrow> api_error + store" where
  "projects_update_settings env i p body now db =
     sum_bind (scope_of i) (\<lambda>v.
     case get_project v db p of
       None \<Rightarrow> Inl (not_found env p)
     | Some row \<Rightarrow>
       sum_bind (require_project_access (authz_fault env) v db i p ManageMembers) (\<lambda>_.
       sum_bind (case jget body ''nda'' of
                   None \<Rightarrow> Inr db
                 | Some (JBool b) \<Rightarrow> Inr (snd (set_nda (api_show env) v p b (id_user i) now db))
                 | Some _ \<Rightarrow> Inl (BadRequest ''nda must be a boolean'')) (\<lambda>d.
       (let s = without_nda body in
        if has_settings s
        then (if get_project v d p = None then Inl (not_found env p)
              else commit env (update_settings v p s now d))
        else (if get_project v d p = None then Inl (not_found env p) else commit env d)))))"

section \<open>Runs of the API\<close>

datatype request =
    CreateProject string
  | AddMember uuid string string
  | RemoveMember uuid string
  | DeleteProject uuid
  | UpdateSettings uuid json

fun handle :: "api_env \<Rightarrow> identity \<Rightarrow> uuid \<Rightarrow> instant \<Rightarrow> request \<Rightarrow> store \<Rightarrow> api_error + store" where
  "handle env i new now (CreateProject name) db = projects_create env i new name now db"
| "handle env i new now (AddMember p t role) db = members_add env i p t role now db"
| "handle env i new now (RemoveMember p t) db = members_remove env i p t db"
| "handle env i new now (DeleteProject p) db = projects_delete env i p db"
| "handle env i new now (UpdateSettings p body) db = projects_update_settings env i p body now db"

text \<open>
  The reachable tables. A new project gets an identifier nobody used before; no key belongs
  to the sentinel user; the other parts of the system leave projects and members alone, add
  users and audit entries of other kinds, and keep the foreign keys.
\<close>

definition nda_entry :: "(uuid \<Rightarrow> string) \<Rightarrow> uuid \<Rightarrow> audit_row \<Rightarrow> bool option" where
  "nda_entry show p row =
     (if aud_event row = ''nda_flag_changed''
      then (case aud_detail row of
              None \<Rightarrow> None
            | Some d \<Rightarrow> if jget d ''project_id'' = Some (JStr (show p))
                        then (case jget d ''new_nda'' of Some (JBool b) \<Rightarrow> Some b | _ \<Rightarrow> None)
                        else None)
      else None)"

definition recorded_nda :: "(uuid \<Rightarrow> string) \<Rightarrow> uuid \<Rightarrow> audit_row list \<Rightarrow> bool" where
  "recorded_nda show p rows =
     foldl (\<lambda>b row. case nda_entry show p row of Some b' \<Rightarrow> b' | None \<Rightarrow> b) False rows"

definition fresh_project :: "(uuid \<Rightarrow> string) \<Rightarrow> uuid \<Rightarrow> store \<Rightarrow> bool" where
  "fresh_project show p db \<longleftrightarrow> p \<notin> proj_id ` set (projects db) \<and> (\<forall>row\<in>set (audit db). nda_entry show p row = None)"

inductive api_step :: "(uuid \<Rightarrow> string) \<Rightarrow> store \<Rightarrow> store \<Rightarrow> bool" for shw where
  request:
    "handle env i new now req db = Inr db' \<Longrightarrow> api_show env = shw \<Longrightarrow> id_user i \<noteq> Some ALL_USERS \<Longrightarrow>
     fresh_project shw new db \<Longrightarrow> api_step shw db db'"
| others:
    "projects db' = projects db \<Longrightarrow> members db' = members db \<Longrightarrow> fk_ok db' \<Longrightarrow>
     audit db' = audit db @ rows \<Longrightarrow> \<forall>row\<in>set rows. aud_event row \<noteq> ''nda_flag_changed'' \<Longrightarrow>
     api_step shw db db'"

definition empty_store :: "uuid list \<Rightarrow> store" where
  "empty_store us = \<lparr>projects = [], members = [], user_ids = us, threads = [], memories = [],
     messages = [], evidence = [], email_log = [], email_sched = [], runs = [], run_arts = [],
     run_events = [], arts = [], hooks = [], audit = []\<rparr>"

inductive api_reach :: "(uuid \<Rightarrow> string) \<Rightarrow> store \<Rightarrow> bool" for shw where
  start: "api_reach shw (empty_store us)"
| step: "api_reach shw db \<Longrightarrow> api_step shw db db' \<Longrightarrow> api_reach shw db'"

section \<open>What each change does\<close>

lemma commit_Inr [error_iff]: "commit env x = Inr y \<longleftrightarrow> tx_fault env = None \<and> y = x"
  by (auto simp: commit_def split: option.splits)

lemma lift_db_Inr [error_iff]: "lift_db r = Inr x \<longleftrightarrow> r = Inr x"
  by (auto simp: lift_db_def split: sum.splits)

lemma scope_of_cases:
  "scope_of i = Inr v \<longleftrightarrow> (is_admin i \<and> v = None) \<or> (\<not> is_admin i \<and> (\<exists>u. id_user i = Some u \<and> v = Some u))"
  by (auto simp: scope_of_def split: option.splits)

text \<open>The four shapes a change of projects and members can have.\<close>

definition tenancy_frame :: "uuid \<Rightarrow> store \<Rightarrow> store \<Rightarrow> bool" where
  "tenancy_frame p db db' \<longleftrightarrow>
     filter (\<lambda>r. proj_id r \<noteq> p) (projects db') = filter (\<lambda>r. proj_id r \<noteq> p) (projects db) \<and>
     filter (\<lambda>m. mem_project m \<noteq> p) (members db') = filter (\<lambda>m. mem_project m \<noteq> p) (members db)"

lemma filter_map_id: "(\<And>x. x \<in> set xs \<Longrightarrow> P (f x) = P x) \<Longrightarrow> (\<And>x. x \<in> set xs \<Longrightarrow> P x \<Longrightarrow> f x = x) \<Longrightarrow>
   filter P (map f xs) = filter P xs"
  by (induction xs) auto

lemma put_member_frame: "tenancy_frame p db (put_member p u role now db)"
  unfolding tenancy_frame_def put_member_def is_key_def by (auto intro!: filter_map_id split: if_splits)

lemma remove_member_frame: "remove_member v p u db = Inr db' \<Longrightarrow> tenancy_frame p db db'"
  unfolding tenancy_frame_def remove_member_def is_key_def by (auto simp: error_iff intro!: filter_cong)

lemma update_project_frame:
  "(\<And>r. proj_id (f r) = proj_id r) \<Longrightarrow> tenancy_frame p db (update_project v p f db)"
  unfolding tenancy_frame_def update_project_def by (auto intro!: filter_map_id split: if_splits)

lemma tenancy_frame_trans: "tenancy_frame p a b \<Longrightarrow> tenancy_frame p b c \<Longrightarrow> tenancy_frame p a c"
  by (simp add: tenancy_frame_def)

lemma tenancy_frame_refl: "projects b = projects a \<Longrightarrow> members b = members a \<Longrightarrow> tenancy_frame p a b"
  by (simp add: tenancy_frame_def)

text \<open>Deleting a project, whatever the outcome.\<close>

definition trimmed :: "uuid \<Rightarrow> store \<Rightarrow> store \<Rightarrow> bool" where
  "trimmed p db d \<longleftrightarrow> projects d = projects db \<and> audit d = audit db \<and>
     (\<exists>Q. members d = filter Q (members db) \<and> (\<forall>m. mem_project m \<noteq> p \<longrightarrow> Q m))"

lemma trimmed_refl: "trimmed p db db"
  unfolding trimmed_def by (auto intro!: exI [of _ "\<lambda>_. True"])

lemma trimmed_step:
  assumes "f \<in> set (deletions v p)" and "trimmed p db d" and "exec f d = Inr d'"
  shows "trimmed p db d'"
proof -
  have d': "d' = f d" using assms(3) by (simp add: error_iff)
  have fd: "projects (f d) = projects d \<and> audit (f d) = audit d \<and>
      (members (f d) = members d \<or> members (f d) = filter (\<lambda>m. \<not> (mem_project m = p \<and> sees d v (mem_project m))) (members d))"
    using assms(1)
    by (auto simp: deletions_def del_evidence_def del_messages_def del_thread_log_def del_thread_sched_def
        del_threads_def del_run_arts_def del_run_events_def del_runs_def del_arts_def del_members_def
        del_hooks_def del_project_log_def Let_def)
  have "\<exists>R. members (f d) = filter R (members d) \<and> (\<forall>m. mem_project m \<noteq> p \<longrightarrow> R m)"
  proof (cases "members (f d) = members d")
    case True
    then show ?thesis by (intro exI [of _ "\<lambda>_. True"]) simp
  next
    case False
    with fd show ?thesis
      by (intro exI [of _ "\<lambda>m. \<not> (mem_project m = p \<and> sees d v (mem_project m))"]) simp
  qed
  then obtain R where R: "members (f d) = filter R (members d)" "\<forall>m. mem_project m \<noteq> p \<longrightarrow> R m"
    by blast
  from assms(2) obtain Q where "members d = filter Q (members db)" "\<forall>m. mem_project m \<noteq> p \<longrightarrow> Q m"
    by (auto simp: trimmed_def)
  with R have "members (f d) = filter (\<lambda>m. Q m \<and> R m) (members db)" "\<forall>m. mem_project m \<noteq> p \<longrightarrow> Q m \<and> R m"
    by simp_all
  with fd assms(2) show ?thesis unfolding d' trimmed_def by auto
qed

lemma delete_project_frame:
  assumes "delete_project v p db = Inr (b, d)" and "fk_ok db"
  shows "(projects d = projects db \<or> projects d = filter (\<lambda>r. proj_id r \<noteq> p) (projects db)) \<and> audit d = audit db
     \<and> (\<exists>Q. members d = filter Q (members db) \<and> (\<forall>m. mem_project m \<noteq> p \<longrightarrow> Q m)) \<and> fk_ok d"
proof (cases "get_project v db p")
  case None
  with assms have "d = db" by (simp add: delete_project_def)
  with assms(2) trimmed_refl [of p db] show ?thesis by (simp add: trimmed_def)
next
  case (Some r)
  with assms(1) obtain e where e: "try_fold exec (deletions v p) db = Inr e" "exec (del_project v p) e = Inr d"
    by (auto simp: delete_project_def error_iff)
  from e(1) trimmed_refl have "trimmed p db e" by (rule try_fold_invariant) (rule trimmed_step)
  then show ?thesis using e(2) by (auto simp: error_iff trimmed_def del_project_def)
qed

section \<open>What every run keeps\<close>

definition owner_rows :: "store \<Rightarrow> bool" where
  "owner_rows db \<longleftrightarrow> (\<forall>m\<in>set (members db). mem_role m = ''owner'' \<longrightarrow> owns db (mem_project m) (mem_user m))"

definition no_sentinel_owner :: "store \<Rightarrow> bool" where
  "no_sentinel_owner db \<longleftrightarrow> (\<forall>r\<in>set (projects db). proj_owner r \<noteq> Some ALL_USERS)"

definition nda_recorded :: "(uuid \<Rightarrow> string) \<Rightarrow> store \<Rightarrow> bool" where
  "nda_recorded show db \<longleftrightarrow> (\<forall>r\<in>set (projects db). proj_nda r = recorded_nda show (proj_id r) (audit db))"

definition tenancy_ok :: "store \<Rightarrow> bool" where
  "tenancy_ok db \<longleftrightarrow> keys_ok db \<and> owner_rows db \<and> no_sentinel_owner db \<and> fk_ok db"

lemma owner_rowsD: "owner_rows db \<Longrightarrow> m \<in> set (members db) \<Longrightarrow> mem_role m = ''owner'' \<Longrightarrow> owns db (mem_project m) (mem_user m)"
  by (simp add: owner_rows_def)

lemma put_member_keys:
  assumes "keys_ok db" and "role \<in> set valid_roles"
  shows "keys_ok (put_member p u role now db)"
proof (cases "is_member db p u")
  case True
  have "member_keys (put_member p u role now db) = member_keys db"
    using True by (simp add: put_member_def member_keys_def is_key_def)
  with assms True show ?thesis by (auto simp: keys_ok_def put_member_def)
next
  case False
  then have "(p, u) \<notin> set (member_keys db)" by (auto simp: is_member_def member_keys_def)
  with assms False show ?thesis by (auto simp: keys_ok_def put_member_def member_keys_def)
qed

lemma put_member_rows:
  "m \<in> set (members (put_member p u role now db)) \<Longrightarrow>
     m \<in> set (members db) \<and> (mem_project m, mem_user m) \<noteq> (p, u) \<or> mem_project m = p \<and> mem_user m = u \<and> mem_role m = role"
  by (auto simp: put_member_def is_key_def is_member_def split: if_splits)

lemma put_member_projects [simp]: "projects (put_member p u role now db) = projects db"
  "audit (put_member p u role now db) = audit db"
  by (simp_all add: put_member_def)

lemma put_member_owner_rows:
  assumes "owner_rows db" and "role = ''owner'' \<Longrightarrow> owns db p u"
  shows "owner_rows (put_member p u role now db)"
  unfolding owner_rows_def
proof (intro ballI impI)
  fix m assume m: "m \<in> set (members (put_member p u role now db))" "mem_role m = ''owner''"
  have "owns (put_member p u role now db) q w = owns db q w" for q w by (simp add: owns_def)
  with put_member_rows [OF m(1)] m(2) assms show "owns (put_member p u role now db) (mem_project m) (mem_user m)"
    by (auto simp: owner_rows_def)
qed

lemma add_member_ok:
  assumes "add_member v p u role now db = Inr d" and "tenancy_ok db" and "role = ''owner'' \<Longrightarrow> owns db p u"
  shows "tenancy_ok d" and "d = put_member p u role now db"
proof -
  from assms(1) have d: "d = put_member p u role now db" "fk_ok d" "role \<in> set valid_roles"
    by (auto simp: add_member_def error_iff split: if_splits)
  show "d = put_member p u role now db" by (rule d(1))
  show "tenancy_ok d"
    using assms(2,3) d put_member_keys put_member_owner_rows by (simp add: tenancy_ok_def no_sentinel_owner_def)
qed

text \<open>Fewer members, the same projects.\<close>

lemma filter_members_ok:
  assumes "tenancy_ok db" and "projects d = projects db" and "members d = filter Q (members db)" and "fk_ok d"
  shows "tenancy_ok d"
proof -
  have "owns d = owns db" by (simp add: owns_def assms(2) fun_eq_iff)
  then show ?thesis
    using assms by (auto simp: tenancy_ok_def keys_ok_def owner_rows_def no_sentinel_owner_def member_keys_def distinct_map_filter)
qed

lemma remove_member_ok: "remove_member v p u db = Inr d \<Longrightarrow> tenancy_ok db \<Longrightarrow> tenancy_ok d"
  by (rule filter_members_ok) (auto simp: remove_member_def error_iff)

lemma delete_project_ok:
  assumes "delete_project v p db = Inr (b, d)" and "tenancy_ok db"
  shows "tenancy_ok d"
proof -
  have fk: "fk_ok db" using assms(2) by (simp add: tenancy_ok_def)
  note fr = delete_project_frame [OF assms(1) fk]
  then obtain Q where Q: "members d = filter Q (members db)" by blast
  from fr have fkd: "fk_ok d" by blast
  show ?thesis
  proof (cases "projects d = projects db")
    case True
    with filter_members_ok [OF assms(2) _ Q fkd] show ?thesis by simp
  next
    case False
    with fr have pr: "projects d = filter (\<lambda>r. proj_id r \<noteq> p) (projects db)" by blast
    have "owns d (mem_project m) (mem_user m)" if m: "m \<in> set (members d)" "mem_role m = ''owner''" for m
    proof -
      have "mem_project m \<in> proj_id ` set (projects d)"
        using fkd m(1) by (simp add: fk_ok_def fk_members_def)
      then have "mem_project m \<noteq> p" by (auto simp: pr)
      moreover have "owns db (mem_project m) (mem_user m)"
        using assms(2) m Q by (simp add: tenancy_ok_def owner_rows_def)
      ultimately show ?thesis by (auto simp: owns_def pr)
    qed
    then have "owner_rows d" by (simp add: owner_rows_def)
    with fkd assms(2) Q pr show ?thesis
      by (auto simp: tenancy_ok_def keys_ok_def no_sentinel_owner_def member_keys_def distinct_map_filter)
  qed
qed

text \<open>A change of settings or flag keeps identifiers and owners.\<close>

lemma update_project_ok:
  assumes f: "\<And>r. proj_id (f r) = proj_id r \<and> proj_owner (f r) = proj_owner r" and "tenancy_ok db"
  shows "tenancy_ok (update_project v p f db)"
proof -
  let ?d = "update_project v p f db"
  have ids: "map proj_id (projects ?d) = map proj_id (projects db)"
    by (simp add: update_project_def f)
  have pairs: "map (\<lambda>r. (proj_id r, proj_owner r)) (projects ?d) = map (\<lambda>r. (proj_id r, proj_owner r)) (projects db)"
    by (simp add: update_project_def f)
  have own_iff: "owns e q w \<longleftrightarrow> (q, Some w) \<in> set (map (\<lambda>r. (proj_id r, proj_owner r)) (projects e))" for e q w
    by (auto simp: owns_def)
  have own: "owns ?d q w = owns db q w" for q w
    unfolding own_iff pairs ..
  have rest: "members ?d = members db" "user_ids ?d = user_ids db" "threads ?d = threads db"
    "memories ?d = memories db" "messages ?d = messages db" "evidence ?d = evidence db"
    "email_log ?d = email_log db" "email_sched ?d = email_sched db" "runs ?d = runs db"
    "run_arts ?d = run_arts db" "run_events ?d = run_events db" "arts ?d = arts db" "hooks ?d = hooks db"
    by (simp_all add: update_project_def)
  have owners: "proj_owner ` set (projects ?d) = proj_owner ` set (projects db)"
    using pairs by (metis (no_types, lifting) image_image list.set_map snd_conv image_cong)
  have "fk_ok ?d"
  proof -
    have "(\<forall>r\<in>set (projects ?d). ref_in (proj_owner r) (user_ids db)) \<longleftrightarrow> (\<forall>r\<in>set (projects db). ref_in (proj_owner r) (user_ids db))"
      using owners by (metis (mono_tags, lifting) image_iff)
    then show ?thesis
      using assms(2) unfolding tenancy_ok_def fk_ok_def fk_threads_def fk_thread_refs_def fk_email_def fk_runs_def
        fk_members_def rest ids by blast
  qed
  moreover have "no_sentinel_owner ?d"
    using assms(2) owners unfolding tenancy_ok_def no_sentinel_owner_def by (metis (mono_tags, lifting) image_iff)
  ultimately show ?thesis
    using assms(2) by (simp add: tenancy_ok_def keys_ok_def owner_rows_def ids rest own member_keys_def del: map_map)
qed

section \<open>One request\<close>

text \<open>A successful request, by kind: what was checked and what was done.\<close>

lemma create_Inr:
  assumes "projects_create env i new name now db = Inr db'"
  obtains own where "own = id_user i"
    and "fk_ok (db\<lparr>projects := projects db @ [new_project new name own now]\<rparr>)"
    and "own = None \<Longrightarrow> db' = db\<lparr>projects := projects db @ [new_project new name own now]\<rparr>"
    and "\<And>u. own = Some u \<Longrightarrow> \<exists>v. add_member v new u ''owner'' now (db\<lparr>projects := projects db @ [new_project new name own now]\<rparr>) = Inr db'"
proof (cases "id_user i")
  case None
  with assms have "exec (\<lambda>d. d\<lparr>projects := projects d @ [new_project new name None now]\<rparr>) db = Inr db'"
    by (auto simp: projects_create_def create_project_def error_iff split: if_splits)
  with None that [of None] show ?thesis by (auto simp: error_iff)
next
  case (Some u)
  with assms obtain v d where "create_project_with_owner v new name u now db = Inr d" "add_member v new u ''owner'' now d = Inr db'"
    by (auto simp: projects_create_def error_iff Let_def split: if_splits)
  with Some that [of "Some u"] show ?thesis
    by (auto simp: create_project_with_owner_def error_iff split: if_splits)
qed

lemma add_Inr:
  assumes "members_add env i p target role now db = Inr db'"
  obtains v t where "scope_of i = Inr v" and "require_project_access (authz_fault env) v db i p ManageMembers = Inr ()"
    and "role \<in> {''manager'', ''collaborator'', ''viewer''}" and "add_member v p t role now db = Inr db'"
  using assms by (auto simp: members_add_def error_iff split: if_splits)

lemma remove_Inr:
  assumes "members_remove env i p target db = Inr db'"
  obtains v t where "scope_of i = Inr v" and "require_project_access (authz_fault env) v db i p ManageMembers = Inr ()"
    and "remove_member v p t db = Inr db'"
proof -
  from assms obtain v t where *: "scope_of i = Inr v" "require_project_access (authz_fault env) v db i p ManageMembers = Inr ()"
      and rest: "(case Option.bind (get_project v db p) proj_owner of
        Some own \<Rightarrow> if own = t then Inl (BadRequest ''cannot remove the project owner'')
                    else sum_bind (lift_db (remove_member v p t db)) (commit env)
      | None \<Rightarrow> sum_bind (lift_db (remove_member v p t db)) (commit env)) = Inr db'"
    by (auto simp: members_remove_def error_iff)
  from rest have "remove_member v p t db = Inr db'"
    by (auto simp: error_iff split: option.splits if_splits)
  with * show ?thesis by (rule that)
qed

lemma delete_Inr:
  assumes "projects_delete env i p db = Inr db'"
  obtains v b where "scope_of i = Inr v" and "require_project_access (authz_fault env) v db i p ManageMembers = Inr ()"
    and "delete_project v p db = Inr (b, db')"
  using assms by (auto simp: projects_delete_def error_iff split: option.splits)

lemma settings_Inr:
  assumes "projects_update_settings env i p body now db = Inr db'"
  obtains v d where "scope_of i = Inr v" and "require_project_access (authz_fault env) v db i p ManageMembers = Inr ()"
    and "d = db \<or> (\<exists>b. d = snd (set_nda (api_show env) v p b (id_user i) now db))"
    and "db' = d \<or> db' = update_settings v p (without_nda body) now d"
proof -
  from assms obtain v d where *: "scope_of i = Inr v"
      "require_project_access (authz_fault env) v db i p ManageMembers = Inr ()"
      and nda: "(case jget body ''nda'' of None \<Rightarrow> Inr db
                 | Some (JBool b) \<Rightarrow> Inr (snd (set_nda (api_show env) v p b (id_user i) now db))
                 | Some _ \<Rightarrow> Inl (BadRequest ''nda must be a boolean'')) = Inr d"
      and rest: "(let s = without_nda body in
        if has_settings s
        then (if get_project v d p = None then Inl (not_found env p)
              else commit env (update_settings v p s now d))
        else (if get_project v d p = None then Inl (not_found env p) else commit env d)) = Inr db'"
    unfolding projects_update_settings_def by (auto simp: error_iff split: option.splits)
  from nda have "d = db \<or> (\<exists>b. d = snd (set_nda (api_show env) v p b (id_user i) now db))"
    by (auto split: option.splits json.splits)
  moreover from rest have "db' = d \<or> db' = update_settings v p (without_nda body) now d"
    by (auto simp: Let_def error_iff split: if_splits)
  ultimately show ?thesis using * that by blast
qed

section \<open>The NDA history\<close>

lemma recorded_nda_append: "recorded_nda sh p (rows @ rows') =
    foldl (\<lambda>b row. case nda_entry sh p row of Some b' \<Rightarrow> b' | None \<Rightarrow> b) (recorded_nda sh p rows) rows'"
  by (simp add: recorded_nda_def)

lemma nda_entry_detail:
  "nda_entry sh q \<lparr>aud_event = ''nda_flag_changed'', aud_actor = a, aud_user = u, aud_detail = Some (nda_detail sh p b new)\<rparr>
     = (if sh p = sh q then Some new else None)"
  by (simp add: nda_entry_def nda_detail_def)

lemma set_nda_cases:
  obtains (same) "snd (set_nda sh v p new who now db) = db"
  | (flip) r where "get_project v db p = Some r" and "proj_nda r \<noteq> new"
      and "snd (set_nda sh v p new who now db) = update_project v p (\<lambda>x. x\<lparr>proj_nda := new, proj_updated := now\<rparr>)
             (insert_audit ''nda_flag_changed'' None who (Some (nda_detail sh p (proj_nda r) new)) db)"
proof (cases "get_project v db p")
  case None
  then show ?thesis by (intro same) (simp add: set_nda_def)
next
  case (Some r)
  show ?thesis
  proof (cases "proj_nda r = new")
    case True
    with Some show ?thesis by (intro same) (simp add: set_nda_def)
  next
    case False
    with Some show ?thesis by (intro flip [of r]) (simp_all add: set_nda_def Let_def)
  qed
qed

lemma sees_audit [simp]: "sees (insert_audit ev a u d db) v = sees db v"
  by (rule sees_cong) (simp_all add: insert_audit_def)

lemma projects_audit [simp]: "projects (insert_audit ev a u d db) = projects db"
  by (simp add: insert_audit_def)

lemma set_nda_recorded:
  assumes "inj sh" and "nda_recorded sh db"
  shows "nda_recorded sh (snd (set_nda sh v p new who now db))"
proof (cases rule: set_nda_cases [of sh v p new who now db])
  case (flip r)
  then have vis: "sees db v p" by (auto simp: get_project_def find_Some_iff)
  show ?thesis
  proof (unfold nda_recorded_def, intro ballI)
    fix x assume "x \<in> set (projects (snd (set_nda sh v p new who now db)))"
    then obtain y where y: "y \<in> set (projects db)"
        "x = (if proj_id y = p then y\<lparr>proj_nda := new, proj_updated := now\<rparr> else y)"
      using vis unfolding flip(3) by (auto simp: update_project_def split: if_splits)
    have "proj_nda y = recorded_nda sh (proj_id y) (audit db)" using assms(2) y(1) by (simp add: nda_recorded_def)
    moreover have "sh p = sh (proj_id y) \<longleftrightarrow> p = proj_id y" using assms(1) by (simp add: inj_eq)
    ultimately show "proj_nda x = recorded_nda sh (proj_id x) (audit (snd (set_nda sh v p new who now db)))"
      using y(2) unfolding flip(3)
      by (simp add: update_project_def insert_audit_def recorded_nda_append nda_entry_detail)
  qed
qed (use assms in simp)

lemma set_nda_ok:
  assumes "tenancy_ok db"
  shows "tenancy_ok (snd (set_nda sh v p new who now db))"
proof (cases rule: set_nda_cases [of sh v p new who now db])
  case (flip r)
  have "tenancy_ok (insert_audit ''nda_flag_changed'' None who (Some (nda_detail sh p (proj_nda r) new)) db)"
    using assms by (simp add: tenancy_ok_def keys_ok_def owner_rows_def no_sentinel_owner_def member_keys_def
        owns_def insert_audit_def fk_defs)
  then show ?thesis unfolding flip(3) by (intro update_project_ok) simp
qed (use assms in simp)

lemma set_nda_frame: "tenancy_frame p db (snd (set_nda sh v p new who now db))"
proof (cases rule: set_nda_cases [of sh v p new who now db])
  case (flip r)
  have "tenancy_frame p db (insert_audit ''nda_flag_changed'' None who (Some (nda_detail sh p (proj_nda r) new)) db)"
    by (rule tenancy_frame_refl) (simp_all add: insert_audit_def)
  then show ?thesis unfolding flip(3) by (rule tenancy_frame_trans) (rule update_project_frame, simp)
qed (simp add: tenancy_frame_refl)

lemma update_settings_recorded: "nda_recorded sh db \<Longrightarrow> nda_recorded sh (update_settings v p s now db)"
  by (auto simp: nda_recorded_def update_settings_def update_project_def)

lemma nda_recorded_mono:
  "nda_recorded sh db \<Longrightarrow> set (projects d) \<subseteq> set (projects db) \<Longrightarrow> audit d = audit db \<Longrightarrow> nda_recorded sh d"
  by (auto simp: nda_recorded_def)

section \<open>Every reachable state\<close>

lemma create_ok:
  assumes "projects_create env i new name now db = Inr db'" and "fresh_project shw new db"
    and "id_user i \<noteq> Some ALL_USERS" and "tenancy_ok db"
  shows "tenancy_ok db'" and "nda_recorded shw db \<Longrightarrow> nda_recorded shw db'"
    and "\<exists>r. proj_id r = new \<and> projects db' = projects db @ [r]"
    and "filter (\<lambda>m. mem_project m \<noteq> new) (members db') = filter (\<lambda>m. mem_project m \<noteq> new) (members db)"
proof -
  define own where "own = id_user i"
  define d where "d = db\<lparr>projects := projects db @ [new_project new name own now]\<rparr>"
  from assms(1) have fk: "fk_ok d" and none: "own = None \<Longrightarrow> db' = d"
    and some: "\<And>u. own = Some u \<Longrightarrow> \<exists>v. add_member v new u ''owner'' now d = Inr db'"
    unfolding own_def d_def by (auto elim: create_Inr)
  have fr: "new \<notin> proj_id ` set (projects db)" using assms(2) by (simp add: fresh_project_def)
  have d: "tenancy_ok d"
    using assms(3,4) fk fr
    by (auto simp: tenancy_ok_def keys_ok_def owner_rows_def no_sentinel_owner_def member_keys_def owns_def d_def
        new_project_def own_def)
  have cases: "db' = d \<or> (\<exists>u v. own = Some u \<and> add_member v new u ''owner'' now d = Inr db')"
    using none some by (cases own) auto
  have own_new: "owns d new u" if "own = Some u" for u
    using that by (auto simp: owns_def d_def new_project_def)
  from cases d own_new show "tenancy_ok db'" using add_member_ok(1) by blast
  have shape: "db' = d \<or> (\<exists>u. db' = put_member new u ''owner'' now d)"
    using cases d own_new add_member_ok(2) by blast
  then have pr: "projects db' = projects d" "audit db' = audit d" by auto
  have "recorded_nda shw new rows = False" if "\<forall>row\<in>set rows. nda_entry shw new row = None" for rows
    using that by (induction rows rule: rev_induct) (auto simp: recorded_nda_def)
  then have "recorded_nda shw new (audit db) = False" using assms(2) by (simp add: fresh_project_def)
  then show "nda_recorded shw db \<Longrightarrow> nda_recorded shw db'"
    using pr by (auto simp: nda_recorded_def d_def new_project_def)
  show "\<exists>r. proj_id r = new \<and> projects db' = projects db @ [r]"
    using pr by (auto simp: d_def new_project_def)
  have "tenancy_frame new d db'"
    using shape put_member_frame tenancy_frame_refl by blast
  then show "filter (\<lambda>m. mem_project m \<noteq> new) (members db') = filter (\<lambda>m. mem_project m \<noteq> new) (members db)"
    by (simp add: tenancy_frame_def d_def)
qed

lemma request_ok:
  assumes "handle env i new now req db = Inr db'" and "fresh_project (api_show env) new db"
    and "id_user i \<noteq> Some ALL_USERS" and "tenancy_ok db"
  shows "tenancy_ok db'"
proof (cases req)
  case (CreateProject name)
  with assms create_ok(1) show ?thesis by simp
next
  case (AddMember p t role)
  with assms(1) obtain v u where "add_member v p u role now db = Inr db'" "role \<noteq> ''owner''"
    by (auto elim: add_Inr)
  with add_member_ok(1) assms(4) show ?thesis by blast
next
  case (RemoveMember p t)
  with assms(1) obtain v u where "remove_member v p u db = Inr db'" by (auto elim: remove_Inr)
  with remove_member_ok assms(4) show ?thesis by blast
next
  case (DeleteProject p)
  with assms(1) obtain v b where "delete_project v p db = Inr (b, db')" by (auto elim: delete_Inr)
  with delete_project_ok assms(4) show ?thesis by blast
next
  case (UpdateSettings p body)
  with assms(1) have "projects_update_settings env i p body now db = Inr db'" by simp
  from settings_Inr [OF this] obtain v d
    where "d = db \<or> (\<exists>b. d = snd (set_nda (api_show env) v p b (id_user i) now db))"
    and db': "db' = d \<or> db' = update_settings v p (without_nda body) now d" by metis
  then have "tenancy_ok d" using assms(4) set_nda_ok by blast
  with db' show ?thesis by (auto simp: update_settings_def intro: update_project_ok)
qed

lemma others_ok:
  assumes "tenancy_ok db" and "projects db' = projects db" and "members db' = members db" and "fk_ok db'"
  shows "tenancy_ok db'"
  using assms by (simp add: tenancy_ok_def keys_ok_def owner_rows_def no_sentinel_owner_def member_keys_def owns_def)

lemma api_step_ok: "api_step shw db db' \<Longrightarrow> tenancy_ok db \<Longrightarrow> tenancy_ok db'"
  by (induction rule: api_step.induct) (auto intro: request_ok others_ok)

lemma tenancy_ok_empty: "tenancy_ok (empty_store us)"
  by (simp add: tenancy_ok_def keys_ok_def owner_rows_def no_sentinel_owner_def member_keys_def empty_store_def fk_defs)

lemma api_reach_ok: "api_reach shw db \<Longrightarrow> tenancy_ok db"
  by (induction rule: api_reach.induct) (auto intro: tenancy_ok_empty api_step_ok)

lemma request_recorded:
  assumes "handle env i new now req db = Inr db'" and "api_show env = shw" and "inj shw"
    and "fresh_project shw new db" and "id_user i \<noteq> Some ALL_USERS" and "tenancy_ok db" and "nda_recorded shw db"
  shows "nda_recorded shw db'"
proof (cases req)
  case (CreateProject name)
  with assms create_ok(2) show ?thesis by simp
next
  case (AddMember p t role)
  with assms(1) obtain v u where a: "add_member v p u role now db = Inr db'" "role \<noteq> ''owner''"
    by (auto elim: add_Inr)
  from add_member_ok(2) [OF a(1) assms(6)] a(2) have "db' = put_member p u role now db" by simp
  with assms(7) show ?thesis by (simp add: nda_recorded_def)
next
  case (RemoveMember p t)
  with assms(1) obtain v u where "remove_member v p u db = Inr db'" by (auto elim: remove_Inr)
  with assms(7) show ?thesis by (auto simp: remove_member_def error_iff nda_recorded_def)
next
  case (DeleteProject p)
  with assms(1) obtain v b where del: "delete_project v p db = Inr (b, db')" by (auto elim: delete_Inr)
  have "fk_ok db" using assms(6) by (simp add: tenancy_ok_def)
  from delete_project_frame [OF del this] have "set (projects db') \<subseteq> set (projects db)" "audit db' = audit db" by auto
  with assms(7) show ?thesis by (rule nda_recorded_mono)
next
  case (UpdateSettings p body)
  with assms(1) have "projects_update_settings env i p body now db = Inr db'" by simp
  from settings_Inr [OF this] obtain v d
    where "d = db \<or> (\<exists>b. d = snd (set_nda shw v p b (id_user i) now db))"
    and db': "db' = d \<or> db' = update_settings v p (without_nda body) now d" using assms(2) by metis
  then have "nda_recorded shw d" using assms(3,7) set_nda_recorded by blast
  with db' show ?thesis by (auto intro: update_settings_recorded)
qed

lemma api_reach_recorded:
  assumes "inj shw"
  shows "api_reach shw db \<Longrightarrow> nda_recorded shw db"
proof (induction rule: api_reach.induct)
  case (start us)
  show ?case by (simp add: nda_recorded_def empty_store_def)
next
  case (step db db')
  from step(2) show ?case
  proof cases
    case (request env i new now req)
    with request_recorded [OF request(1,2) assms] api_reach_ok [OF step(1)] step.IH show ?thesis by blast
  next
    case (others rows)
    have "recorded_nda shw p (audit db') = recorded_nda shw p (audit db)" for p
    proof -
      have "foldl (\<lambda>b row. case nda_entry shw p row of Some b' \<Rightarrow> b' | None \<Rightarrow> b) b rows = b" for b
        using others(5) by (induction rows arbitrary: b) (auto simp: nda_entry_def)
      then show ?thesis unfolding others(4) recorded_nda_append .
    qed
    with step.IH others(1) show ?thesis by (simp add: nda_recorded_def)
  qed
qed

end
