(* ===== verification/TenancyProps.thy ===== *)
theory TenancyProps
  imports ProjectApi
begin

text \<open>
  The properties of projects, members and keys, each with a concrete instance: three
  users (the sentinel 0, 1 and 2), and project 10, created by user 1, who made user 2 a
  manager.
\<close>

section \<open>Sample data\<close>

definition sample_api :: api_env where
  "sample_api = \<lparr>api_parse = (\<lambda>s. if s = ''u2'' then Some 2 else None), api_show = show_nat,
     authz_fault = no_fault, tx_fault = None\<rparr>"

definition user1 :: identity where
  "user1 = \<lparr>id_subject = ''u1'', id_display = None, id_roles = [], id_user = Some 1\<rparr>"

definition user2 :: identity where
  "user2 = \<lparr>id_subject = ''u2'', id_display = None, id_roles = [], id_user = Some 2\<rparr>"

definition row10 :: project_row where
  "row10 = new_project 10 ''p'' (Some 1) 5"

definition owner_row :: member_row where
  "owner_row = \<lparr>mem_project = 10, mem_user = 1, mem_role = ''owner'', mem_created = 5\<rparr>"

definition manager_row :: member_row where
  "manager_row = \<lparr>mem_project = 10, mem_user = 2, mem_role = ''manager'', mem_created = 6\<rparr>"

definition db1 :: store where
  "db1 = (empty_store [0, 1, 2])\<lparr>projects := [row10], members := [owner_row]\<rparr>"

definition db2 :: store where
  "db2 = (empty_store [0, 1, 2])\<lparr>projects := [row10], members := [owner_row, manager_row]\<rparr>"

lemma trim_p: "trim ''p'' \<noteq> []"
  by (simp add: trim_def trim_start_matches_def trim_end_matches_def is_ws_def)

lemma not_admin [simp]: "\<not> is_admin user1" "\<not> is_admin user2"
  by (simp_all add: is_admin_def user1_def user2_def)

lemma users [simp]: "id_user user1 = Some 1" "id_user user2 = Some 2"
  by (simp_all add: user1_def user2_def)

lemma sample_create:
  "tx_fault env = None \<Longrightarrow> handle env user1 10 5 (CreateProject ''p'') (empty_store [0, 1, 2]) = Inr db1"
  using trim_p
  by (simp add: projects_create_def Let_def create_project_with_owner_def exec_def lift_db_def
      add_member_def sees_user owns_def is_member_def empty_store_def new_project_def valid_roles_def fk_defs
      put_member_def commit_def db1_def row10_def owner_row_def)

lemma sample_add: "handle sample_api user1 11 6 (AddMember 10 ''u2'' ''manager'') db1 = Inr db2"
  by (simp add: members_add_def sample_api_def resolve_user_id_def scope_of_def require_project_access_def
      check_project_access_def no_fault_def get_project_def db1_def db2_def empty_store_def row10_def new_project_def
      sees_user owns_def is_member_def ALL_USERS_def lift_db_def add_member_def valid_roles_def exec_def fk_defs
      put_member_def commit_def owner_row_def manager_row_def)

lemma sample_reach: "api_reach show_nat db1" "api_reach show_nat db2"
proof -
  have "api_step show_nat (empty_store [0, 1, 2]) db1"
    by (rule api_step.request [OF sample_create [of sample_api]])
      (simp_all add: sample_api_def fresh_project_def empty_store_def ALL_USERS_def)
  then show 1: "api_reach show_nat db1" by (rule api_reach.step [OF api_reach.start])
  have "api_step show_nat db1 db2"
    by (rule api_step.request [OF sample_add])
      (simp_all add: sample_api_def fresh_project_def db1_def empty_store_def ALL_USERS_def row10_def new_project_def)
  with 1 show "api_reach show_nat db2" by (rule api_reach.step)
qed

lemma granted_db2: "granted db2 10 2 = {Manager}"
  by (auto simp: granted_def db2_def empty_store_def owner_row_def manager_row_def ALL_USERS_def)

lemma may_db2: "may db2 2 10 a \<longleftrightarrow> role_allows Manager a"
  by (auto simp: may_def granted_db2) (auto simp: owns_def db2_def empty_store_def row10_def new_project_def)

section \<open>Access\<close>

lemma access_decided_parts:
  assumes "api_reach shw db"
  shows "check_project_access no_fault (Some u) db u p a = Inr () \<longleftrightarrow> may db u p a"
    and "check_project_access no_fault None db u p a = Inr () \<longleftrightarrow> may db u p a"
  using api_reach_ok [OF assms] access_scoped access_plain [where v = None]
  by (simp_all add: tenancy_ok_def)

text \<open>
  C3. In every reachable state the access check decides exactly its specification: the
  project exists, and the caller owns it or one of the roles granted to the caller or to
  everybody allows the action. It does so in a scoped and in a plain transaction alike.
\<close>

theorem access_decided:
  assumes "api_reach shw db"
  shows "(check_project_access no_fault (Some u) db u p a = Inr () \<longleftrightarrow> may db u p a) \<and>
     (check_project_access no_fault None db u p a = Inr () \<longleftrightarrow> may db u p a)"
  using access_decided_parts [OF assms] by blast

theorem access_decided_witness:
  "check_project_access no_fault (Some 2) db2 2 10 ManageMembers = Inr () \<and>
   check_project_access no_fault None db2 2 10 Delete \<noteq> Inr ()"
  using access_decided [OF sample_reach(2), of 2 10 ManageMembers]
    access_decided [OF sample_reach(2), of 2 10 Delete]
  by (simp add: may_db2)

definition tenancy_view :: "uuid \<Rightarrow> store \<Rightarrow> project_row list \<times> member_row list" where
  "tenancy_view p db = (filter (\<lambda>r. proj_id r = p) (projects db), filter (\<lambda>m. mem_project m = p) (members db))"

lemma frame_view:
  assumes "tenancy_frame q db db'" and "p \<noteq> q"
  shows "tenancy_view p db' = tenancy_view p db"
proof -
  have "filter (\<lambda>r. proj_id r = p) xs = filter (\<lambda>r. proj_id r = p) (filter (\<lambda>r. proj_id r \<noteq> q) xs)" for xs
    using assms(2) by (auto intro: filter_cong)
  moreover have "filter (\<lambda>m. mem_project m = p) xs = filter (\<lambda>m. mem_project m = p) (filter (\<lambda>m. mem_project m \<noteq> q) xs)" for xs
    using assms(2) by (auto intro: filter_cong)
  ultimately show ?thesis using assms(1) unfolding tenancy_frame_def tenancy_view_def by metis
qed

lemma delete_frame:
  assumes "delete_project v p db = Inr (b, d)" and "fk_ok db"
  shows "tenancy_frame p db d"
proof -
  note fr = delete_project_frame [OF assms]
  then obtain Q where "members d = filter Q (members db)" "\<forall>m. mem_project m \<noteq> p \<longrightarrow> Q m" by blast
  then have "filter (\<lambda>m. mem_project m \<noteq> p) (members d) = filter (\<lambda>m. mem_project m \<noteq> p) (members db)"
    by (auto intro: filter_cong)
  with fr show ?thesis by (auto simp: tenancy_frame_def)
qed

text \<open>
  C20. A caller who is not an administrator and may not manage the members of a project
  cannot change its row or its members with any request: not its owner, its name, its
  settings or confidentiality flag, nor who has access to it.
\<close>

theorem ungranted_request_changes_nothing:
  assumes "api_reach (api_show env) db" and "handle env i new now req db = Inr db'"
    and "fresh_project (api_show env) new db" and "id_user i = Some u" "u \<noteq> ALL_USERS" "\<not> is_admin i"
    and "p \<in> proj_id ` set (projects db)" and "\<not> may db u p ManageMembers"
  shows "tenancy_view p db' = tenancy_view p db"
proof -
  note ok = api_reach_ok [OF assms(1)]
  have denied: "q \<noteq> p" if "scope_of i = Inr v" "require_project_access (authz_fault env) v db i q ManageMembers = Inr ()" for q v
    using require_access [OF that(2,1) assms(6,4)] access_scoped [of db u p ManageMembers] ok assms(8)
    by (auto simp: tenancy_ok_def)
  have "\<exists>q. q \<noteq> p \<and> tenancy_frame q db db'"
  proof (cases req)
    case (CreateProject name)
    with assms(2) have c: "projects_create env i new name now db = Inr db'" by simp
    have "id_user i \<noteq> Some ALL_USERS" using assms(4,5) by simp
    from create_ok(3,4) [OF c assms(3) this ok] have "tenancy_frame new db db'" by (auto simp: tenancy_frame_def)
    moreover have "new \<noteq> p" using assms(3,7) by (auto simp: fresh_project_def)
    ultimately show ?thesis by blast
  next
    case (AddMember q t role)
    with assms(2) have "members_add env i q t role now db = Inr db'" by simp
    from add_Inr [OF this] obtain v u' where *: "scope_of i = Inr v"
      "require_project_access (authz_fault env) v db i q ManageMembers = Inr ()"
      "add_member v q u' role now db = Inr db'" "role \<in> {''manager'', ''collaborator'', ''viewer''}" by metis
    then have "role \<noteq> ''owner''" by auto
    with add_member_ok(2) [OF *(3) ok] have "tenancy_frame q db db'" using put_member_frame by simp
    with denied [OF *(1,2)] show ?thesis by blast
  next
    case (RemoveMember q t)
    with assms(2) have "members_remove env i q t db = Inr db'" by simp
    from remove_Inr [OF this] obtain v u' where *: "scope_of i = Inr v"
      "require_project_access (authz_fault env) v db i q ManageMembers = Inr ()"
      "remove_member v q u' db = Inr db'" by metis
    with denied [OF *(1,2)] remove_member_frame show ?thesis by blast
  next
    case (DeleteProject q)
    with assms(2) have "projects_delete env i q db = Inr db'" by simp
    from delete_Inr [OF this] obtain v b where *: "scope_of i = Inr v"
      "require_project_access (authz_fault env) v db i q ManageMembers = Inr ()"
      "delete_project v q db = Inr (b, db')" by metis
    have "fk_ok db" using ok by (simp add: tenancy_ok_def)
    with denied [OF *(1,2)] delete_frame [OF *(3)] show ?thesis by blast
  next
    case (UpdateSettings q body)
    with assms(2) have "projects_update_settings env i q body now db = Inr db'" by simp
    from settings_Inr [OF this] obtain v d where *: "scope_of i = Inr v"
      "require_project_access (authz_fault env) v db i q ManageMembers = Inr ()"
      "d = db \<or> (\<exists>b. d = snd (set_nda (api_show env) v q b (id_user i) now db))"
      "db' = d \<or> db' = update_settings v q (without_nda body) now d" by metis
    from *(3) have "tenancy_frame q db d" using set_nda_frame tenancy_frame_refl by blast
    moreover have "tenancy_frame q d (update_settings v q (without_nda body) now d)"
      unfolding update_settings_def by (rule update_project_frame) simp
    ultimately have "tenancy_frame q db db'" using *(4) tenancy_frame_trans by blast
    with denied [OF *(1,2)] show ?thesis by blast
  qed
  then show ?thesis using frame_view by metis
qed

definition user3 :: identity where
  "user3 = \<lparr>id_subject = ''u3'', id_display = None, id_roles = [], id_user = Some 3\<rparr>"

definition db3 :: store where
  "db3 = db2\<lparr>user_ids := [0, 1, 2, 3]\<rparr>"

lemma db3_reach: "api_reach show_nat db3"
  by (rule api_reach.step [OF sample_reach(2)], rule api_step.others [where rows = "[]"])
    (simp_all add: db3_def db2_def empty_store_def fk_defs row10_def owner_row_def manager_row_def new_project_def)

lemma may_db3: "\<not> may db3 3 10 a"
  by (auto simp: may_def granted_def owns_def db3_def db2_def empty_store_def row10_def owner_row_def
      manager_row_def new_project_def ALL_USERS_def)

lemma created_db3: "\<exists>d. handle sample_api user3 12 7 (CreateProject ''p'') db3 = Inr d"
  using trim_p
  by (simp add: projects_create_def sample_api_def Let_def create_project_with_owner_def exec_def lift_db_def
      add_member_def sees_user owns_def is_member_def empty_store_def new_project_def valid_roles_def fk_defs
      put_member_def commit_def db3_def db2_def row10_def owner_row_def manager_row_def user3_def is_admin_def)

theorem ungranted_request_changes_nothing_witness:
  "\<exists>d. handle sample_api user3 12 7 (CreateProject ''p'') db3 = Inr d \<and> tenancy_view 10 d = tenancy_view 10 db3"
proof -
  obtain d where d: "handle sample_api user3 12 7 (CreateProject ''p'') db3 = Inr d" using created_db3 by blast
  have show_eq: "api_show sample_api = show_nat" by (simp add: sample_api_def)
  have "tenancy_view 10 d = tenancy_view 10 db3"
  proof (rule ungranted_request_changes_nothing [where u = 3, OF _ d])
    show "api_reach (api_show sample_api) db3" unfolding show_eq by (rule db3_reach)
    show "\<not> may db3 3 10 ManageMembers" by (rule may_db3)
  qed (simp_all add: fresh_project_def user3_def is_admin_def db3_def db2_def empty_store_def row10_def
      new_project_def ALL_USERS_def)
  with d show ?thesis by blast
qed



section \<open>Deletion\<close>

text \<open>Stored memory among the threads of a project, and the project's deletion.\<close>

definition db_work :: store where
  "db_work = db2\<lparr>threads := [\<lparr>thr_id = 20, thr_project = 10, thr_agent = ''a'', thr_title = None,
       thr_parent = None, thr_type = ''agent'', thr_target = None, thr_created = 6, thr_updated = 6\<rparr>],
     messages := [(30, 20)], evidence := [30], runs := [(40, 10)], arts := [(50, 10)],
     run_arts := [(40, 50)], run_events := [40]\<rparr>"

definition db_memory :: store where
  "db_memory = db_work\<lparr>memories := [\<lparr>tm_thread = 20, tm_key = ''goal'', tm_value = ''x''\<rparr>]\<rparr>"

lemmas sample_defs = db_memory_def db_work_def db2_def empty_store_def row10_def owner_row_def
  manager_row_def new_project_def

text \<open>
  C21. What deleting a project comes to, for tables with intact references whose links
  into the project's rows come from the project: when one of its threads has stored
  memory, the deletion fails; otherwise it removes all its rows when the transaction
  belongs to an administrator or the owner, and for any other caller it removes the
  content and the memberships but leaves the project's row.
\<close>

theorem project_deletion_outcome:
  assumes "fk_ok db" and "local_refs db p" and "distinct (map thr_id (threads db))"
    and "get_project v db p \<noteq> None"
  shows "delete_project v p db =
    (if memory_of db p then Inl ForeignKey else Inr (delete_outcome v p db))"
  using delete_project_content [OF assms(1,2) _ assms(4)] delete_project_memory [OF _ assms(4,3)] by simp

lemma work_local: "local_refs db_work 10" "fk_ok db_work" "\<not> memory_of db_work 10"
  by (simp_all add: local_refs_def memory_of_def fk_defs sample_defs thread_ids_of_def)

theorem project_deletion_outcome_witness:
  "delete_project (Some 1) 10 db_work = Inr (delete_outcome (Some 1) 10 db_work) \<and>
   delete_project (Some 1) 10 db_memory = Inl ForeignKey"
proof -
  have "get_project (Some 1) db_work 10 \<noteq> None" "get_project (Some 1) db_memory 10 \<noteq> None"
    by (simp_all add: get_project_def sees_user owns_def sample_defs)
  moreover have "local_refs db_memory 10" "fk_ok db_memory" "memory_of db_memory 10"
    by (simp_all add: local_refs_def memory_of_def fk_defs sample_defs thread_ids_of_def)
  moreover have "distinct (map thr_id (threads db_work))" "distinct (map thr_id (threads db_memory))"
    by (simp_all add: sample_defs)
  ultimately show ?thesis
    using project_deletion_outcome [of db_work 10 "Some 1"] project_deletion_outcome [of db_memory 10 "Some 1"] work_local
    by simp
qed

lemma manager_empties_project_parts:
  assumes "keys_ok db" and "fk_ok db" and "local_refs db p" and "\<not> memory_of db p"
    and "\<not> is_admin i" "id_user i = Some u" and "may db u p ManageMembers" "\<not> owns db p u"
    and "authz_fault env = no_fault" "tx_fault env = None"
  shows "projects_delete env i p db = Inr (without_content p db)"
    and "projects (without_content p db) = projects db"
    and "\<forall>t\<in>set (threads (without_content p db)). thr_project t \<noteq> p"
    and "\<forall>m\<in>set (members (without_content p db)). mem_project m \<noteq> p"
    and "\<forall>r\<in>set (runs (without_content p db)). snd r \<noteq> p"
    and "\<forall>a\<in>set (arts (without_content p db)). snd a \<noteq> p"
proof -
  have vis: "sees db (Some u) p" using assms(7) by (rule may_sees)
  then have row: "get_project (Some u) db p \<noteq> None"
    using assms(7) by (simp add: get_project_None may_def)
  have "check_project_access no_fault (Some u) db u p ManageMembers = Inr ()"
    using access_scoped [OF assms(1)] assms(7) by simp
  then have "require_project_access (authz_fault env) (Some u) db i p ManageMembers = Inr ()"
    using assms(5,6,9) by (simp add: require_project_access_def)
  moreover have "delete_project (Some u) p db = Inr (False, without_content p db)"
    using delete_project_content [OF assms(2-4) row] assms(8) by (simp add: delete_outcome_def)
  ultimately show "projects_delete env i p db = Inr (without_content p db)"
    using assms(5,6,10) row by (auto simp: projects_delete_def scope_of_def lift_db_def commit_def)
qed (rule without_content_projects without_content_free)+

text \<open>
  A manager, who has no right to delete, can empty a project through the delete
  route: the request succeeds, every thread, message, run, artifact, member and hook of
  the project is gone, and the project's row stays.
\<close>

theorem manager_empties_project:
  assumes "keys_ok db" and "fk_ok db" and "local_refs db p" and "\<not> memory_of db p"
    and "\<not> is_admin i" "id_user i = Some u" and "may db u p ManageMembers" "\<not> owns db p u"
    and "authz_fault env = no_fault" "tx_fault env = None"
  shows "(projects_delete env i p db = Inr (without_content p db)) \<and>
     (projects (without_content p db) = projects db) \<and>
     (\<forall>t\<in>set (threads (without_content p db)). thr_project t \<noteq> p) \<and>
     (\<forall>m\<in>set (members (without_content p db)). mem_project m \<noteq> p) \<and>
     (\<forall>r\<in>set (runs (without_content p db)). snd r \<noteq> p) \<and>
     (\<forall>a\<in>set (arts (without_content p db)). snd a \<noteq> p)"
  using manager_empties_project_parts [OF assms] by blast

theorem manager_empties_project_witness:
  "projects_delete sample_api user2 10 db_work = Inr (without_content 10 db_work) \<and>
   \<not> may db_work 2 10 Delete"
proof -
  have keys: "keys_ok db_work"
    by (simp add: keys_ok_def member_keys_def valid_roles_def sample_defs)
  have granted: "granted db_work 10 2 = {Manager}"
    by (auto simp: granted_def sample_defs ALL_USERS_def)
  have own: "\<not> owns db_work 10 2" by (simp add: owns_def sample_defs)
  have may: "may db_work 2 10 a \<longleftrightarrow> role_allows Manager a" for a
    using own by (simp add: may_def granted) (simp add: sample_defs)
  have "projects_delete sample_api user2 10 db_work = Inr (without_content 10 db_work)"
    by (rule conjunct1 [OF manager_empties_project [OF keys work_local(2,1,3) not_admin(2) users(2) _ own]])
      (simp_all add: may sample_api_def)
  with may show ?thesis by simp
qed

section \<open>Listing, confidentiality, keys\<close>

lemma listing_is_readable_parts:
  assumes "api_reach shw db"
  shows "r \<in> set (list_projects_for_user db u) \<longleftrightarrow> r \<in> set (projects db) \<and> may db u (proj_id r) Read"
    and "r \<in> set (projects db) \<Longrightarrow> sees db (Some u) (proj_id r) \<longleftrightarrow> may db u (proj_id r) Read"
proof -
  note ok = api_reach_ok [OF assms]
  have sees_may: "sees db (Some u) p \<longleftrightarrow> may db u p Read" if p: "p \<in> proj_id ` set (projects db)" for p
  proof
    assume "sees db (Some u) p"
    moreover have "\<exists>r\<in>granted db p u. role_allows r Read" if m: "m \<in> set (members db)" "mem_project m = p"
        "mem_user m = u \<or> mem_user m = ALL_USERS" for m
    proof -
      from ok m(1) have "mem_role m \<in> set valid_roles" by (simp add: tenancy_ok_def keys_ok_def)
      then obtain r where "role_from_str (mem_role m) = Some r" by (auto simp: valid_roles_parse)
      moreover have "role_allows r Read" by (cases r) auto
      ultimately show ?thesis using m by (auto simp: granted_def)
    qed
    ultimately show "may db u p Read" using p by (auto simp: sees_user may_def is_member_def)
  qed (rule may_sees)
  show "r \<in> set (projects db) \<Longrightarrow> sees db (Some u) (proj_id r) \<longleftrightarrow> may db u (proj_id r) Read"
    using sees_may by simp
  have "r \<in> set (list_projects_for_user db u) \<longleftrightarrow> r \<in> set (projects db) \<and> sees db (Some u) (proj_id r)"
    unfolding list_projects_for_user_def sees_user owns_def is_member_def
    using project_unique [of db] ok by (auto simp: tenancy_ok_def)
  then show "r \<in> set (list_projects_for_user db u) \<longleftrightarrow> r \<in> set (projects db) \<and> may db u (proj_id r) Read"
    using sees_may by auto
qed

text \<open>
  The three answers to "which projects can this user see" agree in every reachable
  state: the rows the listing returns, the projects the row-level security shows, and the
  projects on which the access check grants reading.
\<close>

theorem listing_is_readable:
  assumes "api_reach shw db"
  shows "(r \<in> set (list_projects_for_user db u) \<longleftrightarrow> r \<in> set (projects db) \<and> may db u (proj_id r) Read) \<and>
     ((r \<in> set (projects db)) \<longrightarrow>
       (sees db (Some u) (proj_id r) \<longleftrightarrow> may db u (proj_id r) Read))"
  using listing_is_readable_parts [OF assms] by blast

theorem listing_is_readable_witness: "row10 \<in> set (list_projects_for_user db2 2) \<and> may db2 2 10 Read"
proof -
  have row: "row10 \<in> set (projects db2)" "proj_id row10 = 10"
    by (simp_all add: db2_def row10_def new_project_def)
  then have "row10 \<in> set (list_projects_for_user db2 2) \<longleftrightarrow> may db2 2 10 Read"
    using listing_is_readable [OF sample_reach(2), of row10 2] by simp
  with row show ?thesis by (simp add: may_db2)
qed

text \<open>
  The audit log explains every confidentiality flag: in every reachable state a
  project's flag is the one of the last recorded change of that project, and unset when
  no change was recorded.
\<close>

theorem nda_flag_matches_audit:
  assumes "api_reach shw db" and "inj shw" and "r \<in> set (projects db)"
  shows "proj_nda r = recorded_nda shw (proj_id r) (audit db)"
  using api_reach_recorded [OF assms(2,1)] assms(3) by (simp add: nda_recorded_def)

definition unary :: "uuid \<Rightarrow> string" where "unary n = replicate n (CHR ''i'')"

definition unary_api :: api_env where
  "unary_api = sample_api\<lparr>api_show := unary\<rparr>"

lemma inj_unary: "inj unary"
  unfolding unary_def by (rule injI) (metis length_replicate)

definition db_nda :: store where
  "db_nda = snd (set_nda unary (Some 1) 10 True (Some 1) 9 db1)"

lemma sample_unary_reach: "api_reach unary db1"
proof -
  have "handle unary_api user1 10 5 (CreateProject ''p'') (empty_store [0, 1, 2]) = Inr db1"
    by (rule sample_create) (simp add: unary_api_def sample_api_def)
  then have "api_step unary (empty_store [0, 1, 2]) db1"
    by (rule api_step.request)
      (simp_all add: unary_api_def fresh_project_def empty_store_def ALL_USERS_def)
  then show ?thesis by (rule api_reach.step [OF api_reach.start])
qed

lemma get_db1: "get_project (Some (Suc 0)) db1 10 = Some row10"
  by (simp add: get_project_def db1_def empty_store_def sees_user owns_def row10_def new_project_def)

lemma db_nda_eq: "projects db_nda = [row10\<lparr>proj_nda := True, proj_updated := 9\<rparr>]"
  "members db_nda = [owner_row]"
proof -
  have "\<not> proj_nda row10" by (simp add: row10_def new_project_def)
  then have e: "db_nda = update_project (Some 1) 10 (\<lambda>x. x\<lparr>proj_nda := True, proj_updated := 9\<rparr>)
      (insert_audit ''nda_flag_changed'' None (Some 1) (Some (nda_detail unary 10 False True)) db1)"
    by (simp add: db_nda_def set_nda_def get_db1 Let_def)
  show "projects db_nda = [row10\<lparr>proj_nda := True, proj_updated := 9\<rparr>]" "members db_nda = [owner_row]"
    unfolding e by (simp_all add: update_project_def insert_audit_def db1_def empty_store_def row10_def new_project_def sees_user owns_def)
qed

lemma sample_nda: "handle unary_api user1 11 9 (UpdateSettings 10 (JObj [(''nda'', JBool True)])) db1 = Inr db_nda"
proof -
  have "check_project_access no_fault (Some 1) db1 1 10 ManageMembers = Inr ()"
    by (simp add: check_project_access_def no_fault_def get_db1) (simp add: row10_def new_project_def)
  then have "require_project_access no_fault (Some 1) db1 user1 10 ManageMembers = Inr ()"
    by (simp add: require_project_access_def)
  moreover have "get_project (Some 1) db_nda 10 \<noteq> None"
    by (simp add: get_project_def db_nda_eq sees_user owns_def) (simp add: row10_def new_project_def)
  ultimately show ?thesis
    by (simp add: projects_update_settings_def scope_of_def get_db1 unary_api_def sample_api_def
        without_nda_def has_settings_def commit_def db_nda_def)
qed

lemma db_nda_reach: "api_reach unary db_nda"
proof (rule api_reach.step [OF sample_unary_reach], rule api_step.request [OF sample_nda])
  show "fresh_project unary 11 db1"
    by (simp add: fresh_project_def db1_def empty_store_def row10_def new_project_def)
qed (simp_all add: unary_api_def ALL_USERS_def)

theorem nda_flag_matches_audit_witness: "recorded_nda unary 10 (audit db_nda)"
  using nda_flag_matches_audit [OF db_nda_reach inj_unary, of "row10\<lparr>proj_nda := True, proj_updated := 9\<rparr>"]
  by (simp add: db_nda_eq row10_def new_project_def)

lemma bearer_token_iff: "bearer_token header = Inr t \<longleftrightarrow> header = Some (''Bearer '' @ t)"
proof (cases header)
  case (Some h)
  show ?thesis
  proof (cases "strip_prefix ''Bearer '' h")
    case None
    have "h \<noteq> ''Bearer '' @ t"
    proof
      assume "h = ''Bearer '' @ t"
      with None show False by (simp only: strip_prefix_append option.distinct)
    qed
    with None \<open>header = Some h\<close> show ?thesis by (simp add: bearer_token_def)
  next
    case (Some t')
    then have "h = ''Bearer '' @ t'" by (simp only: strip_prefix_Some_iff)
    with Some \<open>header = Some h\<close> show ?thesis by (auto simp: bearer_token_def)
  qed
qed (simp add: bearer_token_def)

lemma authenticated_exactly_parts:
  assumes "fault SelKey = None" "fault SelUser = None" "fault TouchKey = None"
  shows "fst (authenticated_user fault hash users header now keys) = Inr i \<longleftrightarrow>
    (\<exists>t k u. header = Some (''Bearer '' @ t) \<and> lookup_by_hash keys (hash t) = Some k \<and>
       (\<forall>e. key_expires k = Some e \<longrightarrow> now \<le> e) \<and> find_by usr_id (key_user k) users = Some u \<and>
       usr_enabled u \<and> i = identity_of u)"
    and "map (\<lambda>k. k\<lparr>key_last_used := None\<rparr>) (snd (authenticated_user fault hash users header now keys))
       = map (\<lambda>k. k\<lparr>key_last_used := None\<rparr>) keys"
proof -
  have expired: "(\<forall>e. key_expires k = Some e \<longrightarrow> now \<le> e) \<longleftrightarrow>
      \<not> (case key_expires k of None \<Rightarrow> False | Some t \<Rightarrow> t < now)" for k
    by (cases "key_expires k") auto
  show "fst (authenticated_user fault hash users header now keys) = Inr i \<longleftrightarrow>
    (\<exists>t k u. header = Some (''Bearer '' @ t) \<and> lookup_by_hash keys (hash t) = Some k \<and>
       (\<forall>e. key_expires k = Some e \<longrightarrow> now \<le> e) \<and> find_by usr_id (key_user k) users = Some u \<and>
       usr_enabled u \<and> i = identity_of u)"
  proof (cases "bearer_token header")
    case (Inl e)
    then have "header \<noteq> Some (''Bearer '' @ t)" for t
      using bearer_token_iff [of header t] by auto
    with Inl show ?thesis by (simp add: authenticated_user_def)
  next
    case (Inr t)
    then have h: "header = Some (''Bearer '' @ t)"
      by (simp only: bearer_token_iff)
    show ?thesis
      unfolding authenticated_user_def Inr authenticate_api_key_def expired using assms h
      by (auto split: option.splits prod.splits sum.splits if_splits)
  qed
  show "map (\<lambda>k. k\<lparr>key_last_used := None\<rparr>) (snd (authenticated_user fault hash users header now keys))
       = map (\<lambda>k. k\<lparr>key_last_used := None\<rparr>) keys"
    unfolding authenticated_user_def authenticate_api_key_def
    by (auto simp: update_last_used_def split: option.splits sum.splits)
qed

text \<open>
  A request is authenticated exactly when its header carries a key whose hash is
  stored, has not expired, and belongs to an enabled user; the identity is that user's,
  and nothing but the key's time of last use changes.
\<close>

theorem authenticated_exactly:
  assumes "fault SelKey = None" "fault SelUser = None" "fault TouchKey = None"
  shows "(fst (authenticated_user fault hash users header now keys) = Inr i \<longleftrightarrow>
    (\<exists>t k u. header = Some (''Bearer '' @ t) \<and> lookup_by_hash keys (hash t) = Some k \<and>
       (\<forall>e. key_expires k = Some e \<longrightarrow> now \<le> e) \<and> find_by usr_id (key_user k) users = Some u \<and>
       usr_enabled u \<and> i = identity_of u)) \<and>
     (map (\<lambda>k. k\<lparr>key_last_used := None\<rparr>) (snd (authenticated_user fault hash users header now keys))
       = map (\<lambda>k. k\<lparr>key_last_used := None\<rparr>) keys)"
  using authenticated_exactly_parts [OF assms] by blast

definition sample_user :: user_row where
  "sample_user = \<lparr>usr_id = 1, usr_subject = ''u1'', usr_display = None, usr_roles = [''admin''], usr_enabled = True\<rparr>"

definition sample_key :: api_key_row where
  "sample_key = \<lparr>key_id = 60, key_user = 1, key_hash = ''h:af_k'', key_prefix = ''af_k'', key_name = ''k'',
     key_scopes = [''all''], key_expires = Some 100, key_last_used = None\<rparr>"

theorem authenticated_exactly_witness:
  "fst (authenticated_user no_fault ((@) ''h:'') [sample_user] (Some ''Bearer af_k'') 99 [sample_key]) = Inr (identity_of sample_user) \<and>
   fst (authenticated_user no_fault ((@) ''h:'') [sample_user] (Some ''Bearer af_k'') 101 [sample_key]) \<noteq> Inr (identity_of sample_user)"
proof -
  have no: "no_fault s = None" for s :: auth_stmt by (simp add: no_fault_def)
  note iff = conjunct1 [OF authenticated_exactly [of no_fault "(@) ''h:''" "[sample_user]" "Some ''Bearer af_k''" _ "[sample_key]", OF no no no]]
  have key: "lookup_by_hash [sample_key] (''h:'' @ t) = Some k \<Longrightarrow> k = sample_key" for t k
    by (auto simp: lookup_by_hash_def find_by_def split: if_splits)
  have "lookup_by_hash [sample_key] (''h:'' @ ''af_k'') = Some sample_key"
    "find_by usr_id (key_user sample_key) [sample_user] = Some sample_user" "usr_enabled sample_user"
    "key_expires sample_key = Some 100" "Some ''Bearer af_k'' = Some (''Bearer '' @ ''af_k'')"
    by (simp_all add: lookup_by_hash_def find_by_def sample_key_def sample_user_def)
  then have "fst (authenticated_user no_fault ((@) ''h:'') [sample_user] (Some ''Bearer af_k'') 99 [sample_key]) = Inr (identity_of sample_user)"
    unfolding iff by (intro exI [of _ "''af_k''"] exI [of _ sample_key] exI [of _ sample_user]) simp
  moreover have "fst (authenticated_user no_fault ((@) ''h:'') [sample_user] (Some ''Bearer af_k'') 101 [sample_key]) \<noteq> Inr (identity_of sample_user)"
    unfolding iff using key by (fastforce simp: sample_key_def)
  ultimately show ?thesis by blast
qed

section \<open>Threads\<close>

text \<open>
  Deleting a thread always ends, and removes the thread with all threads below it
  that the caller sees, their messages, evidence, memory and mail, and nothing else; it
  reports whether there was such a thread.
\<close>

theorem thread_deletion_exact:
  assumes "fk_ok db" and "parents_first (threads db)" and "distinct (map thr_id (threads db))"
    and "parents_local db" and "\<And>ids. set ids = subtree v db i \<Longrightarrow> log_local ids db"
  shows "\<exists>ids. set ids = subtree v db i \<and> delete_thread v i db = Some (Inr (ids \<noteq> [], drop_tree ids db))"
  using delete_thread_exact [OF assms] by metis

definition child_row :: thread_row where
  "child_row = \<lparr>thr_id = 21, thr_project = 10, thr_agent = ''a'', thr_title = None,
       thr_parent = Some 20, thr_type = ''agent'', thr_target = None, thr_created = 7, thr_updated = 7\<rparr>"

definition db_child :: store where
  "db_child = db_memory\<lparr>threads := threads db_memory @ [child_row]\<rparr>"

theorem thread_deletion_exact_witness:
  "\<exists>ids. set ids = subtree None db_child 20 \<and> delete_thread None 20 db_child = Some (Inr (ids \<noteq> [], drop_tree ids db_child))"
  by (rule thread_deletion_exact)
    (simp_all add: db_child_def child_row_def sample_defs fk_defs parents_local_def log_local_def)

lemma purge_outcome_parts:
  assumes "fk_ok db" and "distinct (map thr_id (threads db))"
  shows "(\<exists>t\<in>set (threads db). bad_retention render db now t) \<Longrightarrow>
           purge_expired_threads render now db = Inl OutOfRange"
    and "\<lbrakk>\<forall>t\<in>set (threads db). \<not> bad_retention render db now t;
          l \<in> set (email_log db); log_of (purged_ids render now db) l\<rbrakk> \<Longrightarrow>
           purge_expired_threads render now db = Inl ForeignKey"
    and "\<lbrakk>\<forall>t\<in>set (threads db). \<not> bad_retention render db now t;
          \<forall>l\<in>set (email_log db). \<not> log_of (purged_ids render now db) l;
          \<forall>s\<in>set (email_sched db). \<not> sched_of (purged_ids render now db) s\<rbrakk> \<Longrightarrow>
           \<exists>n. purge_expired_threads render now db = Inr (n, drop_expired (purged_ids render now db) db)"
    and "\<lbrakk>t \<in> set (threads (drop_expired (purged_ids render now db) db)); thr_parent t = Some q\<rbrakk> \<Longrightarrow>
           q \<in> thr_id ` set (threads (drop_expired (purged_ids render now db) db))"
proof -
  show "(\<exists>t\<in>set (threads db). bad_retention render db now t) \<Longrightarrow>
           purge_expired_threads render now db = Inl OutOfRange"
    unfolding purge_eq by (rule if_P)
  show "\<lbrakk>\<forall>t\<in>set (threads db). \<not> bad_retention render db now t;
          l \<in> set (email_log db); log_of (purged_ids render now db) l\<rbrakk> \<Longrightarrow>
           purge_expired_threads render now db = Inl ForeignKey"
    by (rule purge_mail_blocks [OF assms(2)])
  show "\<lbrakk>\<forall>t\<in>set (threads db). \<not> bad_retention render db now t;
          \<forall>l\<in>set (email_log db). \<not> log_of (purged_ids render now db) l;
          \<forall>s\<in>set (email_sched db). \<not> sched_of (purged_ids render now db) s\<rbrakk> \<Longrightarrow>
           \<exists>n. purge_expired_threads render now db = Inr (n, drop_expired (purged_ids render now db) db)"
    by (rule purge_ok [OF assms])
  assume t: "t \<in> set (threads (drop_expired (purged_ids render now db) db))" "thr_parent t = Some q"
  then have "q \<in> thr_id ` set (threads db)" "q \<notin> set (purged_ids render now db)"
    using assms(1) purged_closed [OF assms(2), of render now]
    by (auto simp: drop_expired_def fk_ok_def fk_threads_def closed_tree_def)
  then show "q \<in> thr_id ` set (threads (drop_expired (purged_ids render now db) db))"
    by (auto simp: drop_expired_def)
qed

text \<open>
  The retention purge. A project whose retention setting is a string of digits that
  is not a 32-bit integer, or reaches back before the earliest timestamp, makes the purge
  of every project fail as soon as it has a thread. A logged mail of an expired leaf thread
  makes it fail too. Otherwise it removes exactly the expired threads without children,
  with their messages, evidence and memory, and no thread loses its parent.
\<close>

theorem purge_outcome:
  assumes "fk_ok db" and "distinct (map thr_id (threads db))"
  shows "(((\<exists>t\<in>set (threads db). bad_retention render db now t)) \<longrightarrow>
       (purge_expired_threads render now db = Inl OutOfRange)) \<and>
     ((\<forall>t\<in>set (threads db). \<not> bad_retention render db now t) \<and> (l \<in> set (email_log db)) \<and> (log_of (purged_ids render now db) l) \<longrightarrow>
       (purge_expired_threads render now db = Inl ForeignKey)) \<and>
     ((\<forall>t\<in>set (threads db). \<not> bad_retention render db now t) \<and> (\<forall>l\<in>set (email_log db). \<not> log_of (purged_ids render now db) l) \<and> (\<forall>s\<in>set (email_sched db). \<not> sched_of (purged_ids render now db) s) \<longrightarrow>
       (\<exists>n. purge_expired_threads render now db = Inr (n, drop_expired (purged_ids render now db) db))) \<and>
     ((t \<in> set (threads (drop_expired (purged_ids render now db) db))) \<and> (thr_parent t = Some q) \<longrightarrow>
       (q \<in> thr_id ` set (threads (drop_expired (purged_ids render now db) db))))"
  using purge_outcome_parts [OF assms] by blast

definition db_days :: "string \<Rightarrow> store" where
  "db_days s = db_work\<lparr>projects := [row10\<lparr>proj_settings := JObj [(''thread_retention_days'', JStr s)]\<rparr>]\<rparr>"

lemma db_days_keys: "fk_ok (db_days s)" "distinct (map thr_id (threads (db_days s)))"
  by (simp_all add: db_days_def sample_defs fk_defs)

lemma db_days_setting: "t \<in> set (threads (db_days s)) \<Longrightarrow> retention_setting render (db_days s) (thr_project t) = Some s"
  by (simp add: retention_setting_def find_by_def db_days_def sample_defs)

lemma digits_read:
  "all_digits ''9999999999''" "read_nat ''9999999999'' = 9999999999" "all_digits ''7''" "read_nat ''7'' = 7"
  by (simp_all add: all_digits_def is_digit_def read_nat_def)

theorem purge_outcome_witness:
  "purge_expired_threads (\<lambda>_. []) 5 (db_days ''9999999999'') = Inl OutOfRange \<and>
   (\<exists>n d. purge_expired_threads (\<lambda>_. []) 604800000007 (db_days ''7'') = Inr (n, d))"
proof
  have "retention_cutoff ''9999999999'' 5 = Inl OutOfRange"
    by (simp add: retention_cutoff_def digits_read)
  then have "\<exists>t\<in>set (threads (db_days ''9999999999'')). bad_retention (\<lambda>_. []) (db_days ''9999999999'') 5 t"
    by (simp add: bad_retention_def retention_setting_def find_by_def db_days_def sample_defs digits_read)
  with purge_outcome [where render = "\<lambda>_. []" and now = 5, OF db_days_keys]
  show "purge_expired_threads (\<lambda>_. []) 5 (db_days ''9999999999'') = Inl OutOfRange" by blast
  have "retention_cutoff ''7'' 604800000007 = Inr 7"
    by (simp add: retention_cutoff_def digits_read day_us_def min_timestamp_def Let_def)
  then have "\<forall>t\<in>set (threads (db_days ''7'')). \<not> bad_retention (\<lambda>_. []) (db_days ''7'') 604800000007 t"
    using db_days_setting by (auto simp: bad_retention_def)
  moreover have "email_log (db_days ''7'') = []" "email_sched (db_days ''7'') = []"
    by (simp_all add: db_days_def sample_defs)
  ultimately have "\<exists>n. purge_expired_threads (\<lambda>_. []) 604800000007 (db_days ''7'') =
      Inr (n, drop_expired (purged_ids (\<lambda>_. []) 604800000007 (db_days ''7'')) (db_days ''7''))"
    using purge_outcome [where render = "\<lambda>_. []" and now = 604800000007, OF db_days_keys [where s = "''7''"]] by simp
  then show "\<exists>n d. purge_expired_threads (\<lambda>_. []) 604800000007 (db_days ''7'') = Inr (n, d)" by blast
qed

end
