(* ===== verification/AccessRules.thy ===== *)
theory AccessRules
  imports Prelude
begin

text \<open>
  The contract the URL rules of the web gateway and the recipient rules of the mail tools
  share: block rules win; with no allow rule everything else passes; with allow rules one
  of them has to match. The laws that follow are proved here once, for any decision
  procedure that meets the contract.
\<close>

locale access_rules =
  fixes decide :: "'req \<Rightarrow> 'rule list \<Rightarrow> bool"
    and blocks :: "'rule \<Rightarrow> bool"
    and allows :: "'rule \<Rightarrow> bool"
    and hits :: "'req \<Rightarrow> 'rule \<Rightarrow> bool"
  assumes decide_iff: "decide q rules \<longleftrightarrow>
      (\<forall>r\<in>set rules. blocks r \<longrightarrow> \<not> hits q r) \<and>
      ((\<exists>r\<in>set rules. allows r) \<longrightarrow> (\<exists>r\<in>set rules. allows r \<and> hits q r))"
    and kinds_disjoint: "\<not> (blocks r \<and> allows r)"
begin

lemma block_wins: "r \<in> set rules \<Longrightarrow> blocks r \<Longrightarrow> hits q r \<Longrightarrow> \<not> decide q rules"
  by (auto simp: decide_iff)

lemma empty_allows: "decide q []"
  by (simp add: decide_iff)

lemma order_irrelevant: "set rules = set rules' \<Longrightarrow> decide q rules = decide q rules'"
  by (simp add: decide_iff)

lemma more_blocks:
  "\<forall>r\<in>set extra. blocks r \<Longrightarrow> decide q (rules @ extra) \<Longrightarrow> decide q rules"
  using kinds_disjoint by (auto simp: decide_iff)

lemma more_allows:
  "\<forall>r\<in>set extra. allows r \<Longrightarrow> \<exists>r\<in>set rules. allows r \<Longrightarrow> decide q rules \<Longrightarrow> decide q (rules @ extra)"
  using kinds_disjoint by (auto simp: decide_iff)

lemma allowlist: "r \<in> set rules \<Longrightarrow> allows r \<Longrightarrow> decide q rules \<Longrightarrow> \<exists>s\<in>set rules. allows s \<and> hits q s"
  by (auto simp: decide_iff)

end

end
