(* ===== verification/NetAddr.thy ===== *)
theory NetAddr
  imports Prelude
begin

unbundle bit_operations_syntax

text \<open>
  IP addresses and the address ranges of the web gateway: CIDR matching
  (\<open>af-web-gateway/src/rules.rs\<close>: \<open>parse_cidr\<close>, \<open>ip_in_cidr\<close>) and the refusal of
  private and reserved addresses (\<open>af-web-gateway/src/ssrf.rs\<close>). An IPv4 address is its
  four octets, an IPv6 address its eight segments, as the standard library hands them
  out; the parser of textual addresses is a parameter.
\<close>

type_synonym u8 = "8 word"
type_synonym u16 = "16 word"

datatype ipv4 = Ipv4 u8 u8 u8 u8
datatype ipv6 = Ipv6 u16 u16 u16 u16 u16 u16 u16 u16
datatype ip_addr = V4 ipv4 | V6 ipv6

text \<open>\<open>u32::from\<close> and \<open>u128::from\<close>.\<close>

definition glue :: "nat \<Rightarrow> nat list \<Rightarrow> nat" where
  "glue w ns = foldl (\<lambda>acc n. acc * 2 ^ w + n) 0 ns"

fun v4_bits :: "ipv4 \<Rightarrow> 32 word" where
  "v4_bits (Ipv4 a b c d) = of_nat (glue 8 [unat a, unat b, unat c, unat d])"

fun v6_bits :: "ipv6 \<Rightarrow> 128 word" where
  "v6_bits (Ipv6 a b c d e f g h) =
     of_nat (glue 16 [unat a, unat b, unat c, unat d, unat e, unat f, unat g, unat h])"

section \<open>CIDR ranges\<close>

definition v4_mask :: "nat \<Rightarrow> 32 word" where
  "v4_mask len = (if len = 0 then 0 else push_bit (32 - len) (NOT 0))"

definition v6_mask :: "nat \<Rightarrow> 128 word" where
  "v6_mask len = (if len = 0 then 0 else push_bit (128 - len) (NOT 0))"

fun ip_in_cidr :: "ip_addr \<Rightarrow> ip_addr \<Rightarrow> nat \<Rightarrow> bool" where
  "ip_in_cidr (V4 ip) (V4 net) len \<longleftrightarrow>
     len \<le> 32 \<and> v4_bits ip AND v4_mask len = v4_bits net AND v4_mask len"
| "ip_in_cidr (V6 ip) (V6 net) len \<longleftrightarrow>
     len \<le> 128 \<and> v6_bits ip AND v6_mask len = v6_bits net AND v6_mask len"
| "ip_in_cidr _ _ _ \<longleftrightarrow> False"

text \<open>\<open>str::parse::<u8>()\<close>: decimal digits after an optional plus sign, at most 255.\<close>

definition digit_val :: "char \<Rightarrow> nat option" where
  "digit_val c = (let n = (of_char c :: nat) in if 48 \<le> n \<and> n \<le> 57 then Some (n - 48) else None)"

fun read_digits :: "string \<Rightarrow> nat \<Rightarrow> nat option" where
  "read_digits [] acc = Some acc"
| "read_digits (c # cs) acc = (case digit_val c of None \<Rightarrow> None | Some d \<Rightarrow> read_digits cs (10 * acc + d))"

definition parse_u8 :: "string \<Rightarrow> nat option" where
  "parse_u8 s =
     (let digits = (case s of CHR ''+'' # t \<Rightarrow> t | _ \<Rightarrow> s) in
      if digits = [] then None
      else case read_digits digits 0 of None \<Rightarrow> None | Some n \<Rightarrow> if n \<le> 255 then Some n else None)"

definition parse_cidr :: "(string \<Rightarrow> ip_addr option) \<Rightarrow> string \<Rightarrow> (ip_addr \<times> nat) option" where
  "parse_cidr parse_ip cidr =
     (case split_on (CHR ''/'') cidr of
        [a, b] \<Rightarrow> (case parse_ip a of None \<Rightarrow> None
                   | Some ip \<Rightarrow> (case parse_u8 b of None \<Rightarrow> None | Some len \<Rightarrow> Some (ip, len)))
      | _ \<Rightarrow> None)"

section \<open>Private and reserved addresses\<close>

fun is_private_ipv4 :: "ipv4 \<Rightarrow> bool" where
  "is_private_ipv4 (Ipv4 a b c d) \<longleftrightarrow>
     (if a = 0 then True
      else if a = 10 then True
      else if a = 100 \<and> b AND 0xC0 = 64 then True
      else if a = 127 then True
      else if a = 169 \<and> b = 254 then True
      else if a = 172 \<and> b AND 0xF0 = 16 then True
      else if a = 192 \<and> b = 0 \<and> c = 0 then True
      else if a = 192 \<and> b = 0 \<and> c = 2 then True
      else if a = 192 \<and> b = 168 then True
      else if a = 198 \<and> (b = 18 \<or> b = 19) then True
      else if a = 198 \<and> b = 51 \<and> c = 100 then True
      else if a = 203 \<and> b = 0 \<and> c = 113 then True
      else if a AND 0xF0 = 224 then True
      else if a AND 0xF0 = 240 then True
      else if a = 255 \<and> b = 255 \<and> c = 255 \<and> d = 255 then True
      else False)"

text \<open>The high and the low byte of a segment.\<close>

definition hi8 :: "u16 \<Rightarrow> u8" where "hi8 s = ucast (drop_bit 8 s)"
definition lo8 :: "u16 \<Rightarrow> u8" where "lo8 s = ucast (s AND 0xFF)"

definition embedded :: "u16 \<Rightarrow> u16 \<Rightarrow> ipv4" where
  "embedded s t = Ipv4 (hi8 s) (lo8 s) (hi8 t) (lo8 t)"

definition inverted :: "u16 \<Rightarrow> u16 \<Rightarrow> ipv4" where
  "inverted s t = Ipv4 (ucast (NOT (drop_bit 8 s))) (ucast (NOT (s AND 0xFF)))
                       (ucast (NOT (drop_bit 8 t))) (ucast (NOT (t AND 0xFF)))"

definition LOCALHOST6 :: ipv6 where "LOCALHOST6 = Ipv6 0 0 0 0 0 0 0 1"
definition UNSPECIFIED6 :: ipv6 where "UNSPECIFIED6 = Ipv6 0 0 0 0 0 0 0 0"

fun is_private_ipv6 :: "ipv6 \<Rightarrow> bool" where
  "is_private_ipv6 (Ipv6 a b c d e f g h) \<longleftrightarrow>
     (if Ipv6 a b c d e f g h = LOCALHOST6 then True
      else if Ipv6 a b c d e f g h = UNSPECIFIED6 then True
      else if a AND 0xFFC0 = 0xFE80 then True
      else if a AND 0xFE00 = 0xFC00 then True
      else if a = 0 \<and> b = 0 \<and> c = 0 \<and> d = 0 \<and> e = 0 \<and> f = 0xFFFF then is_private_ipv4 (embedded g h)
      else if a = 0 \<and> b = 0 \<and> c = 0 \<and> d = 0 \<and> e = 0 \<and> f = 0
              \<and> Ipv6 a b c d e f g h \<noteq> UNSPECIFIED6 \<and> Ipv6 a b c d e f g h \<noteq> LOCALHOST6
           then is_private_ipv4 (embedded g h)
      else if a = 0x2002 then is_private_ipv4 (embedded b c)
      else if a = 0x2001 \<and> b = 0 then is_private_ipv4 (inverted g h)
      else if a = 0x64 \<and> b = 0xFF9B \<and> c = 0 \<and> d = 0 \<and> e = 0 \<and> f = 0 then is_private_ipv4 (embedded g h)
      else if a = 0x2001 \<and> b = 0x0DB8 then True
      else if a = 0x0100 \<and> b = 0 \<and> c = 0 \<and> d = 0 then True
      else if a AND 0xFF00 = 0xFF00 then True
      else False)"

fun is_private_ip :: "ip_addr \<Rightarrow> bool" where
  "is_private_ip (V4 ip) = is_private_ipv4 ip"
| "is_private_ip (V6 ip) = is_private_ipv6 ip"

definition ssrf_reason :: "(ip_addr \<Rightarrow> string) \<Rightarrow> ip_addr \<Rightarrow> string" where
  "ssrf_reason show_ip ip = ''IP address '' @ show_ip ip @ '' is in a private/reserved range (SSRF protection)''"

section \<open>Masks and prefixes\<close>

text \<open>Comparing under a prefix mask is comparing the leading bits.\<close>

lemma mask_eq_drop:
  fixes x y :: "'a::len word"
  assumes "n \<le> LENGTH('a)"
  shows "x AND push_bit n (NOT 0) = y AND push_bit n (NOT 0) \<longleftrightarrow> drop_bit n x = drop_bit n y"
proof -
  have "x AND push_bit n (NOT 0) = push_bit n (drop_bit n x)" for x :: "'a word"
    by (rule bit_word_eqI) (auto simp: bit_simps dest: bit_imp_le_length)
  moreover have "drop_bit n (push_bit n (drop_bit n x)) = drop_bit n x" for x :: "'a word"
    by (rule bit_word_eqI) (auto simp: bit_simps dest: bit_imp_le_length)
  ultimately show ?thesis by metis
qed

lemma drop_bit_eq_unat:
  fixes x y :: "'a::len word"
  shows "drop_bit n x = drop_bit n y \<longleftrightarrow> unat x div 2 ^ n = unat y div 2 ^ n"
  by (metis drop_bit_eq_div unat_drop_bit_eq word_unat_eq_iff)

lemma v4_mask_eq:
  assumes "len \<le> 32"
  shows "x AND v4_mask len = y AND v4_mask len \<longleftrightarrow> unat x div 2 ^ (32 - len) = unat y div 2 ^ (32 - len)"
proof (cases "len = 0")
  case True
  have "unat x div 2 ^ 32 = 0" for x :: "32 word"
    using unsigned_less [of x, where 'a = nat] by simp
  then show ?thesis using True by (simp add: v4_mask_def)
next
  case False
  then have "x AND v4_mask len = y AND v4_mask len \<longleftrightarrow> drop_bit (32 - len) x = drop_bit (32 - len) y"
    unfolding v4_mask_def by (simp only: if_False) (rule mask_eq_drop, simp)
  then show ?thesis by (simp only: drop_bit_eq_unat)
qed

lemma unat_u8: "unat (x :: u8) < 256"
  using unsigned_less [of x, where 'a = nat] by simp

lemma bytes4:
  assumes "(a::nat) < 256" "b < 256" "c < 256" "d < 256"
  shows "((a * 256 + b) * 256 + c) * 256 + d < 4294967296"
proof -
  have "a * 16777216 \<le> 255 * 16777216" "b * 65536 \<le> 255 * 65536" "c * 256 \<le> 255 * 256"
    using assms by auto
  with assms(4) show ?thesis by (simp add: algebra_simps)
qed

lemma unat_v4: "unat (v4_bits (Ipv4 a b c d)) = ((unat a * 256 + unat b) * 256 + unat c) * 256 + unat d"
proof -
  have "((unat a * 256 + unat b) * 256 + unat c) * 256 + unat d < 4294967296"
    by (intro bytes4 unat_u8)
  moreover have "unat (of_nat n :: 32 word) = n" if "n < 4294967296" for n
    using that by (simp add: unat_of_nat take_bit_nat_eq_self)
  moreover have "v4_bits (Ipv4 a b c d) = of_nat (((unat a * 256 + unat b) * 256 + unat c) * 256 + unat d)"
    unfolding v4_bits.simps glue_def by (rule arg_cong [where f = of_nat]) simp
  ultimately show ?thesis by metis
qed

lemma v4_cidr:
  "len \<le> 32 \<Longrightarrow> ip_in_cidr (V4 ip) (V4 net) len \<longleftrightarrow>
     unat (v4_bits ip) div 2 ^ (32 - len) = unat (v4_bits net) div 2 ^ (32 - len)"
  by (simp add: v4_mask_eq)

section \<open>The refused IPv4 ranges\<close>

text \<open>The ranges the comments of the code name.\<close>

definition private_v4_nets :: "(ipv4 \<times> nat) list" where
  "private_v4_nets =
     [(Ipv4 0 0 0 0, 8), (Ipv4 10 0 0 0, 8), (Ipv4 100 64 0 0, 10), (Ipv4 127 0 0 0, 8),
      (Ipv4 169 254 0 0, 16), (Ipv4 172 16 0 0, 12), (Ipv4 192 0 0 0, 24), (Ipv4 192 0 2 0, 24),
      (Ipv4 192 168 0 0, 16), (Ipv4 198 18 0 0, 15), (Ipv4 198 51 100 0, 24), (Ipv4 203 0 113 0, 24),
      (Ipv4 224 0 0 0, 4), (Ipv4 240 0 0 0, 4), (Ipv4 255 255 255 255, 32)]"

lemma high_bits:
  fixes x y :: u8
  assumes "m = push_bit n (NOT 0)" and "y AND m = y" and "n \<le> 8"
  shows "x AND m = y \<longleftrightarrow> unat x div 2 ^ n = unat y div 2 ^ n"
  using mask_eq_drop [of n x y] assms by (simp only: drop_bit_eq_unat) simp

lemma top2: "(0xC0 :: u8) = push_bit 6 (NOT 0)" by (simp add: mask_eq_exp_minus_1 not_eq_complement)
lemma top4: "(0xF0 :: u8) = push_bit 4 (NOT 0)" by (simp add: mask_eq_exp_minus_1 not_eq_complement)

lemma masked_octets:
  "(b :: u8) AND 0xC0 = 64 \<longleftrightarrow> unat b div 64 = 1"
  "b AND 0xF0 = 16 \<longleftrightarrow> unat b div 16 = 1"
  "b AND 0xF0 = 224 \<longleftrightarrow> unat b div 16 = 14"
  "b AND 0xF0 = 240 \<longleftrightarrow> unat b div 16 = 15"
  using high_bits [OF top2, of 64 b] high_bits [OF top4, of 16 b] high_bits [OF top4, of 224 b]
    high_bits [OF top4, of 240 b] by simp_all

lemma digits_eq: "(q::nat) < k \<Longrightarrow> r < k \<Longrightarrow> a * k + q = p * k + r \<longleftrightarrow> a = p \<and> q = r"
  by (metis add.commute div_mult_self3 div_less mod_less mod_mult_self3 add_0_right not_less_zero)

lemma octet_prefix:
  assumes "(b::nat) < 256" "q < 256" and "k * m = 256"
  shows "(a * 256 + b) div m = (p * 256 + q) div m \<longleftrightarrow> a = p \<and> b div m = q div m"
proof -
  have m: "0 < m" using assms(3) by (cases m) auto
  have "(x * 256 + y) div m = x * k + y div m" for x y
    using m by (simp add: assms(3) [symmetric] mult.assoc [symmetric])
  moreover have "b div m < k" "q div m < k"
    using assms m by (simp_all add: less_mult_imp_div_less)
  ultimately show ?thesis using digits_eq by simp
qed

lemma div_256: "(d::nat) < 256 \<Longrightarrow> (x * 256 + d) div (256 * m) = x div m"
  by (simp add: div_mult2_eq)

lemma v4_div:
  "unat (v4_bits (Ipv4 a b c d)) div (256 * (256 * (256 * m))) = unat a div m"
  "unat (v4_bits (Ipv4 a b c d)) div (256 * (256 * m)) = (unat a * 256 + unat b) div m"
  "unat (v4_bits (Ipv4 a b c d)) div 256 = (unat a * 256 + unat b) * 256 + unat c"
  unfolding unat_v4 using div_256 [OF unat_u8, where m = 1] by (simp_all only: div_256 unat_u8 mult_1_right div_by_1)

text \<open>Membership in a range whose prefix ends in the first, second, third or fourth octet.\<close>

lemma cidr_first:
  assumes "len \<le> 8"
  shows "ip_in_cidr (V4 (Ipv4 a b c d)) (V4 (Ipv4 p q r s)) len \<longleftrightarrow>
     unat a div 2 ^ (8 - len) = unat p div 2 ^ (8 - len)"
proof -
  have "(2::nat) ^ (32 - len) = 256 * (256 * (256 * 2 ^ (8 - len)))"
    using assms power_add [of "2::nat" 24 "8 - len"] by simp
  moreover have "len \<le> 32" using assms by simp
  ultimately show ?thesis by (simp only: v4_cidr v4_div(1))
qed

lemma cidr_second:
  assumes "8 \<le> len" "len \<le> 16"
  shows "ip_in_cidr (V4 (Ipv4 a b c d)) (V4 (Ipv4 p q r s)) len \<longleftrightarrow>
     a = p \<and> unat b div 2 ^ (16 - len) = unat q div 2 ^ (16 - len)"
proof -
  have "(2::nat) ^ (32 - len) = 256 * (256 * 2 ^ (16 - len))"
    using assms power_add [of "2::nat" 16 "16 - len"] by simp
  moreover have "2 ^ (len - 8) * (2::nat) ^ (16 - len) = 256"
    using assms power_add [of "2::nat" "len - 8" "16 - len"] by simp
  moreover have "len \<le> 32" using assms by simp
  ultimately show ?thesis
    by (simp only: v4_cidr v4_div(2) octet_prefix [OF unat_u8 unat_u8] word_unat_eq_iff)
qed

lemma cidr_third:
  "ip_in_cidr (V4 (Ipv4 a b c d)) (V4 (Ipv4 p q r s)) 24 \<longleftrightarrow> a = p \<and> b = q \<and> c = r"
proof -
  have "(2::nat) ^ (32 - 24) = 256" by simp
  moreover have "(24::nat) \<le> 32" by simp
  ultimately show ?thesis
    by (simp only: v4_cidr v4_div(3) digits_eq unat_u8 word_unat_eq_iff) blast
qed

lemma cidr_fourth:
  "ip_in_cidr (V4 (Ipv4 a b c d)) (V4 (Ipv4 p q r s)) 32 \<longleftrightarrow> a = p \<and> b = q \<and> c = r \<and> d = s"
proof -
  have "(2::nat) ^ (32 - 32) = 1" by simp
  then show ?thesis
    by (simp only: v4_cidr order_refl div_by_1 unat_v4 digits_eq unat_u8 word_unat_eq_iff) blast
qed

lemma private_v4_ranges:
  "is_private_ipv4 ip \<longleftrightarrow> (\<exists>(net, len)\<in>set private_v4_nets. ip_in_cidr (V4 ip) (V4 net) len)"
proof (cases ip)
  case (Ipv4 a b c d)
  have two: "unat b div 2 = 9 \<longleftrightarrow> b = 18 \<or> b = 19"
    unfolding word_unat_eq_iff by (simp, presburger)
  show ?thesis
    unfolding Ipv4 private_v4_nets_def is_private_ipv4.simps masked_octets
    by (simp add: cidr_first cidr_second cidr_third cidr_fourth word_unat_eq_iff two [unfolded word_unat_eq_iff]
        del: ip_in_cidr.simps)
qed

text \<open>An IPv6 form that carries a refused IPv4 address is refused.\<close>

definition seg :: "u8 \<Rightarrow> u8 \<Rightarrow> u16" where
  "seg a b = push_bit 8 (ucast a) OR ucast b"

lemma seg_parts [simp]: "hi8 (seg a b) = a" "lo8 (seg a b) = b"
proof -
  show "hi8 (seg a b) = a"
    unfolding hi8_def seg_def by (rule bit_word_eqI) (auto simp: bit_simps dest: bit_imp_le_length)
  have m: "(0xFF :: u16) = mask 8" by (simp add: mask_eq_exp_minus_1)
  show "lo8 (seg a b) = b"
    unfolding lo8_def seg_def m by (rule bit_word_eqI) (auto simp: bit_simps)
qed

lemma embedded_seg [simp]: "embedded (seg a b) (seg c d) = Ipv4 a b c d"
  by (simp add: embedded_def)

lemma inverted_seg [simp]: "inverted (seg (NOT a) (NOT b)) (seg (NOT c) (NOT d)) = Ipv4 a b c d"
proof -
  have m: "(0xFF :: u16) = mask 8" by (simp add: mask_eq_exp_minus_1)
  have "(ucast (NOT (drop_bit 8 (seg (NOT x) (NOT y)))) :: u8) = x" for x y
    unfolding seg_def by (rule bit_word_eqI) (auto simp: bit_simps dest: bit_imp_le_length)
  moreover have "(ucast (NOT (seg (NOT x) (NOT y) AND 0xFF)) :: u8) = y" for x y
    unfolding seg_def m by (rule bit_word_eqI) (auto simp: bit_simps)
  ultimately show ?thesis by (simp add: inverted_def)
qed

fun mapped :: "ipv4 \<Rightarrow> ipv6" where "mapped (Ipv4 a b c d) = Ipv6 0 0 0 0 0 0xFFFF (seg a b) (seg c d)"
fun compatible :: "ipv4 \<Rightarrow> ipv6" where "compatible (Ipv4 a b c d) = Ipv6 0 0 0 0 0 0 (seg a b) (seg c d)"
fun sixtofour :: "ipv4 \<Rightarrow> u16 \<Rightarrow> u16 \<Rightarrow> u16 \<Rightarrow> u16 \<Rightarrow> u16 \<Rightarrow> ipv6" where
  "sixtofour (Ipv4 a b c d) s t u v w = Ipv6 0x2002 (seg a b) (seg c d) s t u v w"
fun teredo :: "ipv4 \<Rightarrow> u16 \<Rightarrow> u16 \<Rightarrow> u16 \<Rightarrow> u16 \<Rightarrow> ipv6" where
  "teredo (Ipv4 a b c d) s t u v = Ipv6 0x2001 0 s t u v (seg (NOT a) (NOT b)) (seg (NOT c) (NOT d))"
fun nat64 :: "ipv4 \<Rightarrow> ipv6" where "nat64 (Ipv4 a b c d) = Ipv6 0x64 0xFF9B 0 0 0 0 (seg a b) (seg c d)"

lemma embedded_private:
  assumes "is_private_ipv4 ip"
  shows "is_private_ipv6 (mapped ip)" "is_private_ipv6 (compatible ip)" "is_private_ipv6 (sixtofour ip s t u v w)"
    "is_private_ipv6 (teredo ip s t u v)" "is_private_ipv6 (nat64 ip)"
  using assms by (cases ip; simp del: is_private_ipv4.simps)+

end
