(* ===== verification/UrlRules.thy ===== *)
theory UrlRules
  imports AccessRules NetAddr
begin

text \<open>
  The URL rules of the web gateway (\<open>af-web-gateway/src/rules.rs\<close>) with the rows and the
  queries they come from (\<open>af-db/src/web_fetch.rs\<close>). A parsed URL of the \<open>url\<close> crate is what
  the code reads of it: its text, host, scheme and port. The \<open>regex\<close> crate is a
  parameter: compiling a pattern, and matching. The cache of compiled patterns is
  threaded through the evaluation.
\<close>

record url =
  url_text :: string
  url_host :: "string option"
  url_scheme :: string
  url_port :: "nat option"

record web_rule =
  wr_id :: uuid
  wr_scope :: string
  wr_project :: "uuid option"
  wr_type :: string
  wr_pattern_type :: string
  wr_pattern :: string
  wr_description :: "string option"
  wr_created :: instant

text \<open>\<open>list_rules\<close>: the rules that apply to a project, to a scope, or all of them.\<close>

definition list_rules :: "web_rule list \<Rightarrow> string option \<Rightarrow> uuid option \<Rightarrow> web_rule list" where
  "list_rules table scope project =
     sort_key wr_created
       (case project of
          Some p \<Rightarrow> filter (\<lambda>r. wr_scope r = ''global'' \<or> wr_project r = Some p) table
        | None \<Rightarrow> (case scope of Some s \<Rightarrow> filter (\<lambda>r. wr_scope r = s) table | None \<Rightarrow> table))"

datatype rule_result = RuleAllowed | RuleBlocked "string option"

record 're url_env =
  re_compile :: "string \<Rightarrow> 're option"
  re_match :: "'re \<Rightarrow> string \<Rightarrow> bool"
  ip_parse :: "string \<Rightarrow> ip_addr option"

type_synonym 're regex_cache = "(string \<times> 're) list"

definition regex_cap :: nat where "regex_cap = 1000"

definition eq_ignore_case :: "string \<Rightarrow> string \<Rightarrow> bool" where
  "eq_ignore_case a b \<longleftrightarrow> to_lower a = to_lower b"

definition suffix_matches :: "string \<Rightarrow> string \<Rightarrow> bool" where
  "suffix_matches host pattern =
     (let h = to_lower host; pat = trim_start_matches (\<lambda>c. c = CHR ''.'') (to_lower pattern)
      in h = pat \<or> ends_with (CHR ''.'' # pat) h)"

definition regex_matches :: "'re url_env \<Rightarrow> string \<Rightarrow> string \<Rightarrow> 're regex_cache \<Rightarrow> bool \<times> 're regex_cache" where
  "regex_matches env pattern text cache =
     (case map_of cache pattern of
        Some re \<Rightarrow> (re_match env re text, cache)
      | None \<Rightarrow> (case re_compile env pattern of
            None \<Rightarrow> (False, cache)
          | Some re \<Rightarrow> (re_match env re text,
                        if length cache < regex_cap then (pattern, re) # cache else cache)))"

definition matches_rule ::
  "'re url_env \<Rightarrow> url \<Rightarrow> ip_addr list \<Rightarrow> web_rule \<Rightarrow> 're regex_cache \<Rightarrow> bool \<times> 're regex_cache" where
  "matches_rule env u ips r cache =
     (if wr_pattern_type r = ''domain'' then
        ((case url_host u of Some h \<Rightarrow> eq_ignore_case h (wr_pattern r) | None \<Rightarrow> False), cache)
      else if wr_pattern_type r = ''domain_suffix'' then
        ((case url_host u of Some h \<Rightarrow> suffix_matches h (wr_pattern r) | None \<Rightarrow> False), cache)
      else if wr_pattern_type r = ''url_prefix'' then (starts_with (wr_pattern r) (url_text u), cache)
      else if wr_pattern_type r = ''url_regex'' then regex_matches env (wr_pattern r) (url_text u) cache
      else if wr_pattern_type r = ''ip_cidr'' then
        ((case parse_cidr (ip_parse env) (wr_pattern r) of
            Some (net, len) \<Rightarrow> list_ex (\<lambda>ip. ip_in_cidr ip net len) ips
          | None \<Rightarrow> False), cache)
      else (False, cache))"

text \<open>The first rule of a list that matches, the cache threaded through.\<close>

fun first_match ::
  "'re url_env \<Rightarrow> url \<Rightarrow> ip_addr list \<Rightarrow> web_rule list \<Rightarrow> 're regex_cache \<Rightarrow> web_rule option \<times> 're regex_cache" where
  "first_match env u ips [] cache = (None, cache)"
| "first_match env u ips (r # rs) cache =
     (case matches_rule env u ips r cache of
        (True, c) \<Rightarrow> (Some r, c)
      | (False, c) \<Rightarrow> first_match env u ips rs c)"

definition is_block :: "web_rule \<Rightarrow> bool" where
  "is_block r \<longleftrightarrow> wr_type r = ''block''"

definition evaluate_rules ::
  "'re url_env \<Rightarrow> url \<Rightarrow> ip_addr list \<Rightarrow> web_rule list \<Rightarrow> 're regex_cache \<Rightarrow> rule_result \<times> 're regex_cache" where
  "evaluate_rules env u ips rules cache =
     (let blocks = filter is_block rules; allows = filter (\<lambda>r. \<not> is_block r) rules in
      case first_match env u ips blocks cache of
        (Some r, c) \<Rightarrow> (RuleBlocked (wr_description r), c)
      | (None, c) \<Rightarrow>
          if allows = [] then (RuleAllowed, c)
          else (case first_match env u ips allows c of
                  (Some _, c') \<Rightarrow> (RuleAllowed, c')
                | (None, c') \<Rightarrow> (RuleBlocked (Some ''no matching allow rule''), c')))"

section \<open>The cache is transparent\<close>

definition cache_ok :: "'re url_env \<Rightarrow> 're regex_cache \<Rightarrow> bool" where
  "cache_ok env c \<longleftrightarrow> length c \<le> regex_cap \<and> (\<forall>(p, re)\<in>set c. re_compile env p = Some re)"

text \<open>Matching without a cache.\<close>

definition hits_rule :: "'re url_env \<Rightarrow> ip_addr list \<Rightarrow> url \<Rightarrow> web_rule \<Rightarrow> bool" where
  "hits_rule env ips u r = fst (matches_rule env u ips r [])"

lemma cache_ok_empty [simp]: "cache_ok env []"
  by (simp add: cache_ok_def)

lemma regex_transparent:
  assumes "cache_ok env c"
  shows "fst (regex_matches env p t c) = fst (regex_matches env p t [])"
    and "cache_ok env (snd (regex_matches env p t c))"
proof -
  have "re_compile env p = Some re" if "map_of c p = Some re" for re
    using map_of_SomeD [OF that] assms by (auto simp: cache_ok_def)
  then show "fst (regex_matches env p t c) = fst (regex_matches env p t [])"
    by (auto simp: regex_matches_def split: option.splits)
  show "cache_ok env (snd (regex_matches env p t c))"
    using assms by (auto simp: regex_matches_def cache_ok_def split: option.splits)
qed

lemma matches_transparent:
  assumes "cache_ok env c"
  shows "fst (matches_rule env u ips r c) = hits_rule env ips u r"
    and "cache_ok env (snd (matches_rule env u ips r c))"
  using regex_transparent [OF assms] assms
  by (simp_all add: matches_rule_def hits_rule_def)

lemma first_match_eq:
  "cache_ok env c \<Longrightarrow> fst (first_match env u ips rs c) = find (hits_rule env ips u) rs \<and>
     cache_ok env (snd (first_match env u ips rs c))"
proof (induction rs arbitrary: c)
  case (Cons r rs)
  note m = matches_transparent [OF Cons.prems, of u ips r]
  show ?case
  proof (cases "matches_rule env u ips r c")
    case (Pair b d)
    with m have "b = hits_rule env ips u r" "cache_ok env d" by simp_all
    with Pair Cons.IH [of d] show ?thesis by (cases b) simp_all
  qed
qed simp

text \<open>The decision, and the locale's instance.\<close>

definition url_decide :: "'re url_env \<Rightarrow> ip_addr list \<Rightarrow> url \<Rightarrow> web_rule list \<Rightarrow> bool" where
  "url_decide env ips u rules \<longleftrightarrow> fst (evaluate_rules env u ips rules []) = RuleAllowed"

lemma evaluate_eq:
  assumes "cache_ok env c"
  shows "fst (evaluate_rules env u ips rules c) =
      (case find (hits_rule env ips u) (filter is_block rules) of
         Some r \<Rightarrow> RuleBlocked (wr_description r)
       | None \<Rightarrow> if filter (\<lambda>r. \<not> is_block r) rules = [] then RuleAllowed
                 else (case find (hits_rule env ips u) (filter (\<lambda>r. \<not> is_block r) rules) of
                         Some _ \<Rightarrow> RuleAllowed
                       | None \<Rightarrow> RuleBlocked (Some ''no matching allow rule'')))"
    and "cache_ok env (snd (evaluate_rules env u ips rules c))"
proof -
  let ?b = "first_match env u ips (filter is_block rules) c"
  have b: "fst ?b = find (hits_rule env ips u) (filter is_block rules)" "cache_ok env (snd ?b)"
    using first_match_eq [OF assms] by blast+
  let ?a = "first_match env u ips (filter (\<lambda>r. \<not> is_block r) rules) (snd ?b)"
  have a: "fst ?a = find (hits_rule env ips u) (filter (\<lambda>r. \<not> is_block r) rules)" "cache_ok env (snd ?a)"
    using first_match_eq [OF b(2)] by blast+
  show "fst (evaluate_rules env u ips rules c) =
      (case find (hits_rule env ips u) (filter is_block rules) of
         Some r \<Rightarrow> RuleBlocked (wr_description r)
       | None \<Rightarrow> if filter (\<lambda>r. \<not> is_block r) rules = [] then RuleAllowed
                 else (case find (hits_rule env ips u) (filter (\<lambda>r. \<not> is_block r) rules) of
                         Some _ \<Rightarrow> RuleAllowed
                       | None \<Rightarrow> RuleBlocked (Some ''no matching allow rule'')))"
    unfolding evaluate_rules_def Let_def a(1) [symmetric] b(1) [symmetric]
    by (cases ?b; cases ?a) (auto split: option.splits)
  show "cache_ok env (snd (evaluate_rules env u ips rules c))"
    unfolding evaluate_rules_def Let_def using a(2) b(2)
    by (cases ?b; cases ?a) (auto split: option.splits)
qed

lemma url_decide_iff:
  "url_decide env ips u rules \<longleftrightarrow>
     (\<forall>r\<in>set rules. is_block r \<longrightarrow> \<not> hits_rule env ips u r) \<and>
     ((\<exists>r\<in>set rules. \<not> is_block r) \<longrightarrow> (\<exists>r\<in>set rules. \<not> is_block r \<and> hits_rule env ips u r))"
proof -
  have "find (hits_rule env ips u) (filter is_block rules) = None \<longleftrightarrow> (\<forall>r\<in>set rules. is_block r \<longrightarrow> \<not> hits_rule env ips u r)"
    and "find (hits_rule env ips u) (filter (\<lambda>r. \<not> is_block r) rules) = None \<longleftrightarrow> (\<forall>r\<in>set rules. \<not> is_block r \<longrightarrow> \<not> hits_rule env ips u r)"
    and "filter (\<lambda>r. \<not> is_block r) rules = [] \<longleftrightarrow> (\<forall>r\<in>set rules. is_block r)"
    by (auto simp: find_None_iff filter_empty_conv)
  then show ?thesis
    unfolding url_decide_def evaluate_eq(1) [OF cache_ok_empty]
    by (auto split: option.splits)
qed

interpretation url_rules: access_rules "url_decide env ips" is_block "\<lambda>r. \<not> is_block r" "hits_rule env ips"
  for env :: "'re url_env" and ips :: "ip_addr list"
  by unfold_locales (simp_all add: url_decide_iff)

lemma evaluate_allowed:
  "cache_ok env c \<Longrightarrow> fst (evaluate_rules env u ips rules c) = RuleAllowed \<longleftrightarrow> url_decide env ips u rules"
  by (simp add: url_decide_def evaluate_eq)

end
