(* ===== verification/RateLimit.thy ===== *)
theory RateLimit
  imports Prelude
begin

text \<open>
  The token-bucket rate limiters: \<open>af-web-gateway/src/rate_limiter.rs\<close> (and its copy in
  \<open>af-email\<close>), whose refill divides in floating point, and
  \<open>arbeiterfarm/crates/af-re-vt/src/rate_limiter.rs\<close>, which divides whole milliseconds. Time
  is in nanoseconds; the bucket's counters are 32-bit words whose sum wraps. The
  truncated floating-point quotient is a parameter. Both limiters are instances of one
  contract, from which the bound on the tokens handed out follows.
\<close>

record limiter =
  max_tokens :: u32
  refill_interval :: nat
  tokens :: u32
  last_refill :: nat

definition ns_per_ms :: nat where "ns_per_ms = 1000000"
definition minute_ns :: nat where "minute_ns = 60000000000"

section \<open>The two implementations\<close>

text \<open>\<open>requests_per_minute.max(1)\<close>; the interval is \<open>Duration::from_secs_f64(60.0 / rpm)\<close>.\<close>

definition gw_new :: "(u32 \<Rightarrow> nat) \<Rightarrow> u32 \<Rightarrow> nat \<Rightarrow> limiter" where
  "gw_new interval_of rpm now =
     (let r = max rpm 1 in
      \<lparr>max_tokens = r, refill_interval = interval_of r, tokens = r, last_refill = now\<rparr>)"

text \<open>\<open>Duration::from_secs(60) / rpm\<close>.\<close>

definition vt_new :: "u32 \<Rightarrow> nat \<Rightarrow> limiter" where
  "vt_new rpm now =
     (let r = max rpm 1 in
      \<lparr>max_tokens = r, refill_interval = minute_ns div unat r, tokens = r, last_refill = now\<rparr>)"

definition add_tokens :: "u32 \<Rightarrow> limiter \<Rightarrow> limiter" where
  "add_tokens n s = s\<lparr>tokens := min (tokens s + n) (max_tokens s),
                      last_refill := last_refill s + refill_interval s * unat n\<rparr>"

text \<open>A cast from a float saturates.\<close>

definition gw_refill :: "(nat \<Rightarrow> nat \<Rightarrow> nat) \<Rightarrow> nat \<Rightarrow> limiter \<Rightarrow> limiter" where
  "gw_refill quot now s =
     (let elapsed = now - last_refill s;
          intervals = (of_nat (min (quot elapsed (refill_interval s)) u32_max) :: u32) in
      if 0 < intervals then add_tokens intervals s else s)"

text \<open>A cast from a wider integer truncates; dividing by zero milliseconds panics (\<^const>\<open>None\<close>).\<close>

definition vt_refill :: "nat \<Rightarrow> limiter \<Rightarrow> limiter option" where
  "vt_refill now s =
     (let elapsed = now - last_refill s in
      if refill_interval s \<le> elapsed then
        (if refill_interval s div ns_per_ms = 0 then None
         else Some (add_tokens (of_nat ((elapsed div ns_per_ms) div (refill_interval s div ns_per_ms))) s))
      else Some s)"

definition spend :: "limiter \<Rightarrow> limiter" where
  "spend s = s\<lparr>tokens := tokens s - 1\<rparr>"

section \<open>The contract\<close>

text \<open>One attempt under the lock, and the number of tokens a sequence of attempts gets.\<close>

definition attempt :: "(nat \<Rightarrow> 's \<Rightarrow> 's option) \<Rightarrow> ('s \<Rightarrow> 's) \<Rightarrow> ('s \<Rightarrow> nat) \<Rightarrow> nat \<Rightarrow> 's \<Rightarrow> (bool \<times> 's) option" where
  "attempt refill consume level now s =
     map_option (\<lambda>s'. if 0 < level s' then (True, consume s') else (False, s')) (refill now s)"

fun attempts :: "(nat \<Rightarrow> 's \<Rightarrow> 's option) \<Rightarrow> ('s \<Rightarrow> 's) \<Rightarrow> ('s \<Rightarrow> nat) \<Rightarrow> nat list \<Rightarrow> 's \<Rightarrow> (nat \<times> 's) option" where
  "attempts refill consume level [] s = Some (0, s)"
| "attempts refill consume level (t # ts) s =
     (case attempt refill consume level t s of
        None \<Rightarrow> None
      | Some (ok, s') \<Rightarrow>
          map_option (\<lambda>(g, s''). ((if ok then Suc g else g), s'')) (attempts refill consume level ts s'))"

locale token_bucket =
  fixes refill :: "nat \<Rightarrow> 's \<Rightarrow> 's option"
    and consume :: "'s \<Rightarrow> 's"
    and level capacity stamp period :: "'s \<Rightarrow> nat"
  assumes refill_law: "refill now s = Some s' \<Longrightarrow> \<exists>k. stamp s' = stamp s + k * period s \<and> level s' \<le> level s + k"
    and refill_bound: "refill now s = Some s' \<Longrightarrow> level s \<le> capacity s \<Longrightarrow> level s' \<le> capacity s"
    and refill_frame: "refill now s = Some s' \<Longrightarrow> period s' = period s \<and> capacity s' = capacity s"
    and take_law: "0 < level s \<Longrightarrow> level (consume s) = level s - 1"
    and take_frame: "stamp (consume s) = stamp s \<and> period (consume s) = period s \<and> capacity (consume s) = capacity s"
begin

lemma attempt_law:
  assumes "attempt refill consume level now s = Some (ok, s')"
  shows "\<exists>k. stamp s' = stamp s + k * period s \<and> (if ok then 1 else 0) + level s' \<le> level s + k"
    and "period s' = period s" and "capacity s' = capacity s"
    and "level s \<le> capacity s \<Longrightarrow> (if ok then 1 else 0) + level s' \<le> capacity s"
    and "level s \<le> capacity s \<Longrightarrow> level s' \<le> capacity s'"
proof -
  from assms obtain r where r: "refill now s = Some r" "(ok, s') = (if 0 < level r then (True, consume r) else (False, r))"
    by (auto simp: attempt_def)
  have s': "stamp s' = stamp r" "period s' = period r" "capacity s' = capacity r" "(if ok then 1 else 0) + level s' = level r"
    using r(2) take_law [of r] take_frame [of r] by (auto split: if_splits)
  with refill_law [OF r(1)] show "\<exists>k. stamp s' = stamp s + k * period s \<and> (if ok then 1 else 0) + level s' \<le> level s + k"
    by simp
  from s' refill_frame [OF r(1)] show "period s' = period s" and "capacity s' = capacity s" by simp_all
  with s' refill_bound [OF r(1)] show "level s \<le> capacity s \<Longrightarrow> (if ok then 1 else 0) + level s' \<le> capacity s"
    and "level s \<le> capacity s \<Longrightarrow> level s' \<le> capacity s'" by (auto split: if_splits)
qed

text \<open>Every token handed out was there at the start or was credited by moving the stamp.\<close>

lemma attempts_credit:
  assumes "attempts refill consume level ts s = Some (g, s')"
  shows "\<exists>k. stamp s' = stamp s + k * period s \<and> g + level s' \<le> level s + k"
  using assms
proof (induction ts arbitrary: s g)
  case (Cons t ts)
  then obtain ok s1 g1 where a: "attempt refill consume level t s = Some (ok, s1)"
    and rest: "attempts refill consume level ts s1 = Some (g1, s')" and g: "g = (if ok then Suc g1 else g1)"
    by (auto split: option.splits prod.splits)
  from Cons.IH [OF rest] obtain k where "stamp s' = stamp s1 + k * period s1" "g1 + level s' \<le> level s1 + k" by blast
  moreover from attempt_law(1) [OF a] obtain j where
    "stamp s1 = stamp s + j * period s" "(if ok then 1 else 0) + level s1 \<le> level s + j" by blast
  ultimately have "stamp s' = stamp s + (j + k) * period s" "g + level s' \<le> level s + (j + k)"
    using attempt_law(2) [OF a] g by (auto simp: algebra_simps split: if_splits)
  then show ?case by blast
qed simp

lemma attempts_frame:
  "attempts refill consume level ts s = Some (g, s') \<Longrightarrow> period s' = period s \<and> capacity s' = capacity s"
proof (induction ts arbitrary: s g)
  case (Cons t ts)
  then obtain ok s1 g1 where a: "attempt refill consume level t s = Some (ok, s1)"
    and rest: "attempts refill consume level ts s1 = Some (g1, s')"
    by (auto split: option.splits prod.splits)
  from Cons.IH [OF rest] attempt_law(2,3) [OF a] show ?case by simp
qed simp

lemma attempts_bounded:
  "attempts refill consume level ts s = Some (g, s') \<Longrightarrow> level s \<le> capacity s \<Longrightarrow> level s' \<le> capacity s'"
proof (induction ts arbitrary: s g)
  case (Cons t ts)
  then obtain ok s1 g1 where a: "attempt refill consume level t s = Some (ok, s1)"
    and rest: "attempts refill consume level ts s1 = Some (g1, s')"
    by (auto split: option.splits prod.splits)
  from Cons.IH [OF rest attempt_law(5) [OF a Cons.prems(2)]] show ?case .
qed simp

text \<open>After the first attempt the bucket holds at most its capacity, whatever came before.\<close>

lemma attempts_window:
  assumes "attempts refill consume level (t # ts) s = Some (g, s')" and "level s \<le> capacity s"
  shows "\<exists>ok s1 k. attempt refill consume level t s = Some (ok, s1) \<and>
     stamp s' = stamp s1 + k * period s \<and> g \<le> capacity s + k"
proof -
  from assms(1) obtain ok s1 g1 where a: "attempt refill consume level t s = Some (ok, s1)"
    and rest: "attempts refill consume level ts s1 = Some (g1, s')" and g: "g = (if ok then Suc g1 else g1)"
    by (auto split: option.splits prod.splits)
  from attempts_credit [OF rest] obtain k where "stamp s' = stamp s1 + k * period s1" "g1 + level s' \<le> level s1 + k" by blast
  with attempt_law(2,4) [OF a] assms(2) g have "stamp s' = stamp s1 + k * period s" "g \<le> capacity s + k"
    by (auto split: if_splits)
  with a show ?thesis by blast
qed

end

section \<open>Both limiters meet it\<close>

definition level :: "limiter \<Rightarrow> nat" where "level s = unat (tokens s)"
definition capacity :: "limiter \<Rightarrow> nat" where "capacity s = unat (max_tokens s)"

lemma unat_add_le: "unat (x + y) \<le> unat x + unat (y :: u32)"
  by (simp add: unat_word_ariths)

lemma add_tokens_fields [simp]:
  "last_refill (add_tokens n s) = last_refill s + unat n * refill_interval s"
  "refill_interval (add_tokens n s) = refill_interval s"
  "max_tokens (add_tokens n s) = max_tokens s"
  by (simp_all add: add_tokens_def)

lemma add_tokens_level: "level (add_tokens n s) \<le> level s + unat n" "level (add_tokens n s) \<le> capacity s"
  using unat_add_le [of "tokens s" n]
  by (auto simp: level_def capacity_def add_tokens_def min_def word_le_nat_alt intro: order_trans)

lemma spend_level: "0 < level s \<Longrightarrow> level (spend s) = level s - 1"
proof -
  assume "0 < level s"
  then have "tokens s \<noteq> 0" by (auto simp: level_def)
  then show ?thesis by (simp add: level_def spend_def unat_minus_one)
qed

lemma spend_fields [simp]:
  "last_refill (spend s) = last_refill s" "refill_interval (spend s) = refill_interval s" "max_tokens (spend s) = max_tokens s"
  by (simp_all add: spend_def)

interpretation gw: token_bucket "\<lambda>now s. Some (gw_refill quot now s)" spend level capacity last_refill refill_interval
  for quot :: "nat \<Rightarrow> nat \<Rightarrow> nat"
proof
  fix now and s s' :: limiter
  assume "Some (gw_refill quot now s) = Some s'"
  then have "s' = s \<or> (\<exists>n. s' = add_tokens n s)" by (auto simp: gw_refill_def Let_def split: if_splits)
  then show "\<exists>k. last_refill s' = last_refill s + k * refill_interval s \<and> level s' \<le> level s + k"
    and "level s \<le> capacity s \<Longrightarrow> level s' \<le> capacity s"
    and "refill_interval s' = refill_interval s \<and> capacity s' = capacity s"
    using add_tokens_level by (auto intro: exI [of _ 0] simp: capacity_def)
qed (simp_all add: spend_level capacity_def)

interpretation vt: token_bucket vt_refill spend level capacity last_refill refill_interval
proof
  fix now and s s' :: limiter
  assume "vt_refill now s = Some s'"
  then have "s' = s \<or> (\<exists>n. s' = add_tokens n s)" by (auto simp: vt_refill_def Let_def split: if_splits)
  then show "\<exists>k. last_refill s' = last_refill s + k * refill_interval s \<and> level s' \<le> level s + k"
    and "level s \<le> capacity s \<Longrightarrow> level s' \<le> capacity s"
    and "refill_interval s' = refill_interval s \<and> capacity s' = capacity s"
    using add_tokens_level by (auto intro: exI [of _ 0] simp: capacity_def)
qed (simp_all add: spend_level capacity_def)

section \<open>Waiting for a token\<close>

text \<open>
  \<open>acquire\<close>: try, give up at the deadline, sleep. The scheduler's delays are parameters
  (\<open>lag\<close> between the two readings of the clock, \<open>over\<close> beyond the requested sleep), and so
  is what other tasks do to the bucket meanwhile.
\<close>

record world =
  lag :: "nat \<Rightarrow> nat"
  over :: "nat \<Rightarrow> nat"
  others :: "nat \<Rightarrow> limiter \<Rightarrow> limiter"

fun gw_acquire ::
  "nat \<Rightarrow> (nat \<Rightarrow> nat \<Rightarrow> nat) \<Rightarrow> world \<Rightarrow> nat \<Rightarrow> nat \<Rightarrow> nat \<Rightarrow> limiter \<Rightarrow> (bool \<times> nat \<times> limiter) option" where
  "gw_acquire 0 quot w n deadline now s = None"
| "gw_acquire (Suc fuel) quot w n deadline now s =
     (let s1 = gw_refill quot now s in
      if 0 < tokens s1 then Some (True, now, spend s1)
      else
        (let now2 = now + lag w n in
         if deadline \<le> now2 then Some (False, now2, s1)
         else gw_acquire fuel quot w (Suc n) deadline
                (now2 + min (refill_interval s1) (deadline - now2) + over w n) (others w n s1)))"

lemma gw_refill_interval [simp]: "refill_interval (gw_refill quot now s) = refill_interval s"
  by (simp add: gw_refill_def Let_def)

lemma gw_acquire_ends:
  assumes "\<And>n s. refill_interval (others w n s) = refill_interval s" and "0 < refill_interval s"
    and "deadline \<le> now + fuel * refill_interval s"
  shows "\<exists>ok t s'. gw_acquire (Suc fuel) quot w n deadline now s = Some (ok, t, s') \<and> (\<not> ok \<longrightarrow> deadline \<le> t)"
  using assms(2,3)
proof (induction fuel arbitrary: n now s)
  case 0
  then show ?case by (cases "0 < tokens (gw_refill quot now s)") (auto simp: Let_def)
next
  case (Suc fuel)
  define s1 where "s1 = gw_refill quot now s"
  define now2 where "now2 = now + lag w n"
  show ?case
  proof (cases "0 < tokens s1 \<or> deadline \<le> now2")
    case True
    then show ?thesis by (auto simp: s1_def now2_def Let_def)
  next
    case False
    let ?s2 = "others w n s1"
    let ?t = "now2 + min (refill_interval s1) (deadline - now2) + over w n"
    have i: "refill_interval ?s2 = refill_interval s" by (simp add: assms(1) s1_def)
    have "deadline \<le> ?t + fuel * refill_interval ?s2"
      using Suc.prems(2) unfolding i by (auto simp: s1_def now2_def min_def)
    with Suc.IH [of ?s2 ?t "Suc n"] Suc.prems(1) i obtain ok t s' where
      "gw_acquire (Suc fuel) quot w (Suc n) deadline ?t ?s2 = Some (ok, t, s')" "\<not> ok \<longrightarrow> deadline \<le> t"
      by auto
    moreover have "gw_acquire (Suc (Suc fuel)) quot w n deadline now s =
        gw_acquire (Suc fuel) quot w (Suc n) deadline ?t ?s2"
      using False by (simp add: s1_def now2_def Let_def del: gw_acquire.simps(2)) (subst gw_acquire.simps(2), simp add: Let_def)
    ultimately show ?thesis by metis
  qed
qed

text \<open>
  The floating-point quotient is within one of the exact one, and zero for zero: what the
  rounding of two conversions and a division of doubles allows for quotients below
  \<open>2 ^ 50\<close>.
\<close>

definition quot_close :: "(nat \<Rightarrow> nat \<Rightarrow> nat) \<Rightarrow> bool" where
  "quot_close quot \<longleftrightarrow> (\<forall>e i. 0 < i \<longrightarrow> quot e i \<le> e div i + 1 \<and> e div i \<le> quot e i + 1 \<and> quot 0 i = 0)"

lemma gw_refill_stamp:
  assumes "quot_close quot" and "0 < refill_interval s" and "last_refill s \<le> now + refill_interval s"
  shows "last_refill (gw_refill quot now s) \<le> now + refill_interval s"
proof -
  let ?i = "refill_interval s"
  define q where "q = min (quot (now - last_refill s) ?i) u32_max"
  have "unat (of_nat q :: u32) = q"
    by (simp add: q_def u32_max_def unat_of_nat take_bit_nat_eq_self)
  then have stamp: "last_refill (gw_refill quot now s) \<le> last_refill s + q * ?i"
    by (auto simp: gw_refill_def Let_def q_def)
  show ?thesis
  proof (cases "last_refill s \<le> now")
    case True
    have "q \<le> (now - last_refill s) div ?i + 1"
      using assms(1,2) unfolding quot_close_def q_def by (metis min.coboundedI1)
    then have "q * ?i \<le> ((now - last_refill s) div ?i) * ?i + ?i"
      by (metis add_mult_distrib mult_le_mono1 nat_mult_1)
    also have "\<dots> \<le> (now - last_refill s) + ?i" by (simp add: div_times_less_eq_dividend)
    finally show ?thesis using stamp True by simp
  next
    case False
    then have "q = 0" using assms(1,2) by (simp add: q_def quot_close_def)
    then show ?thesis using stamp assms(3) by simp
  qed
qed

lemma gw_refill_recent:
  assumes "quot_close quot" and "0 < refill_interval s" and "now - last_refill s < u32_max * refill_interval s"
  shows "now < last_refill (gw_refill quot now s) + 2 * refill_interval s"
proof -
  let ?i = "refill_interval s" and ?e = "now - last_refill s"
  define q where "q = min (quot ?e ?i) u32_max"
  have "unat (of_nat q :: u32) = q"
    by (simp add: q_def u32_max_def unat_of_nat take_bit_nat_eq_self)
  moreover have "(of_nat q :: u32) > 0 \<longleftrightarrow> 0 < q"
    using calculation by (metis unat_eq_0 gr0I not_gr_zero word_neq_0_conv)
  ultimately have stamp: "last_refill (gw_refill quot now s) = last_refill s + q * ?i"
    by (simp add: gw_refill_def Let_def q_def [symmetric])
  have "?e div ?i < u32_max" using assms(2,3) by (simp add: less_mult_imp_div_less)
  moreover have "?e div ?i \<le> quot ?e ?i + 1" using assms(1,2) by (simp add: quot_close_def)
  ultimately have "?e div ?i \<le> q + 1" by (simp add: q_def)
  then have "(?e div ?i) * ?i \<le> q * ?i + ?i"
    by (metis add_mult_distrib mult_le_mono1 nat_mult_1)
  moreover have "?e < (?e div ?i) * ?i + ?i"
    using assms(2) by (metis add.commute div_mult_mod_eq mod_less_divisor nat_add_left_cancel_less)
  ultimately have "?e < q * ?i + 2 * ?i" by simp
  then show ?thesis using stamp by simp
qed

lemma gw_attempts_stamp:
  assumes "quot_close quot" and "0 < refill_interval s"
    and "attempts (\<lambda>now s. Some (gw_refill quot now s)) spend level ts s = Some (g, s')"
    and "\<forall>t\<in>set ts. t \<le> b" and "sorted ts" and "\<forall>t\<in>set ts. last_refill s \<le> t + refill_interval s"
    and "last_refill s \<le> b + refill_interval s"
  shows "last_refill s' \<le> b + refill_interval s"
  using assms(2-)
proof (induction ts arbitrary: s g)
  case (Cons t ts)
  define r where "r = gw_refill quot t s"
  define s1 where "s1 = (if 0 < level r then spend r else r)"
  have s1: "last_refill s1 = last_refill r" "refill_interval s1 = refill_interval s"
    by (simp_all add: s1_def r_def)
  have "last_refill r \<le> t + refill_interval s"
    unfolding r_def using Cons.prems by (intro gw_refill_stamp [OF assms(1)]) simp_all
  moreover from Cons.prems(2) obtain g1 where
    "attempts (\<lambda>now s. Some (gw_refill quot now s)) spend level ts s1 = Some (g1, s')"
    by (auto simp: attempt_def s1_def r_def split: if_splits)
  ultimately show ?case
    using Cons.IH [of s1 g1] Cons.prems s1 by fastforce
qed simp

text \<open>
  A window of attempts: what it hands out is the capacity, the intervals it spans and three
  more, for the two roundings and the interval begun before it.
\<close>

lemma gw_window:
  assumes q: "quot_close quot" and i: "0 < refill_interval s" and full: "level s \<le> capacity s"
    and run: "attempts (\<lambda>now s. Some (gw_refill quot now s)) spend level (a # ts) s = Some (g, s')"
    and sorted: "sorted (a # ts)" and last: "\<forall>t\<in>set (a # ts). t \<le> b"
    and stamp: "last_refill s \<le> a + refill_interval s" and recent: "a - last_refill s < u32_max * refill_interval s"
  shows "g \<le> capacity s + (b - a) div refill_interval s + 3"
proof -
  let ?i = "refill_interval s"
  from gw.attempts_window [OF run full] obtain ok s1 k where
    a: "attempt (\<lambda>now s. Some (gw_refill quot now s)) spend level a s = Some (ok, s1)"
    and k: "last_refill s' = last_refill s1 + k * ?i" "g \<le> capacity s + k" by blast
  have "last_refill s1 = last_refill (gw_refill quot a s)"
    using a by (auto simp: attempt_def split: if_splits)
  then have "a < last_refill s1 + 2 * ?i" using gw_refill_recent [OF q i recent] by simp
  moreover have "last_refill s' \<le> b + ?i"
    by (rule gw_attempts_stamp [OF q i run last sorted]) (use stamp sorted last in auto)
  moreover have "a \<le> b" using last by simp
  ultimately have "k * ?i < (b - a) + 3 * ?i" using k(1) by linarith
  then have "k < ((b - a) + 3 * ?i) div ?i + 1"
    using i by (metis add.commute div_mult_self_is_m less_Suc_eq_le div_le_mono less_imp_le_nat plus_1_eq_Suc)
  moreover have "((b - a) + 3 * ?i) div ?i = (b - a) div ?i + 3" using i by simp
  ultimately show ?thesis using k(2) by simp
qed

lemma gw_stamp_grows:
  "attempts (\<lambda>now s. Some (gw_refill quot now s)) spend level ts s = Some (g, s') \<Longrightarrow> last_refill s \<le> last_refill s'"
  using gw.attempts_credit [of quot ts s g s'] by auto

lemma gw_new_fields:
  "refill_interval (gw_new f rpm t) = f (max rpm 1)" "last_refill (gw_new f rpm t) = t"
  "level (gw_new f rpm t) = unat (max rpm 1)" "capacity (gw_new f rpm t) = unat (max rpm 1)"
  by (simp_all add: gw_new_def Let_def level_def capacity_def)

text \<open>Above 60000 requests a minute the interval is shorter than a millisecond, and the first refill divides by zero.\<close>

lemma vt_panics:
  "vt_refill now (vt_new rpm t) = None \<longleftrightarrow> 60000 < rpm \<and> t + minute_ns div unat (max rpm 1) \<le> now"
proof -
  let ?r = "unat (max rpm 1)"
  have "(1 :: u32) \<le> max rpm 1" by simp
  then have r: "0 < ?r" by (simp only: word_le_nat_alt unat_1)
  have "(minute_ns div ?r) div ns_per_ms = 60000 div ?r"
    by (simp add: minute_ns_def ns_per_ms_def div_mult2_eq [symmetric])
  moreover have "60000 div ?r = 0 \<longleftrightarrow> 60000 < ?r" using r by (simp add: div_eq_0_iff)
  moreover have "60000 < ?r \<longleftrightarrow> 60000 < rpm"
    by (auto simp: max_def word_less_nat_alt word_le_nat_alt)
  moreover have "?r < 4294967296" using unsigned_less [of "max rpm 1", where 'a = nat] by simp
  then have "0 < minute_ns div ?r" using r by (simp add: minute_ns_def div_greater_zero_iff)
  ultimately show ?thesis by (auto simp: vt_refill_def vt_new_def Let_def)
qed

end
