(* ===== verification/Gateway.thy ===== *)
theory Gateway
  imports UrlRules RateLimit Json "HOL-Library.AList"
begin

text \<open>
  The web gateway (\<open>af-web-gateway/src/gateway.rs\<close>, the cache statements of
  \<open>af-db/src/web_fetch.rs\<close>, \<open>geoip.rs\<close>): fetching a URL with the rules, address checks and
  rate limits, following redirects, capping the body. Every connection it opens is
  recorded with the addresses the client was pinned to.

  Parameters: the \<open>url\<close> crate (parsing and joining), name resolution, the GeoIP database,
  the HTTP exchange, the hash of the cache key, HTML rendering, byte-to-text conversion,
  the identifier parser, the regex engine and the failures of database statements.
\<close>

record gateway_request =
  rq_action :: string
  rq_url :: "string option"
  rq_query :: "string option"
  rq_user :: "string option"
  rq_project :: "string option"

record gateway_response =
  rsp_ok :: bool
  rsp_data :: "json option"
  rsp_cached :: "bool option"
  rsp_error :: "string option"
  rsp_message :: "string option"

definition rsp_success :: "json \<Rightarrow> bool \<Rightarrow> gateway_response" where
  "rsp_success d c = \<lparr>rsp_ok = True, rsp_data = Some d, rsp_cached = Some c, rsp_error = None, rsp_message = None\<rparr>"

definition rsp_err :: "string \<Rightarrow> string \<Rightarrow> gateway_response" where
  "rsp_err code msg = \<lparr>rsp_ok = False, rsp_data = None, rsp_cached = None, rsp_error = Some code, rsp_message = Some msg\<rparr>"

text \<open>A header is absent, present but not text, or text.\<close>

datatype header = NoHeader | BadHeader | Header string

record http_response =
  hr_status :: nat
  hr_location :: header
  hr_content_type :: "string option"
  hr_chunks :: "(string + string) list"    \<comment> \<open>a chunk, or the error that ends the stream\<close>

record cache_row =
  cr_hash :: string
  cr_url :: string
  cr_status :: nat
  cr_type :: "string option"
  cr_body :: "string option"
  cr_expires :: nat

record 're gw_env = "'re url_env" +
  url_parse :: "string \<Rightarrow> string + url"
  url_join :: "url \<Rightarrow> string \<Rightarrow> string + url"
  dns :: "string \<Rightarrow> nat \<Rightarrow> string + ip_addr list"
  country_of :: "ip_addr \<Rightarrow> string option"
  blocked_countries :: "string list"
  geo_enabled :: bool
  http_get :: "url \<Rightarrow> ip_addr list \<Rightarrow> string + http_response"
  http_search :: "string \<Rightarrow> string + http_response"
  url_hash :: "string \<Rightarrow> string"
  html_text :: "string \<Rightarrow> string"
  utf8_lossy :: "string \<Rightarrow> string"
  utf8_ok :: "string \<Rightarrow> bool"
  gw_parse_uuid :: "string \<Rightarrow> uuid option"
  gw_show_ip :: "ip_addr \<Rightarrow> string"
  rules_fault :: bool
  cache_get_fault :: bool
  cache_put_fault :: bool
  max_redirects :: nat
  max_response_bytes :: nat
  cache_ttl :: nat
  quotient :: "nat \<Rightarrow> nat \<Rightarrow> nat"
  interval_of :: "u32 \<Rightarrow> nat"
  per_user_rpm :: u32
  max_tracked_users :: nat
  key_order :: "string list \<Rightarrow> string list"
  delays :: world

record 're gw_state =
  gw_rules :: "web_rule list"
  gw_cache :: "cache_row list"
  gw_regex :: "'re regex_cache"
  gw_global :: limiter
  gw_users :: "(string \<times> limiter) list"
  gw_now :: nat
  gw_log :: "(url \<times> ip_addr list) list"

section \<open>Address checks\<close>

text \<open>Country codes are compared in upper case; the blocked ones are converted when the database is opened.\<close>

definition to_upper :: "string \<Rightarrow> string" where
  "to_upper = map (\<lambda>c. let n = (of_char c :: nat) in if 97 \<le> n \<and> n \<le> 122 then char_of (n - 32) else c)"

definition geo_new :: "string list \<Rightarrow> string list" where
  "geo_new blocked = map to_upper blocked"

definition geo_check :: "('re, 'x) gw_env_scheme \<Rightarrow> ip_addr \<Rightarrow> string option" where
  "geo_check env ip =
     (if blocked_countries env = [] then None
      else case country_of env ip of
        None \<Rightarrow> None
      | Some c \<Rightarrow> if to_upper c \<in> set (blocked_countries env) then Some (to_upper c) else None)"

definition first_bad :: "('a \<Rightarrow> 'b option) \<Rightarrow> 'a list \<Rightarrow> ('a \<times> 'b) option" where
  "first_bad f xs = (case find (\<lambda>x. f x \<noteq> None) xs of None \<Rightarrow> None | Some x \<Rightarrow> Some (x, the (f x)))"

definition re_env :: "('re, 'x) gw_env_scheme \<Rightarrow> 're url_env" where
  "re_env env = url_env.make (re_compile env) (re_match env) (ip_parse env)"

definition resolve_and_validate ::
  "('re, 'x) gw_env_scheme \<Rightarrow> url \<Rightarrow> web_rule list \<Rightarrow> 're regex_cache \<Rightarrow> (gateway_response + ip_addr list) \<times> 're regex_cache" where
  "resolve_and_validate env u rules rc =
     (case url_host u of
        None \<Rightarrow> (Inl (rsp_err ''invalid_url'' ''URL has no host''), rc)
      | Some host \<Rightarrow>
     (case dns env host (case url_port u of None \<Rightarrow> 443 | Some p \<Rightarrow> p) of
        Inl e \<Rightarrow> (Inl (rsp_err ''dns_error'' (''DNS resolution failed for '' @ host @ '': '' @ e)), rc)
      | Inr addrs \<Rightarrow>
        if addrs = [] then (Inl (rsp_err ''dns_error'' (''no addresses found for '' @ host)), rc)
        else
     (case find is_private_ip addrs of
        Some ip \<Rightarrow> (Inl (rsp_err ''ssrf_blocked'' (ssrf_reason (gw_show_ip env) ip)), rc)
      | None \<Rightarrow>
     (case (if geo_enabled env then first_bad (geo_check env) addrs else None) of
        Some (ip, c) \<Rightarrow> (Inl (rsp_err ''country_blocked'' (''IP '' @ gw_show_ip env ip @ '' is in blocked country: '' @ c)), rc)
      | None \<Rightarrow>
     (case evaluate_rules (re_env env) u addrs rules rc of
        (RuleBlocked reason, rc') \<Rightarrow>
          (Inl (rsp_err ''url_blocked'' (''URL blocked by IP rule: ''
                 @ (case reason of None \<Rightarrow> ''blocked'' | Some r \<Rightarrow> r))), rc')
      | (RuleAllowed, rc') \<Rightarrow> (Inr addrs, rc'))))))"

definition http_scheme :: "url \<Rightarrow> bool" where
  "http_scheme u \<longleftrightarrow> url_scheme u = ''http'' \<or> url_scheme u = ''https''"

definition is_redirection :: "nat \<Rightarrow> bool" where
  "is_redirection s \<longleftrightarrow> 300 \<le> s \<and> s < 400"

section \<open>Following redirects\<close>

text \<open>
  \<open>left\<close> is how many more redirects may be followed. The result is the response and the
  URL it came from, or the error; with it the connections opened and the regex cache.
\<close>

fun fetch_loop ::
  "('re, 'x) gw_env_scheme \<Rightarrow> web_rule list \<Rightarrow> nat \<Rightarrow> url \<Rightarrow> ip_addr list \<Rightarrow> 're regex_cache \<Rightarrow>
     (gateway_response + url \<times> http_response) \<times> (url \<times> ip_addr list) list \<times> 're regex_cache" where
  "fetch_loop env rules left u addrs rc =
     (case http_get env u addrs of
        Inl e \<Rightarrow> (Inl (rsp_err ''fetch_error'' (''HTTP request failed: '' @ e)), [(u, addrs)], rc)
      | Inr resp \<Rightarrow>
        if \<not> is_redirection (hr_status resp) then (Inr (u, resp), [(u, addrs)], rc)
        else
     (case left of
        0 \<Rightarrow> (Inl (rsp_err ''too_many_redirects'' (''exceeded '' @ show_nat (max_redirects env) @ '' redirects'')),
              [(u, addrs)], rc)
      | Suc left' \<Rightarrow>
     (case hr_location resp of
        NoHeader \<Rightarrow> (Inr (u, resp), [(u, addrs)], rc)
      | BadHeader \<Rightarrow> (Inl (rsp_err ''fetch_error'' ''invalid redirect location header''), [(u, addrs)], rc)
      | Header loc \<Rightarrow>
     (case url_join env u loc of
        Inl e \<Rightarrow> (Inl (rsp_err ''fetch_error'' (''invalid redirect URL: '' @ e)), [(u, addrs)], rc)
      | Inr nxt \<Rightarrow>
        if \<not> http_scheme nxt
        then (Inl (rsp_err ''invalid_scheme'' (''redirect to non-HTTP scheme: '' @ url_scheme nxt)), [(u, addrs)], rc)
        else
     (case evaluate_rules (re_env env) nxt [] rules rc of
        (RuleBlocked reason, rc1) \<Rightarrow>
          (Inl (rsp_err ''url_blocked'' (''redirect URL blocked by rule: ''
                 @ (case reason of None \<Rightarrow> ''no matching allow rule'' | Some r \<Rightarrow> r))), [(u, addrs)], rc1)
      | (RuleAllowed, rc1) \<Rightarrow>
     (case resolve_and_validate env nxt rules rc1 of
        (Inl e, rc2) \<Rightarrow> (Inl e, [(u, addrs)], rc2)
      | (Inr addrs', rc2) \<Rightarrow>
          (case fetch_loop env rules left' nxt addrs' rc2 of
             (res, log, rc3) \<Rightarrow> (res, (u, addrs) # log, rc3))))))))"

declare fetch_loop.simps [simp del]

section \<open>The body\<close>

text \<open>
  The streaming loop with its byte cap: the bytes read so far, and whether something was
  cut off.
\<close>

fun read_body :: "nat \<Rightarrow> (string + string) list \<Rightarrow> string \<Rightarrow> string + string \<times> bool" where
  "read_body cap [] acc = Inr (acc, False)"
| "read_body cap (Inl chunk # rest) acc =
     (let remaining = cap - length acc in
      if remaining = 0 then Inr (acc, True)
      else (let n = min (length chunk) remaining; acc' = acc @ take n chunk in
            if n < length chunk then Inr (acc', True) else read_body cap rest acc'))"
| "read_body cap (Inr e # rest) acc = Inl e"

definition extract_html_title :: "string \<Rightarrow> string option" where
  "extract_html_title text =
     (case find_sub ''<title>'' (to_lower text) of
        None \<Rightarrow> None
      | Some start \<Rightarrow>
          (let after = start + 7 in
           case find_sub ''</title>'' (drop after (to_lower text)) of
             None \<Rightarrow> None
           | Some n \<Rightarrow> Some (trim (take n (drop after text)))))"

definition contains :: "string \<Rightarrow> string \<Rightarrow> bool" where
  "contains p s \<longleftrightarrow> find_sub p s \<noteq> None"

definition body_text :: "('re, 'x) gw_env_scheme \<Rightarrow> string option \<Rightarrow> string \<Rightarrow> string" where
  "body_text env ct bytes =
     (if (case ct of None \<Rightarrow> False | Some c \<Rightarrow> contains ''text/html'' c)
      then (let text = html_text env bytes in
            case (if utf8_ok env bytes then extract_html_title bytes else None) of
              Some t \<Rightarrow> ''Title: '' @ t @ [CHR 0x0A, CHR 0x0A] @ text
            | None \<Rightarrow> text)
      else utf8_lossy env bytes)"

section \<open>The cache\<close>

definition cache_get :: "cache_row list \<Rightarrow> nat \<Rightarrow> string \<Rightarrow> cache_row option" where
  "cache_get rows now h = find (\<lambda>r. cr_hash r = h \<and> now < cr_expires r) rows"

definition cache_put :: "cache_row \<Rightarrow> cache_row list \<Rightarrow> cache_row list" where
  "cache_put row rows =
     (if \<exists>r\<in>set rows. cr_hash r = cr_hash row
      then map (\<lambda>r. if cr_hash r = cr_hash row then row else r) rows
      else rows @ [row])"

definition cache_purge_expired :: "nat \<Rightarrow> cache_row list \<Rightarrow> nat \<times> cache_row list" where
  "cache_purge_expired now rows =
     (length (filter (\<lambda>r. cr_expires r \<le> now) rows), filter (\<lambda>r. \<not> cr_expires r \<le> now) rows)"

definition opt_str :: "string option \<Rightarrow> json" where
  "opt_str s = (case s of None \<Rightarrow> JNull | Some x \<Rightarrow> JStr x)"

definition page_json :: "string \<Rightarrow> nat \<Rightarrow> string option \<Rightarrow> json \<Rightarrow> nat \<Rightarrow> bool \<Rightarrow> json" where
  "page_json u st ct body len trunc = JObj [(''url'', JStr u), (''status'', JInt (int st)),
     (''content_type'', opt_str ct), (''body'', body), (''body_length'', JInt (int len)), (''truncated'', JBool trunc)]"

section \<open>Rate limits\<close>

definition acquire :: "('re, 'x) gw_env_scheme \<Rightarrow> nat \<Rightarrow> nat \<Rightarrow> limiter \<Rightarrow> bool \<times> nat \<times> limiter" where
  "acquire env timeout now l =
     (case gw_acquire (Suc (Suc (timeout div refill_interval l))) (quotient env) (delays env) 0 (now + timeout) now l of
        Some r \<Rightarrow> r
      | None \<Rightarrow> (False, now, l))"

definition seconds :: "nat \<Rightarrow> nat" where "seconds n = n * 1000000000"

text \<open>The first half of the keys goes, in the iteration order of the concurrent map.\<close>

definition evict :: "string list \<Rightarrow> (string \<times> limiter) list \<Rightarrow> (string \<times> limiter) list" where
  "evict keys users = filter (\<lambda>(k, _). k \<notin> set (take (length keys div 2) keys)) users"

definition check_per_user_rate ::
  "('re, 'x) gw_env_scheme \<Rightarrow> string option \<Rightarrow> ('re, 'y) gw_state_scheme \<Rightarrow> bool \<times> ('re, 'y) gw_state_scheme" where
  "check_per_user_rate env user st =
     (case user of
        None \<Rightarrow> (True, st)
      | Some u \<Rightarrow>
        if u = [] then (True, st)
        else
          (let tracked = (if max_tracked_users env \<le> length (gw_users st)
                          then evict (key_order env (map fst (gw_users st))) (gw_users st) else gw_users st);
               l = (case map_of tracked u of
                      Some l \<Rightarrow> l | None \<Rightarrow> gw_new (interval_of env) (per_user_rpm env) (gw_now st));
               (ok, t, l') = acquire env (seconds 5) (gw_now st) l
           in (ok, st\<lparr>gw_users := AList.update u l' tracked, gw_now := t\<rparr>)))"

section \<open>Handling a fetch\<close>

definition finish_fetch ::
  "('re, 'x) gw_env_scheme \<Rightarrow> string \<Rightarrow> url \<Rightarrow> http_response \<Rightarrow> ('re, 'y) gw_state_scheme \<Rightarrow>
     gateway_response \<times> ('re, 'y) gw_state_scheme" where
  "finish_fetch env h final resp st =
     (case read_body (max_response_bytes env) (hr_chunks resp) [] of
        Inl e \<Rightarrow> (rsp_err ''fetch_error'' (''failed to read response body: '' @ e), st)
      | Inr (bytes, truncated) \<Rightarrow>
          (let text = body_text env (hr_content_type resp) bytes;
               status = hr_status resp;
               row = \<lparr>cr_hash = h, cr_url = url_text final, cr_status = status, cr_type = hr_content_type resp,
                      cr_body = Some text, cr_expires = gw_now st + seconds (cache_ttl env)\<rparr>;
               st' = (if 200 \<le> status \<and> status < 400 \<and> \<not> cache_put_fault env
                      then st\<lparr>gw_cache := cache_put row (gw_cache st)\<rparr> else st)
           in (rsp_success (page_json (url_text final) status (hr_content_type resp) (JStr text) (length text) truncated) False, st')))"

definition fetch_fresh ::
  "('re, 'x) gw_env_scheme \<Rightarrow> string \<Rightarrow> url \<Rightarrow> web_rule list \<Rightarrow> ('re, 'y) gw_state_scheme \<Rightarrow>
     gateway_response \<times> ('re, 'y) gw_state_scheme" where
  "fetch_fresh env h u rules st =
     (case resolve_and_validate env u rules (gw_regex st) of
        (Inl e, rc) \<Rightarrow> (e, st\<lparr>gw_regex := rc\<rparr>)
      | (Inr addrs, rc) \<Rightarrow>
          (let (ok, t, l) = acquire env (seconds 30) (gw_now st) (gw_global st);
               st1 = st\<lparr>gw_regex := rc, gw_global := l, gw_now := t\<rparr> in
           if \<not> ok then (rsp_err ''rate_limited'' ''global: rate limit timeout after 30s'', st1)
           else
             (let (res, log, rc') = fetch_loop env rules (max_redirects env) u addrs rc;
                  st2 = st1\<lparr>gw_regex := rc', gw_log := gw_log st1 @ log\<rparr> in
              case res of
                Inl e \<Rightarrow> (e, st2)
              | Inr (final, resp) \<Rightarrow> finish_fetch env h final resp st2)))"

definition handle_fetch ::
  "('re, 'x) gw_env_scheme \<Rightarrow> gateway_request \<Rightarrow> ('re, 'y) gw_state_scheme \<Rightarrow> gateway_response \<times> ('re, 'y) gw_state_scheme" where
  "handle_fetch env req st =
     (let text = (case rq_url req of None \<Rightarrow> [] | Some s \<Rightarrow> s) in
      if text = [] then (rsp_err ''invalid_input'' ''url is required'', st)
      else
     (case url_parse env text of
        Inl e \<Rightarrow> (rsp_err ''invalid_url'' (''invalid URL: '' @ e), st)
      | Inr u \<Rightarrow>
        if \<not> http_scheme u
        then (rsp_err ''invalid_scheme'' (''only http and https are allowed, got: '' @ url_scheme u), st)
        else if url_host u = None then (rsp_err ''invalid_url'' ''URL has no host'', st)
        else
     (let (ok, st1) = check_per_user_rate env (rq_user req) st in
      if \<not> ok then (rsp_err ''rate_limited'' ''rate limit timeout after 5s'', st1)
      else if rules_fault env then (rsp_err ''internal_error'' ''failed to load URL rules'', st1)
      else
     (let rules = list_rules (gw_rules st1) None (Option.bind (rq_project req) (gw_parse_uuid env)) in
      case evaluate_rules (re_env env) u [] rules (gw_regex st1) of
        (RuleBlocked reason, rc) \<Rightarrow>
          (rsp_err ''url_blocked'' (''URL blocked by rule: ''
             @ (case reason of None \<Rightarrow> ''no matching allow rule'' | Some r \<Rightarrow> r)), st1\<lparr>gw_regex := rc\<rparr>)
      | (RuleAllowed, rc) \<Rightarrow>
          (let st2 = st1\<lparr>gw_regex := rc\<rparr>; h = url_hash env (url_text u) in
           case (if cache_get_fault env then None else cache_get (gw_cache st2) (gw_now st2) h) of
             Some c \<Rightarrow>
               if 200 \<le> cr_status c \<and> cr_status c < 400
               then (rsp_success (page_json (cr_url c) (cr_status c) (cr_type c) (opt_str (cr_body c))
                       (case cr_body c of None \<Rightarrow> 0 | Some b \<Rightarrow> length b) False) True, st2)
               else fetch_fresh env h u rules st2
           | None \<Rightarrow> fetch_fresh env h u rules st2)))))"

section \<open>What was checked before a connection\<close>

definition vetted :: "('re, 'x) gw_env_scheme \<Rightarrow> web_rule list \<Rightarrow> url \<times> ip_addr list \<Rightarrow> bool" where
  "vetted env rules c \<longleftrightarrow> (case c of (u, addrs) \<Rightarrow>
     http_scheme u \<and> url_decide (re_env env) [] u rules \<and> url_decide (re_env env) addrs u rules \<and>
     (\<exists>host. url_host u = Some host \<and> dns env host (case url_port u of None \<Rightarrow> 443 | Some p \<Rightarrow> p) = Inr addrs) \<and>
     addrs \<noteq> [] \<and> (\<forall>ip\<in>set addrs. \<not> is_private_ip ip) \<and>
     (geo_enabled env \<longrightarrow> (\<forall>ip\<in>set addrs. geo_check env ip = None)))"

lemma first_bad_None: "first_bad f xs = None \<longleftrightarrow> (\<forall>x\<in>set xs. f x = None)"
proof (cases "find (\<lambda>x. f x \<noteq> None) xs")
  case (Some x)
  then have "x \<in> set xs" "f x \<noteq> None" by (auto simp: find_Some_iff)
  with Some show ?thesis by (auto simp: first_bad_def)
next
  case None
  then have "\<forall>x\<in>set xs. f x = None" unfolding find_None_iff by blast
  with None show ?thesis unfolding first_bad_def by simp
qed

lemma evaluate_cases:
  assumes "cache_ok env c" and "evaluate_rules env u ips rules c = (r, c')"
  shows "cache_ok env c'" and "r = RuleAllowed \<longleftrightarrow> url_decide env ips u rules"
  using evaluate_eq(2) [OF assms(1), of u ips rules] evaluate_allowed [OF assms(1), of u ips rules] assms(2)
  by simp_all

lemma resolve_cache_ok:
  assumes "cache_ok (re_env env) rc"
  shows "cache_ok (re_env env) (snd (resolve_and_validate env u rules rc))"
  using evaluate_eq(2) [OF assms] assms unfolding resolve_and_validate_def
  by (auto split: option.splits sum.splits prod.splits rule_result.splits if_splits) (metis snd_conv)+

lemma resolve_vetted:
  assumes "cache_ok (re_env env) rc" and "resolve_and_validate env u rules rc = (Inr addrs, rc')"
    and "http_scheme u" and "url_decide (re_env env) [] u rules"
  shows "vetted env rules (u, addrs)"
proof -
  from assms(2) obtain host where host: "url_host u = Some host"
    by (auto simp: resolve_and_validate_def split: option.splits)
  with assms(2) obtain as where as: "dns env host (case url_port u of None \<Rightarrow> 443 | Some p \<Rightarrow> p) = Inr as"
    by (auto simp: resolve_and_validate_def split: sum.splits)
  with assms(2) host have ne: "as \<noteq> []" by (auto simp: resolve_and_validate_def)
  with assms(2) host as have priv: "find is_private_ip as = None"
    by (auto simp: resolve_and_validate_def split: option.splits)
  with assms(2) host as ne have geo: "(if geo_enabled env then first_bad (geo_check env) as else None) = None"
    by (auto simp: resolve_and_validate_def split: option.splits)
  with assms(2) host as ne priv have ev: "evaluate_rules (re_env env) u as rules rc = (RuleAllowed, rc')" "addrs = as"
    by (auto simp: resolve_and_validate_def split: prod.splits rule_result.splits)
  have "url_decide (re_env env) as u rules" using evaluate_cases(2) [OF assms(1) ev(1)] by simp
  then show ?thesis
    unfolding vetted_def ev(2) prod.case using assms(3,4) host as ne priv geo
    by (auto simp: find_None_iff first_bad_None split: if_splits)
qed

lemma fetch_loop_vetted:
  "\<lbrakk>fetch_loop env rules left u addrs rc = (res, log, rc'); cache_ok (re_env env) rc; vetted env rules (u, addrs)\<rbrakk>
     \<Longrightarrow> (\<forall>c\<in>set log. vetted env rules c) \<and> length log \<le> Suc left \<and> cache_ok (re_env env) rc'"
proof (induction left arbitrary: u addrs rc res log rc')
  case 0
  then show ?case
    by (subst (asm) (1) fetch_loop.simps) (auto split: sum.splits if_splits)
next
  case (Suc left)
  note loop = Suc.prems(1) [unfolded fetch_loop.simps [of env rules "Suc left"]]
  show ?case
  proof (cases "\<exists>resp loc nxt. http_get env u addrs = Inr resp \<and> is_redirection (hr_status resp) \<and>
                  hr_location resp = Header loc \<and> url_join env u loc = Inr nxt \<and> http_scheme nxt")
    case False
    then show ?thesis using loop Suc.prems(2,3) by (auto split: sum.splits if_splits header.splits)
  next
    case True
    then obtain resp loc nxt where t: "http_get env u addrs = Inr resp" "is_redirection (hr_status resp)"
      "hr_location resp = Header loc" "url_join env u loc = Inr nxt" "http_scheme nxt" by blast
    obtain r rc1 where ev: "evaluate_rules (re_env env) nxt [] rules rc = (r, rc1)" by fastforce
    note c1 = evaluate_cases [OF Suc.prems(2) ev]
    show ?thesis
    proof (cases r)
      case (RuleBlocked reason)
      then show ?thesis using loop t ev c1(1) Suc.prems(3) by auto
    next
      case RuleAllowed
      obtain a rc2 where rv: "resolve_and_validate env nxt rules rc1 = (a, rc2)" by fastforce
      have c2: "cache_ok (re_env env) rc2" using resolve_cache_ok [OF c1(1), of nxt rules] rv by simp
      show ?thesis
      proof (cases a)
        case (Inl e)
        then show ?thesis using loop t ev rv RuleAllowed c2 Suc.prems(3) by auto
      next
        case (Inr addrs')
        have v: "vetted env rules (nxt, addrs')"
          using resolve_vetted [OF c1(1) _ t(5)] rv Inr c1(2) RuleAllowed by simp
        obtain res1 log1 rc3 where rec: "fetch_loop env rules left nxt addrs' rc2 = (res1, log1, rc3)"
          by (cases "fetch_loop env rules left nxt addrs' rc2") auto
        from Suc.IH [OF rec c2 v] show ?thesis
          using loop t ev rv RuleAllowed Inr rec Suc.prems(3) by auto
      qed
    qed
  qed
qed

text \<open>What the rest of a fetch leaves alone.\<close>

lemma rate_frame:
  "check_per_user_rate env user st = (ok, st') \<Longrightarrow>
     gw_rules st' = gw_rules st \<and> gw_regex st' = gw_regex st \<and> gw_log st' = gw_log st \<and> gw_cache st' = gw_cache st"
  by (auto simp: check_per_user_rate_def Let_def split: option.splits if_splits prod.splits)

lemma finish_frame:
  "finish_fetch env h final resp st = (r, st') \<Longrightarrow> gw_log st' = gw_log st \<and> gw_regex st' = gw_regex st"
  by (auto simp: finish_fetch_def Let_def split: sum.splits prod.splits if_splits)

lemma fetch_fresh_log:
  assumes "fetch_fresh env h u rules st = (r, st')" and "cache_ok (re_env env) (gw_regex st)"
    and "http_scheme u" and "url_decide (re_env env) [] u rules"
  shows "\<exists>log. gw_log st' = gw_log st @ log \<and> (\<forall>c\<in>set log. vetted env rules c) \<and>
     length log \<le> Suc (max_redirects env) \<and> cache_ok (re_env env) (gw_regex st')"
proof -
  obtain a rc where rv: "resolve_and_validate env u rules (gw_regex st) = (a, rc)" by fastforce
  have c: "cache_ok (re_env env) rc" using resolve_cache_ok [OF assms(2), of u rules] rv by simp
  show ?thesis
  proof (cases a)
    case (Inl e)
    then show ?thesis using assms(1) rv c by (auto simp: fetch_fresh_def)
  next
    case (Inr addrs)
    note v = resolve_vetted [OF assms(2) rv [unfolded Inr] assms(3,4)]
    obtain ok t l where acq: "acquire env (seconds 30) (gw_now st) (gw_global st) = (ok, t, l)"
      by (cases "acquire env (seconds 30) (gw_now st) (gw_global st)") auto
    obtain res log rc' where loop: "fetch_loop env rules (max_redirects env) u addrs rc = (res, log, rc')"
      by (cases "fetch_loop env rules (max_redirects env) u addrs rc") auto
    note lv = fetch_loop_vetted [OF loop c v]
    show ?thesis
    proof (cases ok)
      case False
      then show ?thesis using assms(1) rv Inr acq c by (auto simp: fetch_fresh_def Let_def)
    next
      case True
      have "gw_log st' = gw_log st @ log \<and> gw_regex st' = rc'"
        using assms(1) rv Inr acq loop True
        by (auto simp: fetch_fresh_def Let_def split: sum.splits dest!: finish_frame)
      with lv show ?thesis by auto
    qed
  qed
qed

lemma handle_fetch_log:
  assumes "handle_fetch env req st = (r, st')" and "cache_ok (re_env env) (gw_regex st)"
  defines "rules \<equiv> list_rules (gw_rules st) None (Option.bind (rq_project req) (gw_parse_uuid env))"
  shows "\<exists>log. gw_log st' = gw_log st @ log \<and> (\<forall>c\<in>set log. vetted env rules c) \<and>
     length log \<le> Suc (max_redirects env) \<and> cache_ok (re_env env) (gw_regex st')"
proof -
  define utext where "utext = (case rq_url req of None \<Rightarrow> [] | Some s \<Rightarrow> s)"
  obtain ok st1 where rate: "check_per_user_rate env (rq_user req) st = (ok, st1)" by fastforce
  note fr = rate_frame [OF rate]
  show ?thesis
  proof (cases "\<exists>u. utext \<noteq> [] \<and> url_parse env utext = Inr u \<and> http_scheme u \<and> url_host u \<noteq> None \<and> ok \<and> \<not> rules_fault env")
    case False
    then have "st' = st \<or> st' = st1"
      using assms(1) rate unfolding handle_fetch_def utext_def [symmetric] Let_def
      by (auto split: sum.splits if_splits)
    then show ?thesis using fr assms(2) by auto
  next
    case True
    then obtain u where u: "utext \<noteq> []" "url_parse env utext = Inr u" "http_scheme u" "url_host u \<noteq> None" "ok" "\<not> rules_fault env"
      by blast
    obtain e rc where ev: "evaluate_rules (re_env env) u [] rules (gw_regex st1) = (e, rc)" by fastforce
    note c = evaluate_cases [OF _ ev]
    have cok: "cache_ok (re_env env) (gw_regex st1)" using fr assms(2) by simp
    show ?thesis
    proof (cases e)
      case (RuleBlocked reason)
      then have "st' = st1\<lparr>gw_regex := rc\<rparr>"
        using assms(1) rate u ev fr unfolding handle_fetch_def utext_def [symmetric] Let_def rules_def by auto
      then show ?thesis using fr c(1) [OF cok] by auto
    next
      case RuleAllowed
      let ?st2 = "st1\<lparr>gw_regex := rc\<rparr>"
      have "st' = ?st2 \<or> fetch_fresh env (url_hash env (url_text u)) u rules ?st2 = (r, st')"
        using assms(1) rate u ev RuleAllowed fr unfolding handle_fetch_def utext_def [symmetric] Let_def rules_def
        by (auto split: option.splits if_splits)
      moreover have "url_decide (re_env env) [] u rules" using c(2) [OF cok] RuleAllowed by simp
      ultimately show ?thesis
        using fetch_fresh_log [of env _ u rules ?st2 r st'] u(3) c(1) [OF cok] fr by fastforce
    qed
  qed
qed

text \<open>The body that is kept is a prefix of the body sent, at most the cap, and whole unless marked.\<close>

lemma read_body_prefix:
  "\<lbrakk>read_body cap chunks acc = Inr (b, t); length acc \<le> cap\<rbrakk> \<Longrightarrow>
     length b \<le> cap \<and> (\<exists>parts rest. chunks = map Inl parts @ rest \<and>
        (\<not> t \<longrightarrow> rest = [] \<and> b = acc @ concat parts) \<and> (t \<longrightarrow> b = take cap (acc @ concat parts)))"
proof (induction cap chunks acc rule: read_body.induct)
  case (2 cap chunk rest acc)
  let ?n = "min (length chunk) (cap - length acc)"
  show ?case
  proof (cases "cap - length acc = 0")
    case True
    with 2(2,3) have "b = acc" "t" by (auto simp: Let_def)
    with True 2(3) show ?thesis by (intro conjI exI [of _ "[]"] exI [of _ "Inl chunk # rest"]) auto
  next
    case False
    show ?thesis
    proof (cases "?n < length chunk")
      case True
      with False 2(2) have b: "b = acc @ take ?n chunk" "t" by (auto simp: Let_def split: if_splits)
      with True 2(3) have "b = take cap (acc @ concat [chunk])" by simp
      with b 2(3) show ?thesis by (intro conjI exI [of _ "[chunk]"] exI [of _ rest]) auto
    next
      case whole: False
      with False 2(2) have "read_body cap rest (acc @ take ?n chunk) = Inr (b, t)" by (simp add: Let_def)
      moreover have "length (acc @ take ?n chunk) \<le> cap" using 2(3) by simp
      ultimately have ih: "length b \<le> cap \<and> (\<exists>parts rest'. rest = map Inl parts @ rest' \<and>
          (\<not> t \<longrightarrow> rest' = [] \<and> b = (acc @ take ?n chunk) @ concat parts) \<and>
          (t \<longrightarrow> b = take cap ((acc @ take ?n chunk) @ concat parts)))"
        using 2(1) [OF refl False refl refl whole] by blast
      have "take ?n chunk = chunk" using whole by simp
      with ih obtain parts rest' where "length b \<le> cap" "rest = map Inl parts @ rest'"
        "\<not> t \<longrightarrow> rest' = [] \<and> b = acc @ concat (chunk # parts)" "t \<longrightarrow> b = take cap (acc @ concat (chunk # parts))"
        by auto
      then show ?thesis by (intro conjI exI [of _ "chunk # parts"] exI [of _ rest']) auto
    qed
  qed
qed auto

end
