(* ===== verification/Search.thy ===== *)
theory Search
  imports Gateway
begin

text \<open>
  Web search (\<open>af-web-gateway/src/gateway.rs\<close>: \<open>handle_search\<close>, \<open>parse_ddg_results\<close>,
  \<open>strip_html_tags\<close>, the module \<open>urlencoding\<close>): percent encoding and decoding, and the
  scan of the result page.
\<close>

section \<open>Percent encoding\<close>

definition unreserved :: "char \<Rightarrow> bool" where
  "unreserved c \<longleftrightarrow> (let n = (of_char c :: nat) in
     65 \<le> n \<and> n \<le> 90 \<or> 97 \<le> n \<and> n \<le> 122 \<or> 48 \<le> n \<and> n \<le> 57 \<or> c \<in> {CHR ''-'', CHR ''_'', CHR ''.'', CHR ''~''})"

definition hex_upper :: "nat \<Rightarrow> char" where
  "hex_upper n = (if n < 10 then char_of (48 + n) else char_of (55 + n))"

fun url_encode :: "string \<Rightarrow> string" where
  "url_encode [] = []"
| "url_encode (c # cs) =
     (if unreserved c then c # url_encode cs
      else CHR ''%'' # hex_upper (of_char c div 16) # hex_upper (of_char c mod 16) # url_encode cs)"

definition hex_val :: "char \<Rightarrow> nat option" where
  "hex_val c = (let n = (of_char c :: nat) in
     if 48 \<le> n \<and> n \<le> 57 then Some (n - 48)
     else if 65 \<le> n \<and> n \<le> 70 then Some (n - 55)
     else if 97 \<le> n \<and> n \<le> 102 then Some (n - 87)
     else None)"

text \<open>\<open>u8::from_str_radix\<close> of a two-character text accepts a leading plus sign.\<close>

definition hex_pair :: "char \<Rightarrow> char \<Rightarrow> nat option" where
  "hex_pair a b =
     (if a = CHR ''+'' then hex_val b
      else case hex_val a of None \<Rightarrow> None
        | Some x \<Rightarrow> (case hex_val b of None \<Rightarrow> None | Some y \<Rightarrow> Some (16 * x + y)))"

fun decode_bytes :: "string \<Rightarrow> string option" where
  "decode_bytes (c # a # b # cs) =
     (if c = CHR ''%'' then
        (case hex_pair a b of None \<Rightarrow> None | Some n \<Rightarrow> map_option ((#) (char_of n)) (decode_bytes cs))
      else map_option ((#) (if c = CHR ''+'' then CHR '' '' else c)) (decode_bytes (a # b # cs)))"
| "decode_bytes (c # cs) = map_option ((#) (if c = CHR ''+'' then CHR '' '' else c)) (decode_bytes cs)"
| "decode_bytes [] = Some []"

definition url_decode :: "(string \<Rightarrow> bool) \<Rightarrow> string \<Rightarrow> string option" where
  "url_decode valid s = Option.bind (decode_bytes s) (\<lambda>t. if valid t then Some t else None)"

section \<open>The result page\<close>

fun strip_tags :: "bool \<Rightarrow> string \<Rightarrow> string" where
  "strip_tags inside [] = []"
| "strip_tags inside (c # cs) =
     (if c = CHR ''<'' then strip_tags True cs
      else if c = CHR ''>'' then strip_tags False cs
      else if inside then strip_tags inside cs
      else c # strip_tags inside cs)"

definition strip_html_tags :: "string \<Rightarrow> string" where
  "strip_html_tags = strip_tags False"

text \<open>\<open>str::split\<close> on a non-empty text.\<close>

function split_sub :: "string \<Rightarrow> string \<Rightarrow> string list" where
  "split_sub p s =
     (if p = [] then [s]
      else case find_sub p s of
        None \<Rightarrow> [s]
      | Some i \<Rightarrow> List.take i s # split_sub p (drop (i + length p) s))"
  by pat_completeness auto
termination
proof (relation "measure (\<lambda>(p, s). length s)")
  fix p s :: string and i
  assume "p \<noteq> []" "find_sub p s = Some i"
  with find_sub_Some [of p s i] have "0 < length p" "i + length p \<le> length s" by auto
  then show "((p, drop (i + length p) s), (p, s)) \<in> measure (\<lambda>(p, s). length s)" by (cases p) auto
qed simp

declare split_sub.simps [simp del]

definition after :: "string \<Rightarrow> string \<Rightarrow> string option" where
  "after p s = map_option (\<lambda>i. drop (i + length p) s) (find_sub p s)"

definition before :: "string \<Rightarrow> string \<Rightarrow> string option" where
  "before p s = map_option (\<lambda>i. List.take i s) (find_sub p s)"

definition href_attr :: string where "href_attr = ''href='' @ [CHR 0x22]"
definition result_class :: string where "result_class = ''class='' @ [CHR 0x22] @ ''result__a'' @ [CHR 0x22]"
definition snippet_class :: string where "snippet_class = ''class='' @ [CHR 0x22] @ ''result__snippet'' @ [CHR 0x22]"

definition chunk_href :: "(string \<Rightarrow> bool) \<Rightarrow> string \<Rightarrow> string option" where
  "chunk_href valid chunk =
     (case Option.bind (after href_attr chunk) (before [CHR 0x22]) of
        None \<Rightarrow> None
      | Some u \<Rightarrow>
          (case after ''uddg='' u of
             None \<Rightarrow> Some u
           | Some enc \<Rightarrow>
               (let d = (case url_decode valid enc of None \<Rightarrow> [] | Some t \<Rightarrow> t)
                in Some (hd (split_on (CHR ''&'') d)))))"

definition tag_text :: "string \<Rightarrow> string \<Rightarrow> string" where
  "tag_text closing s =
     (case Option.bind (after ''>'' s) (before closing) of
        None \<Rightarrow> []
      | Some t \<Rightarrow> trim (strip_html_tags t))"

definition chunk_snippet :: "string \<Rightarrow> string" where
  "chunk_snippet chunk =
     (case find_sub snippet_class chunk of
        None \<Rightarrow> []
      | Some i \<Rightarrow> tag_text ''</'' (drop i chunk))"

definition chunk_result :: "(string \<Rightarrow> bool) \<Rightarrow> string \<Rightarrow> json option" where
  "chunk_result valid chunk =
     (case chunk_href valid chunk of
        None \<Rightarrow> None
      | Some href \<Rightarrow>
          if contains ''duckduckgo.com'' href \<or> href = [] then None
          else Some (JObj [(''title'', JStr (tag_text ''</a>'' chunk)), (''url'', JStr href),
                           (''snippet'', JStr (chunk_snippet chunk))]))"

fun collect_results :: "(string \<Rightarrow> bool) \<Rightarrow> string list \<Rightarrow> json list \<Rightarrow> json list" where
  "collect_results valid [] acc = acc"
| "collect_results valid (c # cs) acc =
     (if 20 \<le> length acc then acc
      else case chunk_result valid c of
        None \<Rightarrow> collect_results valid cs acc
      | Some r \<Rightarrow> collect_results valid cs (acc @ [r]))"

definition parse_ddg_results :: "(string \<Rightarrow> bool) \<Rightarrow> string \<Rightarrow> json list" where
  "parse_ddg_results valid html = collect_results valid (split_sub result_class html) []"

section \<open>Handling a search\<close>

text \<open>\<open>chars().take(n)\<close> on UTF-8 bytes: a byte between 128 and 191 continues a character.\<close>

definition continues :: "char \<Rightarrow> bool" where
  "continues c \<longleftrightarrow> 128 \<le> (of_char c :: nat) \<and> (of_char c :: nat) < 192"

fun take_chars :: "nat \<Rightarrow> string \<Rightarrow> string" where
  "take_chars n [] = []"
| "take_chars n (c # cs) =
     (if continues c then c # take_chars n cs
      else (case n of 0 \<Rightarrow> [] | Suc m \<Rightarrow> c # take_chars m cs))"

fun read_search :: "nat \<Rightarrow> (string + string) list \<Rightarrow> string \<Rightarrow> string + string" where
  "read_search cap [] acc = Inr acc"
| "read_search cap (Inl chunk # rest) acc =
     (let acc' = acc @ chunk in
      if cap < length acc' then Inr (List.take cap acc') else read_search cap rest acc')"
| "read_search cap (Inr e # rest) acc = Inl e"

definition search_cap :: nat where "search_cap = 2 * 1024 * 1024"

definition handle_search ::
  "('re, 'x) gw_env_scheme \<Rightarrow> gateway_request \<Rightarrow> ('re, 'y) gw_state_scheme \<Rightarrow> gateway_response \<times> ('re, 'y) gw_state_scheme" where
  "handle_search env req st =
     (let q = (case rq_query req of None \<Rightarrow> [] | Some s \<Rightarrow> s) in
      if q = [] then (rsp_err ''invalid_input'' ''query is required'', st)
      else
     (let query = take_chars 200 q; (ok, st1) = check_per_user_rate env (rq_user req) st in
      if \<not> ok then (rsp_err ''rate_limited'' ''rate limit timeout after 5s'', st1)
      else
     (let (ok2, t, l) = acquire env (seconds 30) (gw_now st1) (gw_global st1);
          st2 = st1\<lparr>gw_global := l, gw_now := t\<rparr> in
      if \<not> ok2 then (rsp_err ''rate_limited'' ''global: rate limit timeout after 30s'', st2)
      else
     (case http_search env (''https://html.duckduckgo.com/html/?q='' @ url_encode query) of
        Inl e \<Rightarrow> (rsp_err ''search_error'' (''DuckDuckGo request failed: '' @ e), st2)
      | Inr resp \<Rightarrow>
     (case read_search search_cap (hr_chunks resp) [] of
        Inl e \<Rightarrow> (rsp_err ''search_error'' (''failed to read search response: '' @ e), st2)
      | Inr bytes \<Rightarrow>
          (let results = parse_ddg_results (utf8_ok env) (utf8_lossy env bytes) in
           (rsp_success (JObj [(''query'', JStr query), (''results'', JArr results),
               (''total'', JInt (int (length results)))]) False, st2)))))))"

definition process_request ::
  "('re, 'x) gw_env_scheme \<Rightarrow> gateway_request \<Rightarrow> ('re, 'y) gw_state_scheme \<Rightarrow> gateway_response \<times> ('re, 'y) gw_state_scheme" where
  "process_request env req st =
     (if rq_action req = ''fetch'' then handle_fetch env req st
      else if rq_action req = ''search'' then handle_search env req st
      else (rsp_err ''unknown_action'' (''unknown action: '' @ rq_action req), st))"

section \<open>Encoding and decoding\<close>

lemma of_char_lt [simp]: "(of_char c :: nat) < 256"
  by (metis of_char_mod_256 mod_less_divisor zero_less_numeral)

lemma hex_upper_val: "n < 16 \<Longrightarrow> hex_val (hex_upper n) = Some n"
  by (simp add: hex_upper_def hex_val_def Let_def)

lemma hex_upper_not_plus: "n < 16 \<Longrightarrow> hex_upper n \<noteq> CHR ''+''"
  using hex_upper_val [of n] by (auto simp: hex_val_def Let_def)

lemma hex_pair_upper: "hex_pair (hex_upper (of_char c div 16)) (hex_upper (of_char c mod 16)) = Some (of_char c)"
proof -
  have "(of_char c :: nat) div 16 < 16" using of_char_lt [of c] by (simp add: less_mult_imp_div_less)
  then show ?thesis
    by (simp add: hex_pair_def hex_upper_val hex_upper_not_plus)
qed

lemma decode_plain:
  "c \<noteq> CHR ''%'' \<Longrightarrow> decode_bytes (c # cs) = map_option ((#) (if c = CHR ''+'' then CHR '' '' else c)) (decode_bytes cs)"
  by (cases cs rule: decode_bytes.cases) auto

lemma unreserved_plain: "unreserved c \<Longrightarrow> c \<noteq> CHR ''%'' \<and> c \<noteq> CHR ''+''"
  by (auto simp: unreserved_def Let_def)

lemma decode_encode: "decode_bytes (url_encode s) = Some s"
proof (induction s)
  case (Cons c s)
  show ?case
  proof (cases "unreserved c")
    case True
    with unreserved_plain [OF True] Cons.IH show ?thesis by (simp add: decode_plain)
  next
    case False
    with Cons.IH show ?thesis by (simp add: hex_pair_upper)
  qed
qed simp

lemma strip_tags_clean: "CHR ''<'' \<notin> set (strip_tags b s) \<and> CHR ''>'' \<notin> set (strip_tags b s)"
  by (induction s arbitrary: b) auto

lemma collect_bound: "length acc \<le> 20 \<Longrightarrow> length (collect_results valid cs acc) \<le> 20"
  by (induction valid cs acc rule: collect_results.induct) (auto split: option.splits)

lemma read_search_bound: "read_search cap chunks acc = Inr b \<Longrightarrow> length acc \<le> cap \<Longrightarrow> length b \<le> cap"
  by (induction cap chunks acc rule: read_search.induct) (auto simp: Let_def split: if_splits)

end
