(* ===== verification/RecipientRules.thy ===== *)
theory RecipientRules
  imports AccessRules
begin

text \<open>
  The recipient rules of the mail tools (\<open>af-email/src/recipient_rules.rs\<close>, rows and
  query of \<open>af-db/src/email.rs\<close>).
\<close>

record email_rule =
  er_id :: uuid
  er_scope :: string
  er_project :: "uuid option"
  er_type :: string
  er_pattern_type :: string
  er_pattern :: string
  er_created :: instant

definition list_recipient_rules :: "email_rule list \<Rightarrow> string option \<Rightarrow> uuid option \<Rightarrow> email_rule list" where
  "list_recipient_rules table scope project =
     sort_key er_created
       (case project of
          Some p \<Rightarrow> filter (\<lambda>r. er_scope r = ''global'' \<or> er_project r = Some p) table
        | None \<Rightarrow> (case scope of Some s \<Rightarrow> filter (\<lambda>r. er_scope r = s) table | None \<Rightarrow> table))"

datatype recipient_result = RcptAllowed | RcptBlocked string

text \<open>\<open>split('@').nth(1)\<close>: what stands between the first and the second at sign.\<close>

definition email_domain :: "string \<Rightarrow> string option" where
  "email_domain e = (case split_on (CHR ''@'') e of (_ # d # _) \<Rightarrow> Some d | _ \<Rightarrow> None)"

definition matches_email_rule :: "string \<Rightarrow> email_rule \<Rightarrow> bool" where
  "matches_email_rule email_lower r =
     (let pat = to_lower (er_pattern r) in
      if er_pattern_type r = ''exact_email'' then email_lower = pat
      else if er_pattern_type r = ''domain'' then
        (case email_domain email_lower of Some d \<Rightarrow> d = pat | None \<Rightarrow> False)
      else if er_pattern_type r = ''domain_suffix'' then
        (case email_domain email_lower of
           Some d \<Rightarrow> d = trim_start_matches (\<lambda>c. c = CHR ''.'') pat \<or>
                     ends_with (CHR ''.'' # trim_start_matches (\<lambda>c. c = CHR ''.'') pat) d
         | None \<Rightarrow> False)
      else False)"

definition quote :: "string \<Rightarrow> string" where
  "quote s = CHR 0x27 # s @ [CHR 0x27]"

definition evaluate_recipient :: "string \<Rightarrow> email_rule list \<Rightarrow> recipient_result" where
  "evaluate_recipient email rules =
     (let e = to_lower email in
      case find (matches_email_rule e) (filter (\<lambda>r. er_type r = ''block'') rules) of
        Some r \<Rightarrow> RcptBlocked (quote email @ '' blocked by '' @ er_pattern_type r @ '' rule: '' @ er_pattern r)
      | None \<Rightarrow>
          (let allow_rules = filter (\<lambda>r. er_type r = ''allow'') rules in
           if allow_rules = [] then RcptAllowed
           else case find (matches_email_rule e) allow_rules of
                  Some _ \<Rightarrow> RcptAllowed
                | None \<Rightarrow> RcptBlocked (quote email @ '' not matched by any allow rule'')))"

fun check_each :: "string list \<Rightarrow> email_rule list \<Rightarrow> string + unit" where
  "check_each [] rules = Inr ()"
| "check_each (a # as) rules =
     (case evaluate_recipient a rules of
        RcptAllowed \<Rightarrow> check_each as rules
      | RcptBlocked reason \<Rightarrow> Inl reason)"

definition evaluate_all_recipients ::
  "string list \<Rightarrow> string list \<Rightarrow> string list \<Rightarrow> email_rule list \<Rightarrow> string + unit" where
  "evaluate_all_recipients to cc bcc rules = check_each (to @ cc @ bcc) rules"

section \<open>The contract\<close>

definition rcpt_decide :: "string \<Rightarrow> email_rule list \<Rightarrow> bool" where
  "rcpt_decide email rules \<longleftrightarrow> evaluate_recipient email rules = RcptAllowed"

definition hits_email :: "string \<Rightarrow> email_rule \<Rightarrow> bool" where
  "hits_email email r = matches_email_rule (to_lower email) r"

lemma rcpt_decide_iff:
  "rcpt_decide q rules \<longleftrightarrow>
     (\<forall>r\<in>set rules. er_type r = ''block'' \<longrightarrow> \<not> hits_email q r) \<and>
     ((\<exists>r\<in>set rules. er_type r = ''allow'') \<longrightarrow> (\<exists>r\<in>set rules. er_type r = ''allow'' \<and> hits_email q r))"
proof -
  let ?m = "matches_email_rule (to_lower q)"
  have "find ?m (filter (\<lambda>r. er_type r = ''block'') rules) = None \<longleftrightarrow> (\<forall>r\<in>set rules. er_type r = ''block'' \<longrightarrow> \<not> ?m r)"
    and "find ?m (filter (\<lambda>r. er_type r = ''allow'') rules) = None \<longleftrightarrow> (\<forall>r\<in>set rules. er_type r = ''allow'' \<longrightarrow> \<not> ?m r)"
    and "filter (\<lambda>r. er_type r = ''allow'') rules = [] \<longleftrightarrow> (\<forall>r\<in>set rules. er_type r \<noteq> ''allow'')"
    by (auto simp: find_None_iff filter_empty_conv)
  then show ?thesis
    unfolding rcpt_decide_def evaluate_recipient_def hits_email_def Let_def
    by (auto split: option.splits)
qed

interpretation rcpt: access_rules rcpt_decide "\<lambda>r. er_type r = ''block''" "\<lambda>r. er_type r = ''allow''" hits_email
  by unfold_locales (simp_all add: rcpt_decide_iff)

lemma check_each_Inr: "check_each as rules = Inr () \<longleftrightarrow> (\<forall>a\<in>set as. rcpt_decide a rules)"
  by (induction as) (auto simp: rcpt_decide_def split: recipient_result.splits)

lemma all_recipients_Inr:
  "evaluate_all_recipients to cc bcc rules = Inr () \<longleftrightarrow> (\<forall>a\<in>set to \<union> set cc \<union> set bcc. rcpt_decide a rules)"
  by (auto simp: evaluate_all_recipients_def check_each_Inr)

text \<open>The domain of a plain address, and of one in angle brackets after a display name.\<close>

lemma email_domain_plain:
  "CHR ''@'' \<notin> set l \<Longrightarrow> CHR ''@'' \<notin> set d \<Longrightarrow> email_domain (l @ CHR ''@'' # d) = Some d"
proof -
  assume l: "CHR ''@'' \<notin> set l" and d: "CHR ''@'' \<notin> set d"
  have "split_on (CHR ''@'') (l @ CHR ''@'' # d) = [l, d]"
    using l by (induction l) (auto simp: split_on_no_sep [OF d])
  then show ?thesis by (simp add: email_domain_def)
qed

end
