(* ===== verification/WebProps.thy ===== *)
theory WebProps
  imports Search RecipientRules
begin

text \<open>
  Properties of the web gateway: what is checked before a connection, the rule decision,
  rate limits, the search page and the recipient rules of the mail tools.
\<close>

section \<open>A small environment\<close>

definition sample_url :: url where
  "sample_url = \<lparr>url_text = ''http://a/'', url_host = Some ''a'', url_scheme = ''http'', url_port = Some 80\<rparr>"

definition sample_page :: http_response where
  "sample_page = \<lparr>hr_status = 200, hr_location = NoHeader, hr_content_type = None, hr_chunks = [Inl ''ok'']\<rparr>"

definition sample_hop :: http_response where
  "sample_hop = \<lparr>hr_status = 302, hr_location = Header ''http://a/'', hr_content_type = None, hr_chunks = []\<rparr>"

definition no_delay :: world where
  "no_delay = \<lparr>lag = \<lambda>_. 0, over = \<lambda>_. 0, others = \<lambda>_ s. s\<rparr>"

definition sample_env :: "ip_addr list \<Rightarrow> http_response \<Rightarrow> string gw_env" where
  "sample_env addrs page =
     \<lparr>re_compile = Some, re_match = (=), ip_parse = \<lambda>_. None,
      url_parse = \<lambda>_. Inr sample_url, url_join = \<lambda>_ _. Inr sample_url, dns = \<lambda>_ _. Inr addrs,
      country_of = \<lambda>_. None, blocked_countries = [], geo_enabled = False,
      http_get = \<lambda>_ _. Inr page, http_search = \<lambda>_. Inr page, url_hash = id, html_text = id, utf8_lossy = id,
      utf8_ok = \<lambda>_. True, gw_parse_uuid = \<lambda>_. None, gw_show_ip = \<lambda>_. [],
      rules_fault = False, cache_get_fault = False, cache_put_fault = False,
      max_redirects = 2, max_response_bytes = 5, cache_ttl = 60,
      quotient = (div), interval_of = \<lambda>_. 1000000000, per_user_rpm = 60, max_tracked_users = 10, key_order = id, delays = no_delay\<rparr>"

definition full_bucket :: limiter where
  "full_bucket = \<lparr>max_tokens = 1, refill_interval = 1000000000, tokens = 1, last_refill = 0\<rparr>"

definition empty_bucket :: limiter where
  "empty_bucket = \<lparr>max_tokens = 1, refill_interval = 1000000000, tokens = 0, last_refill = 0\<rparr>"

definition sample_state :: "web_rule list \<Rightarrow> string gw_state" where
  "sample_state rules =
     \<lparr>gw_rules = rules, gw_cache = [], gw_regex = [],
      gw_global = full_bucket,
      gw_users = [], gw_now = 0, gw_log = []\<rparr>"

definition sample_request :: gateway_request where
  "sample_request = \<lparr>rq_action = ''fetch'', rq_url = Some ''http://a/'', rq_query = None, rq_user = None, rq_project = None\<rparr>"

lemma sample_env_fields [simp]:
  "url_parse (sample_env as pg) t = Inr sample_url" "url_join (sample_env as pg) v t = Inr sample_url"
  "dns (sample_env as pg) h n = Inr as" "http_get (sample_env as pg) v ips = Inr pg"
  "geo_enabled (sample_env as pg) = False" "max_redirects (sample_env as pg) = 2"
  "rules_fault (sample_env as pg) = False" "cache_get_fault (sample_env as pg) = False" 
  "cache_put_fault (sample_env as pg) = False" "max_response_bytes (sample_env as pg) = 5"
  "gw_parse_uuid (sample_env as pg) p = None" "cache_ttl (sample_env as pg) = 60" "url_hash (sample_env as pg) t = t"
  by (simp_all add: sample_env_def)

lemma sample_url_fields [simp]:
  "url_host sample_url = Some ''a''" "http_scheme sample_url" "url_text sample_url = ''http://a/''"
  by (simp_all add: sample_url_def http_scheme_def)

lemma evaluate_nil [simp]: "evaluate_rules env u ips [] rc = (RuleAllowed, rc)"
  by (simp add: evaluate_rules_def)


lemma sample_acquire [simp]: "acquire (sample_env as pg) d 0 (full_bucket) = (True, 0, empty_bucket)"
  by (simp add: acquire_def sample_env_def gw_refill_def Let_def spend_def full_bucket_def empty_bucket_def)

lemma sample_hop_fields [simp]: "is_redirection (hr_status sample_hop)" "hr_location sample_hop = Header ''http://a/''"
  by (simp_all add: sample_hop_def is_redirection_def)


section \<open>Connections\<close>





lemma refused_addresses_parts:
  shows "is_private_ip (V4 ip) \<longleftrightarrow> (\<exists>(net, len)\<in>set private_v4_nets. ip_in_cidr (V4 ip) (V4 net) len)"
    and "is_private_ip (V4 ip) \<Longrightarrow> v6 \<in> {mapped ip, compatible ip, sixtofour ip s t u v w, teredo ip s t u v, nat64 ip}
       \<Longrightarrow> is_private_ip (V6 v6)"
  by (simp only: is_private_ip.simps private_v4_ranges)
    (simp only: is_private_ip.simps insert_iff empty_iff, elim disjE, simp_all only: embedded_private)

text \<open>
  The addresses a connection is never made to: of IPv4 exactly the members of the
  fifteen ranges the code's comments name, and with each such address all its IPv6 forms
  (mapped, compatible, 6to4, Teredo, NAT64).
\<close>

theorem refused_addresses:
  shows "(is_private_ip (V4 ip) \<longleftrightarrow> (\<exists>(net, len)\<in>set private_v4_nets. ip_in_cidr (V4 ip) (V4 net) len)) \<and>
     ((is_private_ip (V4 ip)) \<and> (v6 \<in> {mapped ip, compatible ip, sixtofour ip s t u v w, teredo ip s t u v, nat64 ip}) \<longrightarrow>
       (is_private_ip (V6 v6)))"
  using refused_addresses_parts  by blast

theorem refused_addresses_witness:
  "is_private_ip (V6 (nat64 (Ipv4 169 254 169 254))) \<and>
   (\<exists>(net, len)\<in>set private_v4_nets. ip_in_cidr (V4 (Ipv4 169 254 169 254)) (V4 net) len)"
  using refused_addresses [of "Ipv4 169 254 169 254" "nat64 (Ipv4 169 254 169 254)" 0 0 0 0 0]
  by simp

section \<open>Rules\<close>

lemma rules_decided_parts:
  assumes "cache_ok env c"
  shows "fst (evaluate_rules env u ips rules c) = RuleAllowed \<longleftrightarrow>
       (\<forall>r\<in>set rules. is_block r \<longrightarrow> \<not> hits_rule env ips u r) \<and>
       ((\<exists>r\<in>set rules. \<not> is_block r) \<longrightarrow> (\<exists>r\<in>set rules. \<not> is_block r \<and> hits_rule env ips u r))"
    and "find (\<lambda>r. is_block r \<and> hits_rule env ips u r) rules = Some r \<Longrightarrow>
       fst (evaluate_rules env u ips rules c) = RuleBlocked (wr_description r)"
    and "fst (evaluate_rules env u ips (rules @ extra) c) = RuleAllowed \<Longrightarrow> \<forall>r\<in>set extra. is_block r \<Longrightarrow>
       fst (evaluate_rules env u ips rules c) = RuleAllowed"
    and "cache_ok env (snd (evaluate_rules env u ips rules c))"
proof -
  show "fst (evaluate_rules env u ips (rules @ extra) c) = RuleAllowed \<Longrightarrow> \<forall>r\<in>set extra. is_block r \<Longrightarrow>
       fst (evaluate_rules env u ips rules c) = RuleAllowed"
    unfolding evaluate_allowed [OF assms] using url_rules.more_blocks [of extra] by blast
  show "fst (evaluate_rules env u ips rules c) = RuleAllowed \<longleftrightarrow>
       (\<forall>r\<in>set rules. is_block r \<longrightarrow> \<not> hits_rule env ips u r) \<and>
       ((\<exists>r\<in>set rules. \<not> is_block r) \<longrightarrow> (\<exists>r\<in>set rules. \<not> is_block r \<and> hits_rule env ips u r))"
    unfolding evaluate_allowed [OF assms] by (rule url_rules.decide_iff)
  have "find p (filter q xs) = find (\<lambda>x. q x \<and> p x) xs" for p q :: "web_rule \<Rightarrow> bool" and xs
    by (induction xs) auto
  then show "find (\<lambda>r. is_block r \<and> hits_rule env ips u r) rules = Some r \<Longrightarrow>
       fst (evaluate_rules env u ips rules c) = RuleBlocked (wr_description r)"
    by (simp add: evaluate_eq(1) [OF assms])
  show "cache_ok env (snd (evaluate_rules env u ips rules c))"
    by (rule evaluate_eq(2) [OF assms])
qed

text \<open>
  C36. The decision about a URL, whatever the cache of compiled patterns holds: it is
  allowed exactly when no block rule matches and, where there are allow rules, one of them
  does; a block names the description of the first block rule that matches; further block
  rules only take URLs away. The cache stays sound and within its cap.
\<close>

theorem rules_decided:
  assumes "cache_ok env c"
  shows "(fst (evaluate_rules env u ips rules c) = RuleAllowed \<longleftrightarrow>
       (\<forall>r\<in>set rules. is_block r \<longrightarrow> \<not> hits_rule env ips u r) \<and>
       ((\<exists>r\<in>set rules. \<not> is_block r) \<longrightarrow> (\<exists>r\<in>set rules. \<not> is_block r \<and> hits_rule env ips u r))) \<and>
     ((find (\<lambda>r. is_block r \<and> hits_rule env ips u r) rules = Some r) \<longrightarrow>
       (fst (evaluate_rules env u ips rules c) = RuleBlocked (wr_description r))) \<and>
     ((fst (evaluate_rules env u ips (rules @ extra) c) = RuleAllowed) \<and> (\<forall>r\<in>set extra. is_block r) \<longrightarrow>
       (fst (evaluate_rules env u ips rules c) = RuleAllowed)) \<and>
     (cache_ok env (snd (evaluate_rules env u ips rules c)))"
  using rules_decided_parts [OF assms] by blast

definition sample_rule :: "string \<Rightarrow> string \<Rightarrow> string \<Rightarrow> web_rule" where
  "sample_rule kind pattern_kind pattern =
     \<lparr>wr_id = 1, wr_scope = ''global'', wr_project = None, wr_type = kind, wr_pattern_type = pattern_kind,
      wr_pattern = pattern, wr_description = Some ''d'', wr_created = 0\<rparr>"

definition sample_regex :: "string url_env" where
  "sample_regex = \<lparr>re_compile = Some, re_match = (=), ip_parse = \<lambda>_. Some (V4 (Ipv4 1 1 1 1))\<rparr>"

theorem rules_decided_witness:
  "fst (evaluate_rules sample_regex sample_url [] [sample_rule ''allow'' ''url_regex'' ''http://a/''] [(''http://a/'', ''http://a/'')]) = RuleAllowed \<and>
   fst (evaluate_rules sample_regex sample_url [] [sample_rule ''block'' ''url_prefix'' ''http''] []) = RuleBlocked (Some ''d'') \<and>
   fst (evaluate_rules sample_regex sample_url [] [] []) = RuleAllowed"
proof -
  have ok: "cache_ok sample_regex [(''http://a/'', ''http://a/'')]"
    by (simp add: cache_ok_def sample_regex_def regex_cap_def)
  have hit: "hits_rule sample_regex [] sample_url (sample_rule ''allow'' ''url_regex'' ''http://a/'')"
    "hits_rule sample_regex [] sample_url (sample_rule ''block'' ''url_prefix'' ''http'')"
    by code_simp+
  have with_block: "fst (evaluate_rules sample_regex sample_url [] ([] @ [sample_rule ''block'' ''domain'' ''b'']) []) = RuleAllowed"
    by code_simp
  show ?thesis
    using rules_decided [where u = sample_url and ips = "[]" and rules = "[sample_rule ''allow'' ''url_regex'' ''http://a/'']", OF ok] hit
      rules_decided [where u = sample_url and ips = "[]" and rules = "[sample_rule ''block'' ''url_prefix'' ''http'']"
        and env = sample_regex, OF cache_ok_empty]
      rules_decided [where u = sample_url and ips = "[]" and rules = "[]" and extra = "[sample_rule ''block'' ''domain'' ''b'']"
        and env = sample_regex, OF cache_ok_empty] with_block
    by (simp add: is_block_def sample_rule_def)
qed

lemma cidr_hits_nothing: "wr_pattern_type r = ''ip_cidr'' \<Longrightarrow> \<not> hits_rule env [] u r"
  by (simp add: hits_rule_def matches_rule_def split: option.splits)

text \<open>
  An allowlist of address ranges blocks everything: where every allow rule that
  applies is of type \<open>ip_cidr\<close> and there is one, each fetch is refused before its host is
  even resolved, since the first evaluation knows no addresses.
\<close>

theorem address_allowlist_blocks:
  assumes "handle_fetch env req st = (r, st')" and "cache_ok (re_env env) (gw_regex st)"
    and "rules = list_rules (gw_rules st) None (Option.bind (rq_project req) (gw_parse_uuid env))"
    and "\<exists>r\<in>set rules. \<not> is_block r" and "\<forall>r\<in>set rules. \<not> is_block r \<longrightarrow> wr_pattern_type r = ''ip_cidr''"
  shows "\<not> rsp_ok r \<and> gw_log st' = gw_log st"
proof -
  define utext where "utext = (case rq_url req of None \<Rightarrow> [] | Some s \<Rightarrow> s)"
  obtain ok st1 where rate: "check_per_user_rate env (rq_user req) st = (ok, st1)" by fastforce
  note fr = rate_frame [OF rate]
  have no: "fst (evaluate_rules (re_env env) u [] rules (gw_regex st)) \<noteq> RuleAllowed" for u
    unfolding evaluate_allowed [OF assms(2)] using url_rules.allowlist cidr_hits_nothing assms(4,5) by metis
  show ?thesis
  proof (cases "\<exists>u. utext \<noteq> [] \<and> url_parse env utext = Inr u \<and> http_scheme u \<and> url_host u \<noteq> None \<and> ok \<and> \<not> rules_fault env")
    case False
    then show ?thesis
      using assms(1) rate fr unfolding handle_fetch_def utext_def [symmetric] Let_def
      by (auto simp: rsp_err_def split: sum.splits if_splits)
  next
    case True
    then obtain u where u: "utext \<noteq> []" "url_parse env utext = Inr u" "http_scheme u" "url_host u \<noteq> None" "ok" "\<not> rules_fault env"
      by blast
    obtain e rc where ev: "evaluate_rules (re_env env) u [] rules (gw_regex st1) = (e, rc)" by fastforce
    with no [of u] fr obtain reason where "e = RuleBlocked reason" by (cases e) auto
    then show ?thesis
      using assms(1) rate u ev fr unfolding handle_fetch_def utext_def [symmetric] Let_def assms(3)
      by (auto simp: rsp_err_def)
  qed
qed

theorem address_allowlist_blocks_witness:
  "\<not> rsp_ok (fst (handle_fetch (sample_env [V4 (Ipv4 1 1 1 1)] sample_page) sample_request
       (sample_state [sample_rule ''allow'' ''ip_cidr'' ''1.0.0.0/8''])))"
proof -
  let ?rules = "[sample_rule ''allow'' ''ip_cidr'' ''1.0.0.0/8'']"
  obtain r st' where run: "handle_fetch (sample_env [V4 (Ipv4 1 1 1 1)] sample_page) sample_request (sample_state ?rules) = (r, st')"
    by fastforce
  have "list_rules ?rules None None = ?rules" by (simp add: list_rules_def)
  with address_allowlist_blocks [OF run, where rules = ?rules] run show ?thesis
    by (simp add: sample_state_def sample_request_def is_block_def sample_rule_def)
qed

text \<open>
  A cached page is served without any check of addresses: once the rules let the URL
  pass, an unexpired entry for its text is the answer, whatever its host resolves to now
  and whoever had it fetched; no connection is opened and no shared token is spent.
\<close>

theorem cache_skips_address_checks:
  assumes "rq_url req = Some t" "t \<noteq> []" and "url_parse env t = Inr u" "http_scheme u" "url_host u \<noteq> None"
    and "rq_user req = None" and "\<not> rules_fault env" and "\<not> cache_get_fault env" and "cache_ok (re_env env) (gw_regex st)"
    and "url_decide (re_env env) [] u (list_rules (gw_rules st) None (Option.bind (rq_project req) (gw_parse_uuid env)))"
    and "cache_get (gw_cache st) (gw_now st) (url_hash env (url_text u)) = Some c" and "200 \<le> cr_status c" "cr_status c < 400"
  shows "\<exists>rc. handle_fetch env req st =
     (rsp_success (page_json (cr_url c) (cr_status c) (cr_type c) (opt_str (cr_body c))
        (case cr_body c of None \<Rightarrow> 0 | Some b \<Rightarrow> length b) False) True, st\<lparr>gw_regex := rc\<rparr>)"
proof -
  let ?rules = "list_rules (gw_rules st) None (Option.bind (rq_project req) (gw_parse_uuid env))"
  obtain e rc where ev: "evaluate_rules (re_env env) u [] ?rules (gw_regex st) = (e, rc)" by fastforce
  with evaluate_cases(2) [OF assms(9)] assms(10) have "e = RuleAllowed" by blast
  with ev assms show ?thesis
    by (intro exI [of _ rc]) (clarsimp simp: handle_fetch_def check_per_user_rate_def)
qed

definition cached_row :: cache_row where
  "cached_row = \<lparr>cr_hash = ''http://a/'', cr_url = ''http://a/'', cr_status = 200, cr_type = None, cr_body = Some ''old'', cr_expires = 9\<rparr>"

theorem cache_skips_address_checks_witness:
  "is_private_ip (V4 (Ipv4 127 0 0 1)) \<and>
   rsp_cached (fst (handle_fetch (sample_env [V4 (Ipv4 127 0 0 1)] sample_page) sample_request
     ((sample_state [])\<lparr>gw_cache := [cached_row]\<rparr>))) = Some True"
proof -
  have "list_rules [] None None = []" by (simp add: list_rules_def)
  with cache_skips_address_checks [of sample_request "''http://a/''" "sample_env [V4 (Ipv4 127 0 0 1)] sample_page" sample_url
      "(sample_state [])\<lparr>gw_cache := [cached_row]\<rparr>" cached_row]
  show ?thesis
    by (auto simp: sample_request_def sample_state_def cached_row_def cache_get_def url_rules.empty_allows rsp_success_def)
qed

section \<open>Sizes\<close>

lemma chunk_result_ok:
  "chunk_result valid chunk = Some r \<Longrightarrow> \<exists>t h s. r = JObj [(''title'', JStr t), (''url'', JStr h), (''snippet'', JStr s)] \<and>
     h \<noteq> [] \<and> \<not> contains ''duckduckgo.com'' h"
  by (auto simp: chunk_result_def split: option.splits if_splits)

lemma collected:
  "r \<in> set (collect_results valid cs acc) \<Longrightarrow> r \<in> set acc \<or> (\<exists>c. chunk_result valid c = Some r)"
  by (induction valid cs acc rule: collect_results.induct) (auto split: if_splits option.splits)

lemma body_and_results_bounded_parts:
  shows "read_body cap chunks [] = Inr (b, t) \<Longrightarrow>
       length b \<le> cap \<and> (\<exists>parts rest. chunks = map Inl parts @ rest \<and>
         (\<not> t \<longrightarrow> rest = [] \<and> b = concat parts) \<and> (t \<longrightarrow> b = take cap (concat parts)))"
    and "length (parse_ddg_results valid html) \<le> 20"
    and "r \<in> set (parse_ddg_results valid html) \<Longrightarrow>
       \<exists>t h s. r = JObj [(''title'', JStr t), (''url'', JStr h), (''snippet'', JStr s)] \<and> h \<noteq> [] \<and> \<not> contains ''duckduckgo.com'' h"
proof -
  show "read_body cap chunks [] = Inr (b, t) \<Longrightarrow>
       length b \<le> cap \<and> (\<exists>parts rest. chunks = map Inl parts @ rest \<and>
         (\<not> t \<longrightarrow> rest = [] \<and> b = concat parts) \<and> (t \<longrightarrow> b = take cap (concat parts)))"
    by (drule read_body_prefix) (simp_all only: append_Nil list.size le0)
  show "length (parse_ddg_results valid html) \<le> 20"
    by (simp add: parse_ddg_results_def collect_bound)
  show "r \<in> set (parse_ddg_results valid html) \<Longrightarrow>
       \<exists>t h s. r = JObj [(''title'', JStr t), (''url'', JStr h), (''snippet'', JStr s)] \<and> h \<noteq> [] \<and> \<not> contains ''duckduckgo.com'' h"
    unfolding parse_ddg_results_def by (drule collected) (use chunk_result_ok in \<open>simp, blast\<close>)
qed

text \<open>
  What is kept of a body: at most the cap, whole when it is not marked truncated, else
  the first \<open>cap\<close> bytes of what was sent; and a search page gives at most twenty results,
  each with an address that is not empty and not of the search engine.
\<close>

theorem body_and_results_bounded:
  shows "((read_body cap chunks [] = Inr (b, t)) \<longrightarrow>
       (length b \<le> cap \<and> (\<exists>parts rest. chunks = map Inl parts @ rest \<and>
         (\<not> t \<longrightarrow> rest = [] \<and> b = concat parts) \<and> (t \<longrightarrow> b = take cap (concat parts))))) \<and>
     (length (parse_ddg_results valid html) \<le> 20) \<and>
     ((r \<in> set (parse_ddg_results valid html)) \<longrightarrow>
       (\<exists>t h s. r = JObj [(''title'', JStr t), (''url'', JStr h), (''snippet'', JStr s)] \<and> h \<noteq> [] \<and> \<not> contains ''duckduckgo.com'' h))"
  using body_and_results_bounded_parts  by blast

theorem body_and_results_bounded_witness:
  "(\<exists>parts rest. [Inl ''abc'', Inl ''def''] = (map Inl parts @ rest :: (string + string) list) \<and> ''abcd'' = take 4 (concat parts))"
proof -
  have cut: "read_body 4 [Inl ''abc'', Inl ''def''] [] = Inr (''abcd'', True)" by (simp add: Let_def)
  show ?thesis
    using conjunct2 [OF mp [OF conjunct1 [OF body_and_results_bounded] cut]] by simp
qed

section \<open>Rate limits\<close>

text \<open>
  A limiter that serves \<open>rpm\<close> requests a minute hands out, in any stretch of a
  run of attempts since it was created, no more tokens than its capacity, one for each
  interval the stretch spans, and three.
\<close>

theorem limiter_window:
  assumes "quot_close quot" and "0 < ivl (max rpm 1)"
    and "attempts (\<lambda>now s. Some (gw_refill quot now s)) spend level pre (gw_new ivl rpm born) = Some (g0, s)"
    and "attempts (\<lambda>now s. Some (gw_refill quot now s)) spend level (a # ts) s = Some (g, s')"
    and "sorted (born # pre @ a # ts)" and "\<forall>t\<in>set (a # ts). t \<le> b"
    and "a - born < u32_max * ivl (max rpm 1)"
  shows "g \<le> unat (max rpm 1) + (b - a) div ivl (max rpm 1) + 3"
proof -
  let ?n = "gw_new ivl rpm born" and ?i = "ivl (max rpm 1)"
  have same: "refill_interval s = ?i" "capacity s = unat (max rpm 1)"
    using gw.attempts_frame [OF assms(3)] by (simp_all add: gw_new_fields)
  have full: "level s \<le> capacity s" using gw.attempts_bounded [OF assms(3)] by (simp add: gw_new_fields)
  have "last_refill s \<le> a + refill_interval ?n"
  proof (rule gw_attempts_stamp [OF assms(1) _ assms(3)])
    show "\<forall>t\<in>set pre. last_refill ?n \<le> t + refill_interval ?n"
      using assms(5) by (simp add: gw_new_fields trans_le_add1)
  qed (use assms(2,5) in \<open>simp_all add: gw_new_fields sorted_append trans_le_add1\<close>)
  moreover have "born \<le> last_refill s" using gw_stamp_grows [OF assms(3)] by (simp add: gw_new_fields)
  ultimately show ?thesis
    using gw_window [OF assms(1) _ full assms(4), of b] assms(2,5,6,7) same
    by (auto simp: gw_new_fields sorted_append)
qed

lemma exact_close: "quot_close (div)"
  by (simp add: quot_close_def)

theorem limiter_window_witness:
  "\<exists>g s'. attempts (\<lambda>now s. Some (gw_refill (div) now s)) spend level [5, 6] (gw_new (\<lambda>_. 10) 1 0) = Some (g, s') \<and>
     g \<le> unat (max (1 :: u32) 1) + (6 - 5) div 10 + 3"
proof -
  have "\<exists>r. attempts (\<lambda>now s. Some (gw_refill (div) now s)) spend level ts s = Some r" for ts s
  proof (induction ts arbitrary: s)
    case (Cons t ts)
    obtain ok s1 where "attempt (\<lambda>now s. Some (gw_refill (div) now s)) spend level t s = Some (ok, s1)"
      by (cases "0 < level (gw_refill (div) t s)") (auto simp: attempt_def)
    with Cons.IH [of s1] show ?case by auto
  qed simp
  then obtain g s' where run: "attempts (\<lambda>now s. Some (gw_refill (div) now s)) spend level [5, 6] (gw_new (\<lambda>_. 10) 1 0) = Some (g, s')"
    by fast
  moreover have "attempts (\<lambda>now s. Some (gw_refill (div) now s)) spend level [] (gw_new (\<lambda>_. 10) 1 0) = Some (0, gw_new (\<lambda>_. 10) 1 0)"
    by simp
  ultimately show ?thesis
    using limiter_window [where pre = "[]" and b = 6 and born = 0 and ivl = "\<lambda>_. 10" and rpm = 1, OF exact_close _ _ run] by (auto simp: u32_max_def)
qed

text \<open>
  Waiting for a token always ends: with the number of rounds the timeout allows the
  loop has an answer, whatever the scheduler's delays and the other waiters do to the
  bucket, and a refusal comes only after the timeout.
\<close>

theorem acquire_ends:
  assumes "0 < refill_interval l" and "\<And>n s. refill_interval (others (delays env) n s) = refill_interval s"
  shows "\<exists>ok t l'. gw_acquire (Suc (Suc (timeout div refill_interval l))) (quotient env) (delays env) 0 (now + timeout) now l = Some (ok, t, l') \<and>
     acquire env timeout now l = (ok, t, l') \<and> (\<not> ok \<longrightarrow> now + timeout \<le> t)"
proof -
  have "timeout < Suc (timeout div refill_interval l) * refill_interval l"
    using assms(1) by (metis dividend_less_div_times mult.commute mult_Suc)
  then have "now + timeout \<le> now + Suc (timeout div refill_interval l) * refill_interval l" by simp
  from gw_acquire_ends [where quot = "quotient env" and w = "delays env", OF assms(2,1) this, of 0]
  show ?thesis by (auto simp: acquire_def)
qed

theorem acquire_ends_witness:
  "\<exists>ok t l. acquire (sample_env [] sample_page) 25 0 empty_bucket = (ok, t, l) \<and> (ok \<or> 25 \<le> t)"
  using acquire_ends [of empty_bucket "sample_env [] sample_page" 25 0]
  by (auto simp: sample_env_def no_delay_def empty_bucket_def)

section \<open>Percent encoding\<close>

lemma hex_upper_unreserved: "n < 16 \<Longrightarrow> unreserved (hex_upper n)"
  by (auto simp: hex_upper_def unreserved_def Let_def)

lemma encoding_round_trip_parts:
  shows "url_decode valid (url_encode s) = (if valid s then Some s else None)"
    and "set (url_encode s) \<subseteq> {c. unreserved c} \<union> {CHR ''%''}"
proof -
  show "url_decode valid (url_encode s) = (if valid s then Some s else None)"
    by (simp add: url_decode_def decode_encode)
  have "(of_char c :: nat) div 16 < 16" for c
    using of_char_lt [of c] by (simp add: less_mult_imp_div_less)
  then show "set (url_encode s) \<subseteq> {c. unreserved c} \<union> {CHR ''%''}"
    by (induction s) (auto simp: hex_upper_unreserved)
qed

text \<open>
  C40. An encoded query contains nothing but unreserved characters and escapes, and
  decoding gives it back.
\<close>

theorem encoding_round_trip:
  shows "(url_decode valid (url_encode s) = (if valid s then Some s else None)) \<and>
     (set (url_encode s) \<subseteq> {c. unreserved c} \<union> {CHR ''%''})"
  using encoding_round_trip_parts  by blast

section \<open>Recipients\<close>

lemma lower_at: "lower c = CHR ''@'' \<longleftrightarrow> c = CHR ''@''"
proof (cases "65 \<le> (of_char c :: nat) \<and> (of_char c :: nat) \<le> 90")
  case True
  then have "(of_char (lower c) :: nat) = of_char c + 32" by (simp add: lower_def)
  with True show ?thesis by auto
next
  case False
  then have "lower c = c" unfolding lower_def Let_def by (rule if_not_P)
  then show ?thesis by simp
qed

lemma at_in_lower: "CHR ''@'' \<in> set (to_lower s) \<longleftrightarrow> CHR ''@'' \<in> set s"
proof -
  have "CHR ''@'' = lower c \<longleftrightarrow> CHR ''@'' = c" for c
    using lower_at [of c] by (simp only: eq_commute [of "CHR ''@''"])
  then show ?thesis by (simp only: to_lower_def set_map image_iff) blast
qed

lemma recipients_decided_parts:
  shows "evaluate_all_recipients to cc bcc rules = Inr () \<longleftrightarrow>
       (\<forall>a\<in>set to \<union> set cc \<union> set bcc.
          (\<forall>r\<in>set rules. er_type r = ''block'' \<longrightarrow> \<not> hits_email a r) \<and>
          ((\<exists>r\<in>set rules. er_type r = ''allow'') \<longrightarrow> (\<exists>r\<in>set rules. er_type r = ''allow'' \<and> hits_email a r)))"
    and "\<lbrakk>CHR ''@'' \<notin> set l; CHR ''@'' \<notin> set d; er_pattern_type r = ''domain''\<rbrakk> \<Longrightarrow>
       hits_email (l @ CHR ''@'' # d) r \<longleftrightarrow> to_lower d = to_lower (er_pattern r)"
proof -
  show "evaluate_all_recipients to cc bcc rules = Inr () \<longleftrightarrow>
       (\<forall>a\<in>set to \<union> set cc \<union> set bcc.
          (\<forall>r\<in>set rules. er_type r = ''block'' \<longrightarrow> \<not> hits_email a r) \<and>
          ((\<exists>r\<in>set rules. er_type r = ''allow'') \<longrightarrow> (\<exists>r\<in>set rules. er_type r = ''allow'' \<and> hits_email a r)))"
    unfolding all_recipients_Inr rcpt.decide_iff ..
  assume l: "CHR ''@'' \<notin> set l" and d: "CHR ''@'' \<notin> set d" and k: "er_pattern_type r = ''domain''"
  have "CHR ''@'' \<notin> set (to_lower l)" "CHR ''@'' \<notin> set (to_lower d)"
    using l d by (simp_all only: at_in_lower not_False_eq_True)
  moreover have "to_lower (l @ CHR ''@'' # d) = to_lower l @ CHR ''@'' # to_lower d"
    by (simp add: to_lower_def lower_at [THEN iffD2])
  ultimately show "hits_email (l @ CHR ''@'' # d) r \<longleftrightarrow> to_lower d = to_lower (er_pattern r)"
    using k by (simp add: hits_email_def matches_email_rule_def email_domain_plain)
qed

text \<open>
  Mail goes out only when every recipient, of whichever header, passes the rules; a
  domain rule decides an address with one at sign by what follows the sign, whole, so a
  block on a domain does not see an address written in angle brackets.
\<close>

theorem recipients_decided:
  shows "(evaluate_all_recipients to cc bcc rules = Inr () \<longleftrightarrow>
       (\<forall>a\<in>set to \<union> set cc \<union> set bcc.
          (\<forall>r\<in>set rules. er_type r = ''block'' \<longrightarrow> \<not> hits_email a r) \<and>
          ((\<exists>r\<in>set rules. er_type r = ''allow'') \<longrightarrow> (\<exists>r\<in>set rules. er_type r = ''allow'' \<and> hits_email a r)))) \<and>
     ((CHR ''@'' \<notin> set l) \<and> (CHR ''@'' \<notin> set d) \<and> (er_pattern_type r = ''domain'') \<longrightarrow>
       (hits_email (l @ CHR ''@'' # d) r \<longleftrightarrow> to_lower d = to_lower (er_pattern r)))"
  using recipients_decided_parts  by blast

definition domain_block :: email_rule where
  "domain_block = \<lparr>er_id = 1, er_scope = ''global'', er_project = None, er_type = ''block'', er_pattern_type = ''domain'',
     er_pattern = ''e.com'', er_created = 0\<rparr>"

theorem recipients_decided_witness:
  "hits_email ''u@E.com'' domain_block \<and> evaluate_all_recipients [''N <u@e.com>''] [] [] [domain_block] = Inr ()"
proof -
  have kind: "er_pattern_type domain_block = ''domain''" "er_type domain_block = ''block''" by (simp_all add: domain_block_def)
  have "to_lower ''E.com'' = to_lower (er_pattern domain_block)" by code_simp
  then have hit: "hits_email (''u'' @ CHR ''@'' # ''E.com'') domain_block"
    by (subst mp [OF conjunct2 [OF recipients_decided]]) (simp_all add: kind)
  have "to_lower ''e.com>'' \<noteq> to_lower (er_pattern domain_block)" by code_simp
  then have "\<not> hits_email (''N <u'' @ CHR ''@'' # ''e.com>'') domain_block"
    by (subst mp [OF conjunct2 [OF recipients_decided]]) (simp_all add: kind)
  then have "evaluate_all_recipients [''N <u@e.com>''] [] [] [domain_block] = Inr ()"
    unfolding conjunct1 [OF recipients_decided] by (simp add: kind)
  with hit show ?thesis by simp
qed

end
