(* ===== verification/MailQueue.thy ===== *)
theory MailQueue
  imports RecipientRules Json
begin

text \<open>
  Scheduled mail: the statements on \<open>email_scheduled\<close> (\<open>af-db/src/email.rs\<close>) and the tick
  that sends what is due (\<open>af-email/src/scheduler.rs\<close>). Credentials, the providers' answers
  and the failures of statements are parameters. Several ticks may run at once; their
  statements interleave as the steps of \<open>mail_step\<close>.
\<close>

datatype mail_status = Scheduled | Sending | Sent | MailFailed | Cancelled

record sched_mail =
  sm_id :: uuid
  sm_project :: uuid
  sm_user :: "uuid option"
  sm_provider :: string
  sm_status :: mail_status
  sm_from :: string
  sm_to :: json
  sm_cc :: "json option"
  sm_bcc :: "json option"
  sm_subject :: string
  sm_body :: "string option"
  sm_html :: "string option"
  sm_reply_to :: "string option"
  sm_tone :: "string option"
  sm_at :: instant
  sm_error :: "string option"
  sm_attempts :: nat
  sm_max_attempts :: nat
  sm_thread :: "uuid option"
  sm_run :: "uuid option"
  sm_sent_at :: "instant option"

type_synonym mail_table = "sched_mail list"

section \<open>Statements\<close>

definition update_mail :: "uuid \<Rightarrow> (sched_mail \<Rightarrow> sched_mail) \<Rightarrow> mail_table \<Rightarrow> mail_table" where
  "update_mail i f = map (\<lambda>r. if sm_id r = i then f r else r)"

definition create_scheduled ::
  "uuid \<Rightarrow> uuid \<Rightarrow> uuid option \<Rightarrow> string \<Rightarrow> string \<Rightarrow> json \<Rightarrow> json \<Rightarrow> json \<Rightarrow> string \<Rightarrow> string option \<Rightarrow>
     string option \<Rightarrow> string option \<Rightarrow> string option \<Rightarrow> instant \<Rightarrow> uuid option \<Rightarrow> uuid option \<Rightarrow> mail_table \<Rightarrow> mail_table" where
  "create_scheduled i p u prov from_addr to cc bcc subj body html reply tone due th run t =
     t @ [\<lparr>sm_id = i, sm_project = p, sm_user = u, sm_provider = prov, sm_status = Scheduled, sm_from = from_addr,
           sm_to = to, sm_cc = Some cc, sm_bcc = Some bcc, sm_subject = subj, sm_body = body, sm_html = html,
           sm_reply_to = reply, sm_tone = tone, sm_at = due, sm_error = None, sm_attempts = 0, sm_max_attempts = 3,
           sm_thread = th, sm_run = run, sm_sent_at = None\<rparr>]"

definition list_due_scheduled :: "instant \<Rightarrow> nat \<Rightarrow> mail_table \<Rightarrow> sched_mail list" where
  "list_due_scheduled now limit t =
     take limit (sort_key sm_at (filter (\<lambda>r. sm_status r = Scheduled \<and> sm_at r \<le> now) t))"

definition claim_scheduled :: "uuid \<Rightarrow> mail_table \<Rightarrow> bool \<times> mail_table" where
  "claim_scheduled i t =
     (\<exists>r\<in>set t. sm_id r = i \<and> sm_status r = Scheduled,
      update_mail i (\<lambda>r. if sm_status r = Scheduled then r\<lparr>sm_status := Sending\<rparr> else r) t)"

definition complete_scheduled :: "uuid \<Rightarrow> instant \<Rightarrow> mail_table \<Rightarrow> mail_table" where
  "complete_scheduled i now =
     update_mail i (\<lambda>r. r\<lparr>sm_status := Sent, sm_sent_at := Some now, sm_error := None\<rparr>)"

definition fail_scheduled :: "uuid \<Rightarrow> string \<Rightarrow> mail_table \<Rightarrow> mail_table" where
  "fail_scheduled i err =
     update_mail i (\<lambda>r. r\<lparr>sm_attempts := sm_attempts r + 1, sm_error := Some err,
       sm_status := (if sm_max_attempts r \<le> sm_attempts r + 1 then MailFailed else Scheduled)\<rparr>)"

definition cancel_scheduled :: "uuid \<Rightarrow> mail_table \<Rightarrow> bool \<times> mail_table" where
  "cancel_scheduled i t =
     (\<exists>r\<in>set t. sm_id r = i \<and> sm_status r = Scheduled,
      update_mail i (\<lambda>r. if sm_status r = Scheduled then r\<lparr>sm_status := Cancelled\<rparr> else r) t)"

definition list_scheduled :: "uuid option \<Rightarrow> mail_status option \<Rightarrow> mail_table \<Rightarrow> sched_mail list" where
  "list_scheduled p st t =
     rev (sort_key sm_at (filter (\<lambda>r. (p = None \<or> p = Some (sm_project r)) \<and> (st = None \<or> st = Some (sm_status r))) t))"

section \<open>The tick\<close>

record mail_message =
  mm_from :: string
  mm_to :: "string list"
  mm_cc :: "string list"
  mm_bcc :: "string list"
  mm_subject :: string
  mm_body :: string
  mm_html :: "string option"
  mm_in_reply_to :: "string option"
  mm_references :: "string option"
  mm_thread :: "string option"

datatype mail_stmt = ClaimMail uuid | LoadCred uuid | LoadRules uuid | CompleteMail uuid | FailMail uuid

record mail_env =
  credential :: "uuid \<Rightarrow> string \<Rightarrow> bool"            \<comment> \<open>has the user credentials for the provider\<close>
  provider_send :: "sched_mail \<Rightarrow> mail_message \<Rightarrow> string + string"   \<comment> \<open>given the row's provider and user\<close>
  mail_rules :: "email_rule list"
  mail_fault :: "mail_stmt \<Rightarrow> string option"
  mail_now :: instant

record mail_state =
  mails :: mail_table
  outbox :: "(uuid \<times> mail_message) list"            \<comment> \<open>what a provider accepted\<close>
  mail_log :: "(uuid \<times> bool) list"                  \<comment> \<open>\<open>scheduled_send\<close> or \<open>scheduled_fail\<close>\<close>

text \<open>The strings of a JSON array.\<close>

definition json_strings :: "json \<Rightarrow> string list" where
  "json_strings v = (case as_array v of None \<Rightarrow> [] | Some xs \<Rightarrow> List.map_filter as_str xs)"

definition opt_strings :: "json option \<Rightarrow> string list" where
  "opt_strings v = (case v of None \<Rightarrow> [] | Some x \<Rightarrow> json_strings x)"

definition message_of :: "sched_mail \<Rightarrow> mail_message" where
  "message_of r = \<lparr>mm_from = sm_from r, mm_to = json_strings (sm_to r), mm_cc = opt_strings (sm_cc r),
     mm_bcc = opt_strings (sm_bcc r), mm_subject = sm_subject r,
     mm_body = (case sm_body r of None \<Rightarrow> [] | Some b \<Rightarrow> b), mm_html = sm_html r, mm_in_reply_to = None,
     mm_references = None, mm_thread = None\<rparr>"

text \<open>Marking a mail failed and logging it; a statement that fails leaves the table.\<close>

definition mark_failed :: "mail_env \<Rightarrow> uuid \<Rightarrow> string \<Rightarrow> mail_state \<Rightarrow> mail_state" where
  "mark_failed env i err st =
     st\<lparr>mails := (if mail_fault env (FailMail i) = None then fail_scheduled i err (mails st) else mails st),
        mail_log := mail_log st @ [(i, False)]\<rparr>"

definition mark_sent :: "mail_env \<Rightarrow> uuid \<Rightarrow> mail_state \<Rightarrow> mail_state" where
  "mark_sent env i st =
     st\<lparr>mails := (if mail_fault env (CompleteMail i) = None then complete_scheduled i (mail_now env) (mails st) else mails st),
        mail_log := mail_log st @ [(i, True)]\<rparr>"

definition rules_for :: "mail_env \<Rightarrow> uuid \<Rightarrow> email_rule list" where
  "rules_for env p = list_recipient_rules (mail_rules env) None (Some p)"

text \<open>What happens to a claimed mail: an error, or the message that goes to the provider.\<close>

definition prepare_mail :: "mail_env \<Rightarrow> sched_mail \<Rightarrow> string + mail_message" where
  "prepare_mail env r =
     (case sm_user r of
        None \<Rightarrow> Inl ''no credentials found for scheduled email''
      | Some u \<Rightarrow>
     (case mail_fault env (LoadCred (sm_id r)) of
        Some e \<Rightarrow> Inl (''failed to load credentials: '' @ e)
      | None \<Rightarrow>
        if \<not> credential env u (sm_provider r) then Inl ''no credentials found for scheduled email''
        else if sm_provider r \<noteq> ''gmail'' \<and> sm_provider r \<noteq> ''protonmail''
        then Inl (''unknown provider '' @ quote (sm_provider r))
        else
     (case mail_fault env (LoadRules (sm_id r)) of
        Some e \<Rightarrow> Inl (''failed to load recipient rules: '' @ e)
      | None \<Rightarrow>
          (let m = message_of r in
           case evaluate_all_recipients (mm_to m) (mm_cc m) (mm_bcc m) (rules_for env (sm_project r)) of
             Inl reason \<Rightarrow> Inl (''recipient blocked at send time: '' @ reason)
           | Inr _ \<Rightarrow> Inr m))))"

definition process_claimed :: "mail_env \<Rightarrow> sched_mail \<Rightarrow> mail_state \<Rightarrow> nat \<times> mail_state" where
  "process_claimed env r st =
     (case prepare_mail env r of
        Inl err \<Rightarrow> (0, mark_failed env (sm_id r) err st)
      | Inr m \<Rightarrow>
          (case provider_send env r m of
             Inr mid \<Rightarrow> (1, mark_sent env (sm_id r) (st\<lparr>outbox := outbox st @ [(sm_id r, m)]\<rparr>))
           | Inl err \<Rightarrow> (0, mark_failed env (sm_id r) err st)))"

definition process_one :: "mail_env \<Rightarrow> sched_mail \<Rightarrow> mail_state \<Rightarrow> nat \<times> mail_state" where
  "process_one env r st =
     (case mail_fault env (ClaimMail (sm_id r)) of
        Some e \<Rightarrow> (0, st)
      | None \<Rightarrow>
          (case claim_scheduled (sm_id r) (mails st) of
             (False, t) \<Rightarrow> (0, st\<lparr>mails := t\<rparr>)
           | (True, t) \<Rightarrow> process_claimed env r (st\<lparr>mails := t\<rparr>)))"

fun process_each :: "mail_env \<Rightarrow> sched_mail list \<Rightarrow> mail_state \<Rightarrow> nat \<times> mail_state" where
  "process_each env [] st = (0, st)"
| "process_each env (r # rs) st =
     (let (n, st1) = process_one env r st; (m, st2) = process_each env rs st1 in (n + m, st2))"

definition process_due_emails :: "mail_env \<Rightarrow> mail_state \<Rightarrow> nat \<times> mail_state" where
  "process_due_emails env st = process_each env (list_due_scheduled (mail_now env) 50 (mails st)) st"

definition sent_ids :: "mail_state \<Rightarrow> uuid set" where
  "sent_ids st = fst ` set (outbox st)"

lemma sent_ids_simps [simp]:
  "sent_ids (st\<lparr>mails := t\<rparr>) = sent_ids st" "sent_ids (st\<lparr>mail_log := l\<rparr>) = sent_ids st"
  "sent_ids (st\<lparr>outbox := outbox st @ [(i, m)]\<rparr>) = insert i (sent_ids st)"
  "sent_ids (mark_sent env i st) = sent_ids st" "sent_ids (mark_failed env i e st) = sent_ids st"
  by (auto simp: sent_ids_def mark_sent_def mark_failed_def)

lemma sent_ids_outbox [simp]: "i \<in> fst ` set (outbox st) \<longleftrightarrow> i \<in> sent_ids st"
  by (simp add: sent_ids_def)

section \<open>Interleaved ticks\<close>

text \<open>
  The second component holds the mails some tick has claimed and not dealt with yet. A tick
  that dies drops its mail without touching the row, whatever it had done before. Rows
  also disappear with their project or thread.
\<close>

type_synonym queue_state = "mail_state \<times> uuid list"

inductive mail_step :: "queue_state \<Rightarrow> queue_state \<Rightarrow> bool" where
  schedule:
    "i \<notin> sm_id ` set (mails st) \<Longrightarrow> i \<notin> sent_ids st \<Longrightarrow> i \<notin> set fl \<Longrightarrow>
     mail_step (st, fl) (st\<lparr>mails := create_scheduled i p u prov a to cc bcc subj body html reply tone due th run (mails st)\<rparr>, fl)"
| cancel: "mail_step (st, fl) (st\<lparr>mails := snd (cancel_scheduled i (mails st))\<rparr>, fl)"
| cascade: "mail_step (st, fl) (st\<lparr>mails := filter keep (mails st)\<rparr>, fl)"
| claim: "claim_scheduled i (mails st) = (True, t) \<Longrightarrow> mail_step (st, fl) (st\<lparr>mails := t\<rparr>, i # fl)"
| sent:
    "sm_id r \<in> set fl \<Longrightarrow> prepare_mail env r = Inr m \<Longrightarrow>
     mail_step (st, fl) (mark_sent env (sm_id r) (st\<lparr>outbox := outbox st @ [(sm_id r, m)]\<rparr>), remove1 (sm_id r) fl)"
| failed: "i \<in> set fl \<Longrightarrow> mail_step (st, fl) (mark_failed env i err st, remove1 i fl)"
| died: "i \<in> set fl \<Longrightarrow> mail_step (st, fl) (st, remove1 i fl)"
| died_sent:
    "sm_id r \<in> set fl \<Longrightarrow> prepare_mail env r = Inr m \<Longrightarrow>
     mail_step (st, fl) (st\<lparr>outbox := outbox st @ [(sm_id r, m)]\<rparr>, remove1 (sm_id r) fl)"

inductive mail_reach :: "queue_state \<Rightarrow> bool" where
  start: "mail_reach (\<lparr>mails = [], outbox = [], mail_log = []\<rparr>, [])"
| step: "mail_reach s \<Longrightarrow> mail_step s s' \<Longrightarrow> mail_reach s'"

section \<open>The invariant\<close>

text \<open>A row says what its mail's history is: claimed, handed to the provider, tried so often.\<close>

definition row_ok :: "uuid list \<Rightarrow> uuid set \<Rightarrow> sched_mail \<Rightarrow> bool" where
  "row_ok fl out r \<longleftrightarrow>
     (sm_id r \<in> set fl \<longrightarrow> sm_status r = Sending) \<and>
     (sm_id r \<in> out \<longrightarrow> sm_status r = Sending \<or> sm_status r = Sent) \<and>
     (sm_status r = Sent \<longrightarrow> sm_id r \<in> out) \<and>
     sm_attempts r \<le> sm_max_attempts r \<and> sm_max_attempts r = 3 \<and>
     (sm_status r \<noteq> MailFailed \<longrightarrow> sm_attempts r < sm_max_attempts r)"

definition mail_inv :: "queue_state \<Rightarrow> bool" where
  "mail_inv s \<longleftrightarrow> (case s of (st, fl) \<Rightarrow>
     distinct (map sm_id (mails st)) \<and> distinct fl \<and> distinct (map fst (outbox st)) \<and>
     set fl \<inter> sent_ids st = {} \<and>
     (\<forall>r\<in>set (mails st). row_ok fl (sent_ids st) r))"

lemma update_ids:
  assumes "\<And>r. sm_id (f r) = sm_id r"
  shows "map sm_id (update_mail i f t) = map sm_id t"
  by (simp add: update_mail_def assms)

lemma update_cases: "r \<in> set (update_mail i f t) \<Longrightarrow> \<exists>r0\<in>set t. r = (if sm_id r0 = i then f r0 else r0)"
  by (auto simp: update_mail_def)

lemma update_other: "r \<in> set t \<Longrightarrow> sm_id r \<noteq> i \<Longrightarrow> r \<in> set (update_mail i f t)"
  by (force simp: update_mail_def image_iff)

lemma same_id: "distinct (map sm_id t) \<Longrightarrow> r \<in> set t \<Longrightarrow> r' \<in> set t \<Longrightarrow> sm_id r = sm_id r' \<Longrightarrow> r = r'"
  by (auto simp: distinct_map dest: inj_onD)

lemma mark_sent_mails:
  "mails (mark_sent env i st) = mails st \<or> mails (mark_sent env i st) = complete_scheduled i (mail_now env) (mails st)"
  by (simp add: mark_sent_def)

lemma mark_failed_mails:
  "mails (mark_failed env i e st) = mails st \<or> mails (mark_failed env i e st) = fail_scheduled i e (mails st)"
  by (simp add: mark_failed_def)

lemma mark_outbox [simp]: "outbox (mark_sent env i st) = outbox st" "outbox (mark_failed env i e st) = outbox st"
  by (simp_all add: mark_sent_def mark_failed_def)

text \<open>The invariant from its parts: rows that change do so under one identifier.\<close>

lemma mail_invI:
  assumes "mail_inv (st, fl)" and "map sm_id (mails st') = map sm_id (mails st)"
    and "distinct fl'" and "distinct (map fst (outbox st'))" and "set fl' \<inter> sent_ids st' = {}"
    and "\<And>r'. r' \<in> set (mails st') \<Longrightarrow> \<exists>r\<in>set (mails st).
        row_ok fl (sent_ids st) r \<longrightarrow> row_ok fl' (sent_ids st') r'"
  shows "mail_inv (st', fl')"
  using assms by (fastforce simp: mail_inv_def)

lemma initial_inv: "mail_inv (\<lparr>mails = [], outbox = [], mail_log = []\<rparr>, [])"
  by (simp add: mail_inv_def)

lemma step_inv:
  assumes "mail_step s s'" and "mail_inv s"
  shows "mail_inv s'"
  using assms
proof cases
  case (schedule i st fl)
  with assms(2) show ?thesis by (auto simp: mail_inv_def create_scheduled_def row_ok_def)
next
  case (cancel st fl i)
  show ?thesis unfolding cancel(2)
  proof (rule mail_invI [OF assms(2) [unfolded cancel(1)]])
    fix r' assume "r' \<in> set (mails (st\<lparr>mails := snd (cancel_scheduled i (mails st))\<rparr>))"
    then obtain r0 where "r0 \<in> set (mails st)"
      "r' = r0 \<or> sm_status r0 = Scheduled \<and> r' = r0\<lparr>sm_status := Cancelled\<rparr>"
      by (auto simp: cancel_scheduled_def dest!: update_cases split: if_splits)
    then show "\<exists>r\<in>set (mails st). row_ok fl (sent_ids st) r \<longrightarrow>
        row_ok fl (sent_ids (st\<lparr>mails := snd (cancel_scheduled i (mails st))\<rparr>)) r'"
      by (intro bexI [of _ r0]) (auto simp: row_ok_def)
  qed (use assms(2) cancel(1) in \<open>auto simp: mail_inv_def cancel_scheduled_def intro!: update_ids\<close>)
next
  case (cascade st fl keep)
  with assms(2) show ?thesis by (auto simp: mail_inv_def distinct_map_filter)
next
  case (claim i st t fl)
  then obtain r where r: "r \<in> set (mails st)" "sm_id r = i" "sm_status r = Scheduled"
    by (auto simp: claim_scheduled_def)
  with assms(2) claim have new: "i \<notin> set fl" "i \<notin> sent_ids st"
    by (auto simp: mail_inv_def row_ok_def)
  show ?thesis unfolding claim(2)
  proof (rule mail_invI [OF assms(2) [unfolded claim(1)]])
    fix r' assume "r' \<in> set (mails (st\<lparr>mails := t\<rparr>))"
    then obtain r0 where r0: "r0 \<in> set (mails st)"
      "r' = (if sm_id r0 = i \<and> sm_status r0 = Scheduled then r0\<lparr>sm_status := Sending\<rparr> else r0)"
      using claim(3) by (auto simp: claim_scheduled_def dest!: update_cases split: if_splits)
    moreover have "sm_id r0 = i \<Longrightarrow> r0 = r"
      using same_id [of "mails st" r0 r] r r0(1) assms(2) claim(1) by (simp add: mail_inv_def)
    ultimately show "\<exists>r\<in>set (mails st). row_ok fl (sent_ids st) r \<longrightarrow>
        row_ok (i # fl) (sent_ids (st\<lparr>mails := t\<rparr>)) r'"
      using r(3) by (intro bexI [of _ r0]) (auto simp: row_ok_def)
  qed (use assms(2) claim new in \<open>auto simp: mail_inv_def claim_scheduled_def intro!: update_ids\<close>)
next
  case (sent r fl env m st)
  let ?st = "st\<lparr>outbox := outbox st @ [(sm_id r, m)]\<rparr>"
  have new: "sm_id r \<notin> sent_ids st" "distinct fl"
    using sent(1,3) assms(2) by (auto simp: mail_inv_def)
  show ?thesis unfolding sent(2)
  proof (rule mail_invI [OF assms(2) [unfolded sent(1)]])
    fix r' assume "r' \<in> set (mails (mark_sent env (sm_id r) ?st))"
    with mark_sent_mails [of env "sm_id r" ?st] obtain r0 where r0: "r0 \<in> set (mails st)"
      "r' = r0 \<or> sm_id r0 = sm_id r \<and> r' = r0\<lparr>sm_status := Sent, sm_sent_at := Some (mail_now env), sm_error := None\<rparr>"
      by (auto simp: complete_scheduled_def dest!: update_cases split: if_splits)
    then show "\<exists>r0\<in>set (mails st). row_ok fl (sent_ids st) r0 \<longrightarrow>
        row_ok (remove1 (sm_id r) fl) (sent_ids (mark_sent env (sm_id r) ?st)) r'"
      using sent(3) new(2) by (intro bexI [of _ r0]) (auto simp: row_ok_def)
  qed (use assms(2) sent(1) new in \<open>auto simp: mail_inv_def mark_sent_def complete_scheduled_def intro!: update_ids\<close>)
next
  case (failed i fl st env err)
  have new: "i \<notin> sent_ids st" "distinct fl"
    using failed(1,3) assms(2) by (auto simp: mail_inv_def)
  show ?thesis unfolding failed(2)
  proof (rule mail_invI [OF assms(2) [unfolded failed(1)]])
    fix r' assume "r' \<in> set (mails (mark_failed env i err st))"
    with mark_failed_mails [of env i err st] obtain r0 where r0: "r0 \<in> set (mails st)"
      "r' = r0 \<or> sm_id r0 = i \<and> r' = r0\<lparr>sm_attempts := sm_attempts r0 + 1, sm_error := Some err,
         sm_status := (if sm_max_attempts r0 \<le> sm_attempts r0 + 1 then MailFailed else Scheduled)\<rparr>"
      by (auto simp: fail_scheduled_def dest!: update_cases split: if_splits)
    then show "\<exists>r\<in>set (mails st). row_ok fl (sent_ids st) r \<longrightarrow>
        row_ok (remove1 i fl) (sent_ids (mark_failed env i err st)) r'"
      using failed(3) new by (intro bexI [of _ r0]) (auto simp: row_ok_def split: if_splits)
  qed (use assms(2) failed(1) new in \<open>auto simp: mail_inv_def mark_failed_def fail_scheduled_def intro!: update_ids\<close>)
next
  case (died i fl st)
  with assms(2) show ?thesis by (auto simp: mail_inv_def row_ok_def)
next
  case (died_sent r fl env m st)
  with assms(2) show ?thesis by (auto simp: mail_inv_def row_ok_def)
qed

lemma reach_inv: "mail_reach s \<Longrightarrow> mail_inv s"
  by (induction rule: mail_reach.induct) (blast intro: initial_inv step_inv)+

end
