(* ===== verification/MailProps.thy ===== *)
theory MailProps
  imports MailQueue
begin

text \<open>
  Properties of scheduled mail: what a run of interleaved ticks can do to a mail, and that
  the tick is such a run.
\<close>

section \<open>The tick is a run of steps\<close>

lemma step_trans: "mail_step s s1 \<Longrightarrow> mail_step\<^sup>*\<^sup>* s1 s2 \<Longrightarrow> mail_step\<^sup>*\<^sup>* s s2"
  by (rule converse_rtranclp_into_rtranclp)

lemma claimed_step:
  assumes "process_claimed env r st = (n, st')"
  shows "mail_step (st, sm_id r # fl) (st', fl)"
    and "outbox st' = outbox st \<and> n = 0 \<or> (\<exists>m. prepare_mail env r = Inr m \<and> outbox st' = outbox st @ [(sm_id r, m)] \<and> n = 1)"
proof -
  show "mail_step (st, sm_id r # fl) (st', fl)"
    using assms mail_step.failed [of "sm_id r" "sm_id r # fl" st env]
      mail_step.sent [of r "sm_id r # fl" env _ st]
    by (auto simp: process_claimed_def split: sum.splits)
  show "outbox st' = outbox st \<and> n = 0 \<or> (\<exists>m. prepare_mail env r = Inr m \<and> outbox st' = outbox st @ [(sm_id r, m)] \<and> n = 1)"
    using assms by (auto simp: process_claimed_def split: sum.splits)
qed

lemma unclaimed: "claim_scheduled i t = (False, t') \<Longrightarrow> t' = t"
  by (auto simp: claim_scheduled_def update_mail_def intro!: map_idI)

lemma one_step:
  assumes "process_one env r st = (n, st')"
  shows "mail_step\<^sup>*\<^sup>* (st, fl) (st', fl)"
    and "outbox st' = outbox st \<and> n = 0 \<or> (\<exists>m. prepare_mail env r = Inr m \<and> outbox st' = outbox st @ [(sm_id r, m)] \<and> n = 1)"
proof -
  consider (same) "st' = st" "n = 0"
    | (claimed) t where "claim_scheduled (sm_id r) (mails st) = (True, t)" "process_claimed env r (st\<lparr>mails := t\<rparr>) = (n, st')"
    using assms unclaimed by (fastforce simp: process_one_def split: option.splits prod.splits bool.splits)
  note cases = this
  show "mail_step\<^sup>*\<^sup>* (st, fl) (st', fl)"
    using cases by cases (auto intro: step_trans [OF mail_step.claim] r_into_rtranclp claimed_step(1))
  show "outbox st' = outbox st \<and> n = 0 \<or> (\<exists>m. prepare_mail env r = Inr m \<and> outbox st' = outbox st @ [(sm_id r, m)] \<and> n = 1)"
    using cases by cases (auto dest: claimed_step(2))
qed

lemma each_step:
  assumes "process_each env rs st = (n, st')"
  shows "mail_step\<^sup>*\<^sup>* (st, fl) (st', fl) \<and> (\<exists>new. outbox st' = outbox st @ new \<and> length new = n \<and> n \<le> length rs \<and>
     (\<forall>(i, m)\<in>set new. \<exists>r\<in>set rs. sm_id r = i \<and> prepare_mail env r = Inr m))"
  using assms
proof (induction rs arbitrary: st n)
  case (Cons r rs)
  then obtain n1 st1 n2 where one: "process_one env r st = (n1, st1)" and rest: "process_each env rs st1 = (n2, st')"
    and n: "n = n1 + n2" by (auto split: prod.splits)
  from Cons.IH [OF rest] obtain new where new: "mail_step\<^sup>*\<^sup>* (st1, fl) (st', fl)" "outbox st' = outbox st1 @ new"
    "length new = n2" "n2 \<le> length rs" "\<forall>(i, m)\<in>set new. \<exists>r\<in>set rs. sm_id r = i \<and> prepare_mail env r = Inr m"
    by blast
  have steps: "mail_step\<^sup>*\<^sup>* (st, fl) (st', fl)"
    by (rule rtranclp_trans [OF one_step(1) [OF one] new(1)])
  from one_step(2) [OF one] show ?case
  proof
    assume "outbox st1 = outbox st \<and> n1 = 0"
    with steps new n show ?thesis by (intro conjI exI [of _ new]) auto
  next
    assume "\<exists>m. prepare_mail env r = Inr m \<and> outbox st1 = outbox st @ [(sm_id r, m)] \<and> n1 = 1"
    then obtain m where "prepare_mail env r = Inr m" "outbox st1 = outbox st @ [(sm_id r, m)]" "n1 = 1" by blast
    with steps new n show ?thesis by (intro conjI exI [of _ "(sm_id r, m) # new"]) auto
  qed
qed simp

lemma due_sound:
  assumes "r \<in> set (list_due_scheduled now limit t)"
  shows "r \<in> set t" "sm_status r = Scheduled" "sm_at r \<le> now"
  using assms by (auto simp: list_due_scheduled_def dest: in_set_takeD)

lemma reach_steps: "mail_step\<^sup>*\<^sup>* s s' \<Longrightarrow> mail_reach s \<Longrightarrow> mail_reach s'"
  by (induction rule: rtranclp_induct) (auto intro: mail_reach.step)

lemma prepared:
  assumes "prepare_mail env r = Inr m"
  shows "m = message_of r" and "\<exists>u. sm_user r = Some u \<and> credential env u (sm_provider r)"
    and "\<forall>a\<in>set (mm_to m) \<union> set (mm_cc m) \<union> set (mm_bcc m). rcpt_decide a (rules_for env (sm_project r))"
proof -
  from assms show m: "m = message_of r" and "\<exists>u. sm_user r = Some u \<and> credential env u (sm_provider r)"
    by (auto simp: prepare_mail_def Let_def split: option.splits if_splits sum.splits)
  from assms have "evaluate_all_recipients (mm_to m) (mm_cc m) (mm_bcc m) (rules_for env (sm_project r)) = Inr ()"
    unfolding m by (auto simp: prepare_mail_def Let_def split: option.splits if_splits sum.splits)
  then show "\<forall>a\<in>set (mm_to m) \<union> set (mm_cc m) \<union> set (mm_bcc m). rcpt_decide a (rules_for env (sm_project r))"
    by (simp only: all_recipients_Inr)
qed

section \<open>A mail nobody holds any more\<close>

definition orphan :: "uuid \<Rightarrow> queue_state \<Rightarrow> bool" where
  "orphan i s \<longleftrightarrow> i \<notin> set (snd s) \<and> (\<exists>r\<in>set (mails (fst s)). sm_id r = i \<and> sm_status r = Sending)"

lemma update_keeps:
  assumes "r \<in> set t" and "sm_id r = j \<Longrightarrow> f r = r"
  shows "r \<in> set (update_mail j f t)"
  using assms by (force simp: update_mail_def image_iff)

lemma orphanI: "r \<in> set (mails st) \<Longrightarrow> sm_id r = i \<Longrightarrow> sm_status r = Sending \<Longrightarrow> i \<notin> set fl \<Longrightarrow> orphan i (st, fl)"
  by (auto simp: orphan_def)

lemma orphan_step:
  assumes "mail_step (st, fl) (st', fl')" and "orphan i (st, fl)" and "mail_inv (st, fl)"
  shows "(orphan i (st', fl') \<or> i \<notin> sm_id ` set (mails st')) \<and> (i \<in> sent_ids st' \<longleftrightarrow> i \<in> sent_ids st)"
proof -
  from assms(2) obtain r where r: "r \<in> set (mails st)" "sm_id r = i" "sm_status r = Sending" "i \<notin> set fl"
    by (auto simp: orphan_def)
  from assms(1) show ?thesis
  proof cases
    case (schedule j)
    from r(1) schedule(1) have "r \<in> set (mails st')" by (simp add: create_scheduled_def)
    from orphanI [OF this r(2,3)] r(4) schedule(1,2) show ?thesis by simp
  next
    case (cancel j)
    have "r \<in> set (mails st')" using r(1,3) unfolding cancel(1) by (auto simp: cancel_scheduled_def intro: update_keeps)
    from orphanI [OF this r(2,3)] r(4) cancel show ?thesis by simp
  next
    case (cascade keep)
    have "orphan i (st', fl') \<or> i \<notin> sm_id ` set (mails st')"
    proof (cases "keep r")
      case True
      with r cascade show ?thesis by (auto intro: orphanI)
    next
      case False
      with r cascade assms(3) show ?thesis by (auto simp: mail_inv_def dest: same_id)
    qed
    with cascade show ?thesis by simp
  next
    case (claim j t)
    then obtain r' where r': "r' \<in> set (mails st)" "sm_id r' = j" "sm_status r' = Scheduled"
      by (auto simp: claim_scheduled_def)
    have "distinct (map sm_id (mails st))" using assms(3) by (simp add: mail_inv_def)
    have "j \<noteq> i"
    proof
      assume "j = i"
      with same_id [OF \<open>distinct _\<close> r(1) r'(1)] r(2) r'(2) have "r = r'" by simp
      with r(3) r'(3) show False by simp
    qed
    moreover have "r \<in> set t" using r(1,3) claim(3) by (auto simp: claim_scheduled_def intro: update_keeps)
    ultimately show ?thesis using r(4) claim orphanI [of r st' i fl'] r(2,3) by simp
  next
    case (sent r0 env m)
    let ?st = "st\<lparr>outbox := outbox st @ [(sm_id r0, m)]\<rparr>"
    have "r \<in> set (mails st')"
      using mark_sent_mails [of env "sm_id r0" ?st] r sent by (auto simp: complete_scheduled_def intro!: update_other)
    from orphanI [OF this r(2,3)] r(4) sent show ?thesis by (auto dest: notin_set_remove1)
  next
    case (failed j env err)
    have "r \<in> set (mails st')"
      using mark_failed_mails [of env j err st] r failed by (auto simp: fail_scheduled_def intro!: update_other)
    from orphanI [OF this r(2,3)] r(4) failed show ?thesis by (auto dest: notin_set_remove1)
  next
    case (died j)
    with orphanI [OF r(1-3), of fl'] r(4) show ?thesis by (auto dest: notin_set_remove1)
  next
    case (died_sent r0 env m)
    with orphanI [of r st' i fl'] r show ?thesis by (auto dest: notin_set_remove1)
  qed
qed

section \<open>Properties\<close>

definition mail_start :: queue_state where
  "mail_start = (\<lparr>mails = [], outbox = [], mail_log = []\<rparr>, [])"

definition scheduled_row :: sched_mail where
  "scheduled_row = \<lparr>sm_id = 7, sm_project = 1, sm_user = Some 2, sm_provider = ''gmail'', sm_status = Scheduled, sm_from = [],
     sm_to = JArr [JStr ''u@a''], sm_cc = Some (JArr []), sm_bcc = Some (JArr []), sm_subject = [], sm_body = None, sm_html = None,
     sm_reply_to = None, sm_tone = None, sm_at = 0,
     sm_error = None, sm_attempts = 0, sm_max_attempts = 3, sm_thread = None, sm_run = None, sm_sent_at = None\<rparr>"

definition queued :: mail_state where
  "queued = \<lparr>mails = [scheduled_row], outbox = [], mail_log = []\<rparr>"

definition taken :: mail_state where
  "taken = \<lparr>mails = [scheduled_row\<lparr>sm_status := Sending\<rparr>], outbox = [], mail_log = []\<rparr>"

definition mail_world :: mail_env where
  "mail_world = \<lparr>credential = \<lambda>_ _. True, provider_send = \<lambda>_ _. Inr ''id'', mail_rules = [], mail_fault = \<lambda>_. None, mail_now = 5\<rparr>"

lemma queued_reach: "mail_reach (queued, [])"
proof -
  have "mail_step mail_start (queued, [])"
    unfolding mail_start_def queued_def scheduled_row_def
    using mail_step.schedule [of 7 "\<lparr>mails = [], outbox = [], mail_log = []\<rparr>" "[]" 1 "Some 2" "''gmail''" "[]"
        "JArr [JStr ''u@a'']" "JArr []" "JArr []" "[]" None None None None 0 None None]
    by (simp add: create_scheduled_def sent_ids_def)
  with mail_reach.start show ?thesis unfolding mail_start_def by (rule mail_reach.step)
qed

lemma taken_reach: "mail_reach (taken, [])"
proof -
  have "claim_scheduled 7 (mails queued) = (True, mails taken)"
    by (simp add: claim_scheduled_def update_mail_def queued_def taken_def scheduled_row_def)
  from mail_step.claim [OF this, of "[]"] have "mail_step (queued, []) (taken, [7])"
    by (simp add: queued_def taken_def)
  moreover have "mail_step (taken, [7]) (taken, [])" using mail_step.died [of 7 "[7]" taken] by simp
  ultimately show ?thesis using queued_reach by (blast intro: mail_reach.step)
qed




lemma tick_is_run_parts:
  assumes "process_due_emails env st = (n, st')"
  shows "mail_step\<^sup>*\<^sup>* (st, fl) (st', fl)"
    and "\<exists>new. outbox st' = outbox st @ new \<and> length new = n \<and> n \<le> 50 \<and>
      (\<forall>(i, m)\<in>set new. \<exists>r\<in>set (mails st). sm_id r = i \<and> sm_status r = Scheduled \<and> sm_at r \<le> mail_now env \<and>
         m = message_of r \<and> (\<exists>u. sm_user r = Some u \<and> credential env u (sm_provider r)) \<and>
         (\<forall>a\<in>set (mm_to m) \<union> set (mm_cc m) \<union> set (mm_bcc m). rcpt_decide a (rules_for env (sm_project r))))"
proof -
  let ?due = "list_due_scheduled (mail_now env) 50 (mails st)"
  from assms have each: "process_each env ?due st = (n, st')" by (simp add: process_due_emails_def)
  show "mail_step\<^sup>*\<^sup>* (st, fl) (st', fl)" using each_step [OF each, of fl] by blast
  from each_step [OF each] obtain new where new: "outbox st' = outbox st @ new" "length new = n" "n \<le> length ?due"
    "\<And>i m. (i, m) \<in> set new \<Longrightarrow> \<exists>r\<in>set ?due. sm_id r = i \<and> prepare_mail env r = Inr m" by blast
  have "n \<le> 50" using new(3) by (simp add: list_due_scheduled_def)
  moreover have "\<exists>r\<in>set (mails st). sm_id r = i \<and> sm_status r = Scheduled \<and> sm_at r \<le> mail_now env \<and>
         m = message_of r \<and> (\<exists>u. sm_user r = Some u \<and> credential env u (sm_provider r)) \<and>
         (\<forall>a\<in>set (mm_to m) \<union> set (mm_cc m) \<union> set (mm_bcc m). rcpt_decide a (rules_for env (sm_project r)))"
    if sent: "(i, m) \<in> set new" for i m
  proof -
    from new(4) [OF sent] obtain r where r: "r \<in> set ?due" "sm_id r = i" "prepare_mail env r = Inr m" by blast
    then show ?thesis
      using due_sound [OF r(1)] prepared [OF r(3)] by blast
  qed
  ultimately show "\<exists>new. outbox st' = outbox st @ new \<and> length new = n \<and> n \<le> 50 \<and>
      (\<forall>(i, m)\<in>set new. \<exists>r\<in>set (mails st). sm_id r = i \<and> sm_status r = Scheduled \<and> sm_at r \<le> mail_now env \<and>
         m = message_of r \<and> (\<exists>u. sm_user r = Some u \<and> credential env u (sm_provider r)) \<and>
         (\<forall>a\<in>set (mm_to m) \<union> set (mm_cc m) \<union> set (mm_bcc m). rcpt_decide a (rules_for env (sm_project r))))"
    using new(1,2) by blast
qed

text \<open>
  A tick is such an interleaving, and what it does is exact: it reports the number of
  mails it handed over, at most fifty, each of them scheduled and due when it began, sent
  as the row says, by a user with credentials for the provider, to recipients the rules of
  its project allowed at that moment.
\<close>

theorem tick_is_run:
  assumes "process_due_emails env st = (n, st')"
  shows "(mail_step\<^sup>*\<^sup>* (st, fl) (st', fl)) \<and>
     (\<exists>new. outbox st' = outbox st @ new \<and> length new = n \<and> n \<le> 50 \<and>
      (\<forall>(i, m)\<in>set new. \<exists>r\<in>set (mails st). sm_id r = i \<and> sm_status r = Scheduled \<and> sm_at r \<le> mail_now env \<and>
         m = message_of r \<and> (\<exists>u. sm_user r = Some u \<and> credential env u (sm_provider r)) \<and>
         (\<forall>a\<in>set (mm_to m) \<union> set (mm_cc m) \<union> set (mm_bcc m). rcpt_decide a (rules_for env (sm_project r)))))"
  using tick_is_run_parts [OF assms] by blast

lemma no_rules: "evaluate_all_recipients to cc bcc [] = Inr ()"
  by (simp add: all_recipients_Inr rcpt.empty_allows)

lemma queued_tick: "\<exists>st'. process_due_emails mail_world queued = (1, st')"
  by (simp add: process_due_emails_def list_due_scheduled_def queued_def mail_world_def scheduled_row_def process_one_def
      claim_scheduled_def update_mail_def process_claimed_def prepare_mail_def rules_for_def list_recipient_rules_def
      no_rules Let_def)

theorem tick_is_run_witness:
  "\<exists>st' m. mail_step\<^sup>*\<^sup>* (queued, []) (st', []) \<and> outbox st' = [(7, m)] \<and> m = message_of scheduled_row"
proof -
  from queued_tick obtain st' where run: "process_due_emails mail_world queued = (1, st')" by blast
  from conjunct2 [OF tick_is_run [OF run]] obtain i m where "outbox st' = [(i, m)]" "i = sm_id scheduled_row" "m = message_of scheduled_row"
    by (auto simp: queued_def length_Suc_conv)
  with conjunct1 [OF tick_is_run [OF run, of "[]"]] show ?thesis by (auto simp: scheduled_row_def)
qed

text \<open>
  A mail whose tick died between claiming it and recording what came of it is lost to
  the scheduler: no step gives it back, retries it or fails it. Until its row is deleted
  it stays as it is, and is never handed to a provider again.
\<close>

theorem claimed_mail_is_never_retried:
  assumes "mail_reach (st, fl)" and "orphan i (st, fl)" and "mail_step (st, fl) (st', fl')"
  shows "(orphan i (st', fl') \<or> i \<notin> sm_id ` set (mails st')) \<and> (i \<in> sent_ids st' \<longleftrightarrow> i \<in> sent_ids st)"
  by (rule orphan_step [OF assms(3,2) reach_inv [OF assms(1)]])

theorem claimed_mail_is_never_retried_witness:
  "orphan 7 (taken, []) \<and> 7 \<notin> sent_ids (taken\<lparr>mails := snd (cancel_scheduled 7 (mails taken))\<rparr>)"
proof -
  have o: "orphan 7 (taken, [])" by (simp add: orphan_def taken_def scheduled_row_def)
  from claimed_mail_is_never_retried [OF taken_reach o mail_step.cancel [of taken "[]" 7]] o
  show ?thesis by (simp add: sent_ids_def taken_def)
qed

end
