(* ===== verification/ToolNames.thy ===== *)
theory ToolNames
  imports Registry "HOL-Library.Multiset" "HOL-Library.Char_ord" "HOL-Library.List_Lexorder"
begin

text \<open>
  Which tool a model's call names and whether the agent may run it: the name repair,
  the allow list and the messages of \<open>af-agents/src/runtime.rs\<close>, the grants of
  \<open>af-db/src/restricted_tools.rs\<close> and the model routes of
  \<open>af-db/src/user_allowed_routes.rs\<close>. The edit distance is computed as the code does,
  two rows at a time, and shown to be the least number of single-byte edits.

  \<open>specs.list()\<close> iterates over a \<open>HashMap\<close>: here it is the order of the registry's
  list, and the choices below do not depend on it.
\<close>

section \<open>Patterns\<close>

definition strip_suffix :: "string \<Rightarrow> string \<Rightarrow> string option" where
  "strip_suffix p s = (if ends_with p s then Some (take (length s - length p) s) else None)"

lemma strip_suffix_Some: "strip_suffix p s = Some t \<longleftrightarrow> s = t @ p"
  by (auto simp: strip_suffix_def ends_with_iff)

text \<open>The three copies of the pattern test: \<open>is_tool_allowed_by_config\<close> of the runtime,
  \<open>is_tool_allowed\<close> of the prompt builder, \<open>pattern_matches\<close> of the restrictions.\<close>

fun is_tool_allowed_by_config :: "string \<Rightarrow> string list \<Rightarrow> bool" where
  "is_tool_allowed_by_config tool [] = False"
| "is_tool_allowed_by_config tool (pat # pats) =
     (if pat = tool \<or> pat = ''*'' then True
      else case strip_suffix ''.*'' pat of
        Some pre \<Rightarrow>
          if starts_with pre tool \<and> starts_with ''.'' (drop (length pre) tool) then True
          else is_tool_allowed_by_config tool pats
      | None \<Rightarrow> is_tool_allowed_by_config tool pats)"

fun is_tool_allowed :: "string \<Rightarrow> string list \<Rightarrow> bool" where
  "is_tool_allowed tool [] = False"
| "is_tool_allowed tool (pat # pats) =
     (if pat = tool then True
      else case strip_suffix ''.*'' pat of
        Some pre \<Rightarrow>
          if starts_with pre tool \<and> starts_with ''.'' (drop (length pre) tool) then True
          else if pat = ''*'' then True else is_tool_allowed tool pats
      | None \<Rightarrow> if pat = ''*'' then True else is_tool_allowed tool pats)"

definition pattern_matches :: "string \<Rightarrow> string \<Rightarrow> bool" where
  "pattern_matches pat tool =
     (if pat = tool \<or> pat = ''*'' then True
      else case strip_suffix ''.*'' pat of
        Some pre \<Rightarrow> starts_with pre tool \<and> starts_with ''.'' (drop (length pre) tool)
      | None \<Rightarrow> False)"

text \<open>What a pattern stands for: itself, everything, or everything below a name space.\<close>

definition pattern_covers :: "string \<Rightarrow> string \<Rightarrow> bool" where
  "pattern_covers pat tool \<longleftrightarrow>
     pat = tool \<or> pat = ''*'' \<or> (\<exists>ns rest. pat = ns @ ''.*'' \<and> tool = ns @ ''.'' @ rest)"

lemma strip_suffix_append [simp]: "strip_suffix p (t @ p) = Some t"
  by (simp add: strip_suffix_Some)

lemma below_name_space:
  "starts_with pre tool \<and> starts_with ''.'' (drop (length pre) tool) \<longleftrightarrow> (\<exists>rest. tool = pre @ ''.'' @ rest)"
  unfolding starts_with_iff by auto

lemma pattern_matches_covers: "pattern_matches pat tool \<longleftrightarrow> pattern_covers pat tool"
proof (cases "strip_suffix ''.*'' pat")
  case None
  then have "pat \<noteq> ns @ ''.*''" for ns by auto
  with None show ?thesis by (auto simp: pattern_matches_def pattern_covers_def)
next
  case (Some pre)
  then have "pat = pre @ ''.*''" by (simp add: strip_suffix_Some)
  then show ?thesis by (auto simp: pattern_matches_def pattern_covers_def below_name_space)
qed

lemma allowed_by_config_iff:
  "is_tool_allowed_by_config tool pats \<longleftrightarrow> (\<exists>pat \<in> set pats. pattern_covers pat tool)"
  unfolding pattern_matches_covers [symmetric]
  by (induction pats) (auto simp: pattern_matches_def split: option.splits)

lemma allowed_iff: "is_tool_allowed tool pats \<longleftrightarrow> is_tool_allowed_by_config tool pats"
  by (induction pats) (auto split: option.splits)

section \<open>Restrictions and grants\<close>

text \<open>
  The table of restricted patterns and the grants of the users. The rows come back in
  the order of the pattern's collation, which nothing below looks at.
\<close>

record restriction_db =
  restricted_tools :: "(string \<times> string) list"   \<comment> \<open>pattern, description\<close>
  user_tool_grants :: "(uuid \<times> string) list"

definition list_restricted :: "restriction_db \<Rightarrow> string list" where
  "list_restricted db = map fst (restricted_tools db)"

definition list_user_grants :: "restriction_db \<Rightarrow> uuid \<Rightarrow> string list" where
  "list_user_grants db uid = map snd (filter (\<lambda>g. fst g = uid) (user_tool_grants db))"

definition add_restricted :: "string \<Rightarrow> string \<Rightarrow> restriction_db \<Rightarrow> restriction_db" where
  "add_restricted pat desc db =
     (if pat \<in> fst ` set (restricted_tools db)
      then db\<lparr>restricted_tools := map (\<lambda>r. if fst r = pat then (pat, desc) else r) (restricted_tools db)\<rparr>
      else db\<lparr>restricted_tools := restricted_tools db @ [(pat, desc)]\<rparr>)"

definition remove_restricted :: "string \<Rightarrow> restriction_db \<Rightarrow> bool \<times> restriction_db" where
  "remove_restricted pat db =
     (pat \<in> fst ` set (restricted_tools db),
      db\<lparr>restricted_tools := filter (\<lambda>r. fst r \<noteq> pat) (restricted_tools db)\<rparr>)"

definition add_user_grant :: "uuid \<Rightarrow> string \<Rightarrow> restriction_db \<Rightarrow> restriction_db" where
  "add_user_grant uid pat db =
     (if (uid, pat) \<in> set (user_tool_grants db) then db
      else db\<lparr>user_tool_grants := user_tool_grants db @ [(uid, pat)]\<rparr>)"

definition remove_user_grant :: "uuid \<Rightarrow> string \<Rightarrow> restriction_db \<Rightarrow> bool \<times> restriction_db" where
  "remove_user_grant uid pat db =
     ((uid, pat) \<in> set (user_tool_grants db),
      db\<lparr>user_tool_grants := filter (\<lambda>g. g \<noteq> (uid, pat)) (user_tool_grants db)\<rparr>)"

definition clear_user_grants :: "uuid \<Rightarrow> restriction_db \<Rightarrow> nat \<times> restriction_db" where
  "clear_user_grants uid db =
     (length (filter (\<lambda>g. fst g = uid) (user_tool_grants db)),
      db\<lparr>user_tool_grants := filter (\<lambda>g. fst g \<noteq> uid) (user_tool_grants db)\<rparr>)"

definition check_tool_allowed :: "restriction_db \<Rightarrow> uuid \<Rightarrow> string \<Rightarrow> bool" where
  "check_tool_allowed db uid tool =
     (if \<not> list_ex (\<lambda>pat. pattern_matches pat tool) (list_restricted db) then True
      else list_ex (\<lambda>pat. pattern_matches pat tool) (list_user_grants db uid))"

text \<open>The cache an agent run loads once.\<close>

record restriction_cache =
  rc_restricted :: "string list"
  rc_grants :: "string list"

definition rc_is_allowed :: "restriction_cache \<Rightarrow> string \<Rightarrow> bool" where
  "rc_is_allowed rc tool =
     (if \<not> list_ex (\<lambda>pat. pattern_matches pat tool) (rc_restricted rc) then True
      else list_ex (\<lambda>pat. pattern_matches pat tool) (rc_grants rc))"

definition load_restrictions :: "restriction_db \<Rightarrow> uuid option \<Rightarrow> restriction_cache option" where
  "load_restrictions db user =
     (case user of
        None \<Rightarrow> None
      | Some uid \<Rightarrow>
          if list_restricted db = [] then None
          else Some \<lparr>rc_restricted = list_restricted db, rc_grants = list_user_grants db uid\<rparr>)"

definition cache_allows :: "restriction_cache option \<Rightarrow> string \<Rightarrow> bool" where
  "cache_allows cache tool = (case cache of None \<Rightarrow> True | Some rc \<Rightarrow> rc_is_allowed rc tool)"

lemma cache_decides_as_table:
  "cache_allows (load_restrictions db (Some uid)) tool \<longleftrightarrow> check_tool_allowed db uid tool"
  by (simp add: cache_allows_def load_restrictions_def rc_is_allowed_def check_tool_allowed_def)

lemma check_tool_allowed_iff:
  "check_tool_allowed db uid tool \<longleftrightarrow>
     (\<forall>pat \<in> set (list_restricted db). \<not> pattern_covers pat tool) \<or>
     (\<exists>pat \<in> set (list_user_grants db uid). pattern_covers pat tool)"
  by (auto simp: check_tool_allowed_def list_ex_iff pattern_matches_covers)

lemma covers_itself: "pattern_covers tool tool"
  by (simp add: pattern_covers_def)

lemma list_user_grants_add:
  "set (list_user_grants (add_user_grant uid pat db) uid) = insert pat (set (list_user_grants db uid))"
  by (force simp: add_user_grant_def list_user_grants_def)

lemma list_restricted_add: "pat \<in> set (list_restricted (add_restricted pat desc db))"
proof (cases "pat \<in> fst ` set (restricted_tools db)")
  case True
  have "map fst (map (\<lambda>r. if fst r = pat then (pat, desc) else r) ts) = map fst ts" for ts
    by (induction ts) auto
  with True show ?thesis by (simp add: add_restricted_def list_restricted_def del: map_map)
qed (simp add: add_restricted_def list_restricted_def)

lemma grant_suffices: "check_tool_allowed (add_user_grant uid tool db) uid tool"
  using covers_itself by (auto simp: check_tool_allowed_iff list_user_grants_add)

lemma restriction_binds:
  assumes "list_user_grants db uid = []"
  shows "\<not> check_tool_allowed (add_restricted tool desc db) uid tool"
proof -
  from assms have "list_user_grants (add_restricted tool desc db) uid = []"
    by (simp add: add_restricted_def list_user_grants_def)
  then show ?thesis
    using list_restricted_add [of tool desc db] covers_itself [of tool]
    by (auto simp: check_tool_allowed_iff)
qed

section \<open>Model routes\<close>

text \<open>\<open>user_allowed_routes\<close>: the rows in the order of their creation.\<close>

type_synonym route_table = "(uuid \<times> string) list"

definition list_routes :: "route_table \<Rightarrow> uuid \<Rightarrow> string list" where
  "list_routes t uid = map snd (filter (\<lambda>r. fst r = uid) t)"

definition add_route :: "uuid \<Rightarrow> string \<Rightarrow> route_table \<Rightarrow> route_table" where
  "add_route uid route t = (if (uid, route) \<in> set t then t else t @ [(uid, route)])"

definition remove_route :: "uuid \<Rightarrow> string \<Rightarrow> route_table \<Rightarrow> bool \<times> route_table" where
  "remove_route uid route t = ((uid, route) \<in> set t, filter (\<lambda>r. r \<noteq> (uid, route)) t)"

definition remove_all_routes :: "uuid \<Rightarrow> route_table \<Rightarrow> nat \<times> route_table" where
  "remove_all_routes uid t = (length (list_routes t uid), filter (\<lambda>r. fst r \<noteq> uid) t)"

fun route_listed :: "string \<Rightarrow> string list \<Rightarrow> bool" where
  "route_listed route [] = False"
| "route_listed route (r # rs) =
     (if r = route then True
      else case strip_suffix ''*'' r of
        Some pre \<Rightarrow> if starts_with pre route then True else route_listed route rs
      | None \<Rightarrow> route_listed route rs)"

definition check_route_allowed :: "route_table \<Rightarrow> uuid \<Rightarrow> string \<Rightarrow> bool" where
  "check_route_allowed t uid route =
     (let rows = list_routes t uid in if rows = [] then True else route_listed route rows)"

section \<open>Edit distance\<close>

text \<open>
  \<open>levenshtein\<close>: the row of the table for the first bytes of \<open>a\<close> is computed from the
  row before it, cell by cell. \<open>prev\<close> has one cell per prefix of \<open>b\<close>.
\<close>

fun lev_cells :: "char \<Rightarrow> string \<Rightarrow> nat list \<Rightarrow> nat \<Rightarrow> nat list" where
  "lev_cells x (y # ys) (p # q # ps) left =
     (let cost = (if x = y then 0 else 1); c = min (min (q + 1) (left + 1)) (p + cost)
      in c # lev_cells x ys (q # ps) c)"
| "lev_cells x _ _ left = []"

fun lev_rows :: "string \<Rightarrow> nat \<Rightarrow> string \<Rightarrow> nat list \<Rightarrow> nat list" where
  "lev_rows [] i b prev = prev"
| "lev_rows (x # xs) i b prev = lev_rows xs (i + 1) b (i # lev_cells x b prev i)"

definition levenshtein :: "string \<Rightarrow> string \<Rightarrow> nat" where
  "levenshtein a b = lev_rows a 1 b [0..<length b + 1] ! length b"

text \<open>The reference: one edit inserts, deletes or replaces one byte somewhere.\<close>

inductive edit_step :: "string \<Rightarrow> string \<Rightarrow> bool" where
  ins: "edit_step s (y # s)"
| del: "edit_step (x # s) s"
| repl: "edit_step (x # s) (y # s)"
| there: "edit_step s t \<Longrightarrow> edit_step (x # s) (x # t)"

fun edit_distance :: "string \<Rightarrow> string \<Rightarrow> nat" where
  "edit_distance [] ys = length ys"
| "edit_distance xs [] = length xs"
| "edit_distance (x # xs) (y # ys) =
     min (min (edit_distance xs (y # ys) + 1) (edit_distance (x # xs) ys + 1))
         (edit_distance xs ys + (if x = y then 0 else 1))"

lemma edit_distance_Nil2 [simp]: "edit_distance xs [] = length xs"
  by (cases xs) auto

lemma edit_distance_self [simp]: "edit_distance xs xs = 0"
  by (induction xs) auto

lemma edit_distance_Cons1: "edit_distance (x # xs) ys \<le> edit_distance xs ys + 1"
  by (cases ys) auto

lemma edit_distance_ins: "edit_distance xs (y # ys) \<le> edit_distance xs ys + 1"
  by (cases xs) auto

lemma edit_distance_del: "edit_distance xs ys \<le> edit_distance xs (y # ys) + 1"
proof (induction xs)
  case (Cons x xs)
  then show ?case using edit_distance_Cons1 [of x xs ys] by (auto simp: min_def)
qed simp

lemma edit_distance_repl: "edit_distance xs (y # ys) \<le> edit_distance xs (z # ys) + 1"
  by (induction xs) (auto simp: min_def)

lemma edit_distance_step: "edit_step s t \<Longrightarrow> edit_distance xs t \<le> edit_distance xs s + 1"
proof (induction arbitrary: xs rule: edit_step.induct)
  case (there s t x)
  show ?case
  proof (induction xs)
    case Nil
    from there.IH [of "[]"] show ?case by simp
  next
    case (Cons z zs)
    with there.IH [of zs] there.IH [of "z # zs"] show ?case by (auto simp: min_def)
  qed
qed (rule edit_distance_ins edit_distance_del edit_distance_repl)+

lemma edit_distance_least: "(edit_step ^^ n) s t \<Longrightarrow> edit_distance s t \<le> n"
proof (induction n arbitrary: t)
  case (Suc n)
  then obtain u where "(edit_step ^^ n) s u" and "edit_step u t" by (auto elim: relpowp_Suc_E)
  with Suc.IH [of u] edit_distance_step [of u t s] show ?case by simp
qed simp

lemma edits_there: "(edit_step ^^ n) s t \<Longrightarrow> (edit_step ^^ n) (x # s) (x # t)"
proof (induction n arbitrary: t)
  case (Suc n)
  then obtain u where "(edit_step ^^ n) s u" and "edit_step u t" by (auto elim: relpowp_Suc_E)
  with Suc.IH [of u] show ?case by (auto intro: relpowp_Suc_I edit_step.there)
qed simp

lemma edits_insert_all: "(edit_step ^^ length ys) [] ys"
  by (induction ys) (auto intro: relpowp_Suc_I edit_step.ins)

lemma edits_delete_all: "(edit_step ^^ length xs) xs []"
proof (induction xs)
  case (Cons x xs)
  from relpowp_Suc_I2 [OF edit_step.del Cons.IH] show ?case by simp
qed simp

lemma edit_distance_reached: "(edit_step ^^ edit_distance s t) s t"
proof (induction s t rule: edit_distance.induct)
  case (1 ys)
  show ?case by (simp add: edits_insert_all)
next
  case (2 x xs)
  show ?case using edits_delete_all [of "x # xs"] by simp
next
  case (3 x xs y ys)
  have del: "(edit_step ^^ (edit_distance xs (y # ys) + 1)) (x # xs) (y # ys)"
    using 3(1) by (simp only: Suc_eq_plus1 [symmetric]) (rule relpowp_Suc_I2, rule edit_step.del, assumption)
  have ins: "(edit_step ^^ (edit_distance (x # xs) ys + 1)) (x # xs) (y # ys)"
    using 3(2) by (simp only: Suc_eq_plus1 [symmetric]) (rule relpowp_Suc_I, assumption, rule edit_step.ins)
  have keep: "(edit_step ^^ (edit_distance xs ys + (if x = y then 0 else 1))) (x # xs) (y # ys)"
    using edits_there [OF 3(3), of y] relpowp_Suc_I2 [OF edit_step.repl [of x xs y] edits_there [OF 3(3), of y]]
    by (simp del: relpowp.simps)
  show ?case using del ins keep by (simp only: edit_distance.simps min_def split: if_splits) auto
qed

text \<open>A row of the table holds the distances of one prefix of \<open>a\<close> to the prefixes of \<open>b\<close>;
  the distance is computed on the reversed texts, whose heads are the last bytes.\<close>

definition lev_row :: "string \<Rightarrow> string \<Rightarrow> string \<Rightarrow> nat list" where
  "lev_row ra pre b = map (\<lambda>j. edit_distance ra (rev (pre @ take j b))) [0..<length b + 1]"

lemma lev_row_Nil: "lev_row ra pre [] = [edit_distance ra (rev pre)]"
  by (simp add: lev_row_def)

lemma lev_row_Cons: "lev_row ra pre (y # b) = edit_distance ra (rev pre) # lev_row ra (pre @ [y]) b"
  by (simp add: lev_row_def upt_conv_Cons map_Suc_upt [symmetric] comp_def del: upt_Suc)

lemma lev_row_ne: "lev_row ra pre b = edit_distance ra (rev pre) # tl (lev_row ra pre b)"
  by (cases b) (simp_all add: lev_row_Nil lev_row_Cons)

lemma lev_cells_row:
  "left = edit_distance (x # ra) (rev pre) \<Longrightarrow>
     left # lev_cells x b (lev_row ra pre b) left = lev_row (x # ra) pre b"
proof (induction b arbitrary: pre left)
  case Nil
  then show ?case by (simp add: lev_row_Nil)
next
  case (Cons y b)
  define c where "c = edit_distance (x # ra) (rev (pre @ [y]))"
  obtain ps where ps: "lev_row ra (pre @ [y]) b = edit_distance ra (rev (pre @ [y])) # ps"
    using lev_row_ne by blast
  have "lev_cells x (y # b) (lev_row ra pre (y # b)) left = c # lev_cells x b (lev_row ra (pre @ [y]) b) c"
    unfolding lev_row_Cons ps by (simp add: Let_def c_def Cons.prems)
  with Cons.IH [of c "pre @ [y]"] Cons.prems show ?case by (simp add: c_def lev_row_Cons)
qed

lemma lev_rows_row:
  "lev_rows xs (length ra + 1) b (lev_row ra [] b) = lev_row (rev xs @ ra) [] b"
proof (induction xs arbitrary: ra)
  case (Cons x xs)
  have "(length ra + 1) # lev_cells x b (lev_row ra [] b) (length ra + 1) = lev_row (x # ra) [] b"
    by (rule lev_cells_row) simp
  with Cons.IH [of "x # ra"] show ?case by simp
qed simp

lemma levenshtein_reversed: "levenshtein a b = edit_distance (rev a) (rev b)"
proof -
  have "lev_row [] [] b = [0..<length b + 1]"
    by (auto simp: lev_row_def intro!: nth_equalityI)
  with lev_rows_row [of a "[]" b] have "lev_rows a 1 b [0..<length b + 1] = lev_row (rev a) [] b" by simp
  then show ?thesis by (simp add: levenshtein_def lev_row_def nth_append del: upt_Suc)
qed

text \<open>Edits of the reversed texts are edits of the texts.\<close>

lemma edit_step_append: "edit_step s t \<Longrightarrow> edit_step (u @ s) (u @ t)"
  by (induction u) (auto intro: edit_step.there)

lemma edit_step_rev: "edit_step s t \<Longrightarrow> edit_step (rev s) (rev t)"
proof (induction rule: edit_step.induct)
  case (there s t x)
  have "edit_step u v \<Longrightarrow> edit_step (u @ w) (v @ w)" for u v w
    by (induction rule: edit_step.induct) (auto intro: edit_step.intros)
  with there.IH show ?case by simp
next
  case (ins s y)
  show ?case using edit_step_append [OF edit_step.ins [of "[]" y], of "rev s"] by simp
next
  case (del x s)
  show ?case using edit_step_append [OF edit_step.del [of x "[]"], of "rev s"] by simp
next
  case (repl x s y)
  show ?case using edit_step_append [OF edit_step.repl [of x "[]" y], of "rev s"] by simp
qed

lemma edits_rev: "(edit_step ^^ n) s t \<Longrightarrow> (edit_step ^^ n) (rev s) (rev t)"
proof (induction n arbitrary: t)
  case (Suc n)
  then obtain u where "(edit_step ^^ n) s u" and "edit_step u t" by (auto elim: relpowp_Suc_E)
  with Suc.IH [of u] show ?case by (auto intro: relpowp_Suc_I edit_step_rev)
qed simp

lemma levenshtein_reached: "(edit_step ^^ levenshtein a b) a b"
  using edits_rev [OF edit_distance_reached [of "rev a" "rev b"]] by (simp add: levenshtein_reversed)

lemma levenshtein_least: "(edit_step ^^ n) a b \<Longrightarrow> levenshtein a b \<le> n"
  unfolding levenshtein_reversed by (intro edit_distance_least edits_rev)

lemma levenshtein_0 [simp]: "levenshtein a b = 0 \<longleftrightarrow> a = b"
  using levenshtein_reached [of a b] levenshtein_least [of 0 a b] by (cases "levenshtein a b") auto

section \<open>Repairing a name\<close>

definition last_part :: "string \<Rightarrow> string" where
  "last_part full = last (split_on CHR ''.'' full)"       \<comment> \<open>\<open>rsplit('.').next()\<close>\<close>

definition suffix_matches :: "string \<Rightarrow> string list \<Rightarrow> string list" where
  "suffix_matches name all_names = filter (\<lambda>full. last_part full = name) all_names"

definition close_matches :: "string \<Rightarrow> nat \<Rightarrow> string list \<Rightarrow> (string \<times> nat) list" where
  "close_matches name bound all_names =
     sort_key snd (filter (\<lambda>(_, d). d \<le> bound) (map (\<lambda>n. (n, levenshtein name n)) all_names))"

definition fixup_tool_name :: "string \<Rightarrow> tool_spec registry \<Rightarrow> string" where
  "fixup_tool_name name specs =
     (if reg_get_latest specs name \<noteq> None then name
      else
        let all_names = reg_list specs;
            matches = suffix_matches name all_names
        in if CHR ''.'' \<notin> set name \<and> length matches = 1 then hd matches
           else
             let close = close_matches name 2 all_names
             in if length close = 1 then fst (hd close) else name)"

definition suggest_similar_tools ::
  "string \<Rightarrow> tool_spec registry \<Rightarrow> string list \<Rightarrow> nat \<Rightarrow> nat \<Rightarrow> string list" where
  "suggest_similar_tools name specs allowed limit max_dist =
     map fst (take limit
       (close_matches name max_dist
          (filter (\<lambda>n. is_tool_allowed_by_config n allowed) (reg_list specs))))"

definition current_tools :: "tool_spec registry \<Rightarrow> string list \<Rightarrow> string list" where
  "current_tools specs allowed = sort (filter (\<lambda>n. is_tool_allowed_by_config n allowed) (reg_list specs))"

definition nl :: string where "nl = [CHR 0x0A]"

definition tools_display :: "string list \<Rightarrow> string" where
  "tools_display names =
     (if 10 < length names
      then join '', '' (take 10 names) @ '', ... ('' @ show_nat (length names - 10)
           @ '' more, use tools.discover for full list)''
      else join '', '' names)"

definition tool_not_allowed_message :: "string \<Rightarrow> tool_spec registry \<Rightarrow> string list \<Rightarrow> string" where
  "tool_not_allowed_message name specs allowed =
     (let display = tools_display (current_tools specs allowed);
          closing = ''Your current tools: '' @ display @ nl @
            ''Re-issue exactly one tool call with a correct tool name, or answer without tools.''
      in if reg_get_latest specs name \<noteq> None
         then ''TOOL ERROR: Tool '' @ [CHR 0x27] @ name @ [CHR 0x27] @ '' is not allowed for this agent.'' @ nl @ closing
         else
           let suggestions = suggest_similar_tools name specs allowed 3 4;
               did_you_mean = (if suggestions \<noteq> []
                 then ''Did you mean: '' @ join '', '' suggestions @ ''?'' @ nl else [])
           in ''TOOL ERROR: Tool '' @ [CHR 0x27] @ name @ [CHR 0x27] @ '' does not exist.'' @ nl
              @ did_you_mean @ closing)"

lemma close_matches_set:
  "(n, d) \<in> set (close_matches name bound all_names) \<longleftrightarrow>
     n \<in> set all_names \<and> d = levenshtein name n \<and> d \<le> bound"
  by (auto simp: close_matches_def)

text \<open>Whatever the order of the registry, the repair gives the same name.\<close>

lemma single_mset: "mset xs = mset ys \<Longrightarrow> length xs = 1 \<Longrightarrow> xs = ys"
  by (cases xs) (auto simp: length_Suc_conv dest: mset_eq_length)

lemma fixup_order:
  assumes names: "mset (reg_list specs) = mset (reg_list specs')"
    and latest: "reg_get_latest specs name = reg_get_latest specs' name"
  shows "fixup_tool_name name specs = fixup_tool_name name specs'"
proof -
  have m: "mset (suffix_matches name (reg_list specs)) = mset (suffix_matches name (reg_list specs'))"
    by (simp add: suffix_matches_def names)
  have c: "mset (close_matches name 2 (reg_list specs)) = mset (close_matches name 2 (reg_list specs'))"
    by (simp add: close_matches_def names)
  show ?thesis
    using single_mset [OF m] single_mset [OF c] mset_eq_length [OF m] mset_eq_length [OF c] latest
    by (auto simp: fixup_tool_name_def Let_def)
qed

lemma fixup_registered: "reg_get_latest specs name \<noteq> None \<Longrightarrow> fixup_tool_name name specs = name"
  by (simp add: fixup_tool_name_def)

lemma hd_in_set_1: "length xs = 1 \<Longrightarrow> hd xs \<in> set xs"
  by (cases xs) auto

text \<open>A repaired name is the name itself or a registered one.\<close>

lemma fixup_cases:
  obtains "fixup_tool_name name specs = name"
  | "fixup_tool_name name specs \<in> set (reg_list specs)"
    and "last_part (fixup_tool_name name specs) = name \<or> levenshtein name (fixup_tool_name name specs) \<le> 2"
proof -
  let ?m = "suffix_matches name (reg_list specs)" and ?c = "close_matches name 2 (reg_list specs)"
  consider "fixup_tool_name name specs = name"
    | "fixup_tool_name name specs = hd ?m" "length ?m = 1"
    | "fixup_tool_name name specs = fst (hd ?c)" "length ?c = 1"
    unfolding fixup_tool_name_def Let_def by metis
  then show thesis
  proof cases
    case 1
    then show thesis by (rule that(1))
  next
    case 2
    with hd_in_set_1 [of ?m] show thesis by (intro that(2)) (auto simp: suffix_matches_def)
  next
    case 3
    then have "fst (hd ?c) \<in> set (reg_list specs) \<and> levenshtein name (fst (hd ?c)) \<le> 2"
      using hd_in_set_1 [of ?c] close_matches_set [of "fst (hd ?c)" "snd (hd ?c)" name 2 "reg_list specs"]
      by (metis prod.collapse)
    with 3 show thesis by (intro that(2)) auto
  qed
qed

section \<open>Budgets\<close>

text \<open>
  \<open>check_per_tool_budget\<close>: count the call, then compare with the policy of the latest
  version. A tool that is not registered has no limit here.
\<close>

type_synonym call_counts = "string \<Rightarrow> nat"

definition check_per_tool_budget ::
  "string \<Rightarrow> call_counts \<Rightarrow> tool_spec registry \<Rightarrow> string option \<times> call_counts" where
  "check_per_tool_budget tool counts specs =
     (let n = counts tool + 1; counts' = counts(tool := n)
      in case reg_get_latest specs tool of
           None \<Rightarrow> (None, counts')
         | Some spec \<Rightarrow>
             if max_calls_per_run (policy spec) < n
             then (Some (''tool '' @ [CHR 0x27] @ tool @ [CHR 0x27] @ '' exceeded per-run call limit (''
                     @ show_nat n @ ''/'' @ show_nat (max_calls_per_run (policy spec)) @ '')''), counts')
             else (None, counts'))"

definition MAX_CONSECUTIVE_ERRORS :: nat where "MAX_CONSECUTIVE_ERRORS = 3"

type_synonym memory_pairs = "(string \<times> string) list"

definition append_error_budget_warning :: "string \<Rightarrow> nat \<Rightarrow> memory_pairs \<Rightarrow> bool \<Rightarrow> string" where
  "append_error_budget_warning msg errors memory is_local =
     msg
     @ (if MAX_CONSECUTIVE_ERRORS \<le> errors
        then nl @ ''You have failed '' @ show_nat errors @ '' consecutive tool calls. ''
             @ ''Provide your best answer using the information you already have, without calling any more tools.''
        else [])
     @ (if is_local
        then (case map_of memory ''goal'' of
                Some goal \<Rightarrow> nl @ ''Your original task: '' @ goal
              | None \<Rightarrow> [])
        else [])"

lemma budget_passed:
  assumes "check_per_tool_budget tool counts specs = (None, counts')"
  shows "counts' = counts(tool := counts tool + 1)"
    and "reg_get_latest specs tool = Some spec \<Longrightarrow> counts' tool \<le> max_calls_per_run (policy spec)"
  using assms by (auto simp: check_per_tool_budget_def Let_def split: option.splits if_splits)

lemma budget_counts: "snd (check_per_tool_budget tool counts specs) = counts(tool := counts tool + 1)"
  by (auto simp: check_per_tool_budget_def Let_def split: option.splits)

end
