(* ===== verification/Chat.thy ===== *)
theory Chat
  imports Json "HOL-Library.Char_ord" "HOL-Library.List_Lexorder"
begin

text \<open>
  The conversation: chat messages (\<open>af-core/src/llm_types.rs\<close>), their estimated size
  (\<open>af-llm/src/request.rs\<close>), the message table (\<open>af-db/src/messages.rs\<close>), the memory of
  a thread (\<open>af-agents/src/thread_memory.rs\<close>, \<open>af-db/src/thread_memory.rs\<close>) and the
  reading of the stored history into messages (\<open>af-agents/src/prompt_builder.rs\<close>).

  Token counts are \<open>u32\<close>: they wrap, as the release build does.
\<close>

section \<open>Messages\<close>

datatype chat_role = RSystem | RUser | RAssistant | RTool

fun role_str :: "chat_role \<Rightarrow> string" where
  "role_str RSystem = ''system''"
| "role_str RUser = ''user''"
| "role_str RAssistant = ''assistant''"
| "role_str RTool = ''tool''"

record tool_call_info =
  tc_id :: string
  tc_name :: string
  tc_arguments :: json

datatype content_part = PText string | PImage (image_data: string) (media_type: string)

record chat_message =
  role :: chat_role
  content :: string
  tool_call_id :: "string option"
  cm_name :: "string option"
  tool_calls :: "tool_call_info list"
  content_parts :: "content_part list option"

definition plain :: "chat_role \<Rightarrow> string \<Rightarrow> chat_message" where
  "plain r s = \<lparr>role = r, content = s, tool_call_id = None, cm_name = None, tool_calls = [],
                content_parts = None\<rparr>"

definition tool_message :: "string \<Rightarrow> string \<Rightarrow> string \<Rightarrow> chat_message" where
  "tool_message s call_id tool =
     \<lparr>role = RTool, content = s, tool_call_id = Some call_id, cm_name = Some tool, tool_calls = [],
      content_parts = None\<rparr>"

definition assistant_message :: "string \<Rightarrow> tool_call_info list \<Rightarrow> chat_message" where
  "assistant_message s calls =
     \<lparr>role = RAssistant, content = s, tool_call_id = None, cm_name = None, tool_calls = calls,
      content_parts = None\<rparr>"

lemma message_simps [simp]:
  "role (plain r s) = r" "content (plain r s) = s" "tool_calls (plain r s) = []"
  "role (tool_message s i t) = RTool" "tool_calls (tool_message s i t) = []"
  "content (tool_message s i t) = s"
  "role (assistant_message s cs) = RAssistant" "tool_calls (assistant_message s cs) = cs"
  "content (assistant_message s cs) = s"
  by (simp_all add: plain_def tool_message_def assistant_message_def)

definition has_parts :: "chat_message \<Rightarrow> bool" where
  "has_parts m = (case content_parts m of None \<Rightarrow> False | Some ps \<Rightarrow> ps \<noteq> [])"

text \<open>\<open>len() as u32\<close>.\<close>

definition len32 :: "string \<Rightarrow> u32" where
  "len32 s = of_nat (length s)"

fun part_tokens :: "content_part \<Rightarrow> u32" where
  "part_tokens (PText s) = len32 s div 4"
| "part_tokens (PImage d t) = 516"

definition estimate_content_tokens :: "chat_message \<Rightarrow> u32" where
  "estimate_content_tokens m = (case content_parts m of
      Some parts \<Rightarrow> sum_list (map part_tokens parts)
    | None \<Rightarrow> len32 (content m) div 4)"

record tool_description =
  td_name :: string
  td_description :: string
  td_parameters :: json

text \<open>
  \<open>estimate_tokens\<close>. The serialiser of \<open>serde_json\<close> is a parameter, as everywhere.
\<close>

definition call_tokens :: "(json \<Rightarrow> string) \<Rightarrow> tool_call_info \<Rightarrow> u32" where
  "call_tokens ser tc = (len32 (tc_name tc) div 4 + 4) + len32 (ser (tc_arguments tc)) div 4"

definition message_tokens :: "(json \<Rightarrow> string) \<Rightarrow> chat_message \<Rightarrow> u32" where
  "message_tokens ser m =
     (estimate_content_tokens m + 4)
     + sum_list (map (call_tokens ser) (tool_calls m))
     + (if role m = RTool
        then (case cm_name m of Some n \<Rightarrow> len32 n div 4 + 2 | None \<Rightarrow> 0)
        else 0)"

definition description_tokens :: "(json \<Rightarrow> string) \<Rightarrow> tool_description \<Rightarrow> u32" where
  "description_tokens ser t =
     (len32 (td_name t) div 4 + 2) + len32 (td_description t) div 4
     + len32 (ser (td_parameters t)) div 4 + 10"

definition estimate_tokens :: "(json \<Rightarrow> string) \<Rightarrow> chat_message list \<Rightarrow> tool_description list \<Rightarrow> u32" where
  "estimate_tokens ser messages tools =
     sum_list (map (message_tokens ser) messages) + sum_list (map (description_tokens ser) tools)"

lemma estimate_tokens_append:
  "estimate_tokens ser (xs @ ys) tools = sum_list (map (message_tokens ser) xs) + estimate_tokens ser ys tools"
  by (simp add: estimate_tokens_def add.assoc)

section \<open>The message table\<close>

text \<open>
  A row, with the column \<open>compacted\<close> that no query returns. \<open>seq\<close> is drawn from a
  sequence that all threads share.
\<close>

record message_row =
  msg_id :: uuid
  msg_thread :: uuid
  msg_role :: string
  msg_content :: "string option"
  msg_json :: "json option"
  msg_call_id :: "string option"
  msg_tool_name :: "string option"
  msg_agent :: "string option"
  msg_seq :: int
  msg_created :: instant
  msg_compacted :: bool

record message_db =
  message_rows :: "message_row list"
  last_seq :: int          \<comment> \<open>the last value of the sequence\<close>

definition insert_tool_message_with_agent ::
  "uuid \<Rightarrow> instant \<Rightarrow> uuid \<Rightarrow> string \<Rightarrow> string option \<Rightarrow> json option \<Rightarrow> string option \<Rightarrow> string option \<Rightarrow>
     string option \<Rightarrow> message_db \<Rightarrow> message_row \<times> message_db" where
  "insert_tool_message_with_agent fresh now thread r text js call_id tool agent db =
     (let row = \<lparr>msg_id = fresh, msg_thread = thread, msg_role = r, msg_content = text, msg_json = js,
                 msg_call_id = call_id, msg_tool_name = tool, msg_agent = agent,
                 msg_seq = last_seq db + 1, msg_created = now, msg_compacted = False\<rparr>
      in (row, db\<lparr>message_rows := message_rows db @ [row], last_seq := last_seq db + 1\<rparr>))"

definition insert_tool_message where
  "insert_tool_message fresh now thread r text js call_id tool db =
     insert_tool_message_with_agent fresh now thread r text js call_id tool None db"

definition insert_message_with_agent where
  "insert_message_with_agent fresh now thread r text js agent db =
     insert_tool_message_with_agent fresh now thread r text js None None agent db"

definition insert_message where
  "insert_message fresh now thread r text js db =
     insert_message_with_agent fresh now thread r text js None db"

definition get_thread_messages :: "uuid \<Rightarrow> message_db \<Rightarrow> message_row list" where
  "get_thread_messages thread db =
     sort_key msg_seq (filter (\<lambda>r. msg_thread r = thread) (message_rows db))"

definition get_thread_messages_compacted :: "uuid \<Rightarrow> message_db \<Rightarrow> message_row list" where
  "get_thread_messages_compacted thread db =
     sort_key msg_seq (filter (\<lambda>r. msg_thread r = thread \<and> \<not> msg_compacted r) (message_rows db))"

definition get_new_user_messages_since :: "uuid \<Rightarrow> int \<Rightarrow> message_db \<Rightarrow> message_row list" where
  "get_new_user_messages_since thread since db =
     sort_key msg_seq (filter (\<lambda>r. msg_thread r = thread \<and> since < msg_seq r \<and>
        msg_role r = ''user'' \<and> \<not> msg_compacted r) (message_rows db))"

definition mark_hits :: "uuid \<Rightarrow> int \<Rightarrow> message_row \<Rightarrow> bool" where
  "mark_hits thread up_to r \<longleftrightarrow>
     msg_thread r = thread \<and> msg_seq r \<le> up_to \<and> msg_role r \<noteq> ''system'' \<and> \<not> msg_compacted r"

definition mark_messages_compacted :: "uuid \<Rightarrow> int \<Rightarrow> message_db \<Rightarrow> nat \<times> message_db" where
  "mark_messages_compacted thread up_to db =
     (length (filter (mark_hits thread up_to) (message_rows db)),
      db\<lparr>message_rows := map (\<lambda>r. if mark_hits thread up_to r then r\<lparr>msg_compacted := True\<rparr> else r)
                             (message_rows db)\<rparr>)"

definition insert_compaction_summary ::
  "uuid \<Rightarrow> instant \<Rightarrow> uuid \<Rightarrow> string \<Rightarrow> nat \<Rightarrow> int \<Rightarrow> string option \<Rightarrow> message_db \<Rightarrow> message_row \<times> message_db" where
  "insert_compaction_summary fresh now thread summary count up_to agent db =
     insert_message_with_agent fresh now thread ''system'' (Some summary)
       (Some (JObj [(''compaction_summary'', JBool True), (''compacted_count'', JInt (int count)),
                    (''compacted_up_to_seq'', JInt up_to)])) agent db"

text \<open>Sequence numbers are distinct and below the counter.\<close>

definition messages_wf :: "message_db \<Rightarrow> bool" where
  "messages_wf db \<longleftrightarrow>
     distinct (map msg_seq (message_rows db)) \<and> (\<forall>r \<in> set (message_rows db). msg_seq r \<le> last_seq db)"

lemma insert_wf:
  "messages_wf db \<Longrightarrow> messages_wf (snd (insert_tool_message_with_agent f n th r t j c tn a db))"
  by (fastforce simp: messages_wf_def insert_tool_message_with_agent_def Let_def)

lemma mark_seq: "map msg_seq (message_rows (snd (mark_messages_compacted th u db))) = map msg_seq (message_rows db)"
  by (simp add: mark_messages_compacted_def comp_def if_distrib [of msg_seq] cong: if_cong)

lemma mark_wf: "messages_wf db \<Longrightarrow> messages_wf (snd (mark_messages_compacted th u db))"
  using mark_seq [of th u db]
  by (auto simp: messages_wf_def) (auto simp: mark_messages_compacted_def)

text \<open>What is left for the next prompt once the rows up to a number are marked.\<close>

lemma history_after_mark:
  "get_thread_messages_compacted th (snd (mark_messages_compacted th u db)) =
     filter (\<lambda>r. u < msg_seq r \<or> msg_role r = ''system'') (get_thread_messages_compacted th db)"
proof -
  have "filter (\<lambda>r. msg_thread r = th \<and> \<not> msg_compacted r)
          (map (\<lambda>r. if mark_hits th u r then r\<lparr>msg_compacted := True\<rparr> else r) rs)
        = filter (\<lambda>r. u < msg_seq r \<or> msg_role r = ''system'')
            (filter (\<lambda>r. msg_thread r = th \<and> \<not> msg_compacted r) rs)" for rs
    by (induction rs) (auto simp: mark_hits_def)
  then show ?thesis
    by (simp add: get_thread_messages_compacted_def mark_messages_compacted_def filter_sort)
qed

section \<open>The memory of a thread\<close>

definition MAX_ENTRY_VALUE_LEN :: nat where "MAX_ENTRY_VALUE_LEN = 256"
definition MAX_HIGH_VALUE_ENTRY_LEN :: nat where "MAX_HIGH_VALUE_ENTRY_LEN = 512"
definition MAX_MEMORY_SIZE :: nat where "MAX_MEMORY_SIZE = 2048"

definition HIGH_VALUE_TOOLS :: "string list" where
  "HIGH_VALUE_TOOLS = [''ghidra.decompile'', ''sandbox.trace'', ''sandbox.hook'', ''yara.generate'']"

record memory_entry =
  key :: string
  val :: string

text \<open>\<open>floor_char_boundary\<close>: the last position not after \<open>i\<close> that does not lie inside a
  UTF-8 sequence.\<close>

definition is_char_boundary :: "string \<Rightarrow> nat \<Rightarrow> bool" where
  "is_char_boundary s i \<longleftrightarrow>
     (let b = (of_char (s ! i) :: nat) in \<not> (128 \<le> b \<and> b < 192))"

fun boundary_below :: "string \<Rightarrow> nat \<Rightarrow> nat" where
  "boundary_below s 0 = 0"
| "boundary_below s (Suc i) = (if is_char_boundary s (Suc i) then Suc i else boundary_below s i)"

definition floor_char_boundary :: "string \<Rightarrow> nat \<Rightarrow> nat" where
  "floor_char_boundary s i = (if length s \<le> i then length s else boundary_below s i)"

definition truncate_value_with_cap :: "string \<Rightarrow> nat \<Rightarrow> string" where
  "truncate_value_with_cap text0 cap =
     (let s = trim text0
      in if length s \<le> cap then s else take (floor_char_boundary s cap) s @ ''...'')"

definition truncate_value :: "string \<Rightarrow> string" where
  "truncate_value s = truncate_value_with_cap s MAX_ENTRY_VALUE_LEN"

definition memory_key :: "string \<Rightarrow> string option" where
  "memory_key tool =
     map_of [(''rizin.bininfo'', ''finding:rizin_bininfo''), (''file.info'', ''finding:file_info''),
             (''ghidra.analyze'', ''finding:ghidra_analyze''), (''ghidra.decompile'', ''finding:ghidra_decompile''),
             (''strings.extract'', ''finding:strings''), (''file.strings'', ''finding:strings''),
             (''sandbox.trace'', ''finding:sandbox_trace''), (''sandbox.hook'', ''finding:sandbox_hook''),
             (''vt.file_report'', ''finding:vtotal''), (''file.grep'', ''finding:grep''),
             (''rizin.disasm'', ''finding:rizin_disasm''), (''rizin.xrefs'', ''finding:rizin_xrefs''),
             (''file.hexdump'', ''finding:hexdump''), (''yara.scan'', ''finding:yara_scan''),
             (''yara.test'', ''finding:yara_test''), (''yara.generate'', ''finding:yara_generate'')] tool"

definition navigational_tools :: "string list" where
  "navigational_tools =
     [''file.read_range'', ''embed.search'', ''embed.text'', ''embed.list'', ''meta.read_thread'',
      ''meta.list_agents'', ''meta.list_artifacts'', ''meta.read_artifact'', ''dedup.prior_analysis'']"

definition extract_from_tool_result :: "string \<Rightarrow> string \<Rightarrow> memory_entry list" where
  "extract_from_tool_result tool result =
     (case memory_key tool of
        None \<Rightarrow>
          if tool \<in> set navigational_tools then []
          else
            let safe_name = map (\<lambda>c. if c = CHR ''.'' then CHR ''_'' else c) tool;
                v = truncate_value_with_cap result MAX_ENTRY_VALUE_LEN
            in if v = [] then [] else [\<lparr>key = ''finding:'' @ safe_name, val = v\<rparr>]
      | Some k \<Rightarrow>
          let cap = (if tool \<in> set HIGH_VALUE_TOOLS then MAX_HIGH_VALUE_ENTRY_LEN else MAX_ENTRY_VALUE_LEN);
              v = truncate_value_with_cap result cap
          in if v = [] then [] else [\<lparr>key = k, val = v\<rparr>])"

definition extract_goal :: "string \<Rightarrow> memory_entry option" where
  "extract_goal first_user_message =
     (let v = truncate_value first_user_message in if v = [] then None else Some \<lparr>key = ''goal'', val = v\<rparr>)"

definition extract_latest_request :: "string \<Rightarrow> memory_entry option" where
  "extract_latest_request user_message =
     (let v = truncate_value user_message in if v = [] then None else Some \<lparr>key = ''latest_request'', val = v\<rparr>)"

definition extract_conclusion :: "string \<Rightarrow> memory_entry" where
  "extract_conclusion final_text = \<lparr>key = ''conclusion'', val = truncate_value final_text\<rparr>"

text \<open>
  \<open>render_memory\<close>. The keys of the findings are compared byte by byte; the loop over the
  findings stops at the first line that would pass the size limit.
\<close>

definition newline :: string where "newline = [CHR 0x0A]"

definition finding_line :: "string \<times> string \<Rightarrow> string" where
  "finding_line kv = ''- '' @ fst kv @ '': '' @ snd kv @ newline"

fun push_findings :: "(string \<times> string) list \<Rightarrow> string \<Rightarrow> string" where
  "push_findings [] result = result"
| "push_findings (kv # kvs) result =
     (if MAX_MEMORY_SIZE < length result + length (finding_line kv) then result
      else push_findings kvs (result @ finding_line kv))"

definition findings_of :: "(string \<times> string) list \<Rightarrow> (string \<times> string) list" where
  "findings_of entries =
     sort_key fst (map (\<lambda>(k, v). (drop (length ''finding:'') k, v))
       (filter (\<lambda>(k, v). starts_with ''finding:'' k) entries))"

definition memory_line :: "string \<Rightarrow> string option \<Rightarrow> string" where
  "memory_line label v = (case v of None \<Rightarrow> [] | Some v \<Rightarrow> label @ v @ newline)"

definition memory_header :: "(string \<times> string) list \<Rightarrow> string" where
  "memory_header entries =
     ''[Thread Memory]'' @ newline
     @ memory_line ''TASK: '' (map_of entries ''goal'')
     @ memory_line ''CURRENT: '' (map_of entries ''latest_request'')"

definition memory_body :: "(string \<times> string) list \<Rightarrow> string" where
  "memory_body entries =
     (let findings = findings_of entries
      in if findings \<noteq> []
         then push_findings findings (memory_header entries @ newline @ ''FINDINGS:'' @ newline)
         else memory_header entries)"

definition memory_footer :: "(string \<times> string) list \<Rightarrow> string" where
  "memory_footer entries =
     (case map_of entries ''conclusion'' of
        None \<Rightarrow> [] | Some c \<Rightarrow> newline @ ''CONCLUSION: '' @ c @ newline)
     @ newline @ ''Use these findings. Do not repeat completed work.''"

definition render_memory :: "(string \<times> string) list \<Rightarrow> string" where
  "render_memory entries = (if entries = [] then [] else memory_body entries @ memory_footer entries)"

text \<open>The table: one value per thread and key. The rows come back in the order of the
  database's collation, given by its sort key.\<close>

type_synonym memory_table = "(uuid \<times> string \<times> string) list"

definition upsert_memory :: "uuid \<Rightarrow> string \<Rightarrow> string \<Rightarrow> memory_table \<Rightarrow> memory_table" where
  "upsert_memory thread k v t =
     (if \<exists>r \<in> set t. fst r = thread \<and> fst (snd r) = k
      then map (\<lambda>r. if fst r = thread \<and> fst (snd r) = k then (thread, k, v) else r) t
      else t @ [(thread, k, v)])"

definition get_thread_memory :: "(string \<Rightarrow> string) \<Rightarrow> uuid \<Rightarrow> memory_table \<Rightarrow> (string \<times> string) list" where
  "get_thread_memory collation thread t =
     sort_key (collation \<circ> fst) (map snd (filter (\<lambda>r. fst r = thread) t))"

definition delete_thread_memory :: "uuid \<Rightarrow> memory_table \<Rightarrow> nat \<times> memory_table" where
  "delete_thread_memory thread t =
     (length (filter (\<lambda>r. fst r = thread) t), filter (\<lambda>r. fst r \<noteq> thread) t)"

text \<open>\<open>build_memory_message\<close>.\<close>

definition build_memory_message :: "(string \<times> string) list \<Rightarrow> chat_message option" where
  "build_memory_message entries =
     (if entries = [] then None
      else let rendered = render_memory entries
           in if rendered = [] then None else Some (plain RUser rendered))"

lemma push_findings_grows: "\<exists>t. push_findings kvs s = s @ t"
  by (induction kvs s rule: push_findings.induct) auto

lemma memory_body_header: "\<exists>t. memory_body entries = memory_header entries @ t"
  using push_findings_grows [of "findings_of entries" "memory_header entries @ newline @ ''FINDINGS:'' @ newline"]
  by (auto simp: memory_body_def Let_def)

lemma render_memory_starts:
  assumes "entries \<noteq> []"
  shows "\<exists>t. render_memory entries = ''[Thread Memory]'' @ t"
proof -
  obtain t where "memory_body entries = memory_header entries @ t" using memory_body_header by blast
  with assms have "render_memory entries = ''[Thread Memory]'' @ newline
      @ memory_line ''TASK: '' (map_of entries ''goal'')
      @ memory_line ''CURRENT: '' (map_of entries ''latest_request'') @ t @ memory_footer entries"
    by (simp add: render_memory_def memory_header_def)
  then show ?thesis by blast
qed

lemma build_memory_message_Some:
  "entries \<noteq> [] \<Longrightarrow> \<exists>m. build_memory_message entries = Some m \<and> role m = RUser \<and>
     starts_with ''[Thread Memory'' (content m)"
proof -
  assume "entries \<noteq> []"
  then obtain t where "render_memory entries = ''[Thread Memory]'' @ t"
    using render_memory_starts by blast
  then show ?thesis
    using \<open>entries \<noteq> []\<close> by (simp add: build_memory_message_def starts_with_def)
qed

lemma build_memory_message_None: "build_memory_message entries = None \<longleftrightarrow> entries = []"
  using build_memory_message_Some [of entries] by (cases "entries = []") (auto simp: build_memory_message_def)

text \<open>How long the values and the rendering get.\<close>

lemma boundary_below_le: "boundary_below s i \<le> i"
  by (induction i) auto

lemma truncate_length: "length (truncate_value_with_cap s cap) \<le> cap + 3"
  using boundary_below_le [of "trim s" cap]
  by (auto simp: truncate_value_with_cap_def Let_def floor_char_boundary_def)

lemma extracted_length:
  "e \<in> set (extract_from_tool_result tool result) \<Longrightarrow> length (val e) \<le> MAX_HIGH_VALUE_ENTRY_LEN + 3"
  using truncate_length [of result MAX_HIGH_VALUE_ENTRY_LEN] truncate_length [of result MAX_ENTRY_VALUE_LEN]
  by (auto simp: extract_from_tool_result_def Let_def MAX_HIGH_VALUE_ENTRY_LEN_def MAX_ENTRY_VALUE_LEN_def
      split: option.splits if_splits)

lemma truncate_value_length: "length (truncate_value s) \<le> 259"
  using truncate_length [of s MAX_ENTRY_VALUE_LEN] by (simp add: truncate_value_def MAX_ENTRY_VALUE_LEN_def)

lemma push_findings_length:
  "length s \<le> MAX_MEMORY_SIZE \<Longrightarrow> length (push_findings kvs s) \<le> MAX_MEMORY_SIZE"
  by (induction kvs s rule: push_findings.induct) auto

definition entries_capped :: "(string \<times> string) list \<Rightarrow> bool" where
  "entries_capped entries \<longleftrightarrow>
     (\<forall>(k, v) \<in> set entries. k \<in> {''goal'', ''latest_request'', ''conclusion''} \<longrightarrow> length v \<le> 259)"

lemma memory_line_length:
  "entries_capped entries \<Longrightarrow> k \<in> {''goal'', ''latest_request''} \<Longrightarrow>
     length (memory_line label (map_of entries k)) \<le> length label + 260"
  by (cases "map_of entries k")
     (auto simp: memory_line_def entries_capped_def newline_def dest!: map_of_SomeD)

lemma memory_header_length:
  assumes "entries_capped entries"
  shows "length (memory_header entries) \<le> 551"
  using memory_line_length [OF assms, of "''goal''" "''TASK: ''"]
    memory_line_length [OF assms, of "''latest_request''" "''CURRENT: ''"]
  by (simp add: memory_header_def newline_def)

lemma render_memory_length:
  assumes "entries_capped entries"
  shows "length (render_memory entries) \<le> MAX_MEMORY_SIZE + 323"
proof -
  have "length (memory_body entries) \<le> MAX_MEMORY_SIZE"
    using memory_header_length [OF assms]
    by (auto simp: memory_body_def Let_def newline_def MAX_MEMORY_SIZE_def
        intro!: push_findings_length [unfolded MAX_MEMORY_SIZE_def])
  moreover have "length (memory_footer entries) \<le> 323"
    using assms by (cases "map_of entries ''conclusion''")
      (auto simp: memory_footer_def newline_def entries_capped_def dest!: map_of_SomeD)
  ultimately show ?thesis by (simp add: render_memory_def)
qed

text \<open>The limit is one on the findings alone: the conclusion comes on top of it.\<close>

lemma render_memory_over_limit:
  "MAX_MEMORY_SIZE < length (render_memory
     (map (\<lambda>i. (''finding:'' @ replicate i CHR ''k'', replicate 230 CHR ''x'')) [0..<10]
      @ [(''conclusion'', replicate 259 CHR ''y'')]))"
  by code_simp

section \<open>From the stored history to messages\<close>

fun tool_call_of_json :: "json \<Rightarrow> tool_call_info option" where
  "tool_call_of_json (JObj kvs) =
     (case (map_of kvs ''id'', map_of kvs ''name'', map_of kvs ''arguments'') of
        (Some (JStr i), Some (JStr n), Some a) \<Rightarrow> Some \<lparr>tc_id = i, tc_name = n, tc_arguments = a\<rparr>
      | _ \<Rightarrow> None)"
| "tool_call_of_json (JArr [JStr i, JStr n, a]) = Some \<lparr>tc_id = i, tc_name = n, tc_arguments = a\<rparr>"
| "tool_call_of_json _ = None"

definition tool_call_json :: "tool_call_info \<Rightarrow> json" where
  "tool_call_json tc =
     JObj [(''id'', JStr (tc_id tc)), (''name'', JStr (tc_name tc)), (''arguments'', tc_arguments tc)]"

lemma tool_call_round_trip: "tool_call_of_json (tool_call_json tc) = Some tc"
  by (simp add: tool_call_json_def)

text \<open>\<open>ContentPart\<close>: the tag is the member \<open>type\<close>.\<close>

definition content_part_of_json :: "json \<Rightarrow> content_part option" where
  "content_part_of_json v =
     (case Option.bind (jget v ''type'') as_str of
        None \<Rightarrow> None
      | Some tag \<Rightarrow>
          if tag = ''text'' then map_option PText (Option.bind (jget v ''text'') as_str)
          else if tag = ''image''
          then (case (Option.bind (jget v ''data'') as_str, Option.bind (jget v ''media_type'') as_str) of
                  (Some d, Some t) \<Rightarrow> Some (PImage d t)
                | _ \<Rightarrow> None)
          else None)"

fun all_some :: "'a option list \<Rightarrow> 'a list option" where
  "all_some [] = Some []"
| "all_some (None # xs) = None"
| "all_some (Some x # xs) = map_option ((#) x) (all_some xs)"

lemma all_some_map: "all_some (map (Some \<circ> f) xs) = Some (map f xs)"
  by (induction xs) auto

definition vec_of_json :: "(json \<Rightarrow> 'a option) \<Rightarrow> json \<Rightarrow> 'a list option" where
  "vec_of_json elem v = Option.bind (as_array v) (\<lambda>xs. all_some (map elem xs))"

definition history_role :: "string \<Rightarrow> chat_role" where
  "history_role r =
     (if r = ''user'' then RUser else if r = ''assistant'' then RAssistant
      else if r = ''tool'' then RTool else if r = ''system'' then RSystem else RUser)"

definition as_bool :: "json \<Rightarrow> bool option" where
  "as_bool v = (case v of JBool b \<Rightarrow> Some b | _ \<Rightarrow> None)"

definition is_compaction_summary :: "message_row \<Rightarrow> bool" where
  "is_compaction_summary row \<longleftrightarrow>
     history_role (msg_role row) = RSystem \<and>
     Option.bind (Option.bind (msg_json row) (\<lambda>v. jget v ''compaction_summary'')) as_bool = Some True"

definition opt_default :: "'a \<Rightarrow> 'a option \<Rightarrow> 'a" where
  "opt_default d x = (case x of None \<Rightarrow> d | Some y \<Rightarrow> y)"

definition row_message :: "message_row \<Rightarrow> chat_message option" where
  "row_message row =
     (let r0 = history_role (msg_role row) in
      if r0 = RSystem \<and> \<not> is_compaction_summary row then None
      else
        let r = (if is_compaction_summary row then RUser else r0);
            calls = (if r = RAssistant
              then opt_default [] (Option.bind (Option.bind (msg_json row) (\<lambda>v. jget v ''tool_calls''))
                                     (vec_of_json tool_call_of_json))
              else []);
            text0 = opt_default [] (msg_content row);
            text = (if r = RAssistant
              then (case msg_agent row of Some a \<Rightarrow> ''['' @ a @ '']: '' @ text0 | None \<Rightarrow> text0)
              else text0);
            parts = Option.bind (Option.bind (msg_json row) (\<lambda>v. jget v ''content_parts''))
                      (vec_of_json content_part_of_json)
        in Some \<lparr>role = r, content = text, tool_call_id = msg_call_id row, cm_name = msg_tool_name row,
                 tool_calls = calls, content_parts = parts\<rparr>)"

definition build_messages_from_history :: "string \<Rightarrow> message_row list \<Rightarrow> chat_message list" where
  "build_messages_from_history system_prompt history =
     plain RSystem system_prompt # List.map_filter row_message history"

lemma row_message_no_system: "row_message row = Some m \<Longrightarrow> role m \<noteq> RSystem"
  by (auto simp: row_message_def Let_def split: if_splits)

text \<open>An assistant row is read back with the calls it was stored with.\<close>

lemma stored_calls_read_back:
  assumes "msg_role row = ''assistant''"
    and "msg_json row = Some (JObj [(''tool_calls'', JArr (map tool_call_json calls))])"
  shows "\<exists>m. row_message row = Some m \<and> role m = RAssistant \<and> tool_calls m = calls"
proof -
  have "vec_of_json tool_call_of_json (JArr (map tool_call_json calls)) = Some calls"
    using all_some_map [of "\<lambda>x. x" calls] by (simp add: vec_of_json_def comp_def tool_call_round_trip)
  with assms show ?thesis
    by (simp add: row_message_def history_role_def is_compaction_summary_def Let_def opt_default_def)
qed

end
