(* ===== verification/ToolArgs.thy ===== *)
theory ToolArgs
  imports ToolNames Chat Resolver
begin

text \<open>
  From the arguments a model wrote to the arguments a tool gets: the repairs, the
  translation of \<open>#N\<close> references and the choice of an artifact of
  \<open>af-agents/src/runtime.rs\<close>, and the artifact section of the system prompt with its
  numbering (\<open>af-agents/src/prompt_builder.rs\<close>).

  An object is a \<open>BTreeMap\<close>: its entries are in the order of the keys. Parameters: the
  identifier parser and printer of the \<open>uuid\<close> crate and the text of a float.
\<close>

section \<open>Objects\<close>

fun obj_insert :: "string \<Rightarrow> json \<Rightarrow> (string \<times> json) list \<Rightarrow> (string \<times> json) list" where
  "obj_insert k v [] = [(k, v)]"
| "obj_insert k v ((l, w) # es) =
     (if k < l then (k, v) # (l, w) # es
      else if k = l then (k, v) # es
      else (l, w) # obj_insert k v es)"

definition obj_remove :: "string \<Rightarrow> (string \<times> json) list \<Rightarrow> (string \<times> json) list" where
  "obj_remove k es = filter (\<lambda>e. fst e \<noteq> k) es"

definition obj_wf :: "(string \<times> json) list \<Rightarrow> bool" where
  "obj_wf es \<longleftrightarrow> sorted_wrt (<) (map fst es)"

lemma keys_obj_insert: "fst ` set (obj_insert k v es) = insert k (fst ` set es)"
  by (induction k v es rule: obj_insert.induct) auto

lemma obj_insert_wf: "obj_wf es \<Longrightarrow> obj_wf (obj_insert k v es)"
  unfolding obj_wf_def
proof (induction k v es rule: obj_insert.induct)
  case (2 k v l w es)
  then show ?case using keys_obj_insert [of k v es] by auto
qed simp

lemma map_of_obj_insert: "obj_wf es \<Longrightarrow> map_of (obj_insert k v es) = (map_of es)(k \<mapsto> v)"
  unfolding obj_wf_def
  by (induction k v es rule: obj_insert.induct) (auto simp: fun_eq_iff map_of_eq_None_iff)

lemma map_of_obj_remove: "map_of (obj_remove k es) = (map_of es)(k := None)"
  by (induction es) (auto simp: obj_remove_def fun_eq_iff)

lemma obj_remove_wf: "obj_wf es \<Longrightarrow> obj_wf (obj_remove k es)"
  unfolding obj_wf_def obj_remove_def by (induction es) auto

section \<open>Paths\<close>

fun get_json_path :: "json \<Rightarrow> string list \<Rightarrow> json option" where
  "get_json_path v [] = Some v"
| "get_json_path v (k # ks) = (case jget v k of None \<Rightarrow> None | Some c \<Rightarrow> get_json_path c ks)"

text \<open>\<open>get_mut\<close> on an object gives the member in place: the map's order stays.\<close>

definition obj_replace :: "string \<Rightarrow> json \<Rightarrow> (string \<times> json) list \<Rightarrow> (string \<times> json) list" where
  "obj_replace k v es = map (\<lambda>e. if fst e = k then (k, v) else e) es"

fun set_json_path :: "json \<Rightarrow> string list \<Rightarrow> json \<Rightarrow> json" where
  "set_json_path v [] new = v"
| "set_json_path v [k] new = (case v of JObj es \<Rightarrow> JObj (obj_insert k new es) | _ \<Rightarrow> v)"
| "set_json_path v (k # k2 # ks) new =
     (case v of
        JObj es \<Rightarrow>
          (case map_of es k of
             None \<Rightarrow> v
           | Some c \<Rightarrow> JObj (obj_replace k (set_json_path c (k2 # ks) new) es))
      | _ \<Rightarrow> v)"

lemma map_of_obj_replace:
  "map_of (obj_replace k v es) = (if map_of es k = None then map_of es else (map_of es)(k \<mapsto> v))"
  by (induction es) (auto simp: obj_replace_def fun_eq_iff)

lemma obj_replace_wf: "obj_wf (obj_replace k v es) \<longleftrightarrow> obj_wf es"
proof -
  have "map fst (obj_replace k v es) = map fst es" by (induction es) (auto simp: obj_replace_def)
  then show ?thesis by (simp add: obj_wf_def)
qed

text \<open>Every object inside a value has its keys in order.\<close>

fun json_wf :: "json \<Rightarrow> bool" where
  "json_wf (JObj es) \<longleftrightarrow> obj_wf es \<and> (\<forall>e \<in> set es. json_wf (snd e))"
| "json_wf (JArr xs) \<longleftrightarrow> (\<forall>x \<in> set xs. json_wf x)"
| "json_wf _ \<longleftrightarrow> True"

lemma in_obj_insert: "e \<in> set (obj_insert k v es) \<Longrightarrow> e = (k, v) \<or> e \<in> set es"
  by (induction k v es rule: obj_insert.induct) (auto split: if_splits)

lemma set_json_path_wf: "json_wf v \<Longrightarrow> json_wf new \<Longrightarrow> json_wf (set_json_path v ks new)"
proof (induction v ks new rule: set_json_path.induct)
  case (2 v k new)
  then show ?case by (cases v) (auto simp: obj_insert_wf dest!: in_obj_insert)
next
  case (3 v k k2 ks new)
  show ?case
  proof (cases v)
    case (JObj es)
    show ?thesis
    proof (cases "map_of es k")
      case (Some c)
      then have "json_wf c" using 3(2) JObj by (auto dest!: map_of_SomeD)
      with 3 JObj Some have "json_wf (set_json_path c (k2 # ks) new)" by simp
      then show ?thesis using 3(2) JObj Some by (auto simp: obj_replace_wf) (auto simp: obj_replace_def)
    qed (use 3 JObj in simp)
  qed (use 3 in auto)
qed simp

text \<open>
  Writing where a text is changes what is read there, and nothing else that is a text.
\<close>

lemma get_set_same:
  "json_wf v \<Longrightarrow> get_json_path v ks = Some old \<Longrightarrow> ks \<noteq> [] \<Longrightarrow>
     get_json_path (set_json_path v ks new) ks = Some new"
proof (induction v ks new rule: set_json_path.induct)
  case (2 v k new)
  then show ?case by (cases v) (auto simp: map_of_obj_insert split: option.splits)
next
  case (3 v k k2 ks new)
  show ?case
  proof (cases v)
    case (JObj es)
    with 3(3) obtain c where c: "map_of es k = Some c" "get_json_path c (k2 # ks) = Some old"
      by (auto split: option.splits)
    moreover have "json_wf c" using 3(2) JObj c by (auto dest!: map_of_SomeD)
    ultimately show ?thesis using 3(1) JObj by (simp add: map_of_obj_replace)
  qed (use 3 in auto)
qed simp

lemma get_set_other:
  assumes "json_wf v" and "get_json_path v ks = Some (JStr old)" and "ks \<noteq> []" and "qs \<noteq> ks"
    and "get_json_path (set_json_path v ks new) qs = Some (JStr s)" and "\<nexists>es. new = JObj es"
  shows "get_json_path v qs = Some (JStr s)"
  using assms
proof (induction v ks new arbitrary: qs rule: set_json_path.induct)
  case (2 v k new)
  show ?case
  proof (cases v)
    case (JObj es)
    show ?thesis
    proof (cases qs)
      case (Cons q qs')
      show ?thesis
      proof (cases "q = k")
        case True
        with 2 JObj Cons obtain r rs where "qs' = r # rs" by (cases qs') auto
        with 2 JObj Cons True show ?thesis
          by (cases new) (auto simp: map_of_obj_insert split: option.splits)
      qed (use 2 JObj Cons in \<open>auto simp: map_of_obj_insert split: option.splits\<close>)
    qed (use 2 JObj in auto)
  qed (use 2 in auto)
next
  case (3 v k k2 ks new)
  show ?case
  proof (cases v)
    case (JObj es)
    with 3(3) obtain c where c: "map_of es k = Some c" "get_json_path c (k2 # ks) = Some (JStr old)"
      by (auto split: option.splits)
    have wf: "json_wf c" using 3(2) JObj c by (auto dest!: map_of_SomeD)
    show ?thesis
    proof (cases qs)
      case (Cons q qs')
      show ?thesis
      proof (cases "q = k")
        case True
        with 3(1) [OF JObj c(1) wf c(2), of qs'] 3 JObj Cons c show ?thesis
          by (auto simp: map_of_obj_replace)
      qed (use 3 JObj Cons c in \<open>auto simp: map_of_obj_replace split: option.splits\<close>)
    qed (use 3 JObj c in auto)
  qed (use 3 in auto)
qed simp

section \<open>References by number\<close>

text \<open>\<open>str::parse::<usize>\<close>: digits, an optional plus sign, no overflow.\<close>

definition digit_value :: "char \<Rightarrow> nat" where
  "digit_value c = of_char c - 48"

definition parse_usize :: "string \<Rightarrow> nat option" where
  "parse_usize s =
     (let digits = (case s of c # cs \<Rightarrow> if c = CHR ''+'' then cs else s | [] \<Rightarrow> []) in
      if digits = [] \<or> \<not> list_all is_digit digits then None
      else let n = foldl (\<lambda>acc c. acc * 10 + digit_value c) 0 digits
           in if n < 2 ^ 64 then Some n else None)"

lemma digits_checked:
  "list_all (\<lambda>d. is_digit (char_of (48 + d)) \<and> digit_value (char_of (48 + d)) = d
     \<and> char_of (48 + d) \<noteq> CHR ''+'' \<and> \<not> is_ws (char_of (48 + d))) [0..<10]"
  by code_simp

lemma digit_simps:
  "d < 10 \<Longrightarrow> is_digit (char_of (48 + d)) \<and> digit_value (char_of (48 + d)) = d
     \<and> char_of (48 + d) \<noteq> CHR ''+'' \<and> \<not> is_ws (char_of (48 + d))"
  using digits_checked by (simp add: list_all_iff del: upt.simps)

lemma show_nat_digits: "c \<in> set (show_nat n) \<Longrightarrow> is_digit c \<and> c \<noteq> CHR ''+'' \<and> \<not> is_ws c"
proof (induction n rule: show_nat.induct)
  case (1 n)
  show ?case
  proof (cases "n < 10")
    case True
    with 1(2) digit_simps [of n] show ?thesis by (simp add: show_nat.simps [of n])
  next
    case False
    then have "show_nat n = show_nat (n div 10) @ [char_of (48 + n mod 10)]" by (simp add: show_nat.simps [of n])
    with 1 False digit_simps [of "n mod 10"] show ?thesis by auto
  qed
qed

lemma show_nat_ne: "show_nat n \<noteq> []"
  by (cases "n < 10") (simp_all add: show_nat.simps [of n])

lemma show_nat_value: "foldl (\<lambda>acc c. acc * 10 + digit_value c) 0 (show_nat n) = n"
proof (induction n rule: show_nat.induct)
  case (1 n)
  show ?case
  proof (cases "n < 10")
    case True
    with digit_simps [of n] show ?thesis by (simp add: show_nat.simps [of n])
  next
    case False
    then have "show_nat n = show_nat (n div 10) @ [char_of (48 + n mod 10)]" by (simp add: show_nat.simps [of n])
    with 1 False digit_simps [of "n mod 10"] show ?thesis by simp
  qed
qed

lemma parse_show_nat: "n < 2 ^ 64 \<Longrightarrow> parse_usize (show_nat n) = Some n"
proof -
  assume n: "n < 2 ^ 64"
  obtain c cs where s: "show_nat n = c # cs" using show_nat_ne by (cases "show_nat n") auto
  then have "c \<noteq> CHR ''+''" using show_nat_digits [of c n] by simp
  moreover have "list_all is_digit (show_nat n)" using show_nat_digits by (auto simp: list_all_iff)
  ultimately show ?thesis using n show_nat_value [of n] s by (simp add: parse_usize_def Let_def)
qed

definition resolve_artifact_ref :: "string \<Rightarrow> uuid list \<Rightarrow> uuid option" where
  "resolve_artifact_ref s index_map =
     (case strip_prefix ''#'' (trim s) of
        None \<Rightarrow> None
      | Some rest \<Rightarrow>
          (case parse_usize rest of
             None \<Rightarrow> None
           | Some idx \<Rightarrow>
               if 1 \<le> idx \<and> idx \<le> length index_map then Some (index_map ! (idx - 1)) else None))"

lemma trim_no_ws: "\<forall>c \<in> set s. \<not> is_ws c \<Longrightarrow> trim s = s"
proof -
  assume *: "\<forall>c \<in> set s. \<not> is_ws c"
  then have "dropWhile is_ws s = s" by (cases s) auto
  moreover have "dropWhile is_ws (rev s) = rev s" using * by (cases "rev s") (auto simp: rev_eq_Cons_iff)
  ultimately show ?thesis by (simp add: trim_def trim_start_matches_def trim_end_matches_def)
qed

lemma reference_resolves:
  assumes "i < length index_map" and "length index_map < 2 ^ 64"
  shows "resolve_artifact_ref (''#'' @ show_nat (i + 1)) index_map = Some (index_map ! i)"
proof -
  have "\<not> is_ws CHR ''#''" by code_simp
  then have "trim (''#'' @ show_nat (i + 1)) = ''#'' @ show_nat (i + 1)"
    using show_nat_digits by (intro trim_no_ws) auto
  with assms parse_show_nat [of "i + 1"] strip_prefix_append [of "''#''" "show_nat (i + 1)"]
  show ?thesis by (simp add: resolve_artifact_ref_def)
qed

text \<open>\<open>translate_artifact_indices\<close>.\<close>

definition translate_text :: "(uuid \<Rightarrow> string) \<Rightarrow> uuid list \<Rightarrow> json \<Rightarrow> json" where
  "translate_text show_id index_map v =
     (case v of
        JStr s \<Rightarrow> (case resolve_artifact_ref s index_map of Some u \<Rightarrow> JStr (show_id u) | None \<Rightarrow> v)
      | _ \<Rightarrow> v)"

definition translate_path :: "(uuid \<Rightarrow> string) \<Rightarrow> uuid list \<Rightarrow> string \<Rightarrow> json \<Rightarrow> json" where
  "translate_path show_id index_map path args =
     (let parts = path_parts path in
      case get_json_path args parts of
        None \<Rightarrow> args
      | Some (JStr s) \<Rightarrow>
          (case resolve_artifact_ref s index_map of
             Some u \<Rightarrow> set_json_path args parts (JStr (show_id u))
           | None \<Rightarrow> args)
      | Some (JArr xs) \<Rightarrow> set_json_path args parts (JArr (map (translate_text show_id index_map) xs))
      | Some _ \<Rightarrow> args)"

definition translate_artifact_indices ::
  "(uuid \<Rightarrow> string) \<Rightarrow> json \<Rightarrow> uuid list \<Rightarrow> json \<Rightarrow> json" where
  "translate_artifact_indices show_id schema index_map args =
     (if index_map = [] then args
      else fold (translate_path show_id index_map) (resolve_schema_paths schema) args)"

section \<open>The artifacts of a thread\<close>

text \<open>A row of \<open>artifacts\<close>, and the tuple the prompt works with.\<close>

record artifact_info =
  ai_id :: uuid
  ai_project :: uuid
  ai_filename :: string
  ai_description :: "string option"
  ai_source :: "uuid option"        \<comment> \<open>the tool run that produced it\<close>
  ai_created :: instant

record artifact_ctx =
  ac_id :: uuid
  ac_filename :: string
  ac_description :: "string option"
  ac_source :: "uuid option"
  ac_parent :: "uuid option"

text \<open>The queries: newest first. A link says that a run had an artifact as input.\<close>

definition list_artifacts :: "uuid \<Rightarrow> artifact_info list \<Rightarrow> artifact_info list" where
  "list_artifacts proj rows = rev (sort_key ai_created (filter (\<lambda>a. ai_project a = proj) rows))"

definition list_artifacts_for_sample ::
  "uuid \<Rightarrow> uuid \<Rightarrow> (uuid \<times> uuid) list \<Rightarrow> artifact_info list \<Rightarrow> artifact_info list" where
  "list_artifacts_for_sample proj target input_links rows =
     rev (sort_key ai_created (filter (\<lambda>a. ai_project a = proj \<and>
        (ai_id a = target \<or>
         (case ai_source a of None \<Rightarrow> False | Some run \<Rightarrow> (run, target) \<in> set input_links))) rows))"

definition resolve_parent_samples ::
  "uuid \<Rightarrow> (uuid \<times> uuid) list \<Rightarrow> artifact_info list \<Rightarrow> (uuid \<times> uuid) list" where
  "resolve_parent_samples proj input_links rows =
     concat (map (\<lambda>a. case ai_source a of
         None \<Rightarrow> []
       | Some run \<Rightarrow> map (\<lambda>l. (ai_id a, snd l)) (filter (\<lambda>l. fst l = run) input_links))
       (filter (\<lambda>a. ai_project a = proj) rows))"

text \<open>\<open>fetch_artifact_context\<close>; the pairs are collected into a map, the last one of a key wins.\<close>

definition fetch_artifact_context ::
  "uuid \<Rightarrow> uuid option \<Rightarrow> (uuid \<times> uuid) list \<Rightarrow> artifact_info list \<Rightarrow> artifact_ctx list" where
  "fetch_artifact_context proj target input_links rows =
     (let arts = (case target of
            Some t \<Rightarrow> list_artifacts_for_sample proj t input_links rows
          | None \<Rightarrow> list_artifacts proj rows);
          parents = map_of (rev (resolve_parent_samples proj input_links rows))
      in rev (map (\<lambda>a. \<lparr>ac_id = ai_id a, ac_filename = ai_filename a, ac_description = ai_description a,
                       ac_source = ai_source a, ac_parent = parents (ai_id a)\<rparr>) arts))"

definition TEXT_EXTENSIONS :: "string list" where
  "TEXT_EXTENSIONS = [''.json'', ''.txt'', ''.csv'', ''.md'', ''.xml'', ''.html'', ''.log'',
     ''.yaml'', ''.yml'', ''.toml'', ''.svg'', ''.rpt'']"

definition is_binary_generated :: "artifact_ctx \<Rightarrow> bool" where
  "is_binary_generated a \<longleftrightarrow>
     ac_source a \<noteq> None \<and> \<not> list_ex (\<lambda>ext. ends_with ext (to_lower (ac_filename a))) TEXT_EXTENSIONS"

definition pick_best_artifact :: "artifact_ctx list \<Rightarrow> artifact_ctx option" where
  "pick_best_artifact artifacts =
     (case List.find is_binary_generated artifacts of
        Some a \<Rightarrow> Some a
      | None \<Rightarrow>
     (case List.find (\<lambda>a. ac_source a = None) artifacts of
        Some a \<Rightarrow> Some a
      | None \<Rightarrow> (case artifacts of a # _ \<Rightarrow> Some a | [] \<Rightarrow> None)))"

text \<open>The context comes oldest first, so of the uploaded samples the oldest is taken.\<close>

lemma fetch_sorted:
  "map ac_id (fetch_artifact_context proj None links rows) =
     map ai_id (sort_key ai_created (filter (\<lambda>a. ai_project a = proj) rows))"
  by (simp add: fetch_artifact_context_def list_artifacts_def Let_def rev_map comp_def)

lemma fetch_ids:
  "a \<in> set (fetch_artifact_context proj target links rows) \<Longrightarrow>
     \<exists>r \<in> set rows. ai_project r = proj \<and> ai_id r = ac_id a"
  by (auto simp: fetch_artifact_context_def list_artifacts_def list_artifacts_for_sample_def Let_def
      split: option.splits)

lemma pick_best_in: "pick_best_artifact arts = Some a \<Longrightarrow> a \<in> set arts"
  by (auto simp: pick_best_artifact_def find_Some_iff split: option.splits list.splits)

lemma pick_best_None: "pick_best_artifact arts = None \<longleftrightarrow> arts = []"
  by (auto simp: pick_best_artifact_def find_None_iff split: option.splits list.splits)

section \<open>The artifact section of the prompt\<close>

text \<open>
  \<open>append_artifact_context\<close>: the text and the index map grow together; position \<open>i\<close> of
  the map is what the text calls \<open>#(i + 1)\<close>.
\<close>

type_synonym prompt_state = "string \<times> uuid list"

definition render_sample :: "uuid option \<Rightarrow> artifact_ctx \<Rightarrow> prompt_state \<Rightarrow> prompt_state" where
  "render_sample target a st =
     (let index = snd st @ [ac_id a]; idx = length index;
          tag = (if target = Some (ac_id a) then '' [TARGET]'' else [])
      in (fst st @ (case ac_description a of
            Some desc \<Rightarrow> ''### #'' @ show_nat idx @ tag @ '' | '' @ ac_filename a @ '' | '' @ desc @ nl
          | None \<Rightarrow> ''### #'' @ show_nat idx @ tag @ '' | '' @ ac_filename a @ nl), index))"

definition render_item :: "string \<Rightarrow> artifact_ctx \<Rightarrow> prompt_state \<Rightarrow> prompt_state" where
  "render_item bullet a st =
     (let index = snd st @ [ac_id a]; idx = length index
      in (fst st @ bullet @ ''#'' @ show_nat idx @ '' | ''
          @ (case ac_description a of Some d \<Rightarrow> d | None \<Rightarrow> ac_filename a) @ nl, index))"

definition append_text :: "string \<Rightarrow> prompt_state \<Rightarrow> prompt_state" where
  "append_text s st = (fst st @ s, snd st)"

definition children_of :: "artifact_ctx list \<Rightarrow> uuid \<Rightarrow> artifact_ctx list" where
  "children_of generated i = filter (\<lambda>a. ac_parent a = Some i) generated"

definition render_group :: "uuid option \<Rightarrow> artifact_ctx list \<Rightarrow> artifact_ctx \<Rightarrow> prompt_state \<Rightarrow> prompt_state" where
  "render_group target generated a st =
     (let st1 = render_sample target a st;
          kids = children_of generated (ac_id a);
          st2 = (if kids = [] then st1
                 else fold (render_item ''  - '') kids
                        (append_text (''Generated (use file.read_range to inspect):'' @ nl) st1))
      in append_text nl st2)"

definition orphan_artifacts :: "artifact_ctx list \<Rightarrow> artifact_ctx list \<Rightarrow> artifact_ctx list" where
  "orphan_artifacts uploaded generated =
     filter (\<lambda>a. case ac_parent a of None \<Rightarrow> True | Some p \<Rightarrow> p \<notin> ac_id ` set uploaded) generated"

fun position :: "uuid \<Rightarrow> uuid list \<Rightarrow> nat option" where
  "position u [] = None"
| "position u (x # xs) = (if x = u then Some 0 else map_option Suc (position u xs))"

definition append_artifact_context ::
  "string \<Rightarrow> artifact_ctx list \<Rightarrow> uuid option \<Rightarrow> prompt_state" where
  "append_artifact_context prompt artifacts target =
     (if artifacts = [] then (prompt, [])
      else
        let uploaded = filter (\<lambda>a. ac_source a = None) artifacts;
            generated = filter (\<lambda>a. ac_source a \<noteq> None) artifacts;
            st0 = (prompt @ nl @ ''## Available Artifacts'' @ nl @ nl
                   @ ''Reference artifacts by their # number when calling tools (e.g. artifact_id: #1).'' @ nl @ nl, []);
            st1 = fold (render_group target generated) uploaded st0;
            orphans = orphan_artifacts uploaded generated;
            st2 = (if orphans = [] then st1
                   else append_text nl (fold (render_item ''- '') orphans
                          (append_text (''### Other generated artifacts'' @ nl) st1)));
            st3 = (case target of
                None \<Rightarrow> st2
              | Some t \<Rightarrow>
                  (case position t (snd st2) of
                     None \<Rightarrow> st2
                   | Some pos \<Rightarrow> append_text (''This thread targets sample #'' @ show_nat (pos + 1)
                        @ '' [TARGET]. Focus your analysis on this sample.'' @ nl) st2))
        in append_text (''Use the # numbers above in tool calls. Do NOT ask the user for artifact IDs.'' @ nl) st3)"

text \<open>The numbering: each sample followed by what was generated from it, then the rest.\<close>

lemma index_simps [simp]:
  "snd (render_sample target a st) = snd st @ [ac_id a]"
  "snd (render_item b a st) = snd st @ [ac_id a]"
  "snd (append_text s st) = snd st"
  by (simp_all add: render_sample_def render_item_def append_text_def Let_def)

lemma index_items: "snd (fold (render_item b) arts st) = snd st @ map ac_id arts"
  by (induction arts arbitrary: st) auto

lemma index_group:
  "snd (render_group target generated a st) = snd st @ ac_id a # map ac_id (children_of generated (ac_id a))"
  by (simp add: render_group_def Let_def index_items)

lemma index_groups:
  "snd (fold (render_group target generated) ups st) =
     snd st @ concat (map (\<lambda>a. ac_id a # map ac_id (children_of generated (ac_id a))) ups)"
  by (induction ups arbitrary: st) (auto simp: index_group)

definition artifact_order :: "artifact_ctx list \<Rightarrow> artifact_ctx list" where
  "artifact_order artifacts =
     (let uploaded = filter (\<lambda>a. ac_source a = None) artifacts;
          generated = filter (\<lambda>a. ac_source a \<noteq> None) artifacts
      in concat (map (\<lambda>a. a # children_of generated (ac_id a)) uploaded) @ orphan_artifacts uploaded generated)"

lemma index_map_is: "snd (append_artifact_context prompt artifacts target) = map ac_id (artifact_order artifacts)"
proof (cases "artifacts = []")
  case True
  then show ?thesis by (simp add: append_artifact_context_def artifact_order_def Let_def orphan_artifacts_def)
next
  case False
  have tail: "snd (case position t (snd st) of None \<Rightarrow> st | Some pos \<Rightarrow> append_text (f pos) st) = snd st" for t st f
    by (simp split: option.split)
  from False show ?thesis
    by (simp add: append_artifact_context_def artifact_order_def Let_def index_groups index_items map_concat
        comp_def tail split: option.split)
qed

lemma mset_filter_or:
  "(\<And>g. \<not> (P g \<and> Q g)) \<Longrightarrow> mset (filter (\<lambda>g. P g \<or> Q g) gs) = mset (filter P gs) + mset (filter Q gs)"
  by (induction gs) auto

lemma mset_partition:
  assumes "distinct (map f ups)"
  shows "mset (concat (map (\<lambda>a. filter (\<lambda>g. h g = Some (f a)) gs) ups))
       = mset (filter (\<lambda>g. \<exists>a \<in> set ups. h g = Some (f a)) gs)"
  using assms
proof (induction ups)
  case (Cons a ups)
  have split: "filter (\<lambda>g. \<exists>b \<in> set (a # ups). h g = Some (f b)) gs =
      filter (\<lambda>g. h g = Some (f a) \<or> (\<exists>b \<in> set ups. h g = Some (f b))) gs" by simp
  have "\<not> (h g = Some (f a) \<and> (\<exists>b \<in> set ups. h g = Some (f b)))" for g
    using Cons.prems by auto
  then have "mset (filter (\<lambda>g. h g = Some (f a) \<or> (\<exists>b \<in> set ups. h g = Some (f b))) gs) =
      mset (filter (\<lambda>g. h g = Some (f a)) gs) + mset (filter (\<lambda>g. \<exists>b \<in> set ups. h g = Some (f b)) gs)"
    by (rule mset_filter_or)
  with Cons show ?case unfolding split by simp
qed simp

lemma artifact_order_perm:
  assumes "distinct (map ac_id artifacts)"
  shows "mset (artifact_order artifacts) = mset artifacts"
proof -
  define ups where "ups = filter (\<lambda>a. ac_source a = None) artifacts"
  define gs where "gs = filter (\<lambda>a. ac_source a \<noteq> None) artifacts"
  have "distinct (map ac_id ups)" unfolding ups_def using assms by (simp add: distinct_map_filter)
  then have kids: "mset (concat (map (\<lambda>a. children_of gs (ac_id a)) ups))
      = mset (filter (\<lambda>g. \<exists>a \<in> set ups. ac_parent g = Some (ac_id a)) gs)"
    unfolding children_of_def by (rule mset_partition)
  have "orphan_artifacts ups gs = filter (\<lambda>g. \<not> (\<exists>a \<in> set ups. ac_parent g = Some (ac_id a))) gs"
    unfolding orphan_artifacts_def by (intro filter_cong) (auto split: option.splits)
  then have "mset gs = mset (concat (map (\<lambda>a. children_of gs (ac_id a)) ups)) + mset (orphan_artifacts ups gs)"
    unfolding kids by (simp add: union_filter_mset_complement)
  moreover have "mset (concat (map (\<lambda>a. a # children_of gs (ac_id a)) ups))
      = mset ups + mset (concat (map (\<lambda>a. children_of gs (ac_id a)) ups))"
    by (induction ups) auto
  moreover have "mset artifacts = mset ups + mset gs"
    unfolding ups_def gs_def by (simp add: union_filter_mset_complement)
  ultimately show ?thesis unfolding artifact_order_def Let_def ups_def [symmetric] gs_def [symmetric] by simp
qed

section \<open>Repairing arguments\<close>

definition schema_type :: "json \<Rightarrow> string" where
  "schema_type prop = opt_default [] (Option.bind (jget prop ''type'') as_str)"

text \<open>The numbers of \<open>serde_json\<close>: an \<open>i64\<close>, a \<open>u64\<close> or a float.\<close>

fun as_i64 :: "json \<Rightarrow> int option" where
  "as_i64 (JInt n) = (if - (2 ^ 63) \<le> n \<and> n < 2 ^ 63 then Some n else None)"
| "as_i64 v = None"

fun is_number :: "json \<Rightarrow> bool" where
  "is_number (JInt n) = True"
| "is_number (JFloat s) = True"
| "is_number v = False"

fun is_string :: "json \<Rightarrow> bool" where
  "is_string (JStr s) = True"
| "is_string v = False"

definition hex_digit :: "nat \<Rightarrow> char" where
  "hex_digit d = (if d < 10 then char_of (48 + d) else char_of (55 + d))"

fun show_hex :: "nat \<Rightarrow> string" where
  "show_hex n = (if n < 16 then [hex_digit n] else show_hex (n div 16) @ [hex_digit (n mod 16)])"

declare show_hex.simps [simp del]

definition hex8 :: "nat \<Rightarrow> string" where
  "hex8 n = (let h = show_hex n in replicate (8 - length h) CHR ''0'' @ h)"

text \<open>\<open>float_text\<close> stands for the printing of a float: whole ones as integers.\<close>

fun number_text :: "(string \<Rightarrow> string) \<Rightarrow> json \<Rightarrow> string" where
  "number_text float_text (JInt n) =
     (if 0 \<le> n then
        (if 0x1000 \<le> nat n \<and> nat n mod 0x10 = 0 then ''0x'' @ hex8 (nat n) else show_nat (nat n))
      else show_int n)"
| "number_text float_text (JFloat s) = float_text s"
| "number_text float_text v = []"

type_synonym entries = "(string \<times> json) list"

definition singular :: "string \<Rightarrow> string" where
  "singular name = trim_end_matches (\<lambda>c. c = CHR ''s'') name"

definition wanted_renames :: "entries \<Rightarrow> entries \<Rightarrow> (string \<times> string) list" where
  "wanted_renames props obj =
     concat (map (\<lambda>(name, ps).
       if map_of obj name = None \<and> singular name \<noteq> name \<and> map_of obj (singular name) \<noteq> None
       then [(singular name, name)] else []) props)"

definition wanted_arrays :: "entries \<Rightarrow> entries \<Rightarrow> string list" where
  "wanted_arrays props obj =
     concat (map (\<lambda>(name, ps).
       if schema_type ps = ''array'' then
         (case map_of obj name of Some v \<Rightarrow> if is_string v then [name] else [] | None \<Rightarrow> [])
       else []) props)"

definition wanted_strings :: "entries \<Rightarrow> entries \<Rightarrow> string list" where
  "wanted_strings props obj =
     concat (map (\<lambda>(name, ps).
       if schema_type ps = ''string'' then
         (case map_of obj name of Some v \<Rightarrow> if is_number v then [name] else [] | None \<Rightarrow> [])
       else []) props)"

definition below_minimum :: "entries \<Rightarrow> entries \<Rightarrow> (string \<times> int) list" where
  "below_minimum props obj =
     concat (map (\<lambda>(name, ps).
       if schema_type ps = ''integer'' \<or> schema_type ps = ''number'' then
         (case (Option.bind (jget ps ''minimum'') as_i64, Option.bind (map_of obj name) as_i64) of
            (Some m, Some n) \<Rightarrow> if n < m then [(name, m)] else []
          | _ \<Rightarrow> [])
       else []) props)"

definition required_fields :: "json \<Rightarrow> string list" where
  "required_fields schema =
     (case Option.bind (jget schema ''required'') as_array of
        None \<Rightarrow> [] | Some xs \<Rightarrow> List.map_filter as_str xs)"

definition apply_rename :: "entries \<Rightarrow> string \<times> string \<Rightarrow> entries \<Rightarrow> entries" where
  "apply_rename props wc obj =
     (case map_of obj (fst wc) of
        None \<Rightarrow> obj
      | Some v \<Rightarrow>
          let obj' = obj_remove (fst wc) obj;
              st = (case map_of props (snd wc) of None \<Rightarrow> [] | Some ps \<Rightarrow> schema_type ps)
          in obj_insert (snd wc) (if st = ''array'' \<and> is_string v then JArr [v] else v) obj')"

definition apply_array :: "string \<Rightarrow> entries \<Rightarrow> entries" where
  "apply_array k obj =
     (case map_of obj k of None \<Rightarrow> obj | Some v \<Rightarrow> obj_insert k (JArr [v]) (obj_remove k obj))"

definition apply_clamp :: "string \<times> int \<Rightarrow> entries \<Rightarrow> entries" where
  "apply_clamp km obj = (case map_of obj (fst km) of None \<Rightarrow> obj | Some _ \<Rightarrow> obj_insert (fst km) (JInt (snd km)) obj)"

definition apply_string :: "(string \<Rightarrow> string) \<Rightarrow> string \<Rightarrow> entries \<Rightarrow> entries" where
  "apply_string float_text k obj =
     (case map_of obj k of
        None \<Rightarrow> obj
      | Some v \<Rightarrow> obj_insert k (JStr (number_text float_text v)) (obj_remove k obj))"

definition fixup_arguments :: "(string \<Rightarrow> string) \<Rightarrow> json \<Rightarrow> json \<Rightarrow> json" where
  "fixup_arguments float_text args schema =
     (case Option.bind (jget schema ''properties'') as_object of
        None \<Rightarrow> args
      | Some props \<Rightarrow>
     (case as_object args of
        None \<Rightarrow> args
      | Some obj \<Rightarrow>
          let low = below_minimum props obj;
              required = required_fields schema;
              obj1 = fold (apply_rename props) (wanted_renames props obj) obj;
              obj2 = fold apply_array (wanted_arrays props obj) obj1;
              obj3 = fold (\<lambda>km. obj_remove (fst km)) (filter (\<lambda>km. fst km \<notin> set required) low) obj2;
              obj4 = fold apply_clamp (filter (\<lambda>km. fst km \<in> set required) low) obj3
          in JObj (fold (apply_string float_text) (wanted_strings props obj) obj4)))"

text \<open>Arguments that fit the schema are left alone, and keys stay in order.\<close>

lemma fixup_nothing:
  assumes "jget schema ''properties'' = Some (JObj props)"
    and "wanted_renames props obj = []" and "wanted_arrays props obj = []"
    and "below_minimum props obj = []" and "wanted_strings props obj = []"
  shows "fixup_arguments ft (JObj obj) schema = JObj obj"
  using assms by (simp add: fixup_arguments_def Let_def)

lemma fold_keeps: "(\<And>x y. P y \<Longrightarrow> P (f x y)) \<Longrightarrow> P y \<Longrightarrow> P (fold f xs y)"
  by (induction xs arbitrary: y) auto

definition entries_wf :: "entries \<Rightarrow> bool" where
  "entries_wf es \<longleftrightarrow> json_wf (JObj es)"

lemma entries_insert: "entries_wf es \<Longrightarrow> json_wf v \<Longrightarrow> entries_wf (obj_insert k v es)"
  by (auto simp: entries_wf_def obj_insert_wf dest!: in_obj_insert)

lemma entries_remove: "entries_wf es \<Longrightarrow> entries_wf (obj_remove k es)"
  by (simp add: entries_wf_def obj_remove_wf) (auto simp: obj_remove_def)

lemma entries_member: "entries_wf es \<Longrightarrow> map_of es k = Some v \<Longrightarrow> json_wf v"
  by (auto simp: entries_wf_def dest!: map_of_SomeD)

lemma apply_wf:
  "entries_wf obj \<Longrightarrow> entries_wf (apply_rename props wc obj)"
  "entries_wf obj \<Longrightarrow> entries_wf (apply_array k obj)"
  "entries_wf obj \<Longrightarrow> entries_wf (apply_clamp km obj)"
  "entries_wf obj \<Longrightarrow> entries_wf (apply_string ft k obj)"
  by (auto simp: apply_rename_def apply_array_def apply_clamp_def apply_string_def Let_def
      intro!: entries_insert entries_remove dest: entries_member split: option.split)

lemma fixup_wf: "json_wf args \<Longrightarrow> json_wf (fixup_arguments ft args schema)"
proof (cases "Option.bind (jget schema ''properties'') as_object")
  case (Some props)
  assume wf: "json_wf args"
  show ?thesis
  proof (cases args)
    case (JObj obj)
    with wf have "entries_wf obj" by (simp add: entries_wf_def)
    then have "entries_wf (fold (apply_string ft) (wanted_strings props obj)
        (fold apply_clamp (filter (\<lambda>km. fst km \<in> set (required_fields schema)) (below_minimum props obj))
        (fold (\<lambda>km. obj_remove (fst km)) (filter (\<lambda>km. fst km \<notin> set (required_fields schema)) (below_minimum props obj))
        (fold apply_array (wanted_arrays props obj) (fold (apply_rename props) (wanted_renames props obj) obj)))))"
      by (intro fold_keeps [where P = entries_wf]) (auto intro: apply_wf entries_remove)
    then show ?thesis using Some JObj by (simp add: fixup_arguments_def Let_def entries_wf_def)
  qed (use Some wf in \<open>auto simp: fixup_arguments_def as_object_def\<close>)
qed (simp add: fixup_arguments_def)

section \<open>Correcting identifiers\<close>

text \<open>
  One artifact path of the schema: a text that is not the identifier of an artifact in
  the context is replaced by the thread's target, or by the best artifact.
\<close>

definition correct_path ::
  "(string \<Rightarrow> uuid option) \<Rightarrow> (uuid \<Rightarrow> string) \<Rightarrow> uuid option \<Rightarrow> artifact_ctx list \<Rightarrow> string \<Rightarrow> json \<Rightarrow> json" where
  "correct_path parse_id show_id target arts path args =
     (let parts = path_parts path in
      case get_json_path args parts of
        Some (JStr s) \<Rightarrow>
          let needs = (case parse_id s of
                Some u \<Rightarrow> \<not> list_ex (\<lambda>a. ac_id a = u) arts
              | None \<Rightarrow> True)
          in if needs then
               (case (case target of
                        Some t \<Rightarrow> Some (show_id t)
                      | None \<Rightarrow> map_option (\<lambda>a. show_id (ac_id a)) (pick_best_artifact arts)) of
                  Some real \<Rightarrow> set_json_path args parts (JStr real)
                | None \<Rightarrow> args)
             else args
      | _ \<Rightarrow> args)"

definition correct_artifacts ::
  "(string \<Rightarrow> uuid option) \<Rightarrow> (uuid \<Rightarrow> string) \<Rightarrow> uuid option \<Rightarrow> artifact_ctx list \<Rightarrow> json \<Rightarrow> json \<Rightarrow> json" where
  "correct_artifacts parse_id show_id target arts schema args =
     fold (correct_path parse_id show_id target arts) (resolve_schema_paths schema) args"

text \<open>A text that the correction may leave at an artifact path.\<close>

definition id_accepted :: "(string \<Rightarrow> uuid option) \<Rightarrow> uuid option \<Rightarrow> artifact_ctx list \<Rightarrow> string \<Rightarrow> bool" where
  "id_accepted parse_id target arts s \<longleftrightarrow>
     (\<exists>u. parse_id s = Some u \<and> (u \<in> ac_id ` set arts \<or> target = Some u))"

lemma correct_path_cases:
  assumes printed: "\<And>u. parse_id (show_id u) = Some u" and some: "arts \<noteq> [] \<or> target \<noteq> None"
    and read: "get_json_path args (path_parts path) = Some (JStr s)"
  obtains "correct_path parse_id show_id target arts path args = args" and "id_accepted parse_id target arts s"
  | t where "correct_path parse_id show_id target arts path args = set_json_path args (path_parts path) (JStr t)"
    and "id_accepted parse_id target arts t"
proof (cases "\<exists>u. parse_id s = Some u \<and> u \<in> ac_id ` set arts")
  case True
  then show thesis
    using read by (intro that(1)) (auto simp: correct_path_def Let_def list_ex_iff id_accepted_def)
next
  case False
  then have needs: "(case parse_id s of Some u \<Rightarrow> \<not> list_ex (\<lambda>a. ac_id a = u) arts | None \<Rightarrow> True)"
    by (auto simp: list_ex_iff image_iff split: option.split)
  show thesis
  proof (cases target)
    case (Some t)
    then show thesis
      using needs read printed by (intro that(2) [of "show_id t"]) (auto simp: correct_path_def Let_def id_accepted_def)
  next
    case None
    with some pick_best_None [of arts] obtain a where a: "pick_best_artifact arts = Some a"
      by (cases "pick_best_artifact arts") auto
    then show thesis
      using None needs read printed pick_best_in [OF a]
      by (intro that(2) [of "show_id (ac_id a)"]) (auto simp: correct_path_def Let_def id_accepted_def)
  qed
qed

lemma correct_path_wf: "json_wf args \<Longrightarrow> json_wf (correct_path pi si target arts path args)"
  by (auto simp: correct_path_def Let_def intro: set_json_path_wf split: option.split json.split)

text \<open>After the correction every text at an artifact path is one of them.\<close>

lemma corrected_ids:
  assumes printed: "\<And>u. parse_id (show_id u) = Some u" and some: "arts \<noteq> [] \<or> target \<noteq> None"
    and "json_wf args"
    and "\<forall>q \<in> set seen. path_parts q \<noteq> [] \<and>
      (\<forall>s. get_json_path args (path_parts q) = Some (JStr s) \<longrightarrow> id_accepted parse_id target arts s)"
    and "\<forall>q \<in> set paths. path_parts q \<noteq> []"
    and "q \<in> set seen \<union> set paths"
    and "get_json_path (fold (correct_path parse_id show_id target arts) paths args) (path_parts q) = Some (JStr s)"
  shows "id_accepted parse_id target arts s"
  using assms(3-)
proof (induction paths arbitrary: args seen)
  case (Cons p ps)
  define args' where "args' = correct_path parse_id show_id target arts p args"
  have p: "path_parts p \<noteq> []" using Cons.prems(3) by simp
  have step: "id_accepted parse_id target arts s'"
    if q': "q' \<in> set (p # seen)" and read': "get_json_path args' (path_parts q') = Some (JStr s')" for q' s'
  proof (cases "\<exists>s0. get_json_path args (path_parts p) = Some (JStr s0)")
    case False
    then have "args' = args" by (auto simp: args'_def correct_path_def Let_def split: option.split json.split)
    with False read' q' Cons.prems(2) show ?thesis by auto
  next
    case True
    then obtain s0 where s0: "get_json_path args (path_parts p) = Some (JStr s0)" ..
    show ?thesis
    proof (cases rule: correct_path_cases [OF printed some s0])
      case 1
      then show ?thesis using s0 read' q' Cons.prems(2) by (auto simp: args'_def)
    next
      case (2 t)
      show ?thesis
      proof (cases "path_parts q' = path_parts p")
        case True
        with 2 read' get_set_same [OF Cons.prems(1) s0 p] show ?thesis by (auto simp: args'_def)
      next
        case False
        with q' have "q' \<in> set seen" by auto
        moreover have "get_json_path args (path_parts q') = Some (JStr s')"
          using get_set_other [OF Cons.prems(1) s0 p False] read' 2(1) by (simp add: args'_def)
        ultimately show ?thesis using Cons.prems(2) by blast
      qed
    qed
  qed
  have "id_accepted parse_id target arts s"
  proof (rule Cons.IH [of args' "p # seen"])
    show "json_wf args'" unfolding args'_def using Cons.prems(1) by (rule correct_path_wf)
    show "\<forall>q \<in> set (p # seen). path_parts q \<noteq> [] \<and>
        (\<forall>s. get_json_path args' (path_parts q) = Some (JStr s) \<longrightarrow> id_accepted parse_id target arts s)"
      using step p Cons.prems(2) by auto
  qed (use Cons.prems in \<open>auto simp: args'_def\<close>)
  then show ?case .
qed auto

end
