(* ===== verification/Routing.thy ===== *)
theory Routing
  imports Chat
begin

text \<open>
  Requests to a language model and where they go: \<open>af-llm/src/request.rs\<close>, the router of
  \<open>af-llm/src/router.rs\<close> with the redaction of \<open>af-llm/src/redact.rs\<close>, the routes of
  \<open>af-core/src/agent.rs\<close> and the events an agent emits (\<open>af-core/src/agent_event.rs\<close>).

  The compiled regular expressions are a parameter: a pattern is a function that
  replaces all its matches in a text. An \<open>f32\<close> is its bit pattern.
\<close>

section \<open>Requests and responses\<close>

type_synonym f32 = "32 word"

record completion_request =
  rq_messages :: "chat_message list"
  rq_tools :: "tool_description list"
  rq_max_tokens :: "u32 option"
  rq_temperature :: "f32 option"

datatype finish_reason = FStop | FToolUse | FLength | FUnknown string

record usage_info =
  prompt_tokens :: u32
  completion_tokens :: u32
  cached_read_tokens :: u32
  cache_creation_tokens :: u32

definition no_usage :: usage_info where
  "no_usage = \<lparr>prompt_tokens = 0, completion_tokens = 0, cached_read_tokens = 0, cache_creation_tokens = 0\<rparr>"

definition merge_usage :: "usage_info \<Rightarrow> usage_info \<Rightarrow> usage_info" where
  "merge_usage a b =
     \<lparr>prompt_tokens = prompt_tokens a + prompt_tokens b,
      completion_tokens = completion_tokens a + completion_tokens b,
      cached_read_tokens = cached_read_tokens a + cached_read_tokens b,
      cache_creation_tokens = cache_creation_tokens a + cache_creation_tokens b\<rparr>"

record completion_response =
  rs_content :: string
  rs_tool_calls :: "tool_call_info list"
  rs_finish :: finish_reason
  rs_usage :: "usage_info option"

datatype stream_chunk =
    Token string
  | Reasoning string
  | CallStart (chunk_id: string) (chunk_tool: string)
  | CallDelta (chunk_id: string) (chunk_arguments: string)
  | DoneChunk finish_reason
  | UsageChunk usage_info

datatype llm_error =
    Http string
  | JsonParse string
  | ApiError nat string
  | NoBackendConfigured
  | BackendNotFound string
  | StreamingNotSupported
  | OtherLlm string

datatype agent_event =
    EvToken string
  | EvReasoning string
  | EvToolCallStart string json
  | EvToolCallResult (ev_tool: string) (ev_success: bool) (ev_summary: string)
  | EvEvidence string uuid
  | EvDone uuid string
  | EvUsage usage_info string u32
  | EvContextCompacted u32 nat u32
  | EvError string

section \<open>Routes and backends\<close>

datatype llm_route = RouteLocal | RouteAuto | RouteBackend string

definition route_from_str :: "string \<Rightarrow> llm_route" where
  "route_from_str s =
     (if s = ''auto'' then RouteAuto
      else if s = ''local'' then RouteLocal
      else case strip_prefix ''backend:'' s of
        Some name \<Rightarrow> RouteBackend name
      | None \<Rightarrow> RouteAuto)"

fun route_to_db_string :: "llm_route \<Rightarrow> string" where
  "route_to_db_string RouteAuto = ''auto''"
| "route_to_db_string RouteLocal = ''local''"
| "route_to_db_string (RouteBackend name) = ''backend:'' @ name"

lemma route_round_trip: "route_from_str (route_to_db_string r) = r"
  by (cases r) (auto simp: route_from_str_def strip_prefix_def starts_with_def)

record backend_caps =
  supports_tool_calls :: bool
  supports_streaming :: bool
  is_local :: bool
  caps_window :: "u32 option"
  caps_max_output :: "u32 option"

record backend =
  be_name :: string
  be_caps :: backend_caps

record llm_router =
  backends :: "string \<rightharpoonup> backend"
  aliases :: "string \<rightharpoonup> string"
  default_backend :: "string option"
  local_backend :: "string option"
  patterns :: "(string \<Rightarrow> string) list"

definition new_router :: "(string \<Rightarrow> string) list \<Rightarrow> llm_router" where
  "new_router pats = \<lparr>backends = Map.empty, aliases = Map.empty, default_backend = None,
                      local_backend = None, patterns = pats\<rparr>"

definition register_backend :: "backend \<Rightarrow> llm_router \<Rightarrow> llm_router" where
  "register_backend b r0 =
     (let name = be_name b;
          r1 = (if is_local (be_caps b) \<and> local_backend r0 = None then r0\<lparr>local_backend := Some name\<rparr> else r0);
          r2 = (if default_backend r1 = None then r1\<lparr>default_backend := Some name\<rparr> else r1)
      in r2\<lparr>backends := (backends r2)(name \<mapsto> b)\<rparr>)"

definition set_default :: "string \<Rightarrow> llm_router \<Rightarrow> llm_router" where
  "set_default name r = r\<lparr>default_backend := Some name\<rparr>"

definition register_alias :: "string \<Rightarrow> string \<Rightarrow> llm_router \<Rightarrow> llm_router" where
  "register_alias alias target r = r\<lparr>aliases := (aliases r)(alias \<mapsto> target)\<rparr>"

definition route_name :: "llm_router \<Rightarrow> llm_route \<Rightarrow> llm_error + string" where
  "route_name r route =
     (case route of
        RouteAuto \<Rightarrow> (case default_backend r of Some n \<Rightarrow> Inr n | None \<Rightarrow> Inl NoBackendConfigured)
      | RouteLocal \<Rightarrow> (case local_backend r of Some n \<Rightarrow> Inr n | None \<Rightarrow> Inl NoBackendConfigured)
      | RouteBackend n \<Rightarrow> Inr n)"

definition resolve_backend :: "llm_router \<Rightarrow> llm_route \<Rightarrow> llm_error + backend" where
  "resolve_backend r route =
     sum_bind (route_name r route) (\<lambda>name.
       case backends r name of
         Some b \<Rightarrow> Inr b
       | None \<Rightarrow>
           (case Option.bind (aliases r name) (backends r) of
              Some b \<Rightarrow> Inr b
            | None \<Rightarrow> Inl (BackendNotFound name)))"

section \<open>Redaction\<close>

definition redact :: "(string \<Rightarrow> string) list \<Rightarrow> string \<Rightarrow> string" where
  "redact pats text = fold (\<lambda>p result. p result) pats text"

fun redact_json_values :: "(string \<Rightarrow> string) list \<Rightarrow> json \<Rightarrow> json" where
  "redact_json_values pats (JStr s) = JStr (redact pats s)"
| "redact_json_values pats (JObj kvs) = JObj (map (\<lambda>kv. (fst kv, redact_json_values pats (snd kv))) kvs)"
| "redact_json_values pats (JArr xs) = JArr (map (redact_json_values pats) xs)"
| "redact_json_values pats v = v"

fun redact_part :: "(string \<Rightarrow> string) list \<Rightarrow> content_part \<Rightarrow> content_part" where
  "redact_part pats (PText s) = PText (redact pats s)"
| "redact_part pats (PImage d t) = PImage d t"

definition redact_message :: "(string \<Rightarrow> string) list \<Rightarrow> chat_message \<Rightarrow> chat_message" where
  "redact_message pats m =
     m\<lparr>content := redact pats (content m),
       tool_calls := map (\<lambda>tc. tc\<lparr>tc_arguments := redact_json_values pats (tc_arguments tc)\<rparr>) (tool_calls m),
       content_parts := map_option (map (redact_part pats)) (content_parts m)\<rparr>"

definition maybe_redact :: "llm_router \<Rightarrow> llm_route \<Rightarrow> completion_request \<Rightarrow> completion_request" where
  "maybe_redact r route req =
     (case resolve_backend r route of
        Inl _ \<Rightarrow> req
      | Inr b \<Rightarrow>
          if is_local (be_caps b) then req
          else req\<lparr>rq_messages := map (redact_message (patterns r)) (rq_messages req)\<rparr>)"

text \<open>The texts of a request that redaction is for: contents, text parts and every string
  value inside the arguments of the calls.\<close>

fun json_strings :: "json \<Rightarrow> string list" where
  "json_strings (JStr s) = [s]"
| "json_strings (JObj kvs) = concat (map (\<lambda>kv. json_strings (snd kv)) kvs)"
| "json_strings (JArr xs) = concat (map json_strings xs)"
| "json_strings v = []"

fun part_texts :: "content_part \<Rightarrow> string list" where
  "part_texts (PText s) = [s]"
| "part_texts (PImage d t) = []"

definition message_texts :: "chat_message \<Rightarrow> string list" where
  "message_texts m =
     content m # concat (map (\<lambda>tc. json_strings (tc_arguments tc)) (tool_calls m))
     @ (case content_parts m of None \<Rightarrow> [] | Some ps \<Rightarrow> concat (map part_texts ps))"

definition request_texts :: "completion_request \<Rightarrow> string list" where
  "request_texts req = concat (map message_texts (rq_messages req))"

lemma json_strings_redact: "json_strings (redact_json_values pats v) = map (redact pats) (json_strings v)"
  by (induction v rule: json_strings.induct) (auto simp: map_concat comp_def intro!: arg_cong [where f = concat])

lemma part_texts_redact: "part_texts (redact_part pats p) = map (redact pats) (part_texts p)"
  by (cases p) auto

lemma message_texts_redact: "message_texts (redact_message pats m) = map (redact pats) (message_texts m)"
  by (simp add: message_texts_def redact_message_def map_concat comp_def json_strings_redact
      part_texts_redact split: option.split)

lemma request_texts_redact:
  "resolve_backend r route = Inr b \<Longrightarrow>
     request_texts (maybe_redact r route req) =
       (if is_local (be_caps b) then request_texts req else map (redact (patterns r)) (request_texts req))"
  by (simp add: maybe_redact_def request_texts_def map_concat comp_def message_texts_redact)

text \<open>Registration keeps the local and the default backend registered.\<close>

definition router_wf :: "llm_router \<Rightarrow> bool" where
  "router_wf r \<longleftrightarrow>
     (\<forall>n. local_backend r = Some n \<longrightarrow> (\<exists>b. backends r n = Some b)) \<and>
     (\<forall>n b. backends r n = Some b \<longrightarrow> be_name b = n)"

lemma register_wf: "router_wf r \<Longrightarrow> router_wf (register_backend b r)"
  by (auto simp: router_wf_def register_backend_def Let_def)

lemma alias_resolves:
  assumes "backends r target = Some b" and "backends r alias = None"
  shows "resolve_backend (register_alias alias target r) (RouteBackend alias) = Inr b"
  using assms by (simp add: resolve_backend_def route_name_def register_alias_def)

end
