(* ===== verification/Evidence.thy ===== *)
theory Evidence
  imports Chat Resolver Routing
begin

text \<open>
  Evidence references in a model's answer: \<open>af-core/src/evidence.rs\<close> and
  \<open>af-agents/src/evidence_parser.rs\<close>, and the reading of a model's response as tool
  calls or text (\<open>af-agents/src/tool_call_parser.rs\<close>).

  Parameters: the identifier parser and printer of the \<open>uuid\<close> crate, the JSON parser,
  and the answer of a plugin's own existence query.
\<close>

section \<open>References\<close>

datatype evidence_ref =
    EvArtifact uuid
  | EvToolRun uuid
  | EvMessage uuid
  | EvPlugin (ev_namespace: string) (ev_kind: string) (ev_plugin_id: string)

definition parse_evidence :: "(string \<Rightarrow> uuid option) \<Rightarrow> string \<Rightarrow> evidence_ref option" where
  "parse_evidence parse_id s =
     (case strip_prefix ''evidence:'' s of
        None \<Rightarrow> None
      | Some rest0 \<Rightarrow>
     (case splitn 2 CHR '':'' rest0 of
        [ns, rest] \<Rightarrow>
          if ns = ''artifact'' then map_option EvArtifact (parse_id rest)
          else if ns = ''tool_run'' then map_option EvToolRun (parse_id rest)
          else if ns = ''message'' then map_option EvMessage (parse_id rest)
          else map_option (\<lambda>(kind, i). EvPlugin ns kind i) (split_once CHR '':'' rest)
      | _ \<Rightarrow> None))"

fun to_inline :: "(uuid \<Rightarrow> string) \<Rightarrow> evidence_ref \<Rightarrow> string" where
  "to_inline show_id (EvArtifact i) = ''evidence:artifact:'' @ show_id i"
| "to_inline show_id (EvToolRun i) = ''evidence:tool_run:'' @ show_id i"
| "to_inline show_id (EvMessage i) = ''evidence:message:'' @ show_id i"
| "to_inline show_id (EvPlugin ns kind i) = ''evidence:'' @ ns @ '':'' @ kind @ '':'' @ i"

text \<open>A plugin reference that its own text can carry.\<close>

fun plain_ref :: "evidence_ref \<Rightarrow> bool" where
  "plain_ref (EvPlugin ns kind i) \<longleftrightarrow>
     CHR '':'' \<notin> set ns \<and> CHR '':'' \<notin> set kind \<and> ns \<notin> {''artifact'', ''tool_run'', ''message''}"
| "plain_ref _ \<longleftrightarrow> True"

lemma splitn_2: "CHR '':'' \<notin> set a \<Longrightarrow> splitn 2 CHR '':'' (a @ '':'' @ b) = [a, b]"
  using split_once_append [of "CHR '':''" a b] by (simp add: numeral_2_eq_2)

lemma evidence_round_trip:
  assumes "\<And>i. parse_id (show_id i) = Some i" and "plain_ref r"
  shows "parse_evidence parse_id (to_inline show_id r) = Some r"
proof (cases r)
  case (EvArtifact i)
  then show ?thesis
    using splitn_2 [of "''artifact''" "show_id i"] strip_prefix_append [of "''evidence:''" "''artifact:'' @ show_id i"] assms(1)
    by (simp add: parse_evidence_def)
next
  case (EvToolRun i)
  then show ?thesis
    using splitn_2 [of "''tool_run''" "show_id i"] strip_prefix_append [of "''evidence:''" "''tool_run:'' @ show_id i"] assms(1)
    by (simp add: parse_evidence_def)
next
  case (EvMessage i)
  then show ?thesis
    using splitn_2 [of "''message''" "show_id i"] strip_prefix_append [of "''evidence:''" "''message:'' @ show_id i"] assms(1)
    by (simp add: parse_evidence_def)
next
  case (EvPlugin ns kind i)
  with assms(2) have "CHR '':'' \<notin> set ns" "CHR '':'' \<notin> set kind" by auto
  then show ?thesis
    using EvPlugin assms(2) splitn_2 [of ns "kind @ '':'' @ i"] split_once_append [of "CHR '':''" kind i]
      strip_prefix_append [of "''evidence:''" "ns @ '':'' @ kind @ '':'' @ i"]
    by (simp add: parse_evidence_def)
qed

section \<open>Verification\<close>

text \<open>
  The registry of resolvers, in the order of registration. A resolver turns a kind and an
  identifier into a text; it may give an existence query for a kind, whose answer is a
  function of the identifier and the project (\<open>None\<close> when the query fails).
\<close>

record evidence_resolver =
  er_namespace :: string
  er_resolve :: "string \<Rightarrow> string \<Rightarrow> string option"
  er_existence :: "string \<Rightarrow> (uuid \<Rightarrow> uuid \<Rightarrow> bool option) option"

definition find_resolver :: "string \<Rightarrow> evidence_resolver list \<Rightarrow> evidence_resolver option" where
  "find_resolver ns rs = List.find (\<lambda>r. er_namespace r = ns) rs"

definition registry_resolve :: "evidence_resolver list \<Rightarrow> string \<Rightarrow> string \<Rightarrow> string \<Rightarrow> string option" where
  "registry_resolve rs ns kind i = Option.bind (find_resolver ns rs) (\<lambda>r. er_resolve r kind i)"

definition registry_existence ::
  "evidence_resolver list \<Rightarrow> string \<Rightarrow> string \<Rightarrow> (uuid \<Rightarrow> uuid \<Rightarrow> bool option) option" where
  "registry_existence rs ns kind = Option.bind (find_resolver ns rs) (\<lambda>r. er_existence r kind)"

text \<open>The lookups of the project of an artifact and of a run: an error of the statement is
  \<open>Inl\<close>, an unknown identifier \<open>Inr None\<close>.\<close>

record evidence_env =
  ee_parse :: "string \<Rightarrow> uuid option"
  ee_artifact :: "uuid \<Rightarrow> string + uuid option"
  ee_tool_run :: "uuid \<Rightarrow> string + uuid option"
  ee_resolvers :: "evidence_resolver list option"

definition owned_by :: "(uuid \<Rightarrow> string + uuid option) \<Rightarrow> uuid \<Rightarrow> uuid \<Rightarrow> bool" where
  "owned_by look i proj = (case look i of Inr (Some p) \<Rightarrow> p = proj | _ \<Rightarrow> False)"

definition verify_ref :: "evidence_env \<Rightarrow> uuid \<Rightarrow> evidence_ref \<Rightarrow> (string \<times> uuid) option" where
  "verify_ref env proj r =
     (case r of
        EvArtifact i \<Rightarrow> if owned_by (ee_artifact env) i proj then Some (''artifact'', i) else None
      | EvToolRun i \<Rightarrow> if owned_by (ee_tool_run env) i proj then Some (''tool_run'', i) else None
      | EvMessage i \<Rightarrow> Some (''message'', i)
      | EvPlugin ns kind i \<Rightarrow>
          (case ee_resolvers env of
             None \<Rightarrow> None
           | Some rs \<Rightarrow>
          (case registry_resolve rs ns kind i of
             None \<Rightarrow> None
           | Some _ \<Rightarrow>
          (case ee_parse env i of
             None \<Rightarrow> None
           | Some u \<Rightarrow>
          (case registry_existence rs ns kind of
             Some query \<Rightarrow>
               (if query u proj = Some True then Some (''plugin:'' @ ns @ '':'' @ kind, u) else None)
           | None \<Rightarrow> Some (''plugin:'' @ ns @ '':'' @ kind, u))))))"

text \<open>\<open>split_whitespace\<close> and \<open>trim_matches\<close>.\<close>

fun words_from :: "string \<Rightarrow> string \<Rightarrow> string list" where
  "words_from acc [] = (if acc = [] then [] else [rev acc])"
| "words_from acc (c # cs) =
     (if is_ws c then (if acc = [] then words_from [] cs else rev acc # words_from [] cs)
      else words_from (c # acc) cs)"

definition split_whitespace :: "string \<Rightarrow> string list" where
  "split_whitespace s = words_from [] s"

definition is_quote :: "char \<Rightarrow> bool" where
  "is_quote c \<longleftrightarrow> c \<in> {CHR 0x60, CHR 0x27, CHR 0x22, CHR '','', CHR ''.''}"

definition clean_word :: "string \<Rightarrow> string" where
  "clean_word w = trim_end_matches is_quote (trim_start_matches is_quote w)"

definition parse_and_verify :: "evidence_env \<Rightarrow> uuid \<Rightarrow> string \<Rightarrow> (string \<times> uuid) list" where
  "parse_and_verify env proj text =
     List.map_filter (\<lambda>w. Option.bind (parse_evidence (ee_parse env) (clean_word w)) (verify_ref env proj))
       (split_whitespace text)"

text \<open>What is recorded as evidence was cited, and but for messages it was looked up.\<close>

lemma map_filter_in: "y \<in> set (List.map_filter f xs) \<longleftrightarrow> (\<exists>x \<in> set xs. f x = Some y)"
  by (force simp: List.map_filter_def)

lemma verified_sound:
  assumes "(t, i) \<in> set (parse_and_verify env proj text)"
  obtains w r where "w \<in> set (split_whitespace text)" and "parse_evidence (ee_parse env) (clean_word w) = Some r"
    and "verify_ref env proj r = Some (t, i)"
  using assms by (auto simp: parse_and_verify_def map_filter_in bind_eq_Some_conv)

lemma verify_artifact: "verify_ref env proj r = Some (''artifact'', i) \<Longrightarrow> ee_artifact env i = Inr (Some proj)"
  by (auto simp: verify_ref_def owned_by_def split: evidence_ref.splits option.splits sum.splits if_splits)

lemma verify_tool_run: "verify_ref env proj r = Some (''tool_run'', i) \<Longrightarrow> ee_tool_run env i = Inr (Some proj)"
  by (auto simp: verify_ref_def owned_by_def split: evidence_ref.splits option.splits sum.splits if_splits)

lemma verify_message_any: "verify_ref env proj (EvMessage i) = Some (''message'', i)"
  by (simp add: verify_ref_def)

section \<open>Responses\<close>

datatype parsed_response = ParsedCall tool_call_info | FinalText string

definition rfind_char :: "char \<Rightarrow> string \<Rightarrow> nat option" where
  "rfind_char c s =
     (case filter (\<lambda>i. s ! i = c) [0..<length s] of [] \<Rightarrow> None | is \<Rightarrow> Some (last is))"

definition try_parse_tool_call_json ::
  "(string \<Rightarrow> json option) \<Rightarrow> string \<Rightarrow> string \<Rightarrow> parsed_response option" where
  "try_parse_tool_call_json from_str fresh text =
     Option.bind (from_str text) (\<lambda>v.
     Option.bind (jget v ''tool_call'') (\<lambda>call.
     Option.bind (Option.bind (jget call ''name'') as_str) (\<lambda>name.
       Some (ParsedCall \<lparr>tc_id = ''json-block-'' @ fresh, tc_name = name,
         tc_arguments = opt_default (JObj []) (jget call ''arguments'')\<rparr>))))"

definition fence :: string where "fence = [CHR 0x60, CHR 0x60, CHR 0x60]"

definition fenced_block :: "string \<Rightarrow> string option" where
  "fenced_block text =
     Option.bind (find_sub (fence @ ''json'') text) (\<lambda>start.
       let body = drop (start + 7) text in
       map_option (\<lambda>stop. trim (take stop body)) (find_sub fence body))"

definition braced_block :: "string \<Rightarrow> string option" where
  "braced_block text =
     (case (find_sub ''{'' text, rfind_char CHR ''}'' text) of
        (Some a, Some b) \<Rightarrow> if a < b then Some (take (b + 1 - a) (drop a text)) else None
      | _ \<Rightarrow> None)"

definition or_else :: "'a option \<Rightarrow> 'a option \<Rightarrow> 'a option" where
  "or_else x y = (case x of Some v \<Rightarrow> Some v | None \<Rightarrow> y)"

definition try_parse_json_block ::
  "(string \<Rightarrow> json option) \<Rightarrow> string \<Rightarrow> string \<Rightarrow> parsed_response option" where
  "try_parse_json_block from_str fresh text =
     or_else (Option.bind (fenced_block text) (try_parse_tool_call_json from_str fresh))
    (or_else (try_parse_tool_call_json from_str fresh (trim text))
             (Option.bind (braced_block text) (try_parse_tool_call_json from_str fresh)))"

definition parse_response ::
  "(string \<Rightarrow> json option) \<Rightarrow> string \<Rightarrow> completion_response \<Rightarrow> parsed_response list" where
  "parse_response from_str fresh resp =
     (if rs_tool_calls resp \<noteq> [] then map ParsedCall (rs_tool_calls resp)
      else case try_parse_json_block from_str fresh (rs_content resp) of
        Some p \<Rightarrow> [p]
      | None \<Rightarrow> [FinalText (rs_content resp)])"

definition parsed_calls :: "parsed_response list \<Rightarrow> tool_call_info list" where
  "parsed_calls = List.map_filter (\<lambda>p. case p of ParsedCall c \<Rightarrow> Some c | FinalText _ \<Rightarrow> None)"

lemma parse_response_ne: "parse_response from_str fresh resp \<noteq> []"
  by (auto simp: parse_response_def split: option.split)

text \<open>A response is either calls alone or one text, so no call comes after a text.\<close>

lemma parse_response_cases:
  obtains calls where "parse_response from_str fresh resp = map ParsedCall calls" and "calls \<noteq> []"
  | "parse_response from_str fresh resp = [FinalText (rs_content resp)]"
proof -
  have "\<exists>c. p = ParsedCall c" if "try_parse_json_block from_str fresh (rs_content resp) = Some p" for p
    using that by (auto simp: try_parse_json_block_def or_else_def try_parse_tool_call_json_def
        bind_eq_Some_conv split: option.splits)
  then show thesis
    using that(1) [of "rs_tool_calls resp"] that(1) [of "[c]" for c] that(2)
    by (cases "rs_tool_calls resp = []"; cases "try_parse_json_block from_str fresh (rs_content resp)")
       (fastforce simp: parse_response_def)+
qed

end
