(* ===== verification/Compaction.thy ===== *)
theory Compaction
  imports Routing Quotas
begin

text \<open>
  \<open>af-agents/src/compaction.rs\<close>: which part of a conversation is dropped when it no
  longer fits the model's context, how the dropped part is marked in the message table,
  and the repairs made before every request to a local model.

  Parameters: the product of a \<open>u32\<close> and an \<open>f32\<close>, cast back (\<open>scale\<close>); the serialiser;
  the summarising backend; for every statement whether the database fails, and how.
\<close>

datatype agent_error =
    LlmErr llm_error
  | DbErr string
  | ToolFailed string string
  | ToolNotAllowed string
  | MaxToolCalls nat
  | NoBackend
  | OtherErr string

section \<open>The budget\<close>

record compaction_ctx =
  context_window :: u32
  max_output_tokens :: u32
  threshold :: f32

definition saturating_sub :: "u32 \<Rightarrow> u32 \<Rightarrow> u32" where
  "saturating_sub a b = (if a \<le> b then 0 else a - b)"

definition budget :: "(u32 \<Rightarrow> f32 \<Rightarrow> u32) \<Rightarrow> compaction_ctx \<Rightarrow> u32" where
  "budget scale ctx = saturating_sub (scale (context_window ctx) (threshold ctx)) (max_output_tokens ctx)"

definition should_compact :: "(u32 \<Rightarrow> f32 \<Rightarrow> u32) \<Rightarrow> compaction_ctx \<Rightarrow> u32 \<Rightarrow> bool" where
  "should_compact scale ctx estimated \<longleftrightarrow> budget scale ctx < estimated"

definition tokens_to_shed :: "(u32 \<Rightarrow> f32 \<Rightarrow> u32) \<Rightarrow> compaction_ctx \<Rightarrow> u32 \<Rightarrow> u32" where
  "tokens_to_shed scale ctx estimated = saturating_sub estimated (budget scale ctx)"

lemma saturating_sub_nat: "unat (saturating_sub a b) = unat a - unat b"
  by (auto simp: saturating_sub_def word_le_nat_alt unat_sub)

lemma shed_iff: "should_compact scale ctx e \<longleftrightarrow> 0 < tokens_to_shed scale ctx e"
  unfolding should_compact_def tokens_to_shed_def
  by (simp add: word_less_nat_alt saturating_sub_nat)

section \<open>Turns\<close>

definition is_nudge_or_reinforcement :: "string \<Rightarrow> bool" where
  "is_nudge_or_reinforcement text \<longleftrightarrow>
     starts_with ''[Thread Memory'' text \<or> starts_with ''[SYSTEM REMINDER]'' text
     \<or> starts_with ''[Context Summary'' text \<or> starts_with ''[Sliding window trim'' text
     \<or> starts_with ''[Context reset'' text
     \<or> starts_with (''---'' @ newline @ ''Continue your analysis'') text"

definition is_real_user :: "chat_message \<Rightarrow> bool" where
  "is_real_user m \<longleftrightarrow> role m = RUser \<and> \<not> is_nudge_or_reinforcement (content m)"

definition is_memory_message :: "chat_message \<Rightarrow> bool" where
  "is_memory_message m \<longleftrightarrow> role m = RUser \<and> starts_with ''[Thread Memory'' (content m)"

definition detect_body_start :: "chat_message list \<Rightarrow> nat" where
  "detect_body_start messages =
     (if 1 < length messages \<and> is_memory_message (messages ! 1) then 2 else 1)"

definition map_index_to_seq :: "nat \<Rightarrow> message_row list \<Rightarrow> int option" where
  "map_index_to_seq exclusive_end history =
     (if 2 \<le> exclusive_end \<and> exclusive_end - 2 < length history
      then Some (msg_seq (history ! (exclusive_end - 2)))
      else if history \<noteq> [] then Some (msg_seq (history ! (length history - 1)))
      else None)"

record turn =
  t_start :: nat
  t_end :: nat
  t_tokens :: u32
  has_user_request :: bool

definition slice :: "'a list \<Rightarrow> nat \<Rightarrow> nat \<Rightarrow> 'a list" where
  "slice xs a b = take (b - a) (drop a xs)"

definition mk_turn :: "chat_message list \<Rightarrow> nat \<Rightarrow> nat \<Rightarrow> bool \<Rightarrow> turn" where
  "mk_turn messages a b has_user =
     \<lparr>t_start = a, t_end = b,
      t_tokens = sum_list (map (\<lambda>m. estimate_content_tokens m + 4) (slice messages a b)),
      has_user_request = has_user\<rparr>"

text \<open>The loop over the body: \<open>i\<close> is the index of the first message still to come.\<close>

fun turns_loop :: "chat_message list \<Rightarrow> nat \<Rightarrow> nat \<Rightarrow> bool \<Rightarrow> chat_message list \<Rightarrow> turn list" where
  "turns_loop messages i start has_user [] =
     (if start < length messages then [mk_turn messages start (length messages) has_user] else [])"
| "turns_loop messages i start has_user (m # ms) =
     (if is_real_user m \<and> start < i
      then mk_turn messages start i has_user # turns_loop messages (i + 1) i True ms
      else if is_real_user m then turns_loop messages (i + 1) start True ms
      else turns_loop messages (i + 1) start has_user ms)"

definition parse_turns :: "chat_message list \<Rightarrow> nat \<Rightarrow> turn list" where
  "parse_turns messages body_start =
     turns_loop messages body_start body_start False (drop body_start messages)"

text \<open>A turn's messages are its index range; only its first message can be a request.\<close>

definition turn_messages :: "chat_message list \<Rightarrow> turn \<Rightarrow> chat_message list" where
  "turn_messages messages t = slice messages (t_start t) (t_end t)"

definition turn_ok :: "chat_message list \<Rightarrow> turn \<Rightarrow> bool" where
  "turn_ok messages t \<longleftrightarrow>
     t_start t < t_end t \<and> t_end t \<le> length messages
     \<and> (has_user_request t \<longleftrightarrow> is_real_user (messages ! t_start t))
     \<and> (\<forall>j. t_start t < j \<and> j < t_end t \<longrightarrow> \<not> is_real_user (messages ! j))"

text \<open>Turns that follow each other from \<open>a\<close> to the end of the messages.\<close>

fun chained :: "nat \<Rightarrow> turn list \<Rightarrow> nat \<Rightarrow> bool" where
  "chained a [] b \<longleftrightarrow> a = b"
| "chained a (t # ts) b \<longleftrightarrow> t_start t = a \<and> chained (t_end t) ts b"

lemma turns_loop_ok:
  assumes "drop i messages = ms" and "start \<le> i" and "i \<le> length messages"
    and "start < i \<Longrightarrow> has_user \<longleftrightarrow> is_real_user (messages ! start)"
    and "start = i \<Longrightarrow> \<not> has_user"
    and "\<And>j. start < j \<Longrightarrow> j < i \<Longrightarrow> \<not> is_real_user (messages ! j)"
  shows "chained start (turns_loop messages i start has_user ms) (length messages)
         \<and> (\<forall>t \<in> set (turns_loop messages i start has_user ms). turn_ok messages t)
         \<and> (\<forall>t \<in> set (tl (turns_loop messages i start has_user ms)). is_real_user (messages ! t_start t))"
  using assms
proof (induction ms arbitrary: i start has_user)
  case Nil
  then have "i = length messages" by simp
  with Nil.prems show ?case by (auto simp: mk_turn_def turn_ok_def)
next
  case (Cons m ms)
  from Cons.prems(1) have m: "messages ! i = m" and ms: "drop (i + 1) messages = ms" and lt: "i < length messages"
    by (metis nth_via_drop, metis Suc_eq_plus1 drop_Suc list.sel(3) tl_drop,
        metis drop_all list.distinct(1) not_le)
  show ?case
  proof (cases "is_real_user m \<and> start < i")
    case True
    have "chained i (turns_loop messages (i + 1) i True ms) (length messages)
        \<and> (\<forall>t \<in> set (turns_loop messages (i + 1) i True ms). turn_ok messages t)
        \<and> (\<forall>t \<in> set (tl (turns_loop messages (i + 1) i True ms)). is_real_user (messages ! t_start t))"
      using True m ms lt by (intro Cons.IH) auto
    moreover have "turn_ok messages (mk_turn messages start i has_user)"
      using True Cons.prems lt by (auto simp: mk_turn_def turn_ok_def)
    moreover have "is_real_user (messages ! t_start t)"
      if "t \<in> set (turns_loop messages (i + 1) i True ms)" for t
    proof (cases "turns_loop messages (i + 1) i True ms")
      case (Cons u us)
      with calculation(1) that True m show ?thesis by auto
    qed (use that in simp)
    ultimately show ?thesis using True by (auto simp: mk_turn_def)
  next
    case False
    have "chained start (turns_loop messages (i + 1) start (if is_real_user m then True else has_user) ms) (length messages)
        \<and> (\<forall>t \<in> set (turns_loop messages (i + 1) start (if is_real_user m then True else has_user) ms). turn_ok messages t)
        \<and> (\<forall>t \<in> set (tl (turns_loop messages (i + 1) start (if is_real_user m then True else has_user) ms)).
             is_real_user (messages ! t_start t))"
    proof (rule Cons.IH)
      show "(if is_real_user m then True else has_user) = is_real_user (messages ! start)"
        using False m Cons.prems by (cases "start = i") auto
      show "\<not> is_real_user (messages ! j)" if "start < j" "j < i + 1" for j
        using that False m Cons.prems(6) by (cases "j = i") auto
    qed (use False Cons.prems ms lt in auto)
    with False show ?thesis by (cases "is_real_user m") simp_all
  qed
qed

lemma parse_turns_ok:
  assumes "body \<le> length messages"
  shows "chained body (parse_turns messages body) (length messages)"
    and "t \<in> set (parse_turns messages body) \<Longrightarrow> turn_ok messages t"
    and "t \<in> set (tl (parse_turns messages body)) \<Longrightarrow> is_real_user (messages ! t_start t)"
  using turns_loop_ok [of body messages "drop body messages" body False] assms
  by (auto simp: parse_turns_def)

section \<open>What may be compacted\<close>

record compaction_plan =
  compact_start :: nat
  compact_end :: nat
  message_count :: nat

text \<open>\<open>rposition\<close> of a user message.\<close>

definition last_user_idx :: "chat_message list \<Rightarrow> nat option" where
  "last_user_idx messages =
     (case filter (\<lambda>i. role (messages ! i) = RUser) [0..<length messages] of
        [] \<Rightarrow> None
      | is \<Rightarrow> Some (last is))"

definition keeps_with_next :: "chat_message list \<Rightarrow> nat \<Rightarrow> bool" where
  "keeps_with_next messages prev \<longleftrightarrow>
     role (messages ! prev) = RTool
     \<or> (role (messages ! prev) = RAssistant \<and> tool_calls (messages ! prev) \<noteq> [])
     \<or> (role (messages ! prev) = RUser \<and> 1 < prev \<and> role (messages ! (prev - 1)) = RTool)"

fun walk_back :: "chat_message list \<Rightarrow> nat \<Rightarrow> nat" where
  "walk_back messages 0 = 0"
| "walk_back messages (Suc prev) =
     (if 0 < prev \<and> keeps_with_next messages prev then walk_back messages prev else Suc prev)"

definition select_messages_for_compaction :: "chat_message list \<Rightarrow> compaction_plan option" where
  "select_messages_for_compaction messages =
     (if length messages < 4 then None
      else case last_user_idx messages of
        None \<Rightarrow> None
      | Some idx \<Rightarrow>
          let boundary = walk_back messages idx
          in if boundary \<le> 1 then None
             else Some \<lparr>compact_start = 1, compact_end = boundary, message_count = boundary - 1\<rparr>)"

lemma sorted_le_last: "sorted xs \<Longrightarrow> x \<in> set xs \<Longrightarrow> x \<le> last xs"
  by (induction xs) auto

lemma last_user_idx_Some:
  assumes "last_user_idx messages = Some i"
  shows "i < length messages" "role (messages ! i) = RUser"
    "\<And>j. i < j \<Longrightarrow> j < length messages \<Longrightarrow> role (messages ! j) \<noteq> RUser"
proof -
  let ?f = "filter (\<lambda>i. role (messages ! i) = RUser) [0..<length messages]"
  from assms have ne: "?f \<noteq> []" and i: "i = last ?f"
    by (auto simp: last_user_idx_def split: list.splits)
  from last_in_set [OF ne] i show "i < length messages" "role (messages ! i) = RUser" by auto
  show "role (messages ! j) \<noteq> RUser" if "i < j" "j < length messages" for j
  proof
    assume "role (messages ! j) = RUser"
    with that(2) have "j \<in> set ?f" by simp
    moreover have "sorted ?f" by (intro sorted_wrt_filter) simp
    ultimately have "j \<le> last ?f" by (intro sorted_le_last)
    with i that(1) show False by simp
  qed
qed

lemma walk_back_le: "walk_back messages b \<le> b"
  by (induction messages b rule: walk_back.induct) auto

lemma walk_back_pos: "0 < b \<Longrightarrow> 0 < walk_back messages b"
  by (induction messages b rule: walk_back.induct) auto

lemma walk_back_stops:
  "1 < walk_back messages b \<Longrightarrow> \<not> keeps_with_next messages (walk_back messages b - 1)"
  by (induction messages b rule: walk_back.induct) auto

lemma select_Some:
  assumes "select_messages_for_compaction messages = Some plan"
  obtains idx where "last_user_idx messages = Some idx"
    and "plan = \<lparr>compact_start = 1, compact_end = walk_back messages idx, message_count = walk_back messages idx - 1\<rparr>"
    and "1 < walk_back messages idx" and "walk_back messages idx \<le> idx"
  using assms walk_back_le
  by (auto simp: select_messages_for_compaction_def Let_def split: option.splits if_splits)

section \<open>Tool groups\<close>

text \<open>
  A tool message is an orphan when no call precedes it: the flag says whether the
  messages before belong to a group (an assistant message with calls and its results).
\<close>

definition group_after :: "bool \<Rightarrow> chat_message \<Rightarrow> bool" where
  "group_after in_group m =
     (if role m = RAssistant \<and> tool_calls m \<noteq> [] then True
      else if role m = RTool then in_group else False)"

fun orphans_from :: "nat \<Rightarrow> bool \<Rightarrow> chat_message list \<Rightarrow> nat list" where
  "orphans_from i in_group [] = []"
| "orphans_from i in_group (m # ms) =
     (if role m = RTool \<and> \<not> in_group then [i] else []) @ orphans_from (i + 1) (group_after in_group m) ms"

fun grouped :: "bool \<Rightarrow> chat_message list \<Rightarrow> bool" where
  "grouped in_group [] \<longleftrightarrow> True"
| "grouped in_group (m # ms) \<longleftrightarrow>
     (role m = RTool \<longrightarrow> in_group) \<and> grouped (group_after in_group m) ms"

fun drop_orphans :: "bool \<Rightarrow> chat_message list \<Rightarrow> chat_message list" where
  "drop_orphans in_group [] = []"
| "drop_orphans in_group (m # ms) =
     (if role m = RTool \<and> \<not> in_group then drop_orphans (group_after in_group m) ms
      else m # drop_orphans (group_after in_group m) ms)"

definition remove_at :: "nat \<Rightarrow> 'a list \<Rightarrow> 'a list" where
  "remove_at i xs = take i xs @ drop (Suc i) xs"

definition remove_orphans :: "nat \<Rightarrow> chat_message list \<Rightarrow> chat_message list" where
  "remove_orphans body_start messages =
     fold remove_at (rev (orphans_from body_start False (drop body_start messages))) messages"

lemma grouped_mono: "grouped False ms \<Longrightarrow> grouped b ms"
proof (induction ms arbitrary: b)
  case (Cons m ms)
  then show ?case by (cases b) (auto simp: group_after_def split: if_splits)
qed simp

lemma grouped_append:
  "grouped b (xs @ ys) \<longleftrightarrow> grouped b xs \<and> grouped (fold (\<lambda>m g. group_after g m) xs b) ys"
  by (induction xs arbitrary: b) auto

lemma drop_orphans_grouped: "grouped b (drop_orphans b ms)"
  by (induction b ms rule: drop_orphans.induct) (auto simp: group_after_def split: if_splits)

lemma drop_orphans_id: "grouped b ms \<Longrightarrow> drop_orphans b ms = ms"
  by (induction b ms rule: drop_orphans.induct) auto

lemma drop_orphans_others: "filter (\<lambda>m. role m \<noteq> RTool) (drop_orphans b ms) = filter (\<lambda>m. role m \<noteq> RTool) ms"
  by (induction b ms rule: drop_orphans.induct) auto

text \<open>Removing the orphans by index, the last first, is dropping them on the way.\<close>

lemma orphans_from_ge: "j \<in> set (orphans_from i b ms) \<Longrightarrow> i \<le> j"
  by (induction i b ms rule: orphans_from.induct) (auto split: if_splits)

lemma remove_at_here: "remove_at (length pre) (pre @ m # xs) = pre @ xs"
  by (simp add: remove_at_def)

lemma removal_is_drop:
  "fold remove_at (rev (orphans_from (length pre) b ms)) (pre @ ms) = pre @ drop_orphans b ms"
proof (induction ms arbitrary: pre b)
  case (Cons m ms)
  have "fold remove_at (rev (orphans_from (length pre + 1) (group_after b m) ms)) (pre @ m # ms)
      = pre @ m # drop_orphans (group_after b m) ms"
    using Cons.IH [of "pre @ [m]" "group_after b m"] by simp
  then show ?case by (simp add: remove_at_here)
qed simp

lemma remove_orphans_eq:
  "body \<le> length messages \<Longrightarrow>
     remove_orphans body messages = take body messages @ drop_orphans False (drop body messages)"
  using removal_is_drop [of "take body messages" False "drop body messages"]
  by (simp add: remove_orphans_def min_absorb2)

text \<open>A conversation cut where neither a result nor a call is left behind stays grouped.\<close>

lemma group_after_last:
  "xs \<noteq> [] \<Longrightarrow> role (last xs) \<noteq> RTool \<Longrightarrow> \<not> (role (last xs) = RAssistant \<and> tool_calls (last xs) \<noteq> []) \<Longrightarrow>
     \<not> fold (\<lambda>m g. group_after g m) xs b"
  by (cases xs rule: rev_cases) (auto simp: group_after_def)

lemma cut_stays_grouped:
  assumes "grouped b messages" and "0 < e" and "e \<le> length messages"
    and "\<not> keeps_with_next messages (e - 1)"
  shows "grouped False (drop e messages)"
proof -
  have "take e messages \<noteq> []" and last: "last (take e messages) = messages ! (e - 1)"
    using assms(2,3) by (cases e; simp add: take_Suc_conv_app_nth)+
  then have "\<not> fold (\<lambda>m g. group_after g m) (take e messages) b"
    using assms(4) by (intro group_after_last) (auto simp: keeps_with_next_def)
  moreover have "grouped b (take e messages @ drop e messages)" using assms(1) by simp
  ultimately show ?thesis by (simp only: grouped_append)
qed

section \<open>Summaries\<close>

record chat_db =
  message_tab :: message_db
  memory_tab :: memory_table

datatype chat_stmt = MarkCompacted | ReadMemory | InsertSummary

record compaction_env =
  ser :: "json \<Rightarrow> string"
  scale :: "u32 \<Rightarrow> f32 \<Rightarrow> u32"
  collation :: "string \<Rightarrow> string"
  redaction :: "(string \<Rightarrow> string) list"
  summarizer_is_local :: bool
  summarizer_complete :: "completion_request \<Rightarrow> llm_error + completion_response"
  chat_fault :: "chat_stmt \<Rightarrow> string option"
  summary_id :: uuid
  clock :: instant

definition f32_0_2 :: f32 where "f32_0_2 = 0x3E4CCCCD"
definition f32_half :: f32 where "f32_half = 0x3F000000"

definition role_label :: "chat_role \<Rightarrow> string" where
  "role_label r = (case r of RUser \<Rightarrow> ''User'' | RAssistant \<Rightarrow> ''Assistant'' | RTool \<Rightarrow> ''Tool'' | RSystem \<Rightarrow> ''System'')"

fun is_image :: "content_part \<Rightarrow> bool" where
  "is_image (PImage d t) = True"
| "is_image (PText s) = False"

definition summary_line :: "chat_message \<Rightarrow> string" where
  "summary_line m =
     (let text = (if role m = RTool \<and> 2048 < length (content m)
                  then take (floor_char_boundary (content m) 2048) (content m) @ ''... [truncated]''
                  else content m);
          images = (case content_parts m of None \<Rightarrow> 0 | Some ps \<Rightarrow> length (filter is_image ps))
      in ''['' @ role_label (role m) @ '']: '' @ text @ newline @ newline
         @ (if 0 < images then ''['' @ show_nat images @ '' image(s) omitted from summary]'' @ newline @ newline
            else []))"

definition summary_system :: string where
  "summary_system = ''You are a conversation summarizer. Produce a concise summary of the '' @
     ''conversation below. Preserve: key findings, artifact UUIDs (format: evidence:artifact:<uuid>), '' @
     ''evidence references, tool call outcomes and important results. '' @
     ''Omit: raw tool output data, verbose explanations, the system prompt content. '' @
     ''Write in factual, dense prose. Do not use bullet points.''"

definition compact_messages ::
  "compaction_env \<Rightarrow> chat_message list \<Rightarrow> u32 \<Rightarrow> agent_error + string" where
  "compact_messages env msgs max_summary_tokens =
     (let conversation = concat (map summary_line msgs);
          text = (if \<not> summarizer_is_local env then redact (redaction env) conversation else conversation);
          user_prompt = ''Summarize the following conversation in at most '' @ show_nat (unat max_summary_tokens)
            @ '' tokens. Focus on preserving facts, findings, and references.'' @ newline @ newline @ ''---''
            @ newline @ newline @ text;
          request = \<lparr>rq_messages = [plain RSystem summary_system, plain RUser user_prompt], rq_tools = [],
                     rq_max_tokens = Some max_summary_tokens, rq_temperature = Some f32_0_2\<rparr>
      in case summarizer_complete env request of
           Inl e \<Rightarrow> Inl (LlmErr e)
         | Inr response \<Rightarrow> Inr (rs_content response))"

text \<open>The statements that record a compaction, in the order of the code; a failure of the
  second leaves the first done.\<close>

definition record_compaction ::
  "compaction_env \<Rightarrow> uuid \<Rightarrow> string \<Rightarrow> nat \<Rightarrow> int \<Rightarrow> string option \<Rightarrow> string \<Rightarrow> string \<Rightarrow>
     'z chat_db_scheme \<Rightarrow> (agent_error + unit) \<times> 'z chat_db_scheme" where
  "record_compaction env thread summary count up_to agent mark_err insert_err db =
     (case chat_fault env MarkCompacted of
        Some e \<Rightarrow> (Inl (DbErr (mark_err @ e)), db)
      | None \<Rightarrow>
          let db1 = db\<lparr>message_tab := snd (mark_messages_compacted thread up_to (message_tab db))\<rparr>
          in case chat_fault env InsertSummary of
               Some e \<Rightarrow> (Inl (DbErr (insert_err @ e)), db1)
             | None \<Rightarrow>
                 (Inr (), db1\<lparr>message_tab := snd (insert_compaction_summary (summary_id env) (clock env) thread
                     summary count up_to agent (message_tab db1))\<rparr>))"

text \<open>The number of the last compacted row: \<open>messages[i]\<close> is taken to be \<open>history[i - 1]\<close>.\<close>

definition summary_message :: "nat \<Rightarrow> string \<Rightarrow> chat_message" where
  "summary_message count summary =
     plain RUser (''[Context Summary '' @ [CHR 0xE2, CHR 0x80, CHR 0x94] @ '' '' @ show_nat count
       @ '' earlier messages were summarized]'' @ newline @ newline @ summary)"

definition try_compact ::
  "compaction_env \<Rightarrow> chat_message list \<Rightarrow> tool_description list \<Rightarrow> compaction_ctx \<Rightarrow> uuid \<Rightarrow>
     message_row list \<Rightarrow> string option \<Rightarrow> 'z chat_db_scheme \<Rightarrow>
     (agent_error + chat_message list \<times> agent_event) \<times> 'z chat_db_scheme" where
  "try_compact env messages tools ctx thread history agent db =
     (let estimated = estimate_tokens (ser env) messages tools in
      case select_messages_for_compaction messages of
        None \<Rightarrow> (Inl (OtherErr ''not enough messages to compact''), db)
      | Some plan \<Rightarrow>
     (let to_shed = tokens_to_shed (scale env) ctx estimated;
          max_summary_tokens = min (max (to_shed div 4) 256) 2048;
          to_compact = slice messages (compact_start plan) (compact_end plan)
      in case compact_messages env to_compact max_summary_tokens of
        Inl e \<Rightarrow> (Inl e, db)
      | Inr summary \<Rightarrow>
     (case map_index_to_seq (compact_end plan) history of
        None \<Rightarrow> (Inl (OtherErr ''no history rows for compaction''), db)
      | Some up_to \<Rightarrow>
     (case record_compaction env thread summary (message_count plan) up_to agent
             ''mark compacted: '' ''insert compaction summary: '' db of
        (Inl e, db1) \<Rightarrow> (Inl e, db1)
      | (Inr _, db1) \<Rightarrow>
          (Inr (messages ! 0 # summary_message (message_count plan) summary # drop (compact_end plan) messages,
                EvContextCompacted estimated (message_count plan) (context_window ctx)), db1)))))"

definition read_memory :: "compaction_env \<Rightarrow> uuid \<Rightarrow> 'z chat_db_scheme \<Rightarrow> (string \<times> string) list" where
  "read_memory env thread db =
     (case chat_fault env ReadMemory of
        Some _ \<Rightarrow> []
      | None \<Rightarrow> get_thread_memory (collation env) thread (memory_tab db))"

definition with_memory :: "chat_message list \<Rightarrow> (string \<times> string) list \<Rightarrow> chat_message list \<Rightarrow> chat_message list" where
  "with_memory messages memory tail =
     messages ! 0 # (case build_memory_message memory of None \<Rightarrow> [] | Some m \<Rightarrow> [m]) @ tail"

definition local_context_reset ::
  "compaction_env \<Rightarrow> chat_message list \<Rightarrow> uuid \<Rightarrow> message_row list \<Rightarrow> string option \<Rightarrow>
     'z chat_db_scheme \<Rightarrow> (agent_error + chat_message list \<times> agent_event) \<times> 'z chat_db_scheme" where
  "local_context_reset env messages thread history agent db =
     (case select_messages_for_compaction messages of
        None \<Rightarrow> (Inl (OtherErr ''not enough messages to compact''), db)
      | Some plan \<Rightarrow>
     (let estimated = estimate_tokens (ser env) messages [] in
      case map_index_to_seq (compact_end plan) history of
        None \<Rightarrow> (Inl (OtherErr ''no history rows for compaction''), db)
      | Some up_to \<Rightarrow>
     (let memory = read_memory env thread db;
          marker = ''[Context reset | reason=threshold_reset | pre_tokens='' @ show_nat (unat estimated)
                   @ '' | memory_keys='' @ join '','' (map fst memory) @ '']''
      in case record_compaction env thread marker (message_count plan) up_to agent
             ''mark compacted: '' ''insert compaction summary: '' db of
        (Inl e, db1) \<Rightarrow> (Inl e, db1)
      | (Inr _, db1) \<Rightarrow>
          (Inr (with_memory messages memory (drop (compact_end plan) messages),
                EvContextCompacted estimated (message_count plan) 0), db1))))"

section \<open>The sliding window\<close>

definition SLIDING_WINDOW_TAIL_TOKENS :: u32 where "SLIDING_WINDOW_TAIL_TOKENS = 6000"
definition SLIDING_WINDOW_MIN_TURNS :: nat where "SLIDING_WINDOW_MIN_TURNS = 2"

text \<open>The walk over the turns from the last one: the head of the list is the turn looked
  at next, so the turns after it are those of the tail already taken.\<close>

fun tail_walk :: "turn list \<Rightarrow> u32 \<Rightarrow> nat \<Rightarrow> bool \<Rightarrow> nat" where
  "tail_walk [] tokens count has_user = 0"
| "tail_walk (t # ts) tokens count has_user =
     (let tokens' = tokens + t_tokens t;
          count' = count + 1;
          has_user' = (has_user \<or> has_user_request t)
      in if SLIDING_WINDOW_TAIL_TOKENS \<le> tokens' \<and> SLIDING_WINDOW_MIN_TURNS \<le> count' \<and> has_user'
         then length ts
         else tail_walk ts tokens' count' has_user')"

datatype trim_reason = SlidingWindow | ThresholdReset | ThresholdLlm

record trim_metadata =
  reason :: trim_reason
  pre_tokens :: u32
  post_tokens :: u32
  memory_keys :: "string list"
  turns_trimmed :: nat
  turns_kept :: nat

definition sliding_window_trim ::
  "compaction_env \<Rightarrow> chat_message list \<Rightarrow> tool_description list \<Rightarrow> uuid \<Rightarrow> message_row list \<Rightarrow>
     string option \<Rightarrow> compaction_ctx \<Rightarrow> 'z chat_db_scheme \<Rightarrow>
     (agent_error + (chat_message list \<times> nat \<times> trim_metadata) option) \<times> 'z chat_db_scheme" where
  "sliding_window_trim env messages tools thread history agent ctx db =
     (let estimated = estimate_tokens (ser env) messages tools;
          trigger = scale env (budget (scale env) ctx) f32_half
      in if estimated \<le> trigger then (Inr None, db) else
     (let body_start = detect_body_start messages;
          turns = parse_turns messages body_start
      in if length turns < 2 then (Inr None, db) else
     (let boundary = tail_walk (rev turns) 0 0 False
      in if boundary = 0 then (Inr None, db) else
     (let safe_end = t_start (turns ! boundary);
          trim_count = safe_end - body_start
      in if trim_count = 0 then (Inr None, db) else
     (case map_index_to_seq safe_end history of
        None \<Rightarrow> (Inl (OtherErr ''no history rows for sliding window''), db)
      | Some up_to \<Rightarrow>
     (let memory = read_memory env thread db;
          marker = ''[Sliding window trim | reason=sliding_window | pre_tokens='' @ show_nat (unat estimated)
            @ '' | turns_trimmed='' @ show_nat boundary
            @ '' | turns_kept='' @ show_nat (length turns - boundary)
            @ '' | memory_keys='' @ join '','' (map fst memory) @ '']''
      in case record_compaction env thread marker trim_count up_to agent
             ''sliding window mark compacted: '' ''sliding window insert summary: '' db of
        (Inl e, db1) \<Rightarrow> (Inl e, db1)
      | (Inr _, db1) \<Rightarrow>
          (let new_messages = with_memory messages memory (drop safe_end messages)
           in (Inr (Some (new_messages, trim_count,
                 \<lparr>reason = SlidingWindow, pre_tokens = estimated,
                  post_tokens = estimate_tokens (ser env) new_messages tools,
                  memory_keys = map fst memory, turns_trimmed = boundary,
                  turns_kept = length turns - boundary\<rparr>)), db1))))))))"

section \<open>The check before a request\<close>

definition inject_memory :: "chat_message list \<Rightarrow> (string \<times> string) list \<Rightarrow> chat_message list" where
  "inject_memory messages memory =
     (let has_memory = (1 < length messages \<and> is_memory_message (messages ! 1))
      in if memory \<noteq> [] \<and> \<not> has_memory
         then (case build_memory_message memory of
                 Some m \<Rightarrow> take 1 messages @ m # drop 1 messages
               | None \<Rightarrow> messages)
         else messages)"

definition preflight_check ::
  "chat_message list \<Rightarrow> (string \<times> string) list \<Rightarrow> (agent_error + unit) \<times> chat_message list" where
  "preflight_check messages memory =
     (if messages = [] \<or> role (messages ! 0) \<noteq> RSystem
      then (Inl (OtherErr ''preflight: messages[0] must be System''), messages)
      else
        let messages1 = inject_memory messages memory;
            body_start = detect_body_start messages1
        in (Inr (), remove_orphans body_start messages1))"

section \<open>What the operations promise\<close>

text \<open>The walk over the turns: where it stops, the tail meets all three conditions.\<close>

lemma tail_walk_stops:
  assumes "tail_walk ts tokens count has_user = b" and "0 < b"
  shows "b < length ts \<and>
    SLIDING_WINDOW_TAIL_TOKENS \<le> tokens + sum_list (map t_tokens (take (length ts - b) ts)) \<and>
    SLIDING_WINDOW_MIN_TURNS \<le> count + (length ts - b) \<and>
    (has_user \<or> (\<exists>t \<in> set (take (length ts - b) ts). has_user_request t))"
  using assms
proof (induction ts tokens count has_user rule: tail_walk.induct)
  case (2 t ts tokens count has_user)
  show ?case
  proof (cases "SLIDING_WINDOW_TAIL_TOKENS \<le> tokens + t_tokens t \<and> SLIDING_WINDOW_MIN_TURNS \<le> count + 1 \<and>
      (has_user \<or> has_user_request t)")
    case True
    with 2(2,3) have "b = length ts" by (simp add: Let_def)
    with True 2(3) show ?thesis by auto
  next
    case False
    with 2(2) have "tail_walk ts (tokens + t_tokens t) (count + 1) (has_user \<or> has_user_request t) = b"
      by (auto simp: Let_def split: if_splits)
    with 2(1) [OF refl refl refl False] 2(3) show ?thesis by (auto simp: Suc_diff_le add.assoc)
  qed
qed simp

lemma take_rev_drop: "b \<le> length xs \<Longrightarrow> take (length xs - b) (rev xs) = rev (drop b xs)"
  by (simp add: take_rev)

lemma chained_append: "chained a (xs @ ys) b \<longleftrightarrow> (\<exists>c. chained a xs c \<and> chained c ys b)"
  by (induction xs arbitrary: a) auto

lemma chained_less:
  "chained a ts b \<Longrightarrow> \<forall>t \<in> set ts. turn_ok messages t \<Longrightarrow> ts \<noteq> [] \<Longrightarrow> a < b"
proof (induction ts arbitrary: a)
  case (Cons t ts)
  then have "t_start t < t_end t" "t_start t = a" by (auto simp: turn_ok_def)
  with Cons show ?case by (cases "ts = []") (auto dest: less_trans)
qed simp

text \<open>Adjacent slices join, so the turns of the tail are the messages of the tail.\<close>

lemma slice_join: "a \<le> b \<Longrightarrow> b \<le> length xs \<Longrightarrow> slice xs a b @ drop b xs = drop a xs"
  by (simp add: slice_def) (metis append_take_drop_id drop_drop le_add_diff_inverse2)

lemma chained_tokens:
  assumes "chained a ts (length messages)" and "\<forall>t \<in> set ts. turn_ok messages t"
    and "\<forall>t \<in> set ts. t_tokens t = sum_list (map (\<lambda>m. estimate_content_tokens m + 4) (turn_messages messages t))"
  shows "sum_list (map t_tokens ts) = sum_list (map (\<lambda>m. estimate_content_tokens m + 4) (drop a messages))"
  using assms
proof (induction ts arbitrary: a)
  case (Cons t ts)
  then have "drop a messages = turn_messages messages t @ drop (t_end t) messages"
    using slice_join [of "t_start t" "t_end t" messages] by (simp add: turn_messages_def turn_ok_def)
  with Cons show ?case by simp
qed simp

lemma turns_loop_tokens:
  "t \<in> set (turns_loop messages i start has_user ms) \<Longrightarrow>
     t_tokens t = sum_list (map (\<lambda>m. estimate_content_tokens m + 4) (turn_messages messages t))"
  by (induction messages i start has_user ms rule: turns_loop.induct)
     (auto simp: mk_turn_def turn_messages_def split: if_splits)

lemma chained_real_users:
  assumes "chained a ts (length messages)" and "\<forall>t \<in> set ts. turn_ok messages t"
    and "\<forall>t \<in> set ts. is_real_user (messages ! t_start t)"
  shows "length ts \<le> length (filter is_real_user (drop a messages))"
  using assms
proof (induction ts arbitrary: a)
  case (Cons t ts)
  then have ok: "t_start t < t_end t" "t_end t \<le> length messages" "is_real_user (messages ! t_start t)"
    and a: "a = t_start t" by (auto simp: turn_ok_def)
  then have "drop a messages = messages ! a # drop (Suc a) messages" by (simp add: Cons_nth_drop_Suc)
  moreover have "drop (Suc a) messages = slice messages (Suc a) (t_end t) @ drop (t_end t) messages"
    using ok a by (intro slice_join [symmetric]) auto
  moreover have "length ts \<le> length (filter is_real_user (drop (t_end t) messages))"
    using Cons by simp
  ultimately show ?case using ok a by simp
qed simp

text \<open>The cut of the sliding window, as a function of the conversation alone.\<close>

definition window_cut :: "chat_message list \<Rightarrow> nat option" where
  "window_cut messages =
     (let turns = parse_turns messages (detect_body_start messages);
          boundary = tail_walk (rev turns) 0 0 False
      in if length turns < 2 \<or> boundary = 0 then None else Some (t_start (turns ! boundary)))"

lemma body_start_le: "messages \<noteq> [] \<Longrightarrow> detect_body_start messages \<le> length messages"
  by (cases messages) (auto simp: detect_body_start_def Suc_le_eq)

lemma window_cut_Some:
  assumes "window_cut messages = Some e" and "messages \<noteq> []"
  shows "detect_body_start messages < e \<and> e < length messages \<and> is_real_user (messages ! e)
    \<and> SLIDING_WINDOW_MIN_TURNS \<le> length (filter is_real_user (drop e messages))
    \<and> SLIDING_WINDOW_TAIL_TOKENS \<le> sum_list (map (\<lambda>m. estimate_content_tokens m + 4) (drop e messages))"
proof -
  define body where "body = detect_body_start messages"
  define turns where "turns = parse_turns messages body"
  define b where "b = tail_walk (rev turns) 0 0 False"
  have body: "body \<le> length messages" unfolding body_def using assms(2) by (rule body_start_le)
  from assms(1) have b: "0 < b" and e: "e = t_start (turns ! b)"
    by (auto simp: window_cut_def Let_def b_def turns_def body_def split: if_splits)
  have stop: "b < length turns \<and> SLIDING_WINDOW_TAIL_TOKENS \<le> sum_list (map t_tokens (drop b turns))
      \<and> SLIDING_WINDOW_MIN_TURNS \<le> length turns - b"
    using tail_walk_stops [OF b_def [symmetric] b] take_rev_drop [of b turns]
    by (auto simp: rev_map [symmetric])
  note ok = parse_turns_ok [OF body, folded turns_def]
  have split: "turns = take b turns @ drop b turns" by simp
  have "chained body (take b turns @ drop b turns) (length messages)" using ok(1) by simp
  then obtain c where c1: "chained body (take b turns) c" and c2: "chained c (drop b turns) (length messages)"
    unfolding chained_append by blast
  have hd: "drop b turns = turns ! b # drop (Suc b) turns" using stop by (simp add: Cons_nth_drop_Suc)
  with c2 e have c: "c = e" by simp
  have oks: "\<forall>t \<in> set (drop b turns). turn_ok messages t" using ok(2) set_drop_subset by fast
  have real: "\<forall>t \<in> set (drop b turns). is_real_user (messages ! t_start t)"
  proof -
    have "drop b turns = drop (b - 1) (tl turns)" using b by (cases turns) (auto simp: drop_Cons')
    then show ?thesis using ok(3) set_drop_subset by fastforce
  qed
  have "t_tokens t = sum_list (map (\<lambda>m. estimate_content_tokens m + 4) (turn_messages messages t))"
    if "t \<in> set (drop b turns)" for t
    using that set_drop_subset [of b turns] unfolding turns_def parse_turns_def by (blast intro: turns_loop_tokens)
  with chained_tokens [OF c2 oks] have "sum_list (map t_tokens (drop b turns))
      = sum_list (map (\<lambda>m. estimate_content_tokens m + 4) (drop e messages))" by (simp add: c)
  moreover have "length turns - b \<le> length (filter is_real_user (drop e messages))"
    using chained_real_users [OF c2 oks real] by (simp add: c)
  moreover have "body < e"
  proof -
    have "take b turns \<noteq> []" using stop b by (cases turns) auto
    then show ?thesis using chained_less [OF c1] c ok(2) set_take_subset [of b turns] by blast
  qed
  moreover have "e < length messages" using oks hd e by (auto simp: turn_ok_def)
  ultimately show ?thesis using stop real hd e by (auto simp: body_def)
qed

lemma sliding_window_trim_Some:
  assumes "sliding_window_trim env messages tools thread history agent ctx db = (Inr (Some (new, n, meta)), db')"
  obtains e up_to where "window_cut messages = Some e" and "n = e - detect_body_start messages"
    and "map_index_to_seq e history = Some up_to"
    and "new = with_memory messages (read_memory env thread db) (drop e messages)"
    and "scale env (budget (scale env) ctx) f32_half < estimate_tokens (ser env) messages tools"
  using assms
  by (auto simp: sliding_window_trim_def window_cut_def Let_def not_le not_less
      split: if_splits option.splits prod.splits sum.splits)

text \<open>The check before a request: what it returns has no orphan, and it changes nothing else.\<close>

lemma inject_memory_head:
  "messages \<noteq> [] \<Longrightarrow> inject_memory messages memory \<noteq> [] \<and> inject_memory messages memory ! 0 = messages ! 0"
  by (cases messages) (auto simp: inject_memory_def Let_def split: option.split)

lemma inject_memory_present:
  "messages \<noteq> [] \<Longrightarrow> memory \<noteq> [] \<Longrightarrow>
     1 < length (inject_memory messages memory) \<and> is_memory_message (inject_memory messages memory ! 1)"
  using build_memory_message_Some [of memory]
  by (cases messages) (auto simp: inject_memory_def Let_def is_memory_message_def)

lemma inject_memory_again:
  "memory = [] \<or> 1 < length messages \<and> is_memory_message (messages ! 1) \<Longrightarrow> inject_memory messages memory = messages"
  by (auto simp: inject_memory_def Let_def)

lemma body_prefix_plain:
  "messages \<noteq> [] \<Longrightarrow> role (messages ! 0) = RSystem \<Longrightarrow>
     \<forall>m \<in> set (take (detect_body_start messages) messages). role m = RSystem \<or> role m = RUser"
  by (cases messages; cases "tl messages") (auto simp: detect_body_start_def is_memory_message_def)

lemma grouped_plain_prefix:
  "\<forall>m \<in> set pre. role m = RSystem \<or> role m = RUser \<Longrightarrow> grouped False (pre @ ms) \<longleftrightarrow> grouped False ms"
  by (induction pre) (auto simp: group_after_def)

lemma preflight_out:
  assumes "messages \<noteq> []" and "role (messages ! 0) = RSystem"
    and injected: "injected = inject_memory messages memory"
  shows "preflight_check messages memory = (Inr (),
    take (detect_body_start injected) injected @ drop_orphans False (drop (detect_body_start injected) injected))"
  using inject_memory_head [OF assms(1)] body_start_le assms
  by (simp add: preflight_check_def Let_def remove_orphans_eq)

lemma preflight_grouped:
  assumes "messages \<noteq> []" and "role (messages ! 0) = RSystem"
    and "preflight_check messages memory = (res, out)"
  shows "grouped False out"
    and "filter (\<lambda>m. role m \<noteq> RTool) out = filter (\<lambda>m. role m \<noteq> RTool) (inject_memory messages memory)"
    and "grouped False (inject_memory messages memory) \<Longrightarrow> out = inject_memory messages memory"
proof -
  define inj where "inj = inject_memory messages memory"
  define b where "b = detect_body_start inj"
  have inj: "inj \<noteq> []" "role (inj ! 0) = RSystem"
    using inject_memory_head [OF assms(1), of memory] assms(2) by (simp_all add: inj_def)
  have out: "out = take b inj @ drop_orphans False (drop b inj)"
    using preflight_out [OF assms(1,2) inj_def] assms(3) by (simp add: b_def)
  note plain = body_prefix_plain [OF inj, folded b_def]
  show "grouped False out"
    unfolding out by (simp add: grouped_plain_prefix [OF plain] drop_orphans_grouped)
  show "filter (\<lambda>m. role m \<noteq> RTool) out = filter (\<lambda>m. role m \<noteq> RTool) (inject_memory messages memory)"
    unfolding out filter_append drop_orphans_others inj_def [symmetric]
    by (simp only: filter_append [symmetric] append_take_drop_id)
  assume "grouped False (inject_memory messages memory)"
  then have "grouped False (take b inj @ drop b inj)" by (simp add: inj_def)
  then have "grouped False (drop b inj)" by (simp only: grouped_plain_prefix [OF plain])
  then show "out = inject_memory messages memory"
    unfolding out by (simp add: drop_orphans_id inj_def)
qed

section \<open>From positions to sequence numbers\<close>

text \<open>
  The rows of a history that has no system rows become the messages after the system
  prompt, one each and in order. Marking the rows up to the one that \<open>map_index_to_seq\<close>
  gives leaves exactly the rows after it.
\<close>

definition chat_rows :: "message_row list \<Rightarrow> bool" where
  "chat_rows history \<longleftrightarrow> (\<forall>r \<in> set history. msg_role r \<in> {''user'', ''assistant'', ''tool''})"

lemma chat_row_message:
  "msg_role r \<in> {''user'', ''assistant'', ''tool''} \<Longrightarrow> \<exists>m. row_message r = Some m"
  by (auto simp: row_message_def history_role_def Let_def)

lemma build_messages_chat_rows:
  "chat_rows history \<Longrightarrow>
     build_messages_from_history sys history = plain RSystem sys # map (the \<circ> row_message) history"
proof -
  assume "chat_rows history"
  then have "List.map_filter row_message history = map (the \<circ> row_message) history"
  proof (induction history)
    case (Cons r rs)
    then obtain m where "row_message r = Some m" using chat_row_message [of r] by (auto simp: chat_rows_def)
    with Cons show ?case by (simp add: chat_rows_def List.map_filter_simps)
  qed (simp add: List.map_filter_simps)
  then show ?thesis by (simp add: build_messages_from_history_def)
qed

lemma history_sorted:
  "messages_wf db \<Longrightarrow> sorted_wrt (<) (map msg_seq (get_thread_messages_compacted th db))"
  unfolding messages_wf_def get_thread_messages_compacted_def
  by (auto simp: strict_sorted_iff distinct_map intro: inj_on_subset)

lemma filter_above:
  fixes f :: "'a \<Rightarrow> int"
  assumes "sorted_wrt (<) (map f xs)" and "k < length xs"
  shows "filter (\<lambda>x. f (xs ! k) < f x) xs = drop (Suc k) xs"
  using assms
proof (induction xs arbitrary: k)
  case (Cons x xs)
  show ?case
  proof (cases k)
    case 0
    with Cons.prems show ?thesis by (auto simp: filter_id_conv)
  next
    case (Suc j)
    with Cons.prems have j: "j < length xs" and less: "f x < f (xs ! j)" by auto
    from Cons.prems(1) have "sorted_wrt (<) (map f xs)" by simp
    from Cons.IH [OF this j] less show ?thesis unfolding Suc by simp
  qed
qed simp

lemma marked_history:
  assumes "messages_wf db" and history: "history = get_thread_messages_compacted th db"
    and "chat_rows history" and "2 \<le> e" and "e < length history + 2"
  obtains up_to where "map_index_to_seq e history = Some up_to"
    and "get_thread_messages_compacted th (snd (mark_messages_compacted th up_to db)) = drop (e - 1) history"
proof
  let ?k = "e - 2"
  from assms(4,5) have k: "?k < length history" "e - 1 = Suc ?k" by auto
  then show "map_index_to_seq e history = Some (msg_seq (history ! ?k))"
    using assms(4) by (simp add: map_index_to_seq_def)
  have "filter (\<lambda>r. msg_seq (history ! ?k) < msg_seq r \<or> msg_role r = ''system'') history
      = filter (\<lambda>r. msg_seq (history ! ?k) < msg_seq r) history"
    using assms(3) by (intro filter_cong) (auto simp: chat_rows_def)
  then show "get_thread_messages_compacted th (snd (mark_messages_compacted th (msg_seq (history ! ?k)) db))
      = drop (e - 1) history"
    using filter_above [of msg_seq history ?k] history_sorted [OF assms(1), of th] k
    unfolding history_after_mark history [symmetric] by simp
qed

end
