(* ===== verification/CwcBridge.thy ===== *)
theory CwcBridge
  imports Compaction
begin

text \<open>
  \<open>af-agents/src/cwc_bridge.rs\<close>: the conversion between chat messages and the session
  messages of the context manager (an external crate), and the restoration of what the
  conversion loses. The context manager itself is a parameter: a function from the
  configuration and the session to the session it leaves and its report.
\<close>

section \<open>Session messages\<close>

datatype session_role = SSystem | SUser | SAssistant | STool

record session_tool_result =
  tr_call_id :: string
  tr_tool_name :: string
  tr_output :: string
  tr_is_error :: bool

record session_message =
  sm_role :: session_role
  sm_content :: string
  sm_preserve :: bool
  sm_nudge :: bool
  sm_memory :: bool
  sm_tool_calls :: "tool_call_info list"
  sm_tool_result :: "session_tool_result option"

fun to_session_role :: "chat_role \<Rightarrow> session_role" where
  "to_session_role RSystem = SSystem"
| "to_session_role RUser = SUser"
| "to_session_role RAssistant = SAssistant"
| "to_session_role RTool = STool"

fun of_session_role :: "session_role \<Rightarrow> chat_role" where
  "of_session_role SSystem = RSystem"
| "of_session_role SUser = RUser"
| "of_session_role SAssistant = RAssistant"
| "of_session_role STool = RTool"

text \<open>\<open>SessionMessage::text\<close> gives a message with the role and the content and nothing else.\<close>

definition chat_to_session :: "chat_message \<Rightarrow> session_message" where
  "chat_to_session m =
     (let r = to_session_role (role m) in
      \<lparr>sm_role = r, sm_content = content m, sm_preserve = (r = SSystem),
       sm_nudge = is_nudge_or_reinforcement (content m),
       sm_memory = starts_with ''[Thread Memory'' (content m),
       sm_tool_calls = tool_calls m,
       sm_tool_result =
         (if r = STool
          then Some \<lparr>tr_call_id = opt_default [] (tool_call_id m), tr_tool_name = opt_default [] (cm_name m),
                     tr_output = content m, tr_is_error = False\<rparr>
          else None)\<rparr>)"

definition session_to_chat :: "session_message \<Rightarrow> chat_message" where
  "session_to_chat sm =
     \<lparr>role = of_session_role (sm_role sm), content = sm_content sm,
      tool_call_id = map_option tr_call_id (sm_tool_result sm),
      cm_name = map_option tr_tool_name (sm_tool_result sm),
      tool_calls = sm_tool_calls sm, content_parts = None\<rparr>"

text \<open>\<open>restore_content_parts\<close>: the parts of the first original with the same role and text.\<close>

definition donor :: "chat_message list \<Rightarrow> chat_message \<Rightarrow> chat_message option" where
  "donor originals m =
     List.find (\<lambda>orig. has_parts orig \<and> role orig = role m \<and> content orig = content m) originals"

definition restore_one :: "chat_message list \<Rightarrow> chat_message \<Rightarrow> chat_message" where
  "restore_one originals m =
     (if content_parts m \<noteq> None then m
      else case donor originals m of
        Some orig \<Rightarrow> m\<lparr>content_parts := content_parts orig\<rparr>
      | None \<Rightarrow> m)"

definition restore_content_parts :: "chat_message list \<Rightarrow> chat_message list \<Rightarrow> chat_message list" where
  "restore_content_parts originals optimized = map (restore_one originals) optimized"

section \<open>The configuration\<close>

definition f32_0_60 :: f32 where "f32_0_60 = 0x3F19999A"
definition f32_0_85 :: f32 where "f32_0_85 = 0x3F59999A"

record cwc_config =
  cwc_window :: u32
  cwc_max_output :: u32
  cwc_effective_fraction :: f32
  cwc_sliding_fraction :: f32
  cwc_hard_reset_fraction :: f32
  cwc_tail_tokens :: nat
  cwc_min_tail_turns :: nat
  cwc_nudge_every :: nat
  cwc_include_goal :: bool
  cwc_max_nudge_tokens :: nat
  cwc_max_same_tool :: nat
  cwc_max_calls_without_user :: nat
  cwc_memory_max_bytes :: nat
  cwc_memory_max_entries :: nat

definition build_cwc_config :: "u32 \<Rightarrow> u32 \<Rightarrow> bool \<Rightarrow> cwc_config" where
  "build_cwc_config window max_output local =
     \<lparr>cwc_window = window, cwc_max_output = max_output,
      cwc_effective_fraction = (if local then f32_0_60 else f32_0_85),
      cwc_sliding_fraction = f32_half, cwc_hard_reset_fraction = f32_0_60,
      cwc_tail_tokens = (if local then 6000 else 12000), cwc_min_tail_turns = 2,
      cwc_nudge_every = 1, cwc_include_goal = True, cwc_max_nudge_tokens = 80,
      cwc_max_same_tool = 3, cwc_max_calls_without_user = 15,
      cwc_memory_max_bytes = 2048, cwc_memory_max_entries = 30\<rparr>"

text \<open>The token counter handed to the context manager: \<open>u32\<close> arithmetic.\<close>

definition count_tokens :: "string \<Rightarrow> u32" where
  "count_tokens text = len32 text div 4"

fun boundary_down :: "string \<Rightarrow> nat \<Rightarrow> nat" where
  "boundary_down s 0 = 0"
| "boundary_down s (Suc i) = (if is_char_boundary s (Suc i) then Suc i else boundary_down s i)"

definition truncate_to_tokens :: "string \<Rightarrow> u32 \<Rightarrow> string" where
  "truncate_to_tokens text max_tokens =
     (let max_bytes = unat (max_tokens * 4)
      in if length text \<le> max_bytes then text else take (boundary_down text max_bytes) text)"

section \<open>Optimisation\<close>

record cwc_report =
  rp_tokens_saved :: u32
  rp_trimmed :: bool

record cwc =
  cwc_init :: "cwc_config \<Rightarrow> string option"       \<comment> \<open>the error of the manager's creation\<close>
  cwc_run :: "cwc_config \<Rightarrow> session_message list \<Rightarrow> string + session_message list \<times> cwc_report"
  cwc_facts :: "string \<Rightarrow> string \<Rightarrow> string \<Rightarrow> (string \<times> string) option"

definition cwc_pass ::
  "cwc \<Rightarrow> string \<Rightarrow> chat_message list \<Rightarrow> u32 \<Rightarrow> u32 \<Rightarrow> bool \<Rightarrow> agent_error + chat_message list \<times> cwc_report" where
  "cwc_pass c label messages window max_output local =
     (let config = build_cwc_config window max_output local in
      case cwc_init c config of
        Some e \<Rightarrow> Inl (OtherErr (''CWC init: '' @ e))
      | None \<Rightarrow>
          (case cwc_run c config (map chat_to_session messages) of
             Inl e \<Rightarrow> Inl (OtherErr (label @ e))
           | Inr (session, report) \<Rightarrow>
               Inr (restore_content_parts messages (map session_to_chat session), report)))"

definition cwc_optimize ::
  "cwc \<Rightarrow> chat_message list \<Rightarrow> u32 \<Rightarrow> u32 \<Rightarrow> bool \<Rightarrow> agent_error + chat_message list \<times> u32 \<times> bool" where
  "cwc_optimize c messages window max_output local =
     sum_bind (cwc_pass c ''CWC optimize: '' messages window max_output local)
       (\<lambda>(ms, report). Inr (ms, rp_tokens_saved report, rp_trimmed report))"

definition cwc_optimize_incremental ::
  "cwc \<Rightarrow> chat_message list \<Rightarrow> u32 \<Rightarrow> u32 \<Rightarrow> bool \<Rightarrow> agent_error + chat_message list \<times> u32 \<times> bool" where
  "cwc_optimize_incremental c messages window max_output local =
     sum_bind (cwc_pass c ''CWC optimize: '' messages window max_output local)
       (\<lambda>(ms, report). Inr (ms, rp_tokens_saved report, rp_trimmed report))"

text \<open>The check before a request leaves the messages as they were when it fails.\<close>

definition cwc_preflight ::
  "cwc \<Rightarrow> chat_message list \<Rightarrow> u32 \<Rightarrow> u32 \<Rightarrow> bool \<Rightarrow> (agent_error + unit) \<times> chat_message list" where
  "cwc_preflight c messages window max_output local =
     (case cwc_pass c ''CWC preflight: '' messages window max_output local of
        Inl e \<Rightarrow> (Inl e, messages)
      | Inr (ms, _) \<Rightarrow> (Inr (), ms))"

definition cwc_extract_from_tool_result :: "cwc \<Rightarrow> string \<Rightarrow> string \<Rightarrow> string \<Rightarrow> (string \<times> string) option" where
  "cwc_extract_from_tool_result c tool call_id output = cwc_facts c tool call_id output"

section \<open>What survives the conversion\<close>

text \<open>A message as the code builds it: only tool messages name a call.\<close>

definition chat_shape :: "chat_message \<Rightarrow> bool" where
  "chat_shape m \<longleftrightarrow>
     (if role m = RTool then tool_call_id m \<noteq> None \<and> cm_name m \<noteq> None
      else tool_call_id m = None \<and> cm_name m = None)"

lemma role_back [simp]: "of_session_role (to_session_role r) = r"
  by (cases r) auto

lemma role_tool [simp]: "to_session_role r = STool \<longleftrightarrow> r = RTool"
  by (cases r) auto

lemma conversion_back:
  "chat_shape m \<Longrightarrow> session_to_chat (chat_to_session m) = m\<lparr>content_parts := None\<rparr>"
  by (cases m) (auto simp: session_to_chat_def chat_to_session_def chat_shape_def Let_def opt_default_def)

lemma donor_Some:
  "donor originals m = Some d \<Longrightarrow> d \<in> set originals \<and> has_parts d \<and> role d = role m \<and> content d = content m"
  by (auto simp: donor_def find_Some_iff)

text \<open>
  When a manager leaves the session as it is, every message gets its own parts back,
  provided no two messages share role and text.
\<close>

lemma restored_exactly:
  assumes "\<forall>m \<in> set messages. chat_shape m \<and> content_parts m \<noteq> Some []"
    and "distinct (map (\<lambda>m. (role m, content m)) messages)"
  shows "restore_content_parts messages (map session_to_chat (map chat_to_session messages)) = messages"
proof -
  have "restore_one messages (session_to_chat (chat_to_session m)) = m" if m: "m \<in> set messages" for m
  proof -
    have conv: "session_to_chat (chat_to_session m) = m\<lparr>content_parts := None\<rparr>"
      using assms(1) m by (intro conversion_back) auto
    show ?thesis
    proof (cases "donor messages (m\<lparr>content_parts := None\<rparr>)")
      case None
      then have "\<not> has_parts m" using m by (auto simp: donor_def find_None_iff)
      with assms(1) m None show ?thesis
        unfolding conv restore_one_def by (cases m) (auto simp: has_parts_def split: option.splits)
    next
      case (Some d)
      then have "d \<in> set messages" "(role d, content d) = (role m, content m)" using donor_Some by force+
      then have "d = m" using assms(2) m by (auto simp: distinct_map inj_on_def)
      with Some show ?thesis unfolding conv restore_one_def by simp
    qed
  qed
  then show ?thesis by (simp add: restore_content_parts_def map_idI)
qed

end
