(* ===== verification/AgentTools.thy ===== *)
theory AgentTools
  imports ToolPrompt Evidence CwcBridge Worker
begin

text \<open>
  One run of an agent on a thread (\<open>af-agents/src/runtime.rs\<close>): what it holds fixed, the
  state its loop changes, and the handling of a single tool call: the checks before it,
  the invocation with its corrections, and the memory and messages it leaves.

  Parameters (the environment): the language model's answers, one per request; the tool
  invoker's answers, one per invocation; the JSON schema validator and the parsers and
  printers of external crates; whether a statement sent to the database fails; what
  other sessions write to the message table between two rounds and during the calls; the tool switches and
  artifacts as the database has them at the time of an invocation.
\<close>

section \<open>The environment\<close>

datatype agent_stmt =
    InsertUser | GetHistory | RouteRows | LoadRestrictions | PollQueue | InsertAssistant
  | InsertToolResult | UpsertMemory | LogUsage | ReserveTokens | AdjustTokens
  | InsertFinal | InsertEvidenceRow | LoadMemory | FreshHistory

datatype task_end = TaskOk | TaskErr llm_error | TaskPanic string

record agent_env = compaction_env +
  ae_llm :: "nat \<Rightarrow> completion_request \<Rightarrow> llm_error + completion_response"
  ae_stream :: "nat \<Rightarrow> completion_request \<Rightarrow> (llm_error + stream_chunk) list \<times> task_end"
  ae_invoke :: "nat \<Rightarrow> tool_request \<Rightarrow> tool_error + tool_result"
  ae_validate :: "tool_spec \<Rightarrow> json \<Rightarrow> string list"
  ae_pretty :: "json \<Rightarrow> string"
  ae_from_str :: "string \<Rightarrow> string + json"
  ae_float :: "string \<Rightarrow> string"
  ae_parse_id :: "string \<Rightarrow> uuid option"
  ae_show_id :: "uuid \<Rightarrow> string"
  ae_enabled :: "nat \<Rightarrow> string \<Rightarrow> string + bool"
  ae_artifacts :: "nat \<Rightarrow> (artifact_info list \<times> (uuid \<times> uuid) list) option"
  ae_evidence :: evidence_env
  ae_row_id :: "int \<Rightarrow> uuid"
  ae_call_id :: "nat \<Rightarrow> string"        \<comment> \<open>a fresh identifier for a call found in a text\<close>
  ae_today :: "nat \<Rightarrow> date"
  ae_others :: "nat \<Rightarrow> bool \<Rightarrow> message_db \<Rightarrow> message_db"  \<comment> \<open>before a round; while its calls ran\<close>
  ae_fault :: "agent_stmt \<Rightarrow> nat \<Rightarrow> string option"
  ae_cwc :: cwc

text \<open>The tables a run writes.\<close>

record usage_entry =
  ue_thread :: uuid
  ue_project :: uuid
  ue_user :: "uuid option"
  ue_route :: string
  ue_usage :: usage_info

record agent_db = chat_db +
  quota_tab :: quota_db
  usage_log :: "usage_entry list"
  evidence_rows :: "(uuid \<times> string \<times> uuid) list"

text \<open>What a run fixes before its loop.\<close>

record run_ctx =
  x_env :: agent_env
  x_user :: "uuid option"
  x_agent :: "string option"
  x_use_cwc :: bool
  x_specs :: "tool_spec registry"
  x_router :: llm_router
  x_thread :: uuid
  x_project :: uuid
  x_target :: "uuid option"
  x_allowed :: "string list"
  x_route :: llm_route
  x_route_name :: string
  x_budget :: nat
  x_local :: bool
  x_ctx :: compaction_ctx
  x_index :: "uuid list"
  x_memory :: memory_pairs
  x_cache :: "restriction_cache option"

text \<open>The state of the loop. The requests handed to the invoker are kept in order.\<close>

record run_state =
  st_db :: agent_db
  st_messages :: "chat_message list"
  st_tools :: "tool_description list"
  st_calls :: nat
  st_counts :: call_counts
  st_errors :: nat
  st_discovered :: "string list"
  st_seen :: int
  st_retries :: nat
  st_round :: nat
  st_events :: "agent_event list"
  st_sent :: "tool_request list"

definition emit :: "agent_event \<Rightarrow> run_state \<Rightarrow> run_state" where
  "emit e s = s\<lparr>st_events := st_events s @ [e]\<rparr>"

text \<open>What other sessions have written by then: between two rounds, or while tools ran.\<close>

definition others_write :: "run_ctx \<Rightarrow> bool \<Rightarrow> run_state \<Rightarrow> run_state" where
  "others_write x during s =
     s\<lparr>st_db := (st_db s)\<lparr>message_tab := ae_others (x_env x) (st_round s) during (message_tab (st_db s))\<rparr>\<rparr>"

definition push_message :: "chat_message \<Rightarrow> run_state \<Rightarrow> run_state" where
  "push_message m s = s\<lparr>st_messages := st_messages s @ [m]\<rparr>"

definition failing :: "run_ctx \<Rightarrow> agent_stmt \<Rightarrow> run_state \<Rightarrow> bool" where
  "failing x stm s \<longleftrightarrow> ae_fault (x_env x) stm (st_round s) \<noteq> None"

text \<open>\<open>truncate\<close>.\<close>

definition truncate :: "string \<Rightarrow> nat \<Rightarrow> string" where
  "truncate s max_len =
     (if length s \<le> max_len then s else take (floor_char_boundary s max_len) s @ ''...'')"

section \<open>Invoking a tool\<close>

definition result_event :: "string \<Rightarrow> bool \<Rightarrow> string \<Rightarrow> run_state \<Rightarrow> run_state" where
  "result_event tool ok text s = emit (EvToolCallResult tool ok text) s"

definition quoted :: "string \<Rightarrow> string" where "quoted s = [CHR 0x27] @ s @ [CHR 0x27]"

definition handle_tools_discover ::
  "run_ctx \<Rightarrow> json \<Rightarrow> run_state \<Rightarrow> (string \<times> tool_description option) \<times> run_state" where
  "handle_tools_discover x args s =
     (let tool = opt_default [] (Option.bind (jget args ''tool_name'') as_str);
          names = join '', '' (reg_list (x_specs x))
      in if tool = [] then
           ((''Error: missing '' @ quoted ''tool_name'' @ ''. Available tools: '' @ names, None),
            result_event ''tools.discover'' False ''missing tool_name'' s)
         else case reg_get_latest (x_specs x) tool of
           Some spec \<Rightarrow>
             ((''## '' @ spec_name spec @ nl @ nl @ description spec @ nl @ nl @ ''Input schema:'' @ nl
               @ fence @ ''json'' @ nl @ ae_pretty (x_env x) (input_schema spec) @ nl @ fence,
               Some (build_one_tool_description spec)),
              result_event ''tools.discover'' True (''schema for '' @ spec_name spec) s)
         | None \<Rightarrow>
             ((''Error: tool '' @ quoted tool @ '' not found. Available tools: '' @ names, None),
              result_event ''tools.discover'' False (''tool '' @ quoted tool @ '' not found'') s))"

text \<open>The artifacts of the project as they are now; none when the database fails.\<close>

definition current_artifacts :: "run_ctx \<Rightarrow> run_state \<Rightarrow> uuid option \<Rightarrow> artifact_ctx list" where
  "current_artifacts x s target =
     (case ae_artifacts (x_env x) (length (st_sent s)) of
        None \<Rightarrow> []
      | Some (rows, inputs) \<Rightarrow> fetch_artifact_context (x_project x) target inputs rows)"

definition mentions_missing_id :: "string \<Rightarrow> bool" where
  "mentions_missing_id e \<longleftrightarrow>
     find_sub ([CHR 0x22] @ ''artifact_id'' @ [CHR 0x22]) e \<noteq> None \<and> find_sub ''required'' e \<noteq> None"

definition inject_artifact :: "string \<Rightarrow> json \<Rightarrow> json" where
  "inject_artifact real args =
     (case args of JObj es \<Rightarrow> JObj (obj_insert ''artifact_id'' (JStr real) es) | _ \<Rightarrow> args)"

definition injected_id :: "run_ctx \<Rightarrow> run_state \<Rightarrow> string option" where
  "injected_id x s =
     (case x_target x of
        Some t \<Rightarrow> Some (ae_show_id (x_env x) t)
      | None \<Rightarrow> map_option (\<lambda>a. ae_show_id (x_env x) (ac_id a)) (pick_best_artifact (current_artifacts x s None)))"

text \<open>Validation, with one injection of a missing identifier: the arguments, or the errors.\<close>

definition validate_arguments :: "run_ctx \<Rightarrow> run_state \<Rightarrow> tool_spec \<Rightarrow> json \<Rightarrow> string list + json" where
  "validate_arguments x s spec args =
     (let errors = ae_validate (x_env x) spec args in
      if errors = [] then Inr args
      else if list_ex mentions_missing_id errors \<and> resolve_schema_paths (input_schema spec) \<noteq> [] then
        (case injected_id x s of
           None \<Rightarrow> Inl errors
         | Some real \<Rightarrow>
             let args' = inject_artifact real args;
                 errors2 = ae_validate (x_env x) spec args'
             in if errors2 = [] then Inr args' else Inl errors2)
      else Inl errors)"

definition validation_message :: "string \<Rightarrow> string list \<Rightarrow> string" where
  "validation_message tool errors = ''Schema validation failed for '' @ tool @ '':'' @ nl @ join nl errors"

text \<open>From the arguments of the call to those of the request: repair, translate, validate,
  correct.\<close>

definition prepare_arguments :: "run_ctx \<Rightarrow> run_state \<Rightarrow> string \<Rightarrow> json \<Rightarrow> string + json" where
  "prepare_arguments x s tool args =
     (case reg_get_latest (x_specs x) tool of
        None \<Rightarrow> Inr args
      | Some spec \<Rightarrow>
          let schema = input_schema spec;
              args1 = fixup_arguments (ae_float (x_env x)) args schema;
              args2 = translate_artifact_indices (ae_show_id (x_env x)) schema (x_index x) args1
          in case validate_arguments x s spec args2 of
               Inl errors \<Rightarrow> Inl (validation_message tool errors)
             | Inr args3 \<Rightarrow>
                 Inr (correct_artifacts (ae_parse_id (x_env x)) (ae_show_id (x_env x)) (x_target x)
                        (current_artifacts x s (x_target x)) schema args3))"

definition tool_request_of :: "run_ctx \<Rightarrow> string \<Rightarrow> json \<Rightarrow> tool_request" where
  "tool_request_of x tool args =
     \<lparr>req_tool_name = tool, req_input = args, req_project = x_project x, req_thread = Some (x_thread x),
      req_parent = None, req_actor = x_user x\<rparr>"

definition redirect_hint :: "run_ctx \<Rightarrow> tool_result \<Rightarrow> string" where
  "redirect_hint x res =
     (if Option.bind (jget (res_output res) ''_redirected'') as_bool = Some True then
        (case produced_artifacts res of
           [] \<Rightarrow> []
         | a # _ \<Rightarrow>
             let ref = (case position a (x_index x) of
                   Some pos \<Rightarrow> ''#'' @ show_nat (pos + 1)
                 | None \<Rightarrow> ''artifact:'' @ ae_show_id (x_env x) a)
             in nl @ nl @ ''[Output stored as '' @ ref @ ''. Use file.read_range or file.grep to inspect it.]'')
      else [])"

definition tool_error_text :: "tool_error \<Rightarrow> string" where
  "tool_error_text e = ''['' @ err_code e @ ''] '' @ err_message e"

definition invoke_tool ::
  "run_ctx \<Rightarrow> string \<Rightarrow> json \<Rightarrow> run_state \<Rightarrow> (string \<times> tool_description option) \<times> run_state" where
  "invoke_tool x tool args s =
     (if tool = ''tools.discover'' then handle_tools_discover x args s
      else case ae_enabled (x_env x) (length (st_sent s)) tool of
        Inr False \<Rightarrow>
          (let msg = ''Tool '' @ quoted tool @ '' is currently disabled''
           in ((msg, None), result_event tool False msg s))
      | Inl e \<Rightarrow>
          (let msg = ''Tool '' @ quoted tool @ '' config check failed: '' @ e
           in ((msg, None), result_event tool False msg s))
      | Inr True \<Rightarrow>
     (case prepare_arguments x s tool args of
        Inl msg \<Rightarrow> ((msg, None), result_event tool False (truncate msg 200) s)
      | Inr args' \<Rightarrow>
          let req = tool_request_of x tool args';
              s1 = s\<lparr>st_sent := st_sent s @ [req]\<rparr>
          in case ae_invoke (x_env x) (length (st_sent s)) req of
               Inr res \<Rightarrow>
                 (let summary = ae_pretty (x_env x) (res_output res)
                  in ((summary @ redirect_hint x res, None), result_event tool True (truncate summary 200) s1))
             | Inl err \<Rightarrow>
                 (let msg = ''Tool error: '' @ tool_error_text err
                  in ((msg, None), result_event tool False msg s1))))"

end
