(* ===== verification/AgentLoop.thy ===== *)
theory AgentLoop
  imports AgentCall
begin

text \<open>
  The loop of an agent run (\<open>af-agents/src/runtime.rs\<close>): one round polls queued user
  messages, checks the budgets, reserves tokens, asks the model, settles the reservation,
  handles the calls or stores the final text. The complete-response loop and the
  streaming loop differ in how a response arrives and is settled.
\<close>

definition MAX_TOOL_CALLS :: nat where "MAX_TOOL_CALLS = 20"
definition f32_0_1 :: f32 where "f32_0_1 = 0x3DCCCCCD"
definition f32_0_3 :: f32 where "f32_0_3 = 0x3E99999A"

datatype outcome = Again | Stop | Failed agent_error

section \<open>Before the request\<close>

text \<open>Other sessions write between two rounds; then the queued user messages are read.\<close>

definition queued_rows :: "run_ctx \<Rightarrow> run_state \<Rightarrow> message_row list" where
  "queued_rows x s =
     (if failing x PollQueue s then []
      else get_new_user_messages_since (x_thread x) (st_seen s) (message_tab (st_db s)))"

definition take_queued :: "run_ctx \<Rightarrow> run_state \<Rightarrow> run_state" where
  "take_queued x s =
     fold (\<lambda>row s. push_message (plain RUser (opt_default [] (msg_content row)))
             (s\<lparr>st_seen := max (st_seen s) (msg_seq row)\<rparr>)) (queued_rows x s) s"

definition begin_round :: "run_ctx \<Rightarrow> run_state \<Rightarrow> run_state" where
  "begin_round x s0 =
     take_queued x (others_write x False (s0\<lparr>st_round := st_round s0 + 1\<rparr>))"

definition stop_reason :: "run_ctx \<Rightarrow> run_state \<Rightarrow> string option" where
  "stop_reason x s =
     (if x_budget x \<le> st_calls s
      then Some (''max tool calls ('' @ show_nat (x_budget x) @ '') exceeded'')
      else if MAX_CONSECUTIVE_ERRORS < st_errors s
      then Some (''Agent terminated: '' @ show_nat (st_errors s)
             @ '' consecutive tool call errors (model failed to self-correct)'')
      else None)"

text \<open>The reservation is the model's maximal output. An error of the statement lets the
  round go on.\<close>

definition reserved :: "run_ctx \<Rightarrow> int" where
  "reserved x = uint (max_output_tokens (x_ctx x))"

definition reserve_tokens :: "run_ctx \<Rightarrow> run_state \<Rightarrow> bool \<times> run_state" where
  "reserve_tokens x s =
     (case x_user x of
        None \<Rightarrow> (True, s)
      | Some uid \<Rightarrow>
          if failing x ReserveTokens s then (True, s)
          else (case reserve_llm_tokens uid (ae_today (x_env x) (st_round s)) (reserved x) (quota_tab (st_db s)) of
                  (Inr granted, q) \<Rightarrow> (granted, s\<lparr>st_db := (st_db s)\<lparr>quota_tab := q\<rparr>\<rparr>)
                | (Inl _, q) \<Rightarrow> (True, s\<lparr>st_db := (st_db s)\<lparr>quota_tab := q\<rparr>\<rparr>)))"

definition adjust_tokens :: "run_ctx \<Rightarrow> int \<Rightarrow> int \<Rightarrow> run_state \<Rightarrow> run_state" where
  "adjust_tokens x prompt_delta completion s =
     (case x_user x of
        None \<Rightarrow> s
      | Some uid \<Rightarrow>
          if failing x AdjustTokens s then s
          else (case adjust_llm_tokens uid (ae_today (x_env x) (st_round s)) prompt_delta completion
                       (quota_tab (st_db s)) of
                  Inr q \<Rightarrow> s\<lparr>st_db := (st_db s)\<lparr>quota_tab := q\<rparr>\<rparr>
                | Inl _ \<Rightarrow> s))"

definition charge_usage :: "run_ctx \<Rightarrow> usage_info \<Rightarrow> run_state \<Rightarrow> run_state" where
  "charge_usage x u s = adjust_tokens x (uint (prompt_tokens u) - reserved x) (uint (completion_tokens u)) s"

definition release_reservation :: "run_ctx \<Rightarrow> run_state \<Rightarrow> run_state" where
  "release_reservation x s = adjust_tokens x (- reserved x) 0 s"

definition preflight :: "run_ctx \<Rightarrow> run_state \<Rightarrow> run_state" where
  "preflight x s =
     (if \<not> x_local x then s
      else if x_use_cwc x
      then s\<lparr>st_messages := snd (cwc_preflight (ae_cwc (x_env x)) (st_messages s)
               (context_window (x_ctx x)) (max_output_tokens (x_ctx x)) True)\<rparr>
      else s\<lparr>st_messages := snd (preflight_check (st_messages s) (x_memory x))\<rparr>)"

definition request_of :: "run_ctx \<Rightarrow> run_state \<Rightarrow> completion_request" where
  "request_of x s =
     maybe_redact (x_router x) (x_route x)
       \<lparr>rq_messages = st_messages s, rq_tools = st_tools s,
        rq_max_tokens = Some (max_output_tokens (x_ctx x)),
        rq_temperature = Some (if x_local x then f32_0_1 else f32_0_3)\<rparr>"

section \<open>The final text\<close>

definition put_evidence :: "run_ctx \<Rightarrow> uuid \<Rightarrow> string \<times> uuid \<Rightarrow> run_state \<Rightarrow> run_state" where
  "put_evidence x message_id ev s =
     (let s1 = (if failing x InsertEvidenceRow s then s
                else s\<lparr>st_db := (st_db s)\<lparr>evidence_rows := evidence_rows (st_db s) @ [(message_id, fst ev, snd ev)]\<rparr>\<rparr>)
      in emit (EvEvidence (fst ev) (snd ev)) s1)"

definition store_final_text :: "run_ctx \<Rightarrow> string \<Rightarrow> run_state \<Rightarrow> agent_error option \<times> run_state" where
  "store_final_text x text s =
     (let evidence = parse_and_verify (ae_evidence (x_env x)) (x_project x) text in
      case ae_fault (x_env x) InsertFinal (st_round s) of
        Some e \<Rightarrow> (Some (DbErr e), s)
      | None \<Rightarrow>
          (let (row, tab) = insert_message_with_agent (next_row_id x s) (clock (x_env x)) (x_thread x)
                 ''assistant'' (Some text) None (x_agent x) (message_tab (st_db s));
               s1 = s\<lparr>st_db := (st_db s)\<lparr>message_tab := tab\<rparr>\<rparr>;
               s2 = fold (put_evidence x (msg_id row)) evidence s1;
               c = extract_conclusion text;
               s3 = remember x (key c) (val c) s2
           in (None, emit (EvDone (msg_id row) text) s3)))"

definition store_calls :: "run_ctx \<Rightarrow> string \<Rightarrow> tool_call_info list \<Rightarrow> run_state \<Rightarrow> run_state" where
  "store_calls x text calls s =
     (let s1 = (if failing x InsertAssistant s then s
        else s\<lparr>st_db := (st_db s)\<lparr>message_tab := snd (insert_message_with_agent (next_row_id x s)
               (clock (x_env x)) (x_thread x) ''assistant'' (Some text)
               (Some (JObj [(''tool_calls'', JArr (map tool_call_json calls))])) (x_agent x)
               (message_tab (st_db s)))\<rparr>\<rparr>)
      in push_message (assistant_message text calls) s1)"

definition log_usage :: "run_ctx \<Rightarrow> usage_info \<Rightarrow> run_state \<Rightarrow> run_state" where
  "log_usage x u s =
     (let s1 = (if failing x LogUsage s then s
        else s\<lparr>st_db := (st_db s)\<lparr>usage_log := usage_log (st_db s) @
               [\<lparr>ue_thread = x_thread x, ue_project = x_project x, ue_user = x_user x,
                 ue_route = x_route_name x, ue_usage = u\<rparr>]\<rparr>\<rparr>)
      in emit (EvUsage u (x_route_name x) (context_window (x_ctx x))) s1)"

section \<open>A round with a complete response\<close>

definition settle :: "run_ctx \<Rightarrow> usage_info option \<Rightarrow> run_state \<Rightarrow> run_state" where
  "settle x usage s =
     (case usage of
        Some u \<Rightarrow> log_usage x u (charge_usage x u s)
      | None \<Rightarrow> release_reservation x s)"

text \<open>The items of a response in order. The assistant message is stored before the first
  call; an error while storing a text ends the run.\<close>

definition handle_calls :: "run_ctx \<Rightarrow> tool_call_info list \<Rightarrow> run_state \<Rightarrow> run_state" where
  "handle_calls x calls s = fold (\<lambda>c. handle_call x (tc_id c) (tc_name c) (Given (tc_arguments c))) calls s"

fun handle_items ::
  "run_ctx \<Rightarrow> string \<Rightarrow> tool_call_info list \<Rightarrow> bool \<Rightarrow> parsed_response list \<Rightarrow> run_state \<Rightarrow>
     agent_error option \<times> bool \<times> run_state" where
  "handle_items x text calls pushed [] s = (None, pushed, s)"
| "handle_items x text calls pushed (ParsedCall c # items) s =
     (let s1 = (if pushed then s else store_calls x text calls s)
      in handle_items x text calls True items
           (handle_call x (tc_id c) (tc_name c) (Given (tc_arguments c)) s1))"
| "handle_items x text calls pushed (FinalText t # items) s =
     (case store_final_text x t s of
        (Some e, s1) \<Rightarrow> (Some e, pushed, s1)
      | (None, s1) \<Rightarrow> handle_items x text calls pushed items s1)"

definition finish_round :: "run_ctx \<Rightarrow> bool \<Rightarrow> string \<Rightarrow> run_state \<Rightarrow> outcome \<times> run_state" where
  "finish_round x has_calls text s =
     (if has_calls then
        (case post_calls x s of Inl e \<Rightarrow> (Failed e, s) | Inr s' \<Rightarrow> (Again, s'))
      else if text = [] \<and> st_retries s < 2 then (Again, s\<lparr>st_retries := st_retries s + 1\<rparr>)
      else (Stop, s))"

definition json_of_text :: "run_ctx \<Rightarrow> string \<Rightarrow> json option" where
  "json_of_text x t = (case ae_from_str (x_env x) t of Inr v \<Rightarrow> Some v | Inl _ \<Rightarrow> None)"

definition take_response :: "run_ctx \<Rightarrow> completion_response \<Rightarrow> run_state \<Rightarrow> outcome \<times> run_state" where
  "take_response x resp s =
     (let items = parse_response (json_of_text x) (ae_call_id (x_env x) (st_round s)) resp
      in case handle_items x (rs_content resp) (parsed_calls items) False items (settle x (rs_usage resp) s) of
           (Some e, _, s1) \<Rightarrow> (Failed e, s1)
         | (None, has_calls, s1) \<Rightarrow> finish_round x has_calls (rs_content resp) s1)"

definition ask :: "run_ctx \<Rightarrow> run_state \<Rightarrow> outcome \<times> run_state" where
  "ask x s =
     (let s1 = preflight x s in
      case ae_llm (x_env x) (st_round s1) (request_of x s1) of
        Inl e \<Rightarrow> (Failed (LlmErr e), release_reservation x s1)
      | Inr resp \<Rightarrow> take_response x resp s1)"

definition guarded :: "(run_ctx \<Rightarrow> run_state \<Rightarrow> outcome \<times> run_state) \<Rightarrow> run_ctx \<Rightarrow> run_state \<Rightarrow> outcome \<times> run_state" where
  "guarded go x s0 =
     (let s = begin_round x s0 in
      case stop_reason x s of
        Some e \<Rightarrow> (Stop, emit (EvError e) s)
      | None \<Rightarrow>
          (case reserve_tokens x s of
             (False, s1) \<Rightarrow> (Stop, emit (EvError ''daily LLM token quota exceeded'') s1)
           | (True, s1) \<Rightarrow> go x s1))"

definition plain_round :: "run_ctx \<Rightarrow> run_state \<Rightarrow> outcome \<times> run_state" where
  "plain_round = guarded ask"

section \<open>A round with a streamed response\<close>

text \<open>What the chunks add up to: the text, the calls with their raw arguments, the usage.\<close>

record collected =
  co_text :: string
  co_calls :: "(string \<times> string \<times> string) list"
  co_usage :: usage_info

definition nothing_collected :: collected where
  "nothing_collected = \<lparr>co_text = [], co_calls = [], co_usage = no_usage\<rparr>"

fun add_delta :: "string \<Rightarrow> string \<Rightarrow> (string \<times> string \<times> string) list \<Rightarrow> (string \<times> string \<times> string) list option" where
  "add_delta i d [] = None"
| "add_delta i d ((j, n, a) # cs) =
     (if j = i then Some ((j, n, a @ d) # cs) else map_option ((#) (j, n, a)) (add_delta i d cs))"

definition append_last :: "string \<Rightarrow> (string \<times> string \<times> string) list \<Rightarrow> (string \<times> string \<times> string) list" where
  "append_last d cs =
     (if cs = [] then []
      else butlast cs @ [(fst (last cs), fst (snd (last cs)), snd (snd (last cs)) @ d)])"

definition take_chunk :: "run_ctx \<Rightarrow> stream_chunk \<Rightarrow> collected \<times> run_state \<Rightarrow> collected \<times> run_state" where
  "take_chunk x chunk cs =
     (let c = fst cs; s = snd cs in
      case chunk of
        Token t \<Rightarrow> (c\<lparr>co_text := co_text c @ t\<rparr>, emit (EvToken t) s)
      | Reasoning t \<Rightarrow> (c, emit (EvReasoning t) s)
      | CallStart i n \<Rightarrow> (c\<lparr>co_calls := co_calls c @ [(i, n, [])]\<rparr>, s)
      | CallDelta i d \<Rightarrow>
          (c\<lparr>co_calls := (case add_delta i d (co_calls c) of
              Some cs' \<Rightarrow> cs' | None \<Rightarrow> append_last d (co_calls c))\<rparr>, s)
      | DoneChunk r \<Rightarrow> (c, s)
      | UsageChunk u \<Rightarrow> (c\<lparr>co_usage := merge_usage (co_usage c) u\<rparr>, charge_usage x u s))"

text \<open>The receiving loop ends with the channel or at the first error.\<close>

fun take_chunks ::
  "run_ctx \<Rightarrow> (llm_error + stream_chunk) list \<Rightarrow> collected \<times> run_state \<Rightarrow>
     llm_error option \<times> collected \<times> run_state" where
  "take_chunks x [] cs = (None, cs)"
| "take_chunks x (Inl e # chunks) cs = (Some e, cs)"
| "take_chunks x (Inr c # chunks) cs = take_chunks x chunks (take_chunk x c cs)"

definition streamed_info :: "run_ctx \<Rightarrow> string \<times> string \<times> string \<Rightarrow> tool_call_info" where
  "streamed_info x c =
     \<lparr>tc_id = fst c, tc_name = fst (snd c),
      tc_arguments = (case ae_from_str (x_env x) (snd (snd c)) of Inr v \<Rightarrow> v | Inl _ \<Rightarrow> JObj [])\<rparr>"

definition finish_stream :: "run_ctx \<Rightarrow> collected \<Rightarrow> run_state \<Rightarrow> outcome \<times> run_state" where
  "finish_stream x c s =
     (if co_calls c \<noteq> [] then
        (let s1 = store_calls x (co_text c) (map (streamed_info x) (co_calls c)) s;
             s2 = fold (\<lambda>t. handle_call x (fst t) (fst (snd t)) (Raw (snd (snd t)))) (co_calls c) s1
         in case post_calls x s2 of Inl e \<Rightarrow> (Failed e, s2) | Inr s' \<Rightarrow> (Again, s'))
      else if co_text c \<noteq> [] then
        (case store_final_text x (co_text c) s of
           (Some e, s1) \<Rightarrow> (Failed e, s1)
         | (None, s1) \<Rightarrow> (Stop, s1))
      else if st_retries s < 2 then (Again, s\<lparr>st_retries := st_retries s + 1\<rparr>)
      else (Stop, emit (EvDone 0 []) s))"

definition stream :: "run_ctx \<Rightarrow> run_state \<Rightarrow> outcome \<times> run_state" where
  "stream x s =
     (let s1 = preflight x s;
          (chunks, ended) = ae_stream (x_env x) (st_round s1) (request_of x s1)
      in case take_chunks x chunks (nothing_collected, s1) of
           (err, c, s2) \<Rightarrow>
             (case ended of
                TaskPanic e \<Rightarrow> (Failed (OtherErr (''streaming task panicked: '' @ e)), s2)
              | _ \<Rightarrow>
                  (case (case (err, ended) of (None, TaskErr e) \<Rightarrow> Some e | _ \<Rightarrow> err) of
                     Some e \<Rightarrow> (Failed (LlmErr e), release_reservation x s2)
                   | None \<Rightarrow>
                       finish_stream x c
                         (if 0 < prompt_tokens (co_usage c) \<or> 0 < completion_tokens (co_usage c)
                          then log_usage x (co_usage c) s2 else s2))))"

definition stream_round :: "run_ctx \<Rightarrow> run_state \<Rightarrow> outcome \<times> run_state" where
  "stream_round = guarded stream"

section \<open>The loop\<close>

text \<open>Rounds until one does not ask for another; \<open>None\<close> when the fuel runs out.\<close>

fun rounds ::
  "(run_ctx \<Rightarrow> run_state \<Rightarrow> outcome \<times> run_state) \<Rightarrow> run_ctx \<Rightarrow> nat \<Rightarrow> run_state \<Rightarrow>
     ((agent_error + unit) \<times> run_state) option" where
  "rounds go x 0 s = None"
| "rounds go x (Suc n) s =
     (case go x s of
        (Again, s') \<Rightarrow> rounds go x n s'
      | (Stop, s') \<Rightarrow> Some (Inr (), s')
      | (Failed e, s') \<Rightarrow> Some (Inl e, s'))"

end
