(* ===== verification/AgentRun.thy ===== *)
theory AgentRun
  imports AgentLoop
begin

text \<open>
  How a run starts (\<open>send_message\<close>, \<open>send_message_streaming\<close>, \<open>continue_thread_streaming\<close> and
  the head of \<open>streaming_loop\<close> in \<open>af-agents/src/runtime.rs\<close>): the access check on the
  model, the prompt with its artifacts, the conversation and its memory, the tools, the
  restrictions, a first compaction; then the loop.
\<close>

definition DEFAULT_CONTEXT_WINDOW :: u32 where "DEFAULT_CONTEXT_WINDOW = 32000"
definition DEFAULT_MAX_OUTPUT :: u32 where "DEFAULT_MAX_OUTPUT = 4096"

record agent_config =
  cfg_name :: string
  cfg_prompt :: string
  cfg_allowed :: "string list"
  cfg_route :: llm_route
  cfg_budget :: "u32 option"

record thread_info =
  ti_id :: uuid
  ti_project :: uuid
  ti_target :: "uuid option"

text \<open>\<open>AgentRuntime\<close>.\<close>

record agent_runtime =
  rt_env :: agent_env
  rt_router :: llm_router
  rt_specs :: "tool_spec registry"
  rt_user :: "uuid option"
  rt_agent :: "string option"
  rt_threshold :: f32
  rt_use_cwc :: bool
  rt_restrictions :: restriction_db
  rt_routes :: route_table

section \<open>Access to a model\<close>

definition route_text :: "llm_route \<Rightarrow> string" where
  "route_text route = (case route of RouteAuto \<Rightarrow> ''auto'' | RouteLocal \<Rightarrow> ''local'' | RouteBackend n \<Rightarrow> n)"

definition check_route_access :: "agent_runtime \<Rightarrow> llm_route \<Rightarrow> agent_error + unit" where
  "check_route_access rt route =
     (case rt_user rt of
        None \<Rightarrow> Inr ()
      | Some uid \<Rightarrow>
          (case ae_fault (rt_env rt) RouteRows 0 of
             Some e \<Rightarrow> Inl (DbErr (''route access check: '' @ e))
           | None \<Rightarrow>
               if check_route_allowed (rt_routes rt) uid (route_text route) then Inr ()
               else
                 (let names = list_routes (rt_routes rt) uid
                  in Inl (OtherErr (''Model '' @ quoted (route_text route)
                       @ '' is not available for your account. Available models: ''
                       @ (if names = [] then ''none'' else join '', '' names))))))"

text \<open>The restrictions are loaded once; a user's run does not start without them.\<close>

definition load_cache :: "agent_runtime \<Rightarrow> agent_error + restriction_cache option" where
  "load_cache rt =
     (case ae_fault (rt_env rt) LoadRestrictions 0 of
        Some e \<Rightarrow>
          if rt_user rt \<noteq> None then Inl (OtherErr (''failed to load tool restrictions: '' @ e)) else Inr None
      | None \<Rightarrow> Inr (load_restrictions (rt_restrictions rt) (rt_user rt)))"

section \<open>Preparing the run\<close>

definition insert_user_message :: "agent_runtime \<Rightarrow> uuid \<Rightarrow> string \<Rightarrow> agent_db \<Rightarrow> agent_error + agent_db" where
  "insert_user_message rt thread text db =
     (case ae_fault (rt_env rt) InsertUser 0 of
        Some e \<Rightarrow> Inl (DbErr e)
      | None \<Rightarrow> Inr (db\<lparr>message_tab := snd (insert_message (ae_row_id (rt_env rt) (last_seq (message_tab db) + 1))
                    (clock (rt_env rt)) thread ''user'' (Some text) None (message_tab db))\<rparr>))"

definition load_history :: "agent_runtime \<Rightarrow> uuid \<Rightarrow> agent_db \<Rightarrow> agent_error + message_row list" where
  "load_history rt thread db =
     (case ae_fault (rt_env rt) GetHistory 0 of
        Some e \<Rightarrow> Inl (DbErr e)
      | None \<Rightarrow> Inr (get_thread_messages_compacted thread (message_tab db)))"

definition start_artifacts :: "agent_runtime \<Rightarrow> thread_info \<Rightarrow> artifact_ctx list" where
  "start_artifacts rt th =
     (case ae_artifacts (rt_env rt) 0 of
        None \<Rightarrow> []
      | Some (rows, inputs) \<Rightarrow> fetch_artifact_context (ti_project th) (ti_target th) inputs rows)"

definition start_prompt :: "agent_runtime \<Rightarrow> agent_config \<Rightarrow> backend_caps \<Rightarrow> string" where
  "start_prompt rt cfg caps =
     (if supports_tool_calls caps
      then build_system_prompt_minimal (cfg_prompt cfg) (cfg_allowed cfg) (rt_specs rt) (is_local caps)
      else build_system_prompt (ae_pretty (rt_env rt)) (cfg_prompt cfg) (cfg_allowed cfg) (rt_specs rt))"

definition start_tools :: "agent_runtime \<Rightarrow> agent_config \<Rightarrow> backend_caps \<Rightarrow> tool_description list" where
  "start_tools rt cfg caps =
     (if supports_tool_calls caps then
        (if is_local caps then build_tool_descriptions_local (cfg_allowed cfg) (rt_specs rt)
         else build_tool_descriptions (cfg_allowed cfg) (rt_specs rt))
      else [])"

text \<open>The memory as loaded, and after the goal and the latest request have been added.\<close>

definition loaded_memory :: "agent_runtime \<Rightarrow> uuid \<Rightarrow> agent_db \<Rightarrow> memory_pairs" where
  "loaded_memory rt thread db =
     (case ae_fault (rt_env rt) LoadMemory 0 of
        Some _ \<Rightarrow> []
      | None \<Rightarrow> get_thread_memory (collation (rt_env rt)) thread (memory_tab db))"

definition put_memory :: "agent_runtime \<Rightarrow> uuid \<Rightarrow> memory_entry \<Rightarrow> agent_db \<Rightarrow> agent_db" where
  "put_memory rt thread e db =
     (case ae_fault (rt_env rt) UpsertMemory 0 of
        Some _ \<Rightarrow> db
      | None \<Rightarrow> db\<lparr>memory_tab := upsert_memory thread (key e) (val e) (memory_tab db)\<rparr>)"

definition note_goal ::
  "agent_runtime \<Rightarrow> uuid \<Rightarrow> string option \<Rightarrow> memory_pairs \<times> agent_db \<Rightarrow> memory_pairs \<times> agent_db" where
  "note_goal rt thread text mdb =
     (case Option.bind text extract_goal of
        None \<Rightarrow> mdb
      | Some g \<Rightarrow> (fst mdb @ [(key g, val g)], put_memory rt thread g (snd mdb)))"

definition note_request ::
  "agent_runtime \<Rightarrow> uuid \<Rightarrow> string option \<Rightarrow> memory_pairs \<times> agent_db \<Rightarrow> memory_pairs \<times> agent_db" where
  "note_request rt thread text mdb =
     (case Option.bind text extract_latest_request of
        None \<Rightarrow> mdb
      | Some r \<Rightarrow> (filter (\<lambda>kv. fst kv \<noteq> ''latest_request'') (fst mdb) @ [(key r, val r)],
                   put_memory rt thread r (snd mdb)))"

definition insert_memory_message :: "memory_pairs \<Rightarrow> chat_message list \<Rightarrow> chat_message list" where
  "insert_memory_message memory ms =
     (case build_memory_message memory of None \<Rightarrow> ms | Some m \<Rightarrow> take 1 ms @ m # drop 1 ms)"

text \<open>The streaming run repeats the artifact numbers in the last user message.\<close>

definition context_hint :: "artifact_ctx list \<Rightarrow> uuid list \<Rightarrow> string" where
  "context_hint arts index =
     nl @ nl @ ''[Context: available artifacts: ''
     @ join '', '' (map (\<lambda>(i, u).
         (case List.find (\<lambda>a. ac_id a = u) arts of Some a \<Rightarrow> ac_filename a | None \<Rightarrow> ''?'')
         @ '' (#'' @ show_nat (i + 1) @ '')'') (enumerate 0 index))
     @ ''. Use these # numbers in tool calls.]''"

definition hint_last_user :: "artifact_ctx list \<Rightarrow> uuid list \<Rightarrow> chat_message list \<Rightarrow> chat_message list" where
  "hint_last_user arts index ms =
     (case last_user_idx ms of
        None \<Rightarrow> ms
      | Some i \<Rightarrow> if index = [] then ms
                  else ms[i := (ms ! i)\<lparr>content := content (ms ! i) @ context_hint arts index\<rparr>])"

definition make_ctx ::
  "agent_runtime \<Rightarrow> agent_config \<Rightarrow> thread_info \<Rightarrow> backend \<Rightarrow> uuid list \<Rightarrow> memory_pairs \<Rightarrow>
     restriction_cache option \<Rightarrow> run_ctx" where
  "make_ctx rt cfg th b index memory cache =
     (let caps = be_caps b in
      \<lparr>x_env = rt_env rt, x_user = rt_user rt, x_agent = rt_agent rt, x_use_cwc = rt_use_cwc rt,
       x_specs = rt_specs rt, x_router = rt_router rt, x_thread = ti_id th, x_project = ti_project th,
       x_target = ti_target th, x_allowed = cfg_allowed cfg, x_route = cfg_route cfg,
       x_route_name = be_name b,
       x_budget = (case cfg_budget cfg of Some n \<Rightarrow> unat n | None \<Rightarrow> MAX_TOOL_CALLS),
       x_local = is_local caps,
       x_ctx = \<lparr>context_window = opt_default DEFAULT_CONTEXT_WINDOW (caps_window caps),
                max_output_tokens = opt_default DEFAULT_MAX_OUTPUT (caps_max_output caps),
                threshold = (if is_local caps then f32_0_60 else rt_threshold rt)\<rparr>,
       x_index = index, x_memory = memory, x_cache = cache\<rparr>)"

definition fresh_state :: "agent_db \<Rightarrow> chat_message list \<Rightarrow> tool_description list \<Rightarrow> message_row list \<Rightarrow> run_state" where
  "fresh_state db messages tools history =
     \<lparr>st_db = db, st_messages = messages, st_tools = tools, st_calls = 0, st_counts = (\<lambda>_. 0),
      st_errors = 0, st_discovered = [],
      st_seen = (if history = [] then 0 else msg_seq (last history)),
      st_retries = 0, st_round = 0, st_events = [], st_sent = []\<rparr>"

text \<open>The compaction before the first request. A failed reset falls back to a summary only
  in the run without the context manager.\<close>

definition first_compaction :: "run_ctx \<Rightarrow> message_row list \<Rightarrow> run_state \<Rightarrow> run_state" where
  "first_compaction x history s =
     (let legacy = (\<lambda>fall_back s. if should_compact (scale (x_env x)) (x_ctx x) (estimated x s)
                                  then compact_now x fall_back history s else s)
      in if x_use_cwc x then
           (case cwc_optimize (ae_cwc (x_env x)) (st_messages s) (context_window (x_ctx x))
                   (max_output_tokens (x_ctx x)) (x_local x) of
              Inr (ms, saved, trimmed) \<Rightarrow>
                if 0 < saved \<or> trimmed
                then (let s1 = s\<lparr>st_messages := ms\<rparr>
                      in emit (EvContextCompacted (estimated x s1) 0 (context_window (x_ctx x))) s1)
                else s
            | Inl _ \<Rightarrow> legacy False s)
         else legacy True s)"

section \<open>The runs\<close>

definition backend_of :: "agent_runtime \<Rightarrow> agent_config \<Rightarrow> agent_error + backend" where
  "backend_of rt cfg =
     sum_bind (check_route_access rt (cfg_route cfg)) (\<lambda>_.
       case resolve_backend (rt_router rt) (cfg_route cfg) of
         Inl _ \<Rightarrow> Inl NoBackend
       | Inr b \<Rightarrow> Inr b)"

text \<open>
  What both runs set up alike. \<open>goal\<close> and \<open>request\<close> are the texts noted as the goal and
  the latest request, \<open>hint\<close> says whether the last user message is augmented.
\<close>

definition prepare ::
  "agent_runtime \<Rightarrow> agent_config \<Rightarrow> thread_info \<Rightarrow> backend \<Rightarrow> message_row list \<Rightarrow> string option \<Rightarrow>
     string option \<Rightarrow> bool \<Rightarrow> agent_db \<Rightarrow> agent_error + run_ctx \<times> run_state" where
  "prepare rt cfg th b history goal request hint db =
     (let caps = be_caps b;
          arts = start_artifacts rt th;
          (prompt, index) = append_artifact_context (start_prompt rt cfg caps) arts (ti_target th);
          memory = loaded_memory rt (ti_id th) db;
          ms0 = insert_memory_message memory (build_messages_from_history prompt history);
          (memory', db') = note_request rt (ti_id th) request (note_goal rt (ti_id th) goal (memory, db));
          ms = (if hint then hint_last_user arts index ms0 else ms0)
      in sum_bind (load_cache rt) (\<lambda>cache.
           let x = make_ctx rt cfg th b index memory' cache
           in Inr (x, first_compaction x history (fresh_state db' ms (start_tools rt cfg caps) history))))"

text \<open>\<open>send_message\<close>: the goal is noted when the history is empty, which is read after the
  user's message was stored.\<close>

definition send_message_start ::
  "agent_runtime \<Rightarrow> agent_config \<Rightarrow> thread_info option \<Rightarrow> uuid \<Rightarrow> string \<Rightarrow> agent_db \<Rightarrow>
     agent_error + run_ctx \<times> run_state" where
  "send_message_start rt cfg thread tid text db =
     (case thread of
        None \<Rightarrow> Inl (DbErr (''thread '' @ ae_show_id (rt_env rt) tid @ '' not found''))
      | Some th \<Rightarrow>
          sum_bind (insert_user_message rt (ti_id th) text db) (\<lambda>db1.
          sum_bind (load_history rt (ti_id th) db1) (\<lambda>history.
          sum_bind (backend_of rt cfg) (\<lambda>b.
            prepare rt cfg th b history (if history = [] then Some text else None) (Some text) False db1))))"

definition send_message ::
  "agent_runtime \<Rightarrow> agent_config \<Rightarrow> thread_info option \<Rightarrow> uuid \<Rightarrow> string \<Rightarrow> nat \<Rightarrow> agent_db \<Rightarrow>
     ((agent_error + agent_event list)) option" where
  "send_message rt cfg thread tid text fuel db =
     (case send_message_start rt cfg thread tid text db of
        Inl e \<Rightarrow> Some (Inl e)
      | Inr (x, s) \<Rightarrow>
          (case rounds plain_round x fuel s of
             None \<Rightarrow> None
           | Some (Inl e, _) \<Rightarrow> Some (Inl e)
           | Some (Inr _, s') \<Rightarrow> Some (Inr (st_events s'))))"

text \<open>The streaming runs.\<close>

definition stream_start ::
  "agent_runtime \<Rightarrow> agent_config \<Rightarrow> thread_info \<Rightarrow> message_row list \<Rightarrow> agent_db \<Rightarrow> agent_error + run_ctx \<times> run_state" where
  "stream_start rt cfg th history db =
     sum_bind (backend_of rt cfg) (\<lambda>b.
       prepare rt cfg th b history
         (if length history = 1 then msg_content (history ! 0) else None)
         (case List.find (\<lambda>r. msg_role r = ''user'') (rev history) of
            Some r \<Rightarrow> msg_content r | None \<Rightarrow> None)
         True db)"

definition continue_thread_streaming ::
  "agent_runtime \<Rightarrow> agent_config \<Rightarrow> thread_info option \<Rightarrow> uuid \<Rightarrow> nat \<Rightarrow> agent_db \<Rightarrow>
     ((agent_error + unit) \<times> agent_event list) option" where
  "continue_thread_streaming rt cfg thread tid fuel db =
     (case thread of
        None \<Rightarrow> Some (Inl (DbErr (''thread '' @ ae_show_id (rt_env rt) tid @ '' not found'')), [])
      | Some th \<Rightarrow>
          (case sum_bind (load_history rt (ti_id th) db) (\<lambda>history. stream_start rt cfg th history db) of
             Inl e \<Rightarrow> Some (Inl e, [])
           | Inr (x, s) \<Rightarrow> map_option (\<lambda>(r, s'). (r, st_events s')) (rounds stream_round x fuel s)))"

definition send_message_streaming ::
  "agent_runtime \<Rightarrow> agent_config \<Rightarrow> thread_info option \<Rightarrow> uuid \<Rightarrow> string \<Rightarrow> nat \<Rightarrow> agent_db \<Rightarrow>
     ((agent_error + unit) \<times> agent_event list) option" where
  "send_message_streaming rt cfg thread tid text fuel db =
     (case thread of
        None \<Rightarrow> Some (Inl (DbErr (''thread '' @ ae_show_id (rt_env rt) tid @ '' not found'')), [])
      | Some th \<Rightarrow>
          (case sum_bind (insert_user_message rt (ti_id th) text db) (\<lambda>db1.
                  sum_bind (load_history rt (ti_id th) db1) (\<lambda>history. stream_start rt cfg th history db1)) of
             Inl e \<Rightarrow> Some (Inl e, [])
           | Inr (x, s) \<Rightarrow> map_option (\<lambda>(r, s'). (r, st_events s')) (rounds stream_round x fuel s)))"

end
