(* ===== verification/AgentSteps.thy ===== *)
theory AgentSteps
  imports AgentRun
begin

text \<open>
  Facts about one round of an agent run that the properties rest on: which operations
  leave the counters and the requests alone (\<open>core\<close>), what one call of a tool can add,
  and the induction over the rounds.
\<close>

section \<open>What most operations leave alone\<close>

definition core :: "run_state \<Rightarrow> nat \<times> call_counts \<times> tool_request list \<times> nat \<times> nat" where
  "core s = (st_calls s, st_counts s, st_sent s, st_retries s, st_round s)"

named_theorems core_simps

lemma core_update [core_simps]:
  "core (s\<lparr>st_db := db\<rparr>) = core s" "core (s\<lparr>st_messages := ms\<rparr>) = core s"
  "core (s\<lparr>st_tools := ts\<rparr>) = core s" "core (s\<lparr>st_errors := n\<rparr>) = core s"
  "core (s\<lparr>st_discovered := ds\<rparr>) = core s" "core (s\<lparr>st_seen := k\<rparr>) = core s"
  "core (s\<lparr>st_events := es\<rparr>) = core s"
  by (simp_all add: core_def)

lemma core_fold: "(\<And>a s. core (f a s) = core s) \<Longrightarrow> core (fold f xs s) = core s"
  by (induction xs arbitrary: s) auto

lemma core_basic [core_simps]:
  "core (emit e s) = core s" "core (push_message m s) = core s" "core (result_event t ok r s) = core s"
  by (simp_all add: emit_def push_message_def result_event_def core_simps)

lemma core_memory [core_simps]:
  "core (remember x k v s) = core s" "core (update_memory x tool i text s) = core s"
  "core (store_tool_result x i tool text s) = core s" "core (enable_tool x new s) = core s"
  by (auto simp: remember_def update_memory_def store_tool_result_def enable_tool_def core_simps
      intro!: core_fold split: option.split)

lemma core_reject [core_simps]: "core (reject x i tool event text s) = core s"
  by (simp add: reject_def Let_def core_simps split: option.split)

lemma core_tokens [core_simps]:
  "core (adjust_tokens x p c s) = core s" "core (charge_usage x u s) = core s"
  "core (release_reservation x s) = core s" "core (log_usage x u s) = core s" "core (settle x usage s) = core s"
  by (auto simp: adjust_tokens_def charge_usage_def release_reservation_def log_usage_def settle_def Let_def
      core_simps split: option.split sum.split)

lemma core_reserve [core_simps]: "core (snd (reserve_tokens x s)) = core s"
  by (auto simp: reserve_tokens_def core_simps split: option.split sum.split prod.split)

lemma core_final [core_simps]:
  "core (put_evidence x m ev s) = core s" "core (snd (store_final_text x text s)) = core s"
  "core (store_calls x text calls s) = core s" "core (preflight x s) = core s"
proof -
  show *: "core (put_evidence x m ev s) = core s" for m ev s
    by (simp add: put_evidence_def Let_def core_simps)
  show "core (snd (store_final_text x text s)) = core s"
    using core_fold [where f = "put_evidence x _" , OF *]
    by (simp add: store_final_text_def Let_def core_simps split: option.split prod.split)
qed (auto simp: store_calls_def preflight_def Let_def core_simps)

lemma core_queue [core_simps]: "core (take_queued x s) = core s"
  by (auto simp: take_queued_def core_simps intro!: core_fold)

lemma core_use_compaction [core_simps]: "core (snd (use_compaction r s)) = core s"
  by (auto simp: use_compaction_def core_simps split: prod.split sum.split)

lemma core_compact [core_simps]:
  "core (compact_by_summary x h s) = core s" "core (compact_now x fb h s) = core s"
proof -
  show *: "core (compact_by_summary x h s) = core s" for s
    by (simp add: compact_by_summary_def core_simps)
  have used: "core s' = core s" if "use_compaction r s = (b, s')" for r b s'
    using core_use_compaction [of r s] that by simp
  show "core (compact_now x fb h s) = core s"
    by (auto simp: compact_now_def * dest: used split: prod.split bool.split)
qed

lemma core_history: "fresh_history x s = Inr (rows, s') \<Longrightarrow> core s' = core s"
  by (auto simp: fresh_history_def Let_def core_simps split: option.splits)

lemma core_use_optimized [core_simps]: "core (use_optimized x q s) = core s"
  by (simp add: use_optimized_def Let_def core_simps split: prod.split)

lemma core_use_trim [core_simps]: "core (use_trim x r s) = core s"
proof -
  obtain res db where r: "r = (res, db)" by (cases r)
  consider e where "res = Inl e" | "res = Inr None" | ms n meta where "res = Inr (Some (ms, n, meta))"
    by (metis old.sum.exhaust option.exhaust prod_cases3)
  then show ?thesis
    unfolding r by cases (simp_all add: use_trim_def Let_def core_simps)
qed

lemma core_trim: "trim_window x s = Inr s' \<Longrightarrow> core s' = core s"
  unfolding trim_window_def
  by (auto simp: error_iff core_simps split: if_splits prod.splits intro: core_history)

lemma core_others [core_simps]: "core (others_write x during s) = core s"
  by (simp add: others_write_def core_simps)

lemma core_post:
  assumes "post_calls x s0 = Inr s'" shows "core s' = core s0"
proof -
  define s where "s = others_write x True s0"
  have "core s' = core s"
  proof (cases "x_use_cwc x")
    case True
    with assms show ?thesis by (auto simp: post_calls_def s_def core_simps Let_def split: sum.splits)
  next
    case False
    with assms obtain s2 where
      s2: "trim_window x (s\<lparr>st_messages := reinforce x (goal_line (x_memory x)) (st_messages s)\<rparr>) = Inr s2"
      and rest: "(if should_compact (scale (x_env x)) (x_ctx x) (estimated x s2)
        then sum_bind (fresh_history x s2) (\<lambda>(rows, s3). Inr (compact_now x True rows s3)) else Inr s2) = Inr s'"
      by (auto simp: post_calls_def Let_def error_iff s_def)
    from core_trim [OF s2] have "core s2 = core s" by (simp add: core_simps)
    moreover have "core s' = core s2"
      using rest by (auto simp: error_iff core_simps split: if_splits prod.splits intro: core_history)
    ultimately show ?thesis by simp
  qed
  then show ?thesis by (simp add: s_def core_simps)
qed

section \<open>One call\<close>

lemma core_parts:
  assumes "core s = core s'"
  shows "st_calls s = st_calls s'" "st_counts s = st_counts s'" "st_sent s = st_sent s'"
    "st_retries s = st_retries s'" "st_round s = st_round s'"
  using assms by (simp_all add: core_def)

text \<open>The gate changes the counts only, and lets pass only what it has checked.\<close>

lemma gate_frame:
  assumes "gate x tool s = (v, s')"
  shows "st_calls s' = st_calls s" "st_sent s' = st_sent s" "st_retries s' = st_retries s" "st_round s' = st_round s"
    "st_counts s' = st_counts s \<or> st_counts s' = (st_counts s)(tool := st_counts s tool + 1)"
  using assms budget_counts [of tool "st_counts s" "x_specs x"]
  by (auto simp: gate_def Let_def split: if_splits prod.splits option.splits)

lemma gate_Passed:
  assumes "gate x tool s = (Passed, s')"
  shows "is_allowed x tool" "cache_allows (x_cache x) tool"
    "check_per_tool_budget tool (st_counts s) (x_specs x) = (None, st_counts s')"
  using assms by (auto simp: gate_def Let_def split: if_splits prod.splits option.splits)

text \<open>The invocation hands over at most one request, which was prepared for an enabled tool.\<close>

definition prepared_request :: "run_ctx \<Rightarrow> run_state \<Rightarrow> string \<Rightarrow> json \<Rightarrow> tool_request \<Rightarrow> bool" where
  "prepared_request x s tool args r \<longleftrightarrow>
     tool \<noteq> ''tools.discover'' \<and> ae_enabled (x_env x) (length (st_sent s)) tool = Inr True \<and>
     (\<exists>args'. prepare_arguments x s tool args = Inr args' \<and> r = tool_request_of x tool args')"

lemma core_discover: "core (snd (handle_tools_discover x args s)) = core s"
  by (simp add: handle_tools_discover_def Let_def core_simps split: option.split)

lemma invoke_tool_sent:
  assumes "invoke_tool x tool args s = (res, s')"
  obtains "core s' = core s"
  | r where "prepared_request x s tool args r" and "core s' = core (s\<lparr>st_sent := st_sent s @ [r]\<rparr>)"
proof (cases "tool = ''tools.discover''")
  case True
  with assms core_discover [of x args s] show thesis by (intro that(1)) (simp add: invoke_tool_def)
next
  case False
  show thesis
  proof (cases "ae_enabled (x_env x) (length (st_sent s)) tool = Inr True")
    case False
    with assms \<open>tool \<noteq> _\<close> show thesis
      by (intro that(1)) (auto simp: invoke_tool_def Let_def core_simps split: sum.splits bool.splits)
  next
    case enabled: True
    show thesis
    proof (cases "prepare_arguments x s tool args")
      case (Inl msg)
      with assms \<open>tool \<noteq> _\<close> enabled show thesis
        by (intro that(1)) (auto simp: invoke_tool_def core_simps)
    next
      case (Inr args')
      with assms \<open>tool \<noteq> _\<close> enabled show thesis
        by (intro that(2) [of "tool_request_of x tool args'"])
           (auto simp: invoke_tool_def prepared_request_def Let_def core_simps split: sum.splits)
    qed
  qed
qed

lemma run_tool_sent:
  obtains "core (run_tool x i tool args s) = core s"
  | r s1 where "prepared_request x s1 tool args r" and "st_sent s1 = st_sent s"
    and "core (run_tool x i tool args s) = core (s\<lparr>st_sent := st_sent s @ [r]\<rparr>)"
proof -
  let ?s = "emit (EvToolCallStart tool args) s"
  obtain out new s1 where inv: "invoke_tool x tool args ?s = ((out, new), s1)" by (metis surj_pair)
  then have run: "core (run_tool x i tool args s) = core s1" by (simp add: run_tool_def core_simps)
  have emit: "core ?s = core s" by (simp add: core_simps)
  from inv show thesis
  proof (cases rule: invoke_tool_sent)
    case 1
    with run emit show thesis by (intro that(1)) simp
  next
    case (2 r)
    moreover have "st_sent ?s = st_sent s" by (simp add: emit_def)
    moreover from emit have "core (?s\<lparr>st_sent := st_sent ?s @ [r]\<rparr>) = core (s\<lparr>st_sent := st_sent s @ [r]\<rparr>)"
      by (simp add: emit_def core_def)
    ultimately show thesis using run by (intro that(2) [where r = r and ?s1.0 = ?s]) auto
  qed
qed

text \<open>What one call does to the counters: it is counted; if it passes the gate, it is
  counted for its tool and may add its request.\<close>

definition arguments_of :: "run_ctx \<Rightarrow> call_arguments \<Rightarrow> json option" where
  "arguments_of x a =
     (case a of Given v \<Rightarrow> Some v
      | Raw t \<Rightarrow> (case ae_from_str (x_env x) t of Inr v \<Rightarrow> Some v | Inl _ \<Rightarrow> None))"

lemma handle_call_counters:
  fixes x i name a s
  defines "s' \<equiv> handle_call x i name a s" and "tool \<equiv> fixup_tool_name name (x_specs x)"
  shows "st_calls s' = st_calls s + 1" "st_retries s' = st_retries s" "st_round s' = st_round s"
    and "st_sent s' = st_sent s \<and>
           (st_counts s' = st_counts s \<or> st_counts s' = (st_counts s)(tool := st_counts s tool + 1))
         \<or> (\<exists>r s1 v. arguments_of x a = Some v \<and> prepared_request x s1 tool v r \<and> st_sent s1 = st_sent s
             \<and> st_sent s' = st_sent s @ [r] \<and> is_allowed x tool \<and> cache_allows (x_cache x) tool
             \<and> check_per_tool_budget tool (st_counts s) (x_specs x) = (None, st_counts s'))" (is ?sent)
proof -
  obtain v s1 where gate: "gate x tool (s\<lparr>st_calls := st_calls s + 1\<rparr>) = (v, s1)" by (metis surj_pair)
  note frame = gate_frame [OF gate, simplified]
  have "st_calls s' = st_calls s + 1 \<and> st_retries s' = st_retries s \<and> st_round s' = st_round s \<and> ?sent"
  proof (cases "v = Passed \<and> (\<exists>w. arguments_of x a = Some w)")
    case True
    then obtain w where w: "arguments_of x a = Some w" by blast
    have run: "s' = run_tool x i tool w s1"
      using gate True w by (auto simp: s'_def handle_call_def tool_def arguments_of_def Let_def
          split: call_arguments.splits sum.splits)
    from True gate have "gate x tool (s\<lparr>st_calls := st_calls s + 1\<rparr>) = (Passed, s1)" by simp
    note passed = gate_Passed [OF this, simplified]
    show ?thesis
      using run_tool_sent [of x i tool w s1]
    proof cases
      case 1
      then show ?thesis using frame by (simp add: run core_def)
    next
      case (2 r s2)
      then show ?thesis using frame passed w by (auto simp: run core_def)
    qed
  next
    case False
    then have "\<exists>e t. s' = reject x i tool e t s1"
      using gate by (auto simp: s'_def handle_call_def tool_def arguments_of_def Let_def
          split: call_arguments.splits sum.splits verdict.splits)
    then have "core s' = core s1" by (auto simp: core_simps)
    then show ?thesis using frame by (auto simp: core_def)
  qed
  then show "st_calls s' = st_calls s + 1" "st_retries s' = st_retries s" "st_round s' = st_round s" ?sent
    by blast+
qed

section \<open>The items of a response\<close>

lemma handle_items_calls:
  "handle_items x t infos pushed (map ParsedCall cs) s =
     (None, pushed \<or> cs \<noteq> [], handle_calls x cs (if pushed \<or> cs = [] then s else store_calls x t infos s))"
  by (induction cs arbitrary: pushed s) (simp_all add: handle_calls_def)

lemma handle_items_text:
  "handle_items x t infos pushed [FinalText u] s = (fst (store_final_text x u s), pushed, snd (store_final_text x u s))"
  by (simp split: prod.split option.split)

lemma handle_calls_calls:
  "st_calls (handle_calls x cs s) = st_calls s + length cs"
  "st_retries (handle_calls x cs s) = st_retries s" "st_round (handle_calls x cs s) = st_round s"
  unfolding handle_calls_def by (induction cs arbitrary: s) (simp_all add: handle_call_counters)

definition raw_calls :: "run_ctx \<Rightarrow> (string \<times> string \<times> string) list \<Rightarrow> run_state \<Rightarrow> run_state" where
  "raw_calls x cs s = fold (\<lambda>t. handle_call x (fst t) (fst (snd t)) (Raw (snd (snd t)))) cs s"

lemma raw_calls_calls:
  "st_calls (raw_calls x cs s) = st_calls s + length cs"
  "st_retries (raw_calls x cs s) = st_retries s" "st_round (raw_calls x cs s) = st_round s"
  unfolding raw_calls_def by (induction cs arbitrary: s) (simp_all add: handle_call_counters)

text \<open>A response's outcome, by what it holds: calls or a text.\<close>

lemma take_response_cases:
  assumes "take_response x resp s = (out, s')"
  obtains cs s1 where "cs \<noteq> []" and "parse_response (json_of_text x) (ae_call_id (x_env x) (st_round s)) resp = map ParsedCall cs"
      and "core s1 = core s" and "core s' = core (handle_calls x cs s1)" and "out = Again \<or> (\<exists>e. out = Failed e)"
  | "core s' = core s" and "out \<noteq> Again"
  | "core s' = core (s\<lparr>st_retries := st_retries s + 1\<rparr>)" and "st_retries s < 2" and "out = Again"
proof -
  let ?items = "parse_response (json_of_text x) (ae_call_id (x_env x) (st_round s)) resp"
  let ?s = "settle x (rs_usage resp) s"
  have settle: "core ?s = core s" by (simp add: core_simps)
  show thesis
  proof (rule parse_response_cases [of "json_of_text x" "ae_call_id (x_env x) (st_round s)" resp])
    fix cs assume items: "?items = map ParsedCall cs" and ne: "cs \<noteq> []"
    define s1 where "s1 = store_calls x (rs_content resp) (parsed_calls ?items) ?s"
    have s1: "core s1 = core s" by (simp add: s1_def core_simps settle)
    have "take_response x resp s = finish_round x True (rs_content resp) (handle_calls x cs s1)"
      using ne by (simp add: take_response_def Let_def items handle_items_calls s1_def)
    with assms have "core s' = core (handle_calls x cs s1) \<and> (out = Again \<or> (\<exists>e. out = Failed e))"
      by (auto simp: finish_round_def split: sum.splits dest: core_post)
    then show thesis using that(1) [OF ne items s1] by blast
  next
    assume items: "?items = [FinalText (rs_content resp)]"
    obtain err s1 where st: "store_final_text x (rs_content resp) ?s = (err, s1)" by (metis surj_pair)
    then have s1: "core s1 = core s" using core_final(2) [of x "rs_content resp" ?s] settle by simp
    show thesis
    proof (cases err)
      case (Some e)
      with assms st items s1 show thesis
        by (intro that(2)) (auto simp: take_response_def Let_def)
    next
      case None
      with assms st items have fin: "finish_round x False (rs_content resp) s1 = (out, s')"
        by (auto simp: take_response_def Let_def)
      show thesis
      proof (cases "rs_content resp = [] \<and> st_retries s1 < 2")
        case True
        with fin have "core s' = core (s1\<lparr>st_retries := st_retries s1 + 1\<rparr>)" "out = Again"
          by (auto simp: finish_round_def)
        with True s1 show thesis by (intro that(3)) (auto simp: core_def)
      next
        case False
        with fin s1 show thesis by (intro that(2)) (auto simp: finish_round_def split: if_splits)
      qed
    qed
  qed
qed

section \<open>One round\<close>

text \<open>How a round can change the counters: its calls are handled in order, or a retry is
  counted, or nothing is. Only the first two ask for another round.\<close>

definition handled :: "run_ctx \<Rightarrow> (string \<times> string \<times> call_arguments) list \<Rightarrow> run_state \<Rightarrow> run_state" where
  "handled x cs s = fold (\<lambda>c. handle_call x (fst c) (fst (snd c)) (snd (snd c))) cs s"

lemma handled_calls: "handle_calls x cs s = handled x (map (\<lambda>c. (tc_id c, tc_name c, Given (tc_arguments c))) cs) s"
  by (simp add: handle_calls_def handled_def fold_map comp_def)

lemma handled_raw: "raw_calls x cs s = handled x (map (\<lambda>c. (fst c, fst (snd c), Raw (snd (snd c)))) cs) s"
  by (simp add: raw_calls_def handled_def fold_map comp_def)

lemma handled_counts:
  "st_calls (handled x cs s) = st_calls s + length cs"
  "st_retries (handled x cs s) = st_retries s" "st_round (handled x cs s) = st_round s"
  unfolding handled_def by (induction cs arbitrary: s) (simp_all add: handle_call_counters)

definition round_shape ::
  "run_ctx \<Rightarrow> (call_arguments \<Rightarrow> bool) \<Rightarrow> run_state \<Rightarrow> outcome \<times> run_state \<Rightarrow> bool" where
  "round_shape x good s r \<longleftrightarrow>
     (\<exists>cs s1. cs \<noteq> [] \<and> (\<forall>c \<in> set cs. good (snd (snd c))) \<and> core s1 = core s \<and> core (snd r) = core (handled x cs s1))
     \<or> core (snd r) = core s \<and> fst r \<noteq> Again
     \<or> core (snd r) = core (s\<lparr>st_retries := st_retries s + 1\<rparr>) \<and> st_retries s < 2"

text \<open>What the model may answer, and what a streamed call may hold.\<close>

definition answers_good :: "run_ctx \<Rightarrow> (call_arguments \<Rightarrow> bool) \<Rightarrow> bool" where
  "answers_good x good \<longleftrightarrow>
     (\<forall>k rq resp fresh c. ae_llm (x_env x) k rq = Inr resp \<longrightarrow>
        ParsedCall c \<in> set (parse_response (json_of_text x) fresh resp) \<longrightarrow> good (Given (tc_arguments c)))
     \<and> (\<forall>t. good (Raw t))"

lemma ask_shape:
  assumes "answers_good x good"
  shows "round_shape x good s (ask x s)"
proof -
  let ?s = "preflight x s"
  have pre: "core ?s = core s" by (simp add: core_simps)
  show ?thesis
  proof (cases "ae_llm (x_env x) (st_round ?s) (request_of x ?s)")
    case (Inl e)
    then show ?thesis by (simp add: ask_def Let_def round_shape_def core_simps)
  next
    case (Inr resp)
    obtain out s' where r: "take_response x resp ?s = (out, s')" by (metis surj_pair)
    with Inr have ask: "ask x s = (out, s')" by (simp add: ask_def Let_def)
    from r show ?thesis
    proof (cases rule: take_response_cases)
      case (1 cs s1)
      have "good (Given (tc_arguments c))" if "c \<in> set cs" for c
        using assms Inr 1(2) that unfolding answers_good_def by (metis image_eqI list.set_map)
      then show ?thesis
        unfolding round_shape_def ask handled_calls
        using 1(1,3,4) pre
        by (intro disjI1 exI [of _ "map (\<lambda>c. (tc_id c, tc_name c, Given (tc_arguments c))) cs"] exI [of _ s1])
           (auto simp: handled_calls)
    next
      case 2
      then show ?thesis using pre by (auto simp: round_shape_def ask)
    next
      case 3
      then show ?thesis using pre by (auto simp: round_shape_def ask core_def)
    qed
  qed
qed

lemma core_chunk: "core (snd (take_chunk x c cs)) = core (snd cs)"
  by (simp add: take_chunk_def Let_def core_simps split: stream_chunk.split option.split)

lemma core_chunks: "core (snd (snd (take_chunks x chunks cs))) = core (snd cs)"
  by (induction x chunks cs rule: take_chunks.induct) (simp_all add: core_chunk)

lemma finish_stream_shape:
  assumes good: "\<And>t. good (Raw t)"
  shows "round_shape x good s (finish_stream x c s)"
proof (cases "co_calls c = []")
  case False
  define s1 where "s1 = store_calls x (co_text c) (map (streamed_info x) (co_calls c)) s"
  let ?cs = "map (\<lambda>c. (fst c, fst (snd c), Raw (snd (snd c)))) (co_calls c)"
  have "core (snd (finish_stream x c s)) = core (handled x ?cs s1)"
    using False core_post [of x "raw_calls x (co_calls c) s1"] unfolding handled_raw [symmetric]
    by (auto simp: finish_stream_def s1_def raw_calls_def Let_def split: sum.splits)
  moreover have "core s1 = core s" by (simp add: s1_def core_simps)
  ultimately show ?thesis
    unfolding round_shape_def using False good
    by (intro disjI1 exI [of _ ?cs] exI [of _ s1]) auto
next
  case True
  show ?thesis
  proof (cases "co_text c = []")
    case False
    with True core_final(2) [of x "co_text c" s] show ?thesis
      by (auto simp: finish_stream_def round_shape_def split: prod.splits option.splits)
  next
    case no_text: True
    with True show ?thesis by (simp add: finish_stream_def round_shape_def core_simps)
  qed
qed

lemma round_shape_core: "core s = core s' \<Longrightarrow> round_shape x good s r = round_shape x good s' r"
  by (simp add: round_shape_def core_def)

lemma stream_shape:
  assumes good: "\<And>t. good (Raw t)"
  shows "round_shape x good s (stream x s)"
proof -
  define s1 where "s1 = preflight x s"
  obtain chunks ended where st: "ae_stream (x_env x) (st_round s1) (request_of x s1) = (chunks, ended)"
    by (metis surj_pair)
  obtain err c s2 where ch: "take_chunks x chunks (nothing_collected, s1) = (err, c, s2)" by (metis prod_cases3)
  have s2: "core s2 = core s"
    using core_chunks [of x chunks "(nothing_collected, s1)"] ch by (simp add: s1_def core_simps)
  have fin: "round_shape x good s (finish_stream x c s3)" if "core s3 = core s2" for s3
    using finish_stream_shape [where good = good and x = x and s = s3 and c = c] good round_shape_core [of s s3] that s2 by simp
  have failed: "round_shape x good s (Failed e, s3)" if "core s3 = core s2" for e s3
    using that s2 by (simp add: round_shape_def)
  show ?thesis
    unfolding stream_def s1_def [symmetric] Let_def st prod.case ch
    by (auto split: task_end.split option.split simp: core_simps intro!: fin failed)
qed

lemma guarded_cases:
  assumes "guarded go x s = r"
  obtains "core (snd r) = core (s\<lparr>st_round := st_round s + 1\<rparr>)" and "fst r = Stop"
  | s1 where "core s1 = core (s\<lparr>st_round := st_round s + 1\<rparr>)" and "st_calls s < x_budget x" and "go x s1 = r"
proof -
  have began: "core (begin_round x s) = core (s\<lparr>st_round := st_round s + 1\<rparr>)"
    by (simp add: begin_round_def core_simps)
  obtain ok s1 where res: "reserve_tokens x (begin_round x s) = (ok, s1)" by (metis surj_pair)
  with core_reserve [of x "begin_round x s"] began have s1: "core s1 = core (s\<lparr>st_round := st_round s + 1\<rparr>)"
    by simp
  have calls: "st_calls (begin_round x s) = st_calls s" using began by (simp add: core_def)
  show thesis
  proof (cases "stop_reason x (begin_round x s)")
    case (Some e)
    with assms began show thesis by (intro that(1)) (auto simp: guarded_def Let_def core_simps)
  next
    case None
    then have "st_calls s < x_budget x" by (auto simp: stop_reason_def calls split: if_splits)
    with None assms res s1 that show thesis by (cases ok) (auto simp: guarded_def Let_def core_simps)
  qed
qed

end
