(* ===== verification/AgentRounds.thy ===== *)
theory AgentRounds
  imports AgentSteps
begin

text \<open>
  From one round to the whole run: the rounds end because each of them that asks for
  another one has handled a call or counted a retry; what every handled call keeps holds
  of the whole run (\<open>run_invariant\<close>), interpreted for the vetting of the requests and for
  the limit on the calls of a tool.
\<close>

section \<open>The rounds end\<close>

definition rounds_left :: "run_ctx \<Rightarrow> run_state \<Rightarrow> nat" where
  "rounds_left x s = (x_budget x - st_calls s) + (2 - st_retries s)"

lemma answers_any: "answers_good x (\<lambda>_. True)"
  by (simp add: answers_good_def)

lemma round_cases:
  assumes go: "go \<in> {plain_round, stream_round}" and good: "answers_good x good"
  obtains "core (snd (go x s)) = core (s\<lparr>st_round := st_round s + 1\<rparr>)" and "fst (go x s) = Stop"
  | s1 where "core s1 = core (s\<lparr>st_round := st_round s + 1\<rparr>)" and "st_calls s < x_budget x"
      and "round_shape x good s1 (go x s)"
proof -
  have shape: "round_shape x good s1 (f x s1)" if "f \<in> {ask, stream}" for f s1
    using that ask_shape [OF good] stream_shape [where good = good] good by (auto simp: answers_good_def)
  from go obtain f where f: "f \<in> {ask, stream}" and go: "go = guarded f"
    by (auto simp: plain_round_def stream_round_def)
  show thesis
    using guarded_cases [OF refl, of f x s] that shape [OF f] unfolding go by metis
qed

lemma round_again:
  assumes go: "go \<in> {plain_round, stream_round}" and "go x s = (Again, s')"
  shows "rounds_left x s' < rounds_left x s" "st_round s' = st_round s + 1"
proof -
  have "rounds_left x s' < rounds_left x s \<and> st_round s' = st_round s + 1"
    using round_cases [OF go answers_any, of x s]
  proof cases
    case (2 s1)
    then show ?thesis
      using assms(2) by (auto simp: round_shape_def rounds_left_def core_def handled_counts neq_Nil_conv)
  qed (use assms(2) in simp)
  then show "rounds_left x s' < rounds_left x s" "st_round s' = st_round s + 1" by blast+
qed

lemma rounds_end:
  assumes go: "go \<in> {plain_round, stream_round}"
  shows "rounds_left x s < n \<Longrightarrow> \<exists>r s'. rounds go x n s = Some (r, s') \<and> st_round s' \<le> st_round s + rounds_left x s + 1"
proof (induction n arbitrary: s)
  case (Suc n)
  obtain out s1 where one: "go x s = (out, s1)" by (metis surj_pair)
  show ?case
  proof (cases out)
    case Again
    with one round_again [OF go, of x s s1] have less: "rounds_left x s1 < rounds_left x s" "st_round s1 = st_round s + 1"
      by auto
    with Suc.prems Suc.IH [of s1] one Again show ?thesis by fastforce
  next
    case Stop
    have "st_round s1 = st_round s + 1"
      using round_cases [OF go answers_any, of x s] one
      by cases (auto simp: round_shape_def core_def handled_counts)
    with one Stop show ?thesis by simp
  next
    case (Failed e)
    have "st_round s1 = st_round s + 1"
      using round_cases [OF go answers_any, of x s] one
      by cases (auto simp: round_shape_def core_def handled_counts)
    with one Failed show ?thesis by simp
  qed
qed simp

section \<open>What every call keeps\<close>

locale run_invariant =
  fixes x :: run_ctx and good :: "call_arguments \<Rightarrow> bool"
    and inv :: "call_counts \<Rightarrow> tool_request list \<Rightarrow> bool"
  assumes call_keeps: "inv (st_counts s) (st_sent s) \<Longrightarrow> good a \<Longrightarrow>
      inv (st_counts (handle_call x i name a s)) (st_sent (handle_call x i name a s))"
    and answers: "answers_good x good"
begin

lemma handled_keeps:
  "\<forall>c \<in> set cs. good (snd (snd c)) \<Longrightarrow> inv (st_counts s) (st_sent s) \<Longrightarrow>
     inv (st_counts (handled x cs s)) (st_sent (handled x cs s))"
  unfolding handled_def by (induction cs arbitrary: s) (simp_all add: call_keeps)

lemma round_keeps:
  assumes "go \<in> {plain_round, stream_round}" and "inv (st_counts s) (st_sent s)"
  shows "inv (st_counts (snd (go x s))) (st_sent (snd (go x s)))"
  using round_cases [OF assms(1) answers, of s]
proof cases
  case (2 s1)
  then show ?thesis
    using assms(2) handled_keeps by (auto simp: round_shape_def core_def)
qed (use assms(2) in \<open>simp add: core_def\<close>)

lemma rounds_keep:
  assumes "go \<in> {plain_round, stream_round}" and "inv (st_counts s) (st_sent s)"
    and "rounds go x n s = Some (r, s')"
  shows "inv (st_counts s') (st_sent s')"
  using assms(2,3)
proof (induction n arbitrary: s)
  case (Suc n)
  with round_keeps [OF assms(1)] show ?case
    by (fastforce split: prod.splits outcome.splits)
qed simp

end

section \<open>The arguments of a request\<close>

lemma translate_path_wf: "json_wf args \<Longrightarrow> json_wf (translate_path show_id im path args)"
proof -
  assume wf: "json_wf args"
  have arr: "json_wf (JArr (map (translate_text show_id im) xs))" if "json_wf (JArr xs)" for xs
  proof -
    have "json_wf (translate_text show_id im w)" if "json_wf w" for w
      using that by (cases w) (auto simp: translate_text_def split: option.split)
    with that show ?thesis by auto
  qed
  have read: "json_wf v \<Longrightarrow> get_json_path v ks = Some w \<Longrightarrow> json_wf w" for v ks w
    by (induction v ks rule: get_json_path.induct)
       (auto simp: jget_def dest!: map_of_SomeD split: option.splits json.splits)
  show ?thesis
    using wf read [OF wf] unfolding translate_path_def Let_def
    by (auto intro!: set_json_path_wf arr split: option.split json.split)
qed

lemma translate_wf: "json_wf args \<Longrightarrow> json_wf (translate_artifact_indices show_id schema im args)"
  by (auto simp: translate_artifact_indices_def intro: fold_keeps translate_path_wf)

lemma validated_wf: "validate_arguments x s spec args = Inr v \<Longrightarrow> json_wf args \<Longrightarrow> json_wf v"
  by (auto simp: validate_arguments_def inject_artifact_def Let_def obj_insert_wf
      dest!: in_obj_insert split: if_splits option.splits json.splits)

text \<open>What the identifiers in a request may be: the target of the thread, or an artifact of
  its project at the time of the request.\<close>

definition project_artifact :: "run_ctx \<Rightarrow> nat \<Rightarrow> uuid \<Rightarrow> bool" where
  "project_artifact x k u \<longleftrightarrow>
     x_target x = Some u \<or>
     (\<exists>rows inputs. ae_artifacts (x_env x) k = Some (rows, inputs) \<and>
        (\<exists>a \<in> set rows. ai_id a = u \<and> ai_project a = x_project x))"

definition some_artifact :: "run_ctx \<Rightarrow> nat \<Rightarrow> bool" where
  "some_artifact x k \<longleftrightarrow> x_target x \<noteq> None \<or>
     (case ae_artifacts (x_env x) k of None \<Rightarrow> False
      | Some (rows, inputs) \<Rightarrow> fetch_artifact_context (x_project x) None inputs rows \<noteq> [])"

definition ids_in_project :: "run_ctx \<Rightarrow> nat \<Rightarrow> tool_request \<Rightarrow> bool" where
  "ids_in_project x k r \<longleftrightarrow>
     (\<forall>spec. reg_get_latest (x_specs x) (req_tool_name r) = Some spec \<longrightarrow>
       (\<forall>q \<in> set (resolve_schema_paths (input_schema spec)). path_parts q \<noteq> []) \<longrightarrow>
       (\<forall>q \<in> set (resolve_schema_paths (input_schema spec)). \<forall>t.
          get_json_path (req_input r) (path_parts q) = Some (JStr t) \<longrightarrow>
            (\<exists>u. ae_parse_id (x_env x) t = Some u \<and> project_artifact x k u)))"

text \<open>What the model relies on of the parser of JSON texts, of the clients of the language
  models and of the printing of identifiers.\<close>

definition env_ok :: "run_ctx \<Rightarrow> bool" where
  "env_ok x \<longleftrightarrow>
     (\<forall>u. ae_parse_id (x_env x) (ae_show_id (x_env x) u) = Some u)
     \<and> (\<forall>t v. ae_from_str (x_env x) t = Inr v \<longrightarrow> json_wf v)
     \<and> (\<forall>k rq resp c. ae_llm (x_env x) k rq = Inr resp \<longrightarrow> c \<in> set (rs_tool_calls resp) \<longrightarrow> json_wf (tc_arguments c))"

definition wf_arguments :: "call_arguments \<Rightarrow> bool" where
  "wf_arguments a = (case a of Given v \<Rightarrow> json_wf v | Raw t \<Rightarrow> True)"

lemma arguments_wf: "env_ok x \<Longrightarrow> wf_arguments a \<Longrightarrow> arguments_of x a = Some v \<Longrightarrow> json_wf v"
  by (auto simp: env_ok_def wf_arguments_def arguments_of_def split: call_arguments.splits sum.splits)

lemma current_artifacts_project:
  "a \<in> set (current_artifacts x s target) \<Longrightarrow> project_artifact x (length (st_sent s)) (ac_id a)"
  by (auto simp: current_artifacts_def project_artifact_def dest!: fetch_ids split: option.splits)
     (metis)

lemma prepared_ids:
  assumes env: "env_ok x" and prep: "prepared_request x s tool v r" and wf: "json_wf v"
    and some: "some_artifact x (length (st_sent s))"
  shows "ids_in_project x (length (st_sent s)) r"
  unfolding ids_in_project_def
proof (intro allI impI ballI)
  fix spec q t
  assume spec: "reg_get_latest (x_specs x) (req_tool_name r) = Some spec"
    and parts: "\<forall>q \<in> set (resolve_schema_paths (input_schema spec)). path_parts q \<noteq> []"
    and q: "q \<in> set (resolve_schema_paths (input_schema spec))"
    and at: "get_json_path (req_input r) (path_parts q) = Some (JStr t)"
  from prep obtain args' where args: "prepare_arguments x s tool v = Inr args'" and r: "r = tool_request_of x tool args'"
    by (auto simp: prepared_request_def)
  let ?arts = "current_artifacts x s (x_target x)" and ?show = "ae_show_id (x_env x)"
    and ?parse = "ae_parse_id (x_env x)"
  from spec r have "reg_get_latest (x_specs x) tool = Some spec" by (simp add: tool_request_of_def)
  with args obtain v' where v': "validate_arguments x s spec
        (translate_artifact_indices ?show (input_schema spec) (x_index x)
          (fixup_arguments (ae_float (x_env x)) v (input_schema spec))) = Inr v'"
      and args': "args' = correct_artifacts ?parse ?show (x_target x) ?arts (input_schema spec) v'"
    by (auto simp: prepare_arguments_def Let_def split: sum.splits)
  have "json_wf v'" by (rule validated_wf [OF v']) (intro translate_wf fixup_wf wf)
  moreover have "?arts \<noteq> [] \<or> x_target x \<noteq> None"
    using some by (cases "x_target x") (auto simp: some_artifact_def current_artifacts_def split: option.splits)
  moreover have "?parse (?show u) = Some u" for u using env by (simp add: env_ok_def)
  ultimately have "id_accepted ?parse (x_target x) ?arts t"
    using corrected_ids [of ?parse ?show ?arts "x_target x" v' "[]" "resolve_schema_paths (input_schema spec)" q t]
      parts q at r args' by (simp add: tool_request_of_def correct_artifacts_def)
  then obtain u where "?parse t = Some u" and "u \<in> ac_id ` set ?arts \<or> x_target x = Some u"
    by (auto simp: id_accepted_def)
  then show "\<exists>u. ?parse t = Some u \<and> project_artifact x (length (st_sent s)) u"
    using current_artifacts_project by (auto simp: project_artifact_def)
qed

section \<open>Every request is vetted\<close>

definition vetted_request :: "run_ctx \<Rightarrow> nat \<Rightarrow> tool_request \<Rightarrow> bool" where
  "vetted_request x k r \<longleftrightarrow>
     is_tool_allowed_by_config (req_tool_name r) (x_allowed x)
     \<and> cache_allows (x_cache x) (req_tool_name r)
     \<and> ae_enabled (x_env x) k (req_tool_name r) = Inr True
     \<and> req_project r = x_project x \<and> req_thread r = Some (x_thread x) \<and> req_actor r = x_user x"

definition all_vetted :: "run_ctx \<Rightarrow> call_counts \<Rightarrow> tool_request list \<Rightarrow> bool" where
  "all_vetted x counts sent \<longleftrightarrow>
     (\<forall>k < length sent. vetted_request x k (sent ! k)
        \<and> (env_ok x \<longrightarrow> some_artifact x k \<longrightarrow> ids_in_project x k (sent ! k)))"

definition wf_if_ok :: "run_ctx \<Rightarrow> call_arguments \<Rightarrow> bool" where
  "wf_if_ok x a \<longleftrightarrow> (env_ok x \<longrightarrow> wf_arguments a)"

lemma block_arguments_wf:
  assumes "env_ok x" and "try_parse_json_block (json_of_text x) fresh t = Some (ParsedCall c)"
  shows "json_wf (tc_arguments c)"
proof -
  have jget: "json_wf v \<Longrightarrow> jget v k = Some w \<Longrightarrow> json_wf w" for v k w
    by (cases v) (auto simp: jget_def dest!: map_of_SomeD)
  have parsed: "json_wf v" if "json_of_text x u = Some v" for u v
    using assms(1) that by (auto simp: env_ok_def json_of_text_def split: sum.splits)
  have one: "json_wf (tc_arguments c)"
    if found: "try_parse_tool_call_json (json_of_text x) fresh u = Some (ParsedCall c)" for u
  proof -
    from found obtain v w where v: "json_of_text x u = Some v" and w: "jget v ''tool_call'' = Some w"
        and c: "tc_arguments c = opt_default (JObj []) (jget w ''arguments'')"
      unfolding try_parse_tool_call_json_def bind_eq_Some_conv by force
    from jget [OF parsed [OF v] w] have "json_wf w" .
    then show ?thesis
      unfolding c opt_default_def by (cases "jget w ''arguments''") (auto simp: obj_wf_def dest: jget)
  qed
  show ?thesis
    using assms(2) one by (auto simp: try_parse_json_block_def or_else_def bind_eq_Some_conv split: option.splits)
qed

lemma answers_wf: "answers_good x (wf_if_ok x)"
  using block_arguments_wf
  by (auto simp: answers_good_def wf_if_ok_def wf_arguments_def env_ok_def parse_response_def
      split: option.splits if_splits)

lemma call_vetted:
  assumes "all_vetted x (st_counts s) (st_sent s)" and "wf_if_ok x a"
  shows "all_vetted x (st_counts (handle_call x i name a s)) (st_sent (handle_call x i name a s))"
  using handle_call_counters(4) [of x i name a s]
proof
  assume "\<exists>r s1 v. arguments_of x a = Some v \<and> prepared_request x s1 (fixup_tool_name name (x_specs x)) v r
    \<and> st_sent s1 = st_sent s \<and> st_sent (handle_call x i name a s) = st_sent s @ [r]
    \<and> is_allowed x (fixup_tool_name name (x_specs x)) \<and> cache_allows (x_cache x) (fixup_tool_name name (x_specs x))
    \<and> check_per_tool_budget (fixup_tool_name name (x_specs x)) (st_counts s) (x_specs x)
      = (None, st_counts (handle_call x i name a s))"
  then obtain r s1 v where v: "arguments_of x a = Some v"
      and prep: "prepared_request x s1 (fixup_tool_name name (x_specs x)) v r" and s1: "st_sent s1 = st_sent s"
      and sent: "st_sent (handle_call x i name a s) = st_sent s @ [r]"
      and ok: "is_allowed x (fixup_tool_name name (x_specs x))" "cache_allows (x_cache x) (fixup_tool_name name (x_specs x))"
    by blast
  have "vetted_request x (length (st_sent s)) r"
    using prep ok s1 by (auto simp: vetted_request_def prepared_request_def tool_request_of_def is_allowed_def split: if_splits)
  moreover have "ids_in_project x (length (st_sent s)) r" if "env_ok x" "some_artifact x (length (st_sent s))"
    using prepared_ids [OF that(1) prep] arguments_wf [OF that(1) _ v] assms(2) that s1 by (simp add: wf_if_ok_def)
  ultimately show ?thesis
    using assms(1) by (auto simp: all_vetted_def sent nth_append less_Suc_eq)
qed (use assms(1) in \<open>auto simp: all_vetted_def\<close>)

interpretation vetted: run_invariant x "wf_if_ok x" "all_vetted x" for x
  by unfold_locales (rule call_vetted, assumption+, rule answers_wf)

section \<open>The limit of a tool\<close>

definition requests_of :: "string \<Rightarrow> tool_request list \<Rightarrow> nat" where
  "requests_of tool sent = length (filter (\<lambda>r. req_tool_name r = tool) sent)"

definition within_limits :: "run_ctx \<Rightarrow> call_counts \<Rightarrow> tool_request list \<Rightarrow> bool" where
  "within_limits x counts sent \<longleftrightarrow>
     (\<forall>tool. requests_of tool sent \<le> counts tool
       \<and> (\<forall>spec. reg_get_latest (x_specs x) tool = Some spec \<longrightarrow> requests_of tool sent \<le> max_calls_per_run (policy spec)))"

lemma call_within_limits:
  assumes "within_limits x (st_counts s) (st_sent s)"
  shows "within_limits x (st_counts (handle_call x i name a s)) (st_sent (handle_call x i name a s))"
  using handle_call_counters(4) [of x i name a s]
proof
  let ?tool = "fixup_tool_name name (x_specs x)"
  assume "\<exists>r s1 v. arguments_of x a = Some v \<and> prepared_request x s1 ?tool v r
    \<and> st_sent s1 = st_sent s \<and> st_sent (handle_call x i name a s) = st_sent s @ [r]
    \<and> is_allowed x ?tool \<and> cache_allows (x_cache x) ?tool
    \<and> check_per_tool_budget ?tool (st_counts s) (x_specs x) = (None, st_counts (handle_call x i name a s))"
  then obtain r s1 v where prep: "prepared_request x s1 ?tool v r"
      and sent: "st_sent (handle_call x i name a s) = st_sent s @ [r]"
      and budget: "check_per_tool_budget ?tool (st_counts s) (x_specs x) = (None, st_counts (handle_call x i name a s))"
    by blast
  from prep have r: "req_tool_name r = ?tool" by (auto simp: prepared_request_def tool_request_of_def)
  have one: "requests_of ?tool (st_sent s) \<le> st_counts s ?tool" using assms by (simp add: within_limits_def)
  have limit: "st_counts s ?tool + 1 \<le> max_calls_per_run (policy spec)"
    if "reg_get_latest (x_specs x) ?tool = Some spec" for spec
    using budget_passed [OF budget] that by auto
  show ?thesis
    unfolding within_limits_def sent budget_passed(1) [OF budget]
    using assms one limit r by (fastforce simp: within_limits_def requests_of_def)
qed (use assms in \<open>auto simp: within_limits_def le_Suc_eq\<close>)

interpretation limited: run_invariant x "\<lambda>_. True" "within_limits x" for x
  by unfold_locales (rule call_within_limits, assumption, rule answers_any)

section \<open>The start of a run\<close>

lemma core_compacted: "core (first_compaction x history s) = core s"
  by (auto simp: first_compaction_def Let_def core_simps split: sum.split prod.split)

lemma prepared_run:
  assumes "prepare rt cfg th b history goal request hint db = Inr (x, s)"
  shows "core s = (0, (\<lambda>_. 0), [], 0, 0)" "x_env x = rt_env rt" "x_user x = rt_user rt" "x_specs x = rt_specs rt"
    "x_thread x = ti_id th" "x_project x = ti_project th" "x_target x = ti_target th" "x_allowed x = cfg_allowed cfg"
    "x_budget x = (case cfg_budget cfg of Some n \<Rightarrow> unat n | None \<Rightarrow> MAX_TOOL_CALLS)"
    "load_cache rt = Inr (x_cache x)" "x_local x = is_local (be_caps b)"
proof -
  from assms obtain ix memory cache db' ms where cache: "load_cache rt = Inr cache"
    and x: "x = make_ctx rt cfg th b ix memory cache"
    and s: "s = first_compaction x history (fresh_state db' ms (start_tools rt cfg (be_caps b)) history)"
    by (auto simp: prepare_def Let_def error_iff split: prod.splits)
  show "core s = (0, (\<lambda>_. 0), [], 0, 0)"
    unfolding s core_compacted by (simp add: core_def fresh_state_def)
  show "load_cache rt = Inr (x_cache x)" by (simp add: cache x make_ctx_def Let_def)
  show "x_env x = rt_env rt" "x_user x = rt_user rt" "x_specs x = rt_specs rt"
    "x_thread x = ti_id th" "x_project x = ti_project th" "x_target x = ti_target th" "x_allowed x = cfg_allowed cfg"
    "x_budget x = (case cfg_budget cfg of Some n \<Rightarrow> unat n | None \<Rightarrow> MAX_TOOL_CALLS)"
    "x_local x = is_local (be_caps b)"
    by (simp_all add: x make_ctx_def Let_def)
qed

lemma prepared_cache:
  assumes "prepare rt cfg th b history goal request hint db = Inr (x, s)" and "rt_user rt = Some uid"
  shows "cache_allows (x_cache x) tool \<longleftrightarrow> check_tool_allowed (rt_restrictions rt) uid tool"
proof -
  from prepared_run(10) [OF assms(1)] assms(2) have "x_cache x = load_restrictions (rt_restrictions rt) (Some uid)"
    by (auto simp: load_cache_def split: option.splits if_splits)
  then show ?thesis by (simp add: cache_decides_as_table)
qed

section \<open>A request is sent\<close>

text \<open>A call that passes sends its request, and nothing takes requests back.\<close>

lemma handle_call_sends:
  assumes "is_allowed x tool" and "\<not> x_local x" and "cache_allows (x_cache x) tool"
    and "fixup_tool_name name (x_specs x) = tool" and "fst (check_per_tool_budget tool (st_counts s) (x_specs x)) = None"
    and "tool \<noteq> ''tools.discover''" and "ae_enabled (x_env x) (length (st_sent s)) tool = Inr True"
    and "\<And>s'. prepare_arguments x s' tool v = Inr v'"
  shows "st_sent (handle_call x i name (Given v) s) = st_sent s @ [tool_request_of x tool v']"
proof -
  let ?s = "s\<lparr>st_calls := st_calls s + 1, st_counts := snd (check_per_tool_budget tool (st_counts s) (x_specs x))\<rparr>"
  have "gate x tool (s\<lparr>st_calls := st_calls s + 1\<rparr>) = (Passed, ?s)"
    using assms(1-3,5) by (auto simp: gate_def split: prod.split option.split)
  with assms(4) have run: "handle_call x i name (Given v) s = run_tool x i tool v ?s"
    by (simp add: handle_call_def Let_def)
  obtain out new s1 where inv: "invoke_tool x tool v (emit (EvToolCallStart tool v) ?s) = ((out, new), s1)"
    by (metis surj_pair)
  then have "st_sent s1 = st_sent s @ [tool_request_of x tool v']"
    using assms(6-8) by (auto simp: invoke_tool_def emit_def result_event_def Let_def split: sum.splits)
  moreover have "st_sent (run_tool x i tool v ?s) = st_sent s1"
    using inv by (intro core_parts(3)) (simp add: run_tool_def core_simps)
  ultimately show ?thesis by (simp add: run)
qed

lemma call_keeps_sent:
  "st_sent s \<noteq> [] \<and> hd (st_sent s) = q \<Longrightarrow>
     st_sent (handle_call x i name a s) \<noteq> [] \<and> hd (st_sent (handle_call x i name a s)) = q"
  using handle_call_counters(4) [of x i name a s] by auto

interpretation sending: run_invariant x "\<lambda>_. True" "\<lambda>_ sent. sent \<noteq> [] \<and> hd sent = q" for x q
  by unfold_locales (rule call_keeps_sent, assumption, rule answers_any)

lemma errors_kept: "st_errors (begin_round x s) = st_errors s"
proof -
  have "st_errors (fold (\<lambda>row s. push_message (plain RUser (opt_default [] (msg_content row)))
      (s\<lparr>st_seen := max (st_seen s) (msg_seq row)\<rparr>)) rows s) = st_errors s" for rows s
    by (induction rows arbitrary: s) (simp_all add: push_message_def)
  then have "st_errors (take_queued x s) = st_errors s" for s unfolding take_queued_def by blast
  then show ?thesis by (simp add: begin_round_def others_write_def)
qed

text \<open>A round whose response holds calls handles them.\<close>

lemma plain_round_calls:
  assumes "st_calls s < x_budget x" and "st_errors s \<le> MAX_CONSECUTIVE_ERRORS" 
    and "x_user x = None \<or> (\<forall>k. ae_fault (x_env x) ReserveTokens k \<noteq> None)"
    and "\<And>rq. ae_llm (x_env x) (st_round s + 1) rq = Inr resp" and "rs_tool_calls resp \<noteq> []"
  obtains s1 where "core s1 = core (s\<lparr>st_round := st_round s + 1\<rparr>)"
    and "core (snd (plain_round x s)) = core (handle_calls x (rs_tool_calls resp) s1)"
proof -
  let ?b = "begin_round x s"
  have b: "core ?b = core (s\<lparr>st_round := st_round s + 1\<rparr>)" by (simp add: begin_round_def core_simps)
  have "x_user x = None \<or> failing x ReserveTokens ?b" using assms(3) by (auto simp: failing_def)
  then have "reserve_tokens x ?b = (True, ?b)" by (auto simp: reserve_tokens_def split: option.split)
  with assms(1,2) b have go: "plain_round x s = ask x ?b"
    by (simp add: plain_round_def guarded_def stop_reason_def errors_kept core_def Let_def)
  have pre: "core (preflight x ?b) = core ?b" by (simp add: core_simps)
  with b have "st_round (preflight x ?b) = st_round s + 1" by (simp add: core_def)
  with assms(4) have ask: "ask x ?b = take_response x resp (preflight x ?b)" by (simp add: ask_def Let_def)
  define s1 where "s1 = store_calls x (rs_content resp) (rs_tool_calls resp) (settle x (rs_usage resp) (preflight x ?b))"
  have calls: "parsed_calls (map ParsedCall cs) = cs" for cs
    by (induction cs) (simp_all add: parsed_calls_def List.map_filter_simps)
  have "take_response x resp (preflight x ?b) = finish_round x True (rs_content resp) (handle_calls x (rs_tool_calls resp) s1)"
    using assms(5) by (simp add: take_response_def parse_response_def Let_def handle_items_calls calls s1_def)
  then have "core (snd (plain_round x s)) = core (handle_calls x (rs_tool_calls resp) s1)"
    unfolding go ask by (auto simp: finish_round_def split: sum.splits dest: core_post)
  moreover have "core s1 = core (s\<lparr>st_round := st_round s + 1\<rparr>)" by (simp add: s1_def core_simps pre b)
  ultimately show thesis using that by blast
qed

end
