(* ===== verification/AgentProps.thy ===== *)
theory AgentProps
  imports AgentRounds JobProps
begin

text \<open>
  The properties of the agent runs, each with a concrete instance. The sample run is that
  of a user who was granted one restricted tool, on a thread with one artifact; its model
  answers with one call, whose artifact identifier is made up, and then with a text.
\<close>

section \<open>Sample data\<close>

definition sample_call :: tool_call_info where
  "sample_call = \<lparr>tc_id = ''c1'', tc_name = ''file.info'', tc_arguments = JObj [(''artifact_id'', JStr ''bogus'')]\<rparr>"

definition sample_answer :: completion_response where
  "sample_answer = \<lparr>rs_content = [], rs_tool_calls = [sample_call], rs_finish = FToolUse, rs_usage = None\<rparr>"

definition sample_text :: completion_response where
  "sample_text = \<lparr>rs_content = ''clean'', rs_tool_calls = [], rs_finish = FStop, rs_usage = None\<rparr>"

definition read_id :: "string \<Rightarrow> uuid option" where
  "read_id s = (if list_all (\<lambda>c. c = CHR ''x'') s then Some (length s) else None)"

definition print_id :: "uuid \<Rightarrow> string" where "print_id u = replicate u CHR ''x''"

definition sample_agent_env :: agent_env where
  "sample_agent_env =
     \<lparr>ser = (\<lambda>_. []), scale = (\<lambda>_ _. 0), collation = (\<lambda>s. s), redaction = [], summarizer_is_local = True,
      summarizer_complete = (\<lambda>_. Inl NoBackendConfigured), chat_fault = (\<lambda>_. None), summary_id = 0, clock = 0,
      ae_llm = (\<lambda>k _. Inr (if k = 1 then sample_answer else sample_text)),
      ae_stream = (\<lambda>_ _. ([], TaskOk)),
      ae_invoke = (\<lambda>_ _. Inr \<lparr>kind = InlineJson, res_output = JNull, res_stdout = None, res_stderr = None,
                              produced_artifacts = []\<rparr>),
      ae_validate = (\<lambda>_ _. []), ae_pretty = (\<lambda>_. ''null''), ae_from_str = (\<lambda>_. Inl ''expected value''),
      ae_float = (\<lambda>s. s), ae_parse_id = read_id, ae_show_id = print_id, ae_enabled = (\<lambda>_ _. Inr True),
      ae_artifacts = (\<lambda>_. Some ([\<lparr>ai_id = 5, ai_project = 7, ai_filename = ''a.bin'', ai_description = None,
                                 ai_source = None, ai_created = 1\<rparr>], [])),
      ae_evidence = \<lparr>ee_parse = read_id, ee_artifact = (\<lambda>_. Inr None), ee_tool_run = (\<lambda>_. Inr None),
                     ee_resolvers = None\<rparr>,
      ae_row_id = nat, ae_call_id = (\<lambda>_. ''f''), ae_today = (\<lambda>_. 0), ae_others = (\<lambda>_ _ t. t),
      ae_fault = (\<lambda>stm _. if stm = ReserveTokens then Some ''timeout'' else None),
      ae_cwc = \<lparr>cwc_init = (\<lambda>_. None), cwc_run = (\<lambda>_ ms. Inr (ms, \<lparr>rp_tokens_saved = 0, rp_trimmed = False\<rparr>)),
                cwc_facts = (\<lambda>_ _ _. None)\<rparr>\<rparr>"

definition sample_runtime :: agent_runtime where
  "sample_runtime =
     \<lparr>rt_env = sample_agent_env, rt_router = new_router [], rt_specs = sample_specs, rt_user = Some 3,
      rt_agent = None, rt_threshold = f32_0_85, rt_use_cwc = True,
      rt_restrictions = \<lparr>restricted_tools = [(''file.*'', [])], user_tool_grants = [(3, ''file.info'')]\<rparr>,
      rt_routes = []\<rparr>"

definition sample_config :: agent_config where
  "sample_config = \<lparr>cfg_name = ''a'', cfg_prompt = ''p'', cfg_allowed = [''file.*''], cfg_route = RouteAuto,
                    cfg_budget = Some 4\<rparr>"

definition sample_thread :: thread_info where
  "sample_thread = \<lparr>ti_id = 1, ti_project = 7, ti_target = Some 5\<rparr>"

definition sample_backend :: backend where
  "sample_backend = \<lparr>be_name = ''m'', be_caps = \<lparr>supports_tool_calls = True, supports_streaming = True,
     is_local = False, caps_window = None, caps_max_output = None\<rparr>\<rparr>"

definition sample_agent_db :: agent_db where
  "sample_agent_db = \<lparr>message_tab = \<lparr>message_rows = [], last_seq = 0\<rparr>, memory_tab = [],
     quota_tab = sample_accounts, usage_log = [], evidence_rows = []\<rparr>"

definition sample_start_of_run :: "agent_error + run_ctx \<times> run_state" where
  "sample_start_of_run =
     prepare sample_runtime sample_config sample_thread sample_backend [] None None False sample_agent_db"

text \<open>The sample run starts, sends its request in the first round and returns.\<close>

lemma sample_latest: "reg_get_latest sample_specs ''file.info'' = Some sample_spec"
  by (simp add: reg_get_latest_def sample_specs_def bt_last_def)

lemma sample_cached: "load_cache sample_runtime = Inr (load_restrictions (rt_restrictions sample_runtime) (Some 3))"
  by (simp add: load_cache_def sample_runtime_def sample_agent_env_def)

lemma sample_started:
  obtains x s where "sample_start_of_run = Inr (x, s)" "st_errors s = 0"
proof -
  have "\<exists>x s. sample_start_of_run = Inr (x, s) \<and> st_errors s = 0"
    by (auto simp: sample_start_of_run_def prepare_def load_cache_def first_compaction_def make_ctx_def cwc_optimize_def
        cwc_pass_def fresh_state_def sample_runtime_def sample_agent_env_def Let_def split: prod.split)
  with that show thesis by blast
qed

lemma sample_pattern: "strip_suffix ''.*'' ''file.*'' = Some ''file''"
  by (simp add: strip_suffix_Some)

lemma sample_covered: "pattern_covers ''file.*'' ''file.info''"
  unfolding pattern_covers_def by (intro disjI2 exI [of _ "''file''"] exI [of _ "''info''"]) simp

lemma sample_granted: "check_tool_allowed (rt_restrictions sample_runtime) 3 ''file.info''"
  using covers_itself [of "''file.info''"]
  by (simp add: check_tool_allowed_iff list_user_grants_def sample_runtime_def)

text \<open>The made-up identifier is replaced by the target of the thread.\<close>

lemma sample_prepared:
  assumes run: "sample_start_of_run = Inr (x, s)"
  shows "prepare_arguments x s' ''file.info'' (tc_arguments sample_call) = Inr (JObj [(''artifact_id'', JStr ''xxxxx'')])"
proof -
  note x = prepared_run [OF run [unfolded sample_start_of_run_def]]
  have env: "x_env x = sample_agent_env" "x_specs x = sample_specs" "x_target x = Some 5"
    by (simp_all add: x sample_runtime_def sample_thread_def)
  have schema: "input_schema sample_spec = sample_schema" by (simp add: sample_spec_def)
  have fixed: "fixup_arguments ft (tc_arguments sample_call) sample_schema = tc_arguments sample_call" for ft
    unfolding sample_call_def tool_call_info.simps
    by (rule fixup_nothing [where props = "[(''artifact_id'', JObj [(''$ref'', JStr ''#/$defs/ArtifactId'')])]"])
       (simp_all add: sample_schema_def jget_def wanted_renames_def wanted_arrays_def below_minimum_def
          wanted_strings_def schema_type_def opt_default_def)
  have path: "path_parts ''/artifact_id'' = [''artifact_id'']" by (simp add: path_parts_def)
  have "strip_prefix ''#'' (trim ''bogus'') = None" by code_simp
  then have "resolve_artifact_ref ''bogus'' index = None" for index
    by (simp add: resolve_artifact_ref_def)
  then have "translate_artifact_indices pr sample_schema index (tc_arguments sample_call) = tc_arguments sample_call" for pr index
    by (simp add: translate_artifact_indices_def sample_paths translate_path_def path sample_call_def jget_def)
  moreover have "correct_artifacts read_id print_id (Some 5) arts sample_schema (tc_arguments sample_call)
      = JObj [(''artifact_id'', JStr ''xxxxx'')]" for arts
    by (simp add: correct_artifacts_def sample_paths correct_path_def path sample_call_def jget_def read_id_def
        print_id_def numeral_eq_Suc)
  moreover have "validate_arguments x s' sample_spec v = Inr v" for v
    by (simp add: validate_arguments_def env sample_agent_env_def)
  ultimately show ?thesis
    by (simp add: prepare_arguments_def sample_latest schema fixed Let_def env) (simp add: sample_agent_env_def)
qed

lemma sample_run_sends:
  assumes run: "sample_start_of_run = Inr (x, s)" and errors: "st_errors s = 0"
  obtains r s' where "rounds plain_round x 7 s = Some (r, s')" and "st_sent s' \<noteq> []"
    and "st_sent s' ! 0 = tool_request_of x ''file.info'' (JObj [(''artifact_id'', JStr ''xxxxx'')])"
proof -
  note x = prepared_run [OF run [unfolded sample_start_of_run_def]]
  have fresh: "st_calls s = 0" "st_counts s = (\<lambda>_. 0)" "st_sent s = []" "st_round s = 0" "st_retries s = 0"
    using x(1) by (simp_all add: core_def)
  have env: "x_env x = sample_agent_env" "x_specs x = sample_specs" "x_allowed x = [''file.*'']" "x_budget x = 4"
    by (simp_all add: x sample_runtime_def sample_config_def)
  have answer: "ae_llm (x_env x) (st_round s + 1) rq = Inr sample_answer" for rq
    by (simp add: env sample_agent_env_def fresh)
  have quota: "x_user x = None \<or> (\<forall>k. ae_fault (x_env x) ReserveTokens k \<noteq> None)"
    by (simp add: env sample_agent_env_def)
  have calls: "rs_tool_calls sample_answer = [sample_call]" by (simp add: sample_answer_def)
  obtain s1 where s1: "core s1 = core (s\<lparr>st_round := st_round s + 1\<rparr>)"
    and first: "core (snd (plain_round x s)) = core (handle_calls x [sample_call] s1)"
    using plain_round_calls [OF _ _ quota answer] fresh env errors calls by (auto simp: MAX_CONSECUTIVE_ERRORS_def)
  from s1 fresh have s1_fresh: "st_sent s1 = []" "st_counts s1 = (\<lambda>_. 0)" by (simp_all add: core_def)
  have "st_sent (handle_call x ''c1'' ''file.info'' (Given (tc_arguments sample_call)) s1)
      = st_sent s1 @ [tool_request_of x ''file.info'' (JObj [(''artifact_id'', JStr ''xxxxx'')])]"
  proof (rule handle_call_sends)
    show "is_allowed x ''file.info''"
      using sample_covered by (simp add: is_allowed_def env allowed_by_config_iff)
    show "\<not> x_local x" by (simp add: x sample_backend_def)
    show "cache_allows (x_cache x) ''file.info''"
      using prepared_cache [OF run [unfolded sample_start_of_run_def], of 3 "''file.info''"] sample_granted
      by (simp add: sample_runtime_def)
    show "fixup_tool_name ''file.info'' (x_specs x) = ''file.info''"
      by (rule fixup_registered) (simp add: env sample_latest)
    show "fst (check_per_tool_budget ''file.info'' (st_counts s1) (x_specs x)) = None"
      by (simp add: check_per_tool_budget_def env sample_latest s1_fresh sample_spec_def default_tool_policy_def
          default_max_calls_per_run_def)
  qed (simp_all add: env sample_agent_env_def sample_prepared [OF run] del: tool_call_info.simps)
  with first s1_fresh have sent: "st_sent (snd (plain_round x s)) \<noteq> [] \<and>
      hd (st_sent (snd (plain_round x s))) = tool_request_of x ''file.info'' (JObj [(''artifact_id'', JStr ''xxxxx'')])"
    by (simp add: core_def handle_calls_def sample_call_def)
  obtain r s' where rounds: "rounds plain_round x 7 s = Some (r, s')"
    using rounds_end [of plain_round x s 7] by (auto simp: rounds_left_def env fresh)
  have "st_sent s' \<noteq> [] \<and> hd (st_sent s') = tool_request_of x ''file.info'' (JObj [(''artifact_id'', JStr ''xxxxx'')])"
  proof (cases "fst (plain_round x s)")
    case Again
    with rounds have "rounds plain_round x 6 (snd (plain_round x s)) = Some (r, s')"
      by (simp add: rounds.simps(2) [of _ _ 6, simplified] split: prod.splits)
    from sending.rounds_keep [OF _ sent this] show ?thesis by simp
  qed (use rounds sent in \<open>auto simp: rounds.simps(2) [of _ _ 6, simplified] split: prod.splits\<close>)
  with rounds show thesis by (intro that) (auto simp: hd_conv_nth)
qed

section \<open>What a run may do\<close>






text \<open>
  C15. The limit of a tool: a run hands the invoker at most as many requests for a registered
  tool as the policy of its latest version allows calls in a run, however many calls the
  model makes and whatever happens to them.
\<close>

theorem tool_limit_kept:
  assumes "prepare rt cfg th b history goal request hint db = Inr (x, s)"
    and "go \<in> {plain_round, stream_round}" and "rounds go x n s = Some (r, s')"
    and "reg_get_latest (rt_specs rt) tool = Some spec"
  shows "requests_of tool (st_sent s') \<le> max_calls_per_run (policy spec)"
proof -
  note x = prepared_run [OF assms(1)]
  have "within_limits x (st_counts s) (st_sent s)"
    using x(1) by (simp add: within_limits_def core_def requests_of_def)
  from limited.rounds_keep [OF assms(2) this assms(3)] assms(4) show ?thesis
    by (simp add: within_limits_def x)
qed

theorem tool_limit_kept_witness:
  "\<exists>x s r s'. sample_start_of_run = Inr (x, s) \<and> rounds plain_round x 7 s = Some (r, s') \<and>
     0 < requests_of ''file.info'' (st_sent s') \<and>
     requests_of ''file.info'' (st_sent s') \<le> max_calls_per_run (policy sample_spec)"
proof -
  obtain x s where run: "sample_start_of_run = Inr (x, s)" and "st_errors s = 0" by (rule sample_started)
  then obtain r s' where rounds: "rounds plain_round x 7 s = Some (r, s')" and "st_sent s' \<noteq> []"
      and "st_sent s' ! 0 = tool_request_of x ''file.info'' (JObj [(''artifact_id'', JStr ''xxxxx'')])"
    by (rule sample_run_sends)
  then have "0 < requests_of ''file.info'' (st_sent s')"
    by (cases "st_sent s'") (auto simp: requests_of_def tool_request_of_def)
  moreover have "reg_get_latest (rt_specs sample_runtime) ''file.info'' = Some sample_spec"
    by (simp add: sample_runtime_def sample_latest)
  ultimately show ?thesis
    using tool_limit_kept [OF run [unfolded sample_start_of_run_def] _ rounds] run rounds by blast
qed

definition started :: "agent_runtime \<Rightarrow> agent_config \<Rightarrow> run_ctx \<Rightarrow> run_state \<Rightarrow> bool" where
  "started rt cfg x s \<longleftrightarrow>
     (\<exists>th b history goal request hint db. prepare rt cfg th b history goal request hint db = Inr (x, s))"

lemma send_message_started: "send_message_start rt cfg thread i t db = Inr (x, s) \<Longrightarrow> started rt cfg x s"
  by (auto simp: send_message_start_def started_def error_iff split: option.splits) blast+

lemma stream_started: "stream_start rt cfg th history db = Inr (x, s) \<Longrightarrow> started rt cfg x s"
  by (auto simp: stream_start_def started_def error_iff split: option.splits) blast+

text \<open>
  C14. A run always ends. Whatever the model answers, the tools do and the database refuses,
  each of the three entry points returns within three rounds more than the agent's budget
  of tool calls: a round that asks for another one has handled a call or used up one of
  the two retries of an empty answer.
\<close>

theorem run_ends:
  assumes "(case cfg_budget cfg of Some n \<Rightarrow> unat n | None \<Rightarrow> MAX_TOOL_CALLS) + 3 \<le> fuel"
  shows "send_message rt cfg thread i t fuel db \<noteq> None
    \<and> send_message_streaming rt cfg thread i t fuel db \<noteq> None
    \<and> continue_thread_streaming rt cfg thread i fuel db \<noteq> None"
proof -
  have end_run: "\<exists>r s'. rounds go x fuel s = Some (r, s')"
    if "started rt cfg x s" and "go \<in> {plain_round, stream_round}" for go x s
  proof -
    from that(1) obtain th b history goal request hint db' where
      "prepare rt cfg th b history goal request hint db' = Inr (x, s)" by (auto simp: started_def)
    note x = prepared_run [OF this]
    have "rounds_left x s < fuel" using x(1,9) assms by (simp add: rounds_left_def core_def)
    from rounds_end [OF that(2) this] show ?thesis by blast
  qed
  have "send_message rt cfg thread i t fuel db \<noteq> None"
    using end_run [where go = plain_round] send_message_started [of rt cfg thread i t db]
    by (fastforce simp: send_message_def split: sum.splits)
  moreover have "send_message_streaming rt cfg thread i t fuel db \<noteq> None"
    using end_run [where go = stream_round] stream_started
    by (fastforce simp: send_message_streaming_def error_iff split: option.splits sum.splits)
  moreover have "continue_thread_streaming rt cfg thread i fuel db \<noteq> None"
    using end_run [where go = stream_round] stream_started
    by (fastforce simp: continue_thread_streaming_def error_iff split: option.splits sum.splits)
  ultimately show ?thesis by blast
qed

theorem run_ends_witness:
  "send_message sample_runtime sample_config (Some sample_thread) 1 ''look'' 7 sample_agent_db \<noteq> None"
  using run_ends [of sample_config 7 sample_runtime "Some sample_thread" 1 "''look''" sample_agent_db]
  by (simp add: sample_config_def)

end
