(* ===== verification/RunAccounting.thy ===== *)
theory RunAccounting
  imports AgentProps
begin

text \<open>
  What a request to a language model costs a user: the reservation before it, the
  adjustments after it, and how the two ways of receiving a response differ in them.
\<close>

section \<open>One adjustment\<close>

text \<open>The counters of the user of a run, on the day of its current round.\<close>

definition user_row :: "run_ctx \<Rightarrow> uuid \<Rightarrow> run_state \<Rightarrow> usage_row option" where
  "user_row x uid s = usage_daily (quota_tab (st_db s)) (uid, ae_today (x_env x) (st_round s))"







definition accounts_of :: "run_state \<Rightarrow> quota_db \<times> nat" where
  "accounts_of s = (quota_tab (st_db s), st_round s)"








lemma accounts_row: "accounts_of s = accounts_of t \<Longrightarrow> user_row x uid s = user_row x uid t"
  by (simp add: accounts_of_def user_row_def)












end
