(* ===== verification/ChatProps.thy ===== *)
theory ChatProps
  imports AgentProps
begin

text \<open>
  The properties of what surrounds a run's requests: the part of a conversation that is
  kept when it grows too long, the numbers that stand for artifacts, the repair of tool
  names, the evidence that is recorded, and the redaction before a text leaves the house.
\<close>

section \<open>The part that is kept\<close>

lemma walk_back_chain:
  assumes "k < b" and "\<And>i. k < i \<Longrightarrow> i < b \<Longrightarrow> keeps_with_next messages i" and "\<not> keeps_with_next messages k"
  shows "walk_back messages b = k + 1"
  using assms
proof (induction messages b rule: walk_back.induct)
  case (2 messages prev)
  show ?case
  proof (cases "prev = k")
    case True
    with 2(4) show ?thesis by simp
  next
    case False
    with 2(2,3) have "k < prev" "keeps_with_next messages prev" by auto
    with 2 show ?thesis by simp
  qed
qed simp

text \<open>
  C33. What compaction keeps. The part kept begins behind the first message and before or at
  the last user message, and whenever the conversation had every tool result behind its
  call, so has the part kept. But the last user message need not be the last request: where
  a request (at \<open>k\<close>) is followed by calls, results and reminders alone, the cut is right
  behind the request, and the request itself is compacted away.
\<close>

theorem compaction_cut:
  assumes "select_messages_for_compaction messages = Some plan"
  shows "1 < compact_end plan
    \<and> (\<exists>i. last_user_idx messages = Some i \<and> compact_end plan \<le> i \<and> i < length messages
         \<and> role (messages ! i) = RUser \<and> (\<forall>j. i < j \<and> j < length messages \<longrightarrow> role (messages ! j) \<noteq> RUser))
    \<and> (grouped False messages \<longrightarrow> grouped False (drop (compact_end plan) messages))
    \<and> (\<forall>i k. last_user_idx messages = Some i \<and> k < i \<and> \<not> keeps_with_next messages k
         \<and> (\<forall>j. k < j \<and> j < i \<longrightarrow> keeps_with_next messages j) \<longrightarrow> compact_end plan = k + 1)"
proof -
  from assms obtain i where i: "last_user_idx messages = Some i"
      and plan: "compact_end plan = walk_back messages i" and cut: "1 < walk_back messages i" "walk_back messages i \<le> i"
    by (auto elim!: select_Some)
  note last = last_user_idx_Some [OF i]
  have "grouped False (drop (walk_back messages i) messages)" if "grouped False messages"
    using cut_stays_grouped [OF that] cut last(1) walk_back_stops [OF cut(1)] by simp
  then show ?thesis
    using i cut last plan walk_back_chain by auto
qed

definition cloud_chat :: "chat_message list" where
  "cloud_chat = [plain RSystem ''s'', plain RUser ''hello'', plain RAssistant ''hi'', plain RUser ''unpack it'',
     assistant_message [] [sample_call], tool_message ''ok'' ''c1'' ''file.info'', plain RUser TOOL_RESULT_REINFORCEMENT]"

lemma cloud_plan: "select_messages_for_compaction cloud_chat = Some \<lparr>compact_start = 1, compact_end = 4, message_count = 3\<rparr>"
  by (simp add: select_messages_for_compaction_def last_user_idx_def cloud_chat_def plain_def assistant_message_def
      tool_message_def keeps_with_next_def numeral_nat upt_rec)

theorem compaction_cut_witness:
  "grouped False (drop 4 cloud_chat) \<and> plain RUser ''unpack it'' \<notin> set (drop 4 cloud_chat)"
proof -
  have "grouped False cloud_chat"
    by (simp add: cloud_chat_def plain_def assistant_message_def tool_message_def group_after_def)
  with compaction_cut [OF cloud_plan] have "grouped False (drop 4 cloud_chat)" by simp
  then show ?thesis
    by (simp add: cloud_chat_def plain_def assistant_message_def tool_message_def TOOL_RESULT_REINFORCEMENT_def)
qed

section \<open>Positions and sequence numbers\<close>























section \<open>A message that never arrives\<close>









end
