(* ===== verification/TextProps.thy ===== *)
theory TextProps
  imports AgentProps
begin

text \<open>
  Properties of the repairs made on what a model writes (names of tools, references to
  artifacts, arguments) and of the evidence recorded from its final text.
\<close>

section \<open>Names\<close>

text \<open>
  C39. The two-row table of \<open>levenshtein\<close> computes the edit distance: the least number of
  insertions, deletions and replacements of one byte that turn one name into the other.
\<close>

theorem levenshtein_exact: "levenshtein a b = (LEAST n. (edit_step ^^ n) a b)"
  by (rule Least_equality [symmetric]) (auto intro: levenshtein_reached levenshtein_least)

text \<open>
  A name is only replaced when it is not registered, and only by the one registered name
  it can stand for: the only one that ends in it after a dot, or else the only one within
  two edits.
\<close>

theorem tool_name_repair:
  assumes "fixup_tool_name name specs = tool" and "tool \<noteq> name"
  shows "reg_get_latest specs name = None \<and> tool \<in> set (reg_list specs)
    \<and> ((\<forall>n \<in> set (reg_list specs). last_part n = name \<longleftrightarrow> n = tool)
       \<or> (\<forall>n \<in> set (reg_list specs). levenshtein name n \<le> 2 \<longleftrightarrow> n = tool))"
proof -
  let ?m = "suffix_matches name (reg_list specs)" and ?c = "close_matches name 2 (reg_list specs)"
  have single: "length xs = 1 \<Longrightarrow> set xs = {hd xs}" for xs :: "'a list" by (cases xs) auto
  from assms have none: "reg_get_latest specs name = None" by (auto simp: fixup_tool_name_def split: if_splits)
  from assms consider "tool = hd ?m" "length ?m = 1" | "tool = fst (hd ?c)" "length ?c = 1"
    by (auto simp: fixup_tool_name_def Let_def split: if_splits)
  then show ?thesis
  proof cases
    case 1
    with single [of ?m] have "{n \<in> set (reg_list specs). last_part n = name} = {tool}"
      by (simp add: suffix_matches_def)
    with none show ?thesis by blast
  next
    case 2
    obtain d where d: "hd ?c = (tool, d)" using 2 by (metis prod.collapse)
    have "set ?c = {(tool, d)}" by (rule single [OF 2(2), unfolded d])
    then have in_c: "n \<in> set (reg_list specs) \<and> e = levenshtein name n \<and> e \<le> 2 \<longleftrightarrow> n = tool \<and> e = d" for n e
      unfolding close_matches_set [symmetric] by (simp only: singleton_iff prod.inject)
    have "levenshtein name n \<le> 2 \<longleftrightarrow> n = tool" if "n \<in> set (reg_list specs)" for n
      using that in_c [of n "levenshtein name n"] in_c [of tool d] by auto
    moreover have "tool \<in> set (reg_list specs)" using in_c [of tool d] by simp
    ultimately show ?thesis using none by blast
  qed
qed

theorem tool_name_repair_witness:
  "fixup_tool_name ''info'' sample_specs = ''file.info'' \<and> ''file.info'' \<in> set (reg_list sample_specs)
   \<and> reg_get_latest sample_specs ''info'' = None"
proof -
  have none: "reg_get_latest sample_specs ''info'' = None"
    by (simp add: reg_get_latest_def sample_specs_def)
  have "last_part ''file.info'' = ''info''" by code_simp
  then have "fixup_tool_name ''info'' sample_specs = ''file.info''"
    by (simp add: fixup_tool_name_def none Let_def suffix_matches_def) (simp add: reg_list_def sample_specs_def)
  from tool_name_repair [OF this] this show ?thesis by simp
qed

section \<open>Numbers of artifacts\<close>

text \<open>
  The numbers of the prompt. Every artifact of a run is listed under exactly one number,
  and \<open>#\<close> followed by that number, as a model writes it in a call, is read as that artifact.
\<close>

theorem artifact_numbers_resolve:
  assumes "distinct (map ac_id arts)" and "length arts < 2 ^ 64"
    and "index = snd (append_artifact_context prompt arts target)" and "a \<in> set arts"
  shows "\<exists>!n. 1 \<le> n \<and> n \<le> length arts
    \<and> resolve_artifact_ref (''#'' @ show_nat n) index = Some (ac_id a)"
proof -
  have perm: "mset index = mset (map ac_id arts)"
    using artifact_order_perm [OF assms(1)] by (simp add: assms(3) index_map_is)
  then have index: "distinct index" "length index = length arts" "ac_id a \<in> set index"
    using assms(1,4) mset_eq_imp_distinct_iff [OF perm] mset_eq_length [OF perm] mset_eq_setD [OF perm] by simp_all
  have reads: "resolve_artifact_ref (''#'' @ show_nat n) index = Some (index ! (n - 1))"
    if "1 \<le> n" "n \<le> length arts" for n
    using reference_resolves [of "n - 1" index] that assms(2) index(2) by simp
  from index obtain i where "i < length arts" "index ! i = ac_id a" by (metis in_set_conv_nth)
  moreover have "n = i + 1" if "1 \<le> n" "n \<le> length arts"
      "resolve_artifact_ref (''#'' @ show_nat n) index = Some (ac_id a)" for n
    using reads [OF that(1,2)] that nth_eq_iff_index_eq [OF index(1), of "n - 1" i] calculation index(2) by simp
  ultimately show ?thesis using reads [of "i + 1"] by (intro ex1I [of _ "i + 1"]) auto
qed

definition two_artifacts :: "artifact_ctx list" where
  "two_artifacts =
     [\<lparr>ac_id = 8, ac_filename = ''out.txt'', ac_description = None, ac_source = Some 2, ac_parent = Some 5\<rparr>,
      \<lparr>ac_id = 5, ac_filename = ''a.bin'', ac_description = None, ac_source = None, ac_parent = None\<rparr>]"

theorem artifact_numbers_resolve_witness:
  "\<exists>!n. 1 \<le> n \<and> n \<le> 2 \<and> resolve_artifact_ref (''#'' @ show_nat n)
     (snd (append_artifact_context [] two_artifacts None)) = Some 8"
proof -
  have "distinct (map ac_id two_artifacts)" "length two_artifacts < 2 ^ 64" "hd two_artifacts \<in> set two_artifacts"
    by (simp_all add: two_artifacts_def)
  note numbered = artifact_numbers_resolve [OF this(1,2) refl this(3), of "[]" None]
  have "length two_artifacts = 2" "ac_id (hd two_artifacts) = 8" by (simp_all add: two_artifacts_def)
  with numbered show ?thesis by (simp only:)
qed

section \<open>Types of arguments\<close>















section \<open>Evidence\<close>







end
