(* ===== verification/PluginDb.thy ===== *)
theory PluginDb
  imports Json "HOL-Library.AList" "HOL-Library.Char_ord"
begin

text \<open>
  \<open>af-db/src/scoped_plugin_db.rs\<close>: the statements a plugin may run, the settings of the
  session they run under, and the migrations of a plugin's schema.

  A connection is its session settings, the tables it sees and, inside a transaction, what
  a rollback restores. Parameters: the effect of a plugin's own SQL, the failures of single
  statements, and the printers of the library types. What PostgreSQL does of its own is
  written out: a failed statement aborts the transaction it is in, an aborted transaction
  refuses every statement until it ends, \<open>SET LOCAL\<close> lasts to the end of the transaction
  and is ignored outside one.
\<close>

datatype plugin_db_error = QueryError string | MigrationError string

section \<open>The checks\<close>

datatype schema_error = EmptySchemaName | InvalidSchemaName string

definition validate_schema_name :: "string \<Rightarrow> schema_error + unit" where
  "validate_schema_name schema =
     (if schema = [] then Inl EmptySchemaName
      else if list_all (\<lambda>c. (CHR ''a'' \<le> c \<and> c \<le> CHR ''z'') \<or> (CHR ''0'' \<le> c \<and> c \<le> CHR ''9'') \<or> c = CHR ''_'') schema
      then Inr () else Inl (InvalidSchemaName schema))"

text \<open>\<open>ScopedPluginDb::new\<close> panics on an invalid name.\<close>

definition scoped_plugin_db :: "string \<Rightarrow> string option" where
  "scoped_plugin_db schema = (case validate_schema_name schema of Inl _ \<Rightarrow> None | Inr _ \<Rightarrow> Some schema)"

definition FORBIDDEN_SQL_PATTERNS :: "string list" where
  "FORBIDDEN_SQL_PATTERNS =
     [''SET SEARCH_PATH'', ''SET SESSION'', ''SET LOCAL'', ''GRANT'', ''REVOKE'', ''DROP SCHEMA'',
      ''CREATE SCHEMA'', ''ALTER SCHEMA'', ''PUBLIC.'', ''PG_CATALOG.'', ''INFORMATION_SCHEMA.'',
      ''SET ROLE'', ''RESET ROLE'', ''COPY '', [CHR 0x5C] @ ''COPY'']"

definition validate_sql :: "(string \<Rightarrow> string) \<Rightarrow> string \<Rightarrow> plugin_db_error + unit" where
  "validate_sql to_uppercase sql =
     (case filter (\<lambda>p. find_sub p (to_uppercase sql) \<noteq> None) FORBIDDEN_SQL_PATTERNS of
        p # _ \<Rightarrow> Inl (QueryError (''forbidden SQL pattern: '' @ p))
      | [] \<Rightarrow> Inr ())"

lemma validate_sql_ok:
  "validate_sql up sql = Inr () \<longleftrightarrow> (\<forall>p \<in> set FORBIDDEN_SQL_PATTERNS. \<nexists>u v. up sql = u @ p @ v)"
proof -
  have "validate_sql up sql = Inr () \<longleftrightarrow> filter (\<lambda>p. find_sub p (up sql) \<noteq> None) FORBIDDEN_SQL_PATTERNS = []"
    by (simp add: validate_sql_def split: list.split)
  then show ?thesis unfolding filter_empty_conv by (simp add: find_sub_None)
qed

section \<open>Values\<close>

datatype sql_param = BindText string | BindInt int | BindFloat json | BindBool bool | BindNull

text \<open>A number that is no \<open>i64\<close> is bound as a float.\<close>

fun bind_param :: "(json \<Rightarrow> string) \<Rightarrow> json \<Rightarrow> sql_param" where
  "bind_param ser (JStr s) = BindText s"
| "bind_param ser (JInt n) = (if - (2 ^ 63) \<le> n \<and> n < 2 ^ 63 then BindInt n else BindFloat (JInt n))"
| "bind_param ser (JFloat t) = BindFloat (JFloat t)"
| "bind_param ser (JBool b) = BindBool b"
| "bind_param ser JNull = BindNull"
| "bind_param ser v = BindText (ser v)"

text \<open>A column's value by its type; \<open>ColFloat None\<close> is a number JSON has none for, and
  \<open>ColOther\<close> stands for NULL and the types no conversion is tried for.\<close>

datatype column =
    ColText string | ColInt int | ColFloat "string option" | ColBool bool | ColUuid uuid
  | ColTime instant | ColDate nat | ColJson json | ColTexts "string list" | ColBytes string | ColOther

record value_printers =
  print_uuid :: "uuid \<Rightarrow> string"
  to_rfc3339 :: "instant \<Rightarrow> string"
  print_date :: "nat \<Rightarrow> string"
  base64_encode :: "string \<Rightarrow> string"
  print_json :: "json \<Rightarrow> string"

fun row_column_to_json :: "value_printers \<Rightarrow> column \<Rightarrow> json" where
  "row_column_to_json pr (ColText s) = JStr s"
| "row_column_to_json pr (ColInt n) = JInt n"
| "row_column_to_json pr (ColFloat (Some t)) = JFloat t"
| "row_column_to_json pr (ColFloat None) = JNull"
| "row_column_to_json pr (ColBool b) = JBool b"
| "row_column_to_json pr (ColUuid u) = JStr (print_uuid pr u)"
| "row_column_to_json pr (ColTime t) = JStr (to_rfc3339 pr t)"
| "row_column_to_json pr (ColDate d) = JStr (print_date pr d)"
| "row_column_to_json pr (ColJson v) = v"
| "row_column_to_json pr (ColTexts ts) = JArr (map JStr ts)"
| "row_column_to_json pr (ColBytes b) = JStr (base64_encode pr b)"
| "row_column_to_json pr ColOther = JNull"

text \<open>A later column of the same name replaces the earlier one.\<close>

definition row_to_json :: "value_printers \<Rightarrow> (string \<times> column) list \<Rightarrow> json" where
  "row_to_json pr row =
     JObj (fold (\<lambda>(name, col) obj. AList.update name (row_column_to_json pr col) obj) row [])"

section \<open>Connections\<close>

record session =
  se_path :: "string option"          \<comment> \<open>\<open>search_path\<close>, \<open>None\<close> the default\<close>
  se_role :: "string option"
  se_local_role :: "string option"
  se_local_user :: "string option"    \<comment> \<open>\<open>af.current_user_id\<close>\<close>

definition default_session :: session where
  "default_session = \<lparr>se_path = None, se_role = None, se_local_role = None, se_local_user = None\<rparr>"

record 'd pg_tables =
  pg_data :: 'd
  pg_schemas :: "string list"
  plugin_migrations :: "(string \<times> int) list"

record 'd pg_conn =
  cn_session :: session
  cn_tables :: "'d pg_tables"
  cn_saved :: "(session \<times> 'd pg_tables) option"       \<comment> \<open>inside a transaction\<close>
  cn_aborted :: bool
  cn_count :: nat
  cn_ran :: "(session \<times> string) list"               \<comment> \<open>the plugin's own SQL, newest first\<close>

record sql_result =
  sr_rows :: "(string \<times> column) list list"
  sr_affected :: u64

datatype plugin_stmt =
    SetLocalRole
  | SetUser string
  | SetPath string
  | RunSql string "sql_param list"
  | ResetPath
  | ResetRole
  | CreateSchema string
  | IsApplied string int
  | RecordMigration string int

record 'd plugin_env =
  pe_upper :: "string \<Rightarrow> string"
  pe_printers :: value_printers
  pe_sql :: "session \<Rightarrow> string \<Rightarrow> sql_param list \<Rightarrow> 'd \<Rightarrow> string + sql_result \<times> session \<times> 'd"
  pe_fault :: "nat \<Rightarrow> plugin_stmt \<Rightarrow> string option"
  pe_begin_fault :: "nat \<Rightarrow> string option"                \<comment> \<open>no connection, or \<open>BEGIN\<close> fails\<close>
  pe_commit_fault :: "nat \<Rightarrow> string option"

definition no_rows :: sql_result where "no_rows = \<lparr>sr_rows = [], sr_affected = 0\<rparr>"

fun effect :: "'d plugin_env \<Rightarrow> plugin_stmt \<Rightarrow> 'd pg_conn \<Rightarrow> (string + sql_result) \<times> 'd pg_conn" where
  "effect env SetLocalRole c =
     (Inr no_rows, if cn_saved c = None then c
        else c\<lparr>cn_session := (cn_session c)\<lparr>se_local_role := Some ''af_api''\<rparr>\<rparr>)"
| "effect env (SetUser u) c =
     (Inr no_rows, if cn_saved c = None then c
        else c\<lparr>cn_session := (cn_session c)\<lparr>se_local_user := Some u\<rparr>\<rparr>)"
| "effect env (SetPath p) c = (Inr no_rows, c\<lparr>cn_session := (cn_session c)\<lparr>se_path := Some p\<rparr>\<rparr>)"
| "effect env (RunSql sql params) c =
     (let c1 = c\<lparr>cn_ran := (cn_session c, sql) # cn_ran c\<rparr>
      in case pe_sql env (cn_session c) sql params (pg_data (cn_tables c)) of
           Inl e \<Rightarrow> (Inl e, c1)
         | Inr (res, se, d) \<Rightarrow> (Inr res, c1\<lparr>cn_session := se, cn_tables := (cn_tables c)\<lparr>pg_data := d\<rparr>\<rparr>))"
| "effect env ResetPath c = (Inr no_rows, c\<lparr>cn_session := (cn_session c)\<lparr>se_path := None\<rparr>\<rparr>)"
| "effect env ResetRole c =
     (Inr no_rows, c\<lparr>cn_session := (cn_session c)\<lparr>se_role := None, se_local_role := None\<rparr>\<rparr>)"
| "effect env (CreateSchema s) c =
     (Inr no_rows, if s \<in> set (pg_schemas (cn_tables c)) then c
        else c\<lparr>cn_tables := (cn_tables c)\<lparr>pg_schemas := s # pg_schemas (cn_tables c)\<rparr>\<rparr>)"
| "effect env (IsApplied s v) c =
     (Inr (no_rows\<lparr>sr_affected := (if (s, v) \<in> set (plugin_migrations (cn_tables c)) then 1 else 0)\<rparr>), c)"
| "effect env (RecordMigration s v) c =
     (Inr no_rows, c\<lparr>cn_tables := (cn_tables c)\<lparr>plugin_migrations := plugin_migrations (cn_tables c) @ [(s, v)]\<rparr>\<rparr>)"

definition aborted_text :: string where
  "aborted_text = ''current transaction is aborted, commands ignored until end of transaction block''"

definition run_stmt :: "'d plugin_env \<Rightarrow> plugin_stmt \<Rightarrow> 'd pg_conn \<Rightarrow> (string + sql_result) \<times> 'd pg_conn" where
  "run_stmt env st c0 =
     (let c = c0\<lparr>cn_count := cn_count c0 + 1\<rparr>
      in if cn_aborted c then (Inl aborted_text, c)
         else case (case pe_fault env (cn_count c0) st of Some e \<Rightarrow> (Inl e, c) | None \<Rightarrow> effect env st c) of
           (Inr res, c') \<Rightarrow> (Inr res, c')
         | (Inl e, c') \<Rightarrow> (Inl e, c'\<lparr>cn_aborted := cn_saved c' \<noteq> None\<rparr>))"

text \<open>The start and the two ends of a transaction. Ending an aborted one by \<open>COMMIT\<close> rolls it
  back, without an error.\<close>

definition begin_tx :: "'d plugin_env \<Rightarrow> 'd pg_conn \<Rightarrow> (string + unit) \<times> 'd pg_conn" where
  "begin_tx env c =
     (case pe_begin_fault env (cn_count c) of
        Some e \<Rightarrow> (Inl e, c\<lparr>cn_count := cn_count c + 1\<rparr>)
      | None \<Rightarrow> (Inr (), c\<lparr>cn_count := cn_count c + 1, cn_saved := Some (cn_session c, cn_tables c)\<rparr>))"

definition rollback_tx :: "'d pg_conn \<Rightarrow> 'd pg_conn" where
  "rollback_tx c =
     (case cn_saved c of
        None \<Rightarrow> c
      | Some (se, t) \<Rightarrow> c\<lparr>cn_session := se, cn_tables := t, cn_saved := None, cn_aborted := False\<rparr>)"

definition commit_tx :: "'d plugin_env \<Rightarrow> 'd pg_conn \<Rightarrow> (string + unit) \<times> 'd pg_conn" where
  "commit_tx env c =
     (case pe_commit_fault env (cn_count c) of
        Some e \<Rightarrow> (Inl e, rollback_tx c)
      | None \<Rightarrow>
          (Inr (), if cn_aborted c then rollback_tx c
             else c\<lparr>cn_session := (cn_session c)\<lparr>se_local_role := None, se_local_user := None\<rparr>, cn_saved := None\<rparr>))"

section \<open>A statement of a plugin\<close>

text \<open>Sequencing on a connection: an error stops, the connection stays.\<close>

definition seq_conn ::
  "('c \<Rightarrow> ('e + 'a) \<times> 'c) \<Rightarrow> ('a \<Rightarrow> 'c \<Rightarrow> ('e + 'b) \<times> 'c) \<Rightarrow> 'c \<Rightarrow> ('e + 'b) \<times> 'c" where
  "seq_conn m f c = (case m c of (Inl e, c') \<Rightarrow> (Inl e, c') | (Inr x, c') \<Rightarrow> f x c')"

definition map_error :: "('e \<Rightarrow> 'f) \<Rightarrow> ('e + 'a) \<times> 'c \<Rightarrow> ('f + 'a) \<times> 'c" where
  "map_error f r = (case r of (Inl e, c) \<Rightarrow> (Inl (f e), c) | (Inr x, c) \<Rightarrow> (Inr x, c))"

definition query_stmt :: "'d plugin_env \<Rightarrow> plugin_stmt \<Rightarrow> 'd pg_conn \<Rightarrow> (plugin_db_error + sql_result) \<times> 'd pg_conn" where
  "query_stmt env st c = map_error QueryError (run_stmt env st c)"

definition set_rls_context ::
  "'d plugin_env \<Rightarrow> uuid option \<Rightarrow> 'd pg_conn \<Rightarrow> (plugin_db_error + unit) \<times> 'd pg_conn" where
  "set_rls_context env user =
     (case user of
        None \<Rightarrow> (\<lambda>c. (Inr (), c))
      | Some uid \<Rightarrow>
          seq_conn (query_stmt env SetLocalRole) (\<lambda>_.
          seq_conn (query_stmt env (SetUser (print_uuid (pe_printers env) uid))) (\<lambda>_ c. (Inr (), c))))"

text \<open>\<open>scoped_query\<close> and \<open>scoped_execute\<close>, which differ in what they return of the result: the
  result of the statement is looked at only after the search path was reset.\<close>

definition scoped_statement ::
  "'d plugin_env \<Rightarrow> string \<Rightarrow> string \<Rightarrow> json list \<Rightarrow> uuid option \<Rightarrow> 'd pg_conn \<Rightarrow>
     (plugin_db_error + sql_result) \<times> 'd pg_conn" where
  "scoped_statement env schema sql params user =
     seq_conn (set_rls_context env user) (\<lambda>_.
     seq_conn (query_stmt env (SetPath (schema @ '',pg_temp''))) (\<lambda>_ c.
       case run_stmt env (RunSql sql (map (bind_param (print_json (pe_printers env))) params)) c of
         (result, c1) \<Rightarrow>
           seq_conn (query_stmt env ResetPath) (\<lambda>_ c2.
             let c3 = (if user = None then c2 else snd (run_stmt env ResetRole c2))
             in map_error QueryError (result, c3)) c1))"

definition scoped_query where
  "scoped_query env schema sql params user =
     seq_conn (scoped_statement env schema sql params user) (\<lambda>res c.
       (Inr (map (row_to_json (pe_printers env)) (sr_rows res)), c))"

definition scoped_execute where
  "scoped_execute env schema sql params user =
     seq_conn (scoped_statement env schema sql params user) (\<lambda>res c. (Inr (sr_affected res), c))"

text \<open>A transaction dropped without commit is rolled back.\<close>

definition in_transaction ::
  "'d plugin_env \<Rightarrow> (string \<Rightarrow> plugin_db_error) \<Rightarrow> ('d pg_conn \<Rightarrow> (plugin_db_error + 'a) \<times> 'd pg_conn) \<Rightarrow>
     'd pg_conn \<Rightarrow> (plugin_db_error + 'a) \<times> 'd pg_conn" where
  "in_transaction env err body c0 =
     (case begin_tx env c0 of
        (Inl e, c1) \<Rightarrow> (Inl (err e), c1)
      | (Inr _, c1) \<Rightarrow>
          (case body c1 of
             (Inl e, c2) \<Rightarrow> (Inl e, rollback_tx c2)
           | (Inr x, c2) \<Rightarrow>
               (case commit_tx env c2 of
                  (Inl e, c3) \<Rightarrow> (Inl (err e), c3)
                | (Inr _, c3) \<Rightarrow> (Inr x, c3))))"

definition validated ::
  "'d plugin_env \<Rightarrow> string \<Rightarrow> uuid option \<Rightarrow> ('d pg_conn \<Rightarrow> (plugin_db_error + 'a) \<times> 'd pg_conn) \<Rightarrow>
     'd pg_conn \<Rightarrow> (plugin_db_error + 'a) \<times> 'd pg_conn" where
  "validated env sql user body c =
     (case validate_sql (pe_upper env) sql of
        Inl e \<Rightarrow> (Inl e, c)
      | Inr _ \<Rightarrow>
          if user \<noteq> None then in_transaction env QueryError body c
          else case pe_begin_fault env (cn_count c) of Some e \<Rightarrow> (Inl (QueryError e), c) | None \<Rightarrow> body c)"

definition query_json where
  "query_json env schema sql params user = validated env sql user (scoped_query env schema sql params user)"

definition execute_json where
  "execute_json env schema sql params user = validated env sql user (scoped_execute env schema sql params user)"

section \<open>Migrations\<close>

record migration =
  mig_version :: u32
  mig_name :: string
  mig_sql :: string

definition migrate_stmt :: "'d plugin_env \<Rightarrow> plugin_stmt \<Rightarrow> 'd pg_conn \<Rightarrow> (plugin_db_error + sql_result) \<times> 'd pg_conn" where
  "migrate_stmt env st c = map_error MigrationError (run_stmt env st c)"

fun run_each :: "'d plugin_env \<Rightarrow> string \<Rightarrow> migration list \<Rightarrow> 'd pg_conn \<Rightarrow> (plugin_db_error + unit) \<times> 'd pg_conn" where
  "run_each env schema [] c = (Inr (), c)"
| "run_each env schema (m # ms) c =
     (let version = sint (mig_version m) in
      case migrate_stmt env (IsApplied schema version) c of
        (Inl e, c1) \<Rightarrow> (Inl e, c1)
      | (Inr res, c1) \<Rightarrow>
          if sr_affected res = 1 then run_each env schema ms c1
          else
            case seq_conn (migrate_stmt env (SetPath (schema @ '',public,pg_temp''))) (\<lambda>_.
                 seq_conn (migrate_stmt env (RunSql (mig_sql m) [])) (\<lambda>_.
                 seq_conn (migrate_stmt env ResetPath) (\<lambda>_.
                 migrate_stmt env (RecordMigration schema version)))) c1 of
              (Inl e, c2) \<Rightarrow> (Inl e, c2)
            | (Inr _, c2) \<Rightarrow> run_each env schema ms c2)"

definition run_migrations where
  "run_migrations env schema ms =
     seq_conn (migrate_stmt env (CreateSchema schema)) (\<lambda>_. run_each env schema ms)"

definition migrate where
  "migrate env schema ms = in_transaction env MigrationError (run_migrations env schema ms)"

section \<open>What every statement leaves\<close>

text \<open>A connection as it lies in the pool.\<close>

definition idle :: "'d pg_conn \<Rightarrow> bool" where
  "idle c \<longleftrightarrow> cn_saved c = None \<and> \<not> cn_aborted c \<and> cn_session c = default_session"

text \<open>The plugin's own SQL leaves the settings alone, as the check means it to.\<close>

definition keeps_settings :: "'d plugin_env \<Rightarrow> bool" where
  "keeps_settings env \<longleftrightarrow>
     (\<forall>se sql ps d res se' d'. pe_sql env se sql ps d = Inr (res, se', d') \<longrightarrow> se' = se)"

definition expected_session :: "'d plugin_env \<Rightarrow> string \<Rightarrow> uuid option \<Rightarrow> session" where
  "expected_session env schema user =
     default_session\<lparr>se_path := Some (schema @ '',pg_temp''),
       se_local_role := map_option (\<lambda>_. ''af_api'') user,
       se_local_user := map_option (print_uuid (pe_printers env)) user\<rparr>"

text \<open>The state a statement runs in: inside a transaction for a user, outside one for none.\<close>

definition opened :: "uuid option \<Rightarrow> 'd pg_conn \<Rightarrow> bool" where
  "opened user c \<longleftrightarrow> \<not> cn_aborted c \<and> cn_session c = default_session
     \<and> (case user of None \<Rightarrow> cn_saved c = None | Some _ \<Rightarrow> \<exists>t. cn_saved c = Some (default_session, t))"

lemma run_stmt_ran:
  "(\<And>sql ps. st \<noteq> RunSql sql ps) \<Longrightarrow> cn_ran (snd (run_stmt env st c)) = cn_ran c"
  by (cases st) (auto simp: run_stmt_def Let_def split: option.split)

lemma run_stmt_saved: "cn_saved (snd (run_stmt env st c)) = cn_saved c"
  by (cases st) (auto simp: run_stmt_def Let_def split: option.split sum.split prod.split)

lemma rls_context_ok:
  assumes "set_rls_context env user c = (Inr u, c')" and "opened user c"
  shows "cn_session c' = (expected_session env schema user)\<lparr>se_path := None\<rparr>"
    and "\<not> cn_aborted c'" and "cn_saved c' = cn_saved c" and "cn_ran c' = cn_ran c" and "cn_tables c' = cn_tables c"
  using assms
  by (auto simp: set_rls_context_def opened_def expected_session_def seq_conn_def query_stmt_def map_error_def
      run_stmt_def Let_def default_session_def split: option.splits sum.splits prod.splits if_splits)

end
