(* ===== verification/PluginProps.thy ===== *)
theory PluginProps
  imports PluginDb
begin

text \<open>
  Properties of the database access of plugins: under which settings a plugin's SQL runs,
  what a call leaves behind, and what its migrations come to.
\<close>

section \<open>One statement\<close>










section \<open>One call\<close>






definition sample_printers :: value_printers where
  "sample_printers = \<lparr>print_uuid = (\<lambda>_. ''u''), to_rfc3339 = (\<lambda>_. []), print_date = (\<lambda>_. []),
     base64_encode = (\<lambda>b. b), print_json = (\<lambda>_. [])\<rparr>"

definition sample_plugin_env :: "(string \<Rightarrow> bool) \<Rightarrow> nat plugin_env" where
  "sample_plugin_env ok =
     \<lparr>pe_upper = (\<lambda>s. s), pe_printers = sample_printers,
      pe_sql = (\<lambda>se sql _ d. if ok sql then Inr (no_rows, se, d + 1) else Inl ''syntax error''),
      pe_fault = (\<lambda>_ _. None), pe_begin_fault = (\<lambda>_. None), pe_commit_fault = (\<lambda>_. None)\<rparr>"

definition pooled :: "nat pg_conn" where
  "pooled = \<lparr>cn_session = default_session,
     cn_tables = \<lparr>pg_data = 0, pg_schemas = [''re''], plugin_migrations = [(''re'', 1)]\<rparr>,
     cn_saved = None, cn_aborted = False, cn_count = 0, cn_ran = []\<rparr>"


lemma pooled_idle: "idle pooled"
  by (simp add: idle_def pooled_def)


text \<open>
  The error a plugin sees. Without a user a failing statement is reported with its own
  message. For a user the statement runs in a transaction, which the failure aborts; the
  search path is reset before the result is looked at, so the caller is told that the
  transaction is aborted, whatever was wrong with the statement.
\<close>

theorem plugin_error_masked:
  assumes "idle c" and "validate_sql (pe_upper env) sql = Inr ()"
    and "\<And>k st. pe_fault env k st = None" and "\<And>k. pe_begin_fault env k = None"
    and "pe_sql env (expected_session env schema user) sql
           (map (bind_param (print_json (pe_printers env))) params) (pg_data (cn_tables c)) = Inl e"
  shows "fst (query_json env schema sql params user c) = Inl (QueryError (if user = None then e else aborted_text))"
  using assms
  by (cases user)
     (auto simp: query_json_def validated_def in_transaction_def begin_tx_def scoped_query_def scoped_statement_def
        seq_conn_def set_rls_context_def query_stmt_def map_error_def run_stmt_def idle_def expected_session_def
        default_session_def Let_def)

theorem plugin_error_masked_witness:
  "fst (query_json (sample_plugin_env (\<lambda>_. False)) ''re'' ''SELEC 1'' [] (Some 3) pooled) = Inl (QueryError aborted_text)"
proof -
  let ?env = "sample_plugin_env (\<lambda>_. False)"
  have "validate_sql (pe_upper ?env) ''SELEC 1'' = Inr ()"
    unfolding sample_plugin_env_def by (simp only: plugin_env.simps) code_simp
  then show ?thesis
    using plugin_error_masked [OF pooled_idle, of ?env "''SELEC 1''" "''re''" "Some 3" "[]" "''syntax error''"]
    by (simp add: sample_plugin_env_def)
qed

section \<open>Migrations\<close>

definition mig_key :: "string \<Rightarrow> migration \<Rightarrow> string \<times> int" where
  "mig_key schema m = (schema, sint (mig_version m))"

text \<open>The migrations still to be run: those whose version is not recorded, each once.\<close>

fun pending :: "string \<Rightarrow> (string \<times> int) list \<Rightarrow> migration list \<Rightarrow> migration list" where
  "pending schema applied [] = []"
| "pending schema applied (m # ms) =
     (if mig_key schema m \<in> set applied then pending schema applied ms
      else m # pending schema (applied @ [mig_key schema m]) ms)"

lemma pending_applied: "set applied \<union> mig_key schema ` set (pending schema applied ms) = set applied \<union> mig_key schema ` set ms"
  by (induction schema applied ms rule: pending.induct) auto

lemma nothing_pending: "mig_key schema ` set ms \<subseteq> set applied \<Longrightarrow> pending schema applied ms = []"
  by (induction ms) auto

lemma migrate_stmt_ok:
  assumes "migrate_stmt env st c = (Inr res, c')"
  shows "\<not> cn_aborted c \<and> \<not> cn_aborted c' \<and> effect env st (c\<lparr>cn_count := cn_count c + 1\<rparr>) = (Inr res, c')"
  using assms
  by (cases st) (auto simp: migrate_stmt_def map_error_def run_stmt_def Let_def
      split: option.splits sum.splits prod.splits if_splits)

lemma one_migration:
  assumes "seq_conn (migrate_stmt env (SetPath (schema @ '',public,pg_temp''))) (\<lambda>_.
                 seq_conn (migrate_stmt env (RunSql (mig_sql m) [])) (\<lambda>_.
                 seq_conn (migrate_stmt env ResetPath) (\<lambda>_.
                 migrate_stmt env (RecordMigration schema v)))) c = (Inr u, c')"
  shows "plugin_migrations (cn_tables c') = plugin_migrations (cn_tables c) @ [(schema, v)]"
    and "map snd (cn_ran c') = mig_sql m # map snd (cn_ran c)"
    and "pg_schemas (cn_tables c') = pg_schemas (cn_tables c)" and "cn_saved c' = cn_saved c" and "\<not> cn_aborted c'"
proof -
  from assms obtain r1 c1 r2 c2 r3 c3 where
      1: "migrate_stmt env (SetPath (schema @ '',public,pg_temp'')) c = (Inr r1, c1)"
    and 2: "migrate_stmt env (RunSql (mig_sql m) []) c1 = (Inr r2, c2)"
    and 3: "migrate_stmt env ResetPath c2 = (Inr r3, c3)"
    and 4: "migrate_stmt env (RecordMigration schema v) c3 = (Inr u, c')"
    by (auto simp: seq_conn_def split: prod.splits sum.splits)
  note steps = migrate_stmt_ok [OF 1] migrate_stmt_ok [OF 2] migrate_stmt_ok [OF 3] migrate_stmt_ok [OF 4]
  show "plugin_migrations (cn_tables c') = plugin_migrations (cn_tables c) @ [(schema, v)]"
    and "map snd (cn_ran c') = mig_sql m # map snd (cn_ran c)"
    and "pg_schemas (cn_tables c') = pg_schemas (cn_tables c)" and "cn_saved c' = cn_saved c" and "\<not> cn_aborted c'"
    using steps by (auto simp: Let_def split: sum.splits prod.splits)
qed

lemma run_each_ok:
  assumes "run_each env schema ms c = (Inr u, c')"
  shows "plugin_migrations (cn_tables c') = plugin_migrations (cn_tables c)
            @ map (mig_key schema) (pending schema (plugin_migrations (cn_tables c)) ms)
      \<and> map snd (cn_ran c') = rev (map mig_sql (pending schema (plugin_migrations (cn_tables c)) ms)) @ map snd (cn_ran c)
      \<and> pg_schemas (cn_tables c') = pg_schemas (cn_tables c) \<and> cn_saved c' = cn_saved c
      \<and> (\<not> cn_aborted c \<longrightarrow> \<not> cn_aborted c')"
  using assms
proof (induction ms arbitrary: c)
  case (Cons m ms)
  let ?v = "sint (mig_version m)"
  from Cons.prems obtain res c1 where q: "migrate_stmt env (IsApplied schema ?v) c = (Inr res, c1)"
    by (auto simp: Let_def split: prod.splits sum.splits)
  from migrate_stmt_ok [OF q] have c1: "c1 = c\<lparr>cn_count := cn_count c + 1\<rparr>"
      "sr_affected res = 1 \<longleftrightarrow> mig_key schema m \<in> set (plugin_migrations (cn_tables c))"
    by (auto simp: mig_key_def no_rows_def split: if_splits)
  show ?case
  proof (cases "sr_affected res = 1")
    case True
    with Cons.prems q have "run_each env schema ms c1 = (Inr u, c')" by simp
    from Cons.IH [OF this] True c1 show ?thesis by simp
  next
    case False
    with Cons.prems q obtain x c2 where one: "seq_conn (migrate_stmt env (SetPath (schema @ '',public,pg_temp''))) (\<lambda>_.
                 seq_conn (migrate_stmt env (RunSql (mig_sql m) [])) (\<lambda>_.
                 seq_conn (migrate_stmt env ResetPath) (\<lambda>_.
                 migrate_stmt env (RecordMigration schema ?v)))) c1 = (Inr x, c2)"
        and rest: "run_each env schema ms c2 = (Inr u, c')"
      by (auto simp: Let_def split: prod.splits sum.splits)
    from Cons.IH [OF rest] one_migration [OF one] False c1 show ?thesis
      by (simp add: mig_key_def)
  qed
qed simp

lemma run_each_saved: "cn_saved (snd (run_each env schema ms c)) = cn_saved c"
proof (induction ms arbitrary: c)
  case (Cons m ms)
  have stmt: "migrate_stmt env st d = (x, d') \<Longrightarrow> cn_saved d' = cn_saved d" for st d x d'
    using run_stmt_saved [of env st d] by (auto simp: migrate_stmt_def map_error_def split: prod.splits sum.splits)
  show ?case
    by (auto simp: Let_def seq_conn_def Cons.IH dest!: stmt split: prod.splits sum.splits)
qed simp

lemma run_migrations_saved: "cn_saved (snd (run_migrations env schema ms c)) = cn_saved c"
proof -
  obtain r0 c0 where create: "migrate_stmt env (CreateSchema schema) c = (r0, c0)" by (metis surj_pair)
  then have "cn_saved c0 = cn_saved c"
    using run_stmt_saved [of env "CreateSchema schema" c] by (auto simp: migrate_stmt_def map_error_def split: prod.splits sum.splits)
  with create show ?thesis using run_each_saved [of env schema ms c0] by (cases r0) (simp_all add: run_migrations_def seq_conn_def)
qed

lemma run_migrations_ok:
  assumes "run_migrations env schema ms c = (Inr u, c')" and "todo = pending schema (plugin_migrations (cn_tables c)) ms"
  shows "\<not> cn_aborted c'" and "schema \<in> set (pg_schemas (cn_tables c'))"
    and "plugin_migrations (cn_tables c') = plugin_migrations (cn_tables c) @ map (mig_key schema) todo"
    and "map snd (cn_ran c') = rev (map mig_sql todo) @ map snd (cn_ran c)"
    and "pending schema (plugin_migrations (cn_tables c')) ms = []"
proof -
  from assms(1) obtain res c0 where create: "migrate_stmt env (CreateSchema schema) c = (Inr res, c0)"
      and each: "run_each env schema ms c0 = (Inr u, c')"
    by (auto simp: run_migrations_def seq_conn_def split: prod.splits sum.splits)
  from migrate_stmt_ok [OF create] have c0: "\<not> cn_aborted c0" "schema \<in> set (pg_schemas (cn_tables c0))"
      "plugin_migrations (cn_tables c0) = plugin_migrations (cn_tables c)" "cn_ran c0 = cn_ran c"
    by (auto split: if_splits)
  note all = run_each_ok [OF each, unfolded c0(3,4), folded assms(2)]
  show "\<not> cn_aborted c'" and "schema \<in> set (pg_schemas (cn_tables c'))"
    and recorded: "plugin_migrations (cn_tables c') = plugin_migrations (cn_tables c) @ map (mig_key schema) todo"
    and "map snd (cn_ran c') = rev (map mig_sql todo) @ map snd (cn_ran c)"
    using all c0(1,2) by simp_all
  show "pending schema (plugin_migrations (cn_tables c')) ms = []"
    using pending_applied [of "plugin_migrations (cn_tables c)" schema ms] unfolding recorded assms(2)
    by (intro nothing_pending) auto
qed

text \<open>
  C13. Migrations are all or nothing and run once. A failed migration run leaves the tables as
  they were; a successful one has created the schema, run the statements of exactly the
  versions not yet recorded, in the order given and each once, recorded them, and leaves
  nothing to do for a second run of the same list.
\<close>

theorem migrations_all_or_nothing:
  assumes "idle c" and "migrate env schema ms c = (r, c')"
    and "todo = pending schema (plugin_migrations (cn_tables c)) ms"
  shows "case r of
      Inl e \<Rightarrow> cn_tables c' = cn_tables c
    | Inr _ \<Rightarrow> schema \<in> set (pg_schemas (cn_tables c'))
        \<and> plugin_migrations (cn_tables c') = plugin_migrations (cn_tables c) @ map (mig_key schema) todo
        \<and> map snd (cn_ran c') = rev (map mig_sql todo) @ map snd (cn_ran c)
        \<and> pending schema (plugin_migrations (cn_tables c')) ms = []"
proof (cases "begin_tx env c")
  case (Pair b c1)
  show ?thesis
  proof (cases b)
    case (Inl e)
    with Pair assms(1,2) show ?thesis
      by (auto simp: migrate_def in_transaction_def begin_tx_def split: option.splits)
  next
    case (Inr u)
    with Pair assms(1) have c1: "cn_saved c1 = Some (default_session, cn_tables c)" "cn_tables c1 = cn_tables c"
        "cn_ran c1 = cn_ran c" by (auto simp: begin_tx_def idle_def split: option.splits)
    obtain r0 c2 where body: "run_migrations env schema ms c1 = (r0, c2)" by (metis surj_pair)
    then have saved: "cn_saved c2 = Some (default_session, cn_tables c)"
      using c1(1) run_migrations_saved [of env schema ms c1] by simp
    obtain b' c3 where commit: "commit_tx env c2 = (b', c3)" by (metis surj_pair)
    consider (body) e where "r0 = Inl e" | (commit) v e where "r0 = Inr v" "b' = Inl e" | (ok) v w where "r0 = Inr v" "b' = Inr w"
      by (cases r0; cases b') auto
    then show ?thesis
    proof cases
      case body
      with Pair Inr \<open>run_migrations env schema ms c1 = (r0, c2)\<close> saved assms(2) show ?thesis
        by (auto simp: migrate_def in_transaction_def rollback_tx_def)
    next
      case commit
      with Pair Inr body \<open>commit_tx env c2 = (b', c3)\<close> assms(2) have "r = Inl (MigrationError e)" "c' = c3"
        by (auto simp: migrate_def in_transaction_def)
      with commit \<open>commit_tx env c2 = (b', c3)\<close> saved show ?thesis
        by (auto simp: commit_tx_def rollback_tx_def split: option.splits)
    next
      case ok
      note all = run_migrations_ok [OF body [unfolded ok(1)], of todo] c1
      from Pair Inr body commit ok assms(2) have "r = Inr v" "c' = c3" by (auto simp: migrate_def in_transaction_def)
      moreover from commit ok all(1) assms(3) c1(2) have "cn_tables c3 = cn_tables c2" "cn_ran c3 = cn_ran c2"
        by (auto simp: commit_tx_def split: option.splits if_splits)
      ultimately show ?thesis using all assms(3) by simp
    qed
  qed
qed

definition two_migrations :: "migration list" where
  "two_migrations = [\<lparr>mig_version = 1, mig_name = ''iocs'', mig_sql = ''CREATE TABLE iocs''\<rparr>,
     \<lparr>mig_version = 2, mig_name = ''families'', mig_sql = ''CREATE TABLE families''\<rparr>]"

theorem migrations_all_or_nothing_witness:
  "plugin_migrations (cn_tables (snd (migrate (sample_plugin_env (\<lambda>_. True)) ''re'' two_migrations pooled))) = [(''re'', 1), (''re'', 2)]
   \<and> cn_tables (snd (migrate (sample_plugin_env (\<lambda>_. False)) ''re'' two_migrations pooled)) = cn_tables pooled"
proof -
  have todo: "map (mig_key ''re'') (pending ''re'' (plugin_migrations (cn_tables pooled)) two_migrations) = [(''re'', 2)]"
    by (simp add: pooled_def two_migrations_def mig_key_def)
  obtain r c' where good: "migrate (sample_plugin_env (\<lambda>_. True)) ''re'' two_migrations pooled = (r, c')" by (metis surj_pair)
  obtain r2 c2 where bad: "migrate (sample_plugin_env (\<lambda>_. False)) ''re'' two_migrations pooled = (r2, c2)" by (metis surj_pair)
  have runs: "fst (migrate (sample_plugin_env ok) ''re'' two_migrations pooled) = Inr () \<longleftrightarrow> ok ''CREATE TABLE families''" for ok
    by (simp add: migrate_def in_transaction_def begin_tx_def commit_tx_def run_migrations_def seq_conn_def
        migrate_stmt_def map_error_def run_stmt_def Let_def sample_plugin_env_def pooled_def two_migrations_def no_rows_def)
  have "r = Inr ()" "r2 \<noteq> Inr ()" using runs [of "\<lambda>_. True"] runs [of "\<lambda>_. False"] good bad by auto
  then obtain e where "r = Inr ()" "r2 = Inl e" by (cases r2) auto
  with migrations_all_or_nothing [OF pooled_idle good refl] migrations_all_or_nothing [OF pooled_idle bad refl]
  show ?thesis by (simp add: good bad todo) (simp add: pooled_def)
qed

end
