(* ===== verification/RetryQueue.thy ===== *)
theory RetryQueue
  imports Prelude
begin

text \<open>
  The contract the three work queues of the tick share (notifications, embeddings, URL
  ingestion): a row is claimed when it is pending, a failure counts an attempt and puts it
  back until its attempts are used up, a stale one is taken back the same way, and a failed
  one can be retried from the start. What follows from the contract is proved here once; each
  queue interprets the locales with its own table.
\<close>

datatype queue_status = QPending | QProcessing | QCompleted | QFailed | QCancelled

fun status_text :: "queue_status \<Rightarrow> string" where
  "status_text QPending = ''pending''"
| "status_text QProcessing = ''processing''"
| "status_text QCompleted = ''completed''"
| "status_text QFailed = ''failed''"
| "status_text QCancelled = ''cancelled''"

definition active :: "queue_status \<Rightarrow> bool" where
  "active s \<longleftrightarrow> s \<noteq> QFailed \<and> s \<noteq> QCancelled"

text \<open>What an event does to a row: an item enters, is claimed, is retried, or any other
  statement runs.\<close>

datatype queue_event = Entered uuid | Claimed uuid | Retried uuid | Other

text \<open>The view of a row: status, attempts made, attempts allowed.\<close>

type_synonym row_view = "queue_status \<times> int \<times> int"

fun quiet :: "row_view \<Rightarrow> row_view \<Rightarrow> bool" where
  "quiet (s, n, m) (s', n', m') \<longleftrightarrow>
     m' = m \<and> ((s' = s \<and> n' = n)
       \<or> (s = QProcessing \<and> s' = QCompleted \<and> n' = n)
       \<or> (s = QProcessing \<and> s' = QFailed)
       \<or> (s = QProcessing \<and> s' = QPending \<and> n' = n + 1 \<and> n' < m)
       \<or> (s = QPending \<and> s' = QCancelled \<and> n' = n))"

fun evolves :: "queue_event \<Rightarrow> uuid \<Rightarrow> row_view \<Rightarrow> row_view \<Rightarrow> bool" where
  "evolves (Claimed i) j (s, n, m) v \<longleftrightarrow> (if i = j then s = QPending \<and> v = (QProcessing, n, m) else v = (s, n, m))"
| "evolves (Retried i) j (s, n, m) v \<longleftrightarrow> (if i = j then s = QFailed \<and> v = (QPending, 0, m) else v = (s, n, m))"
| "evolves (Entered i) j w v \<longleftrightarrow> i \<noteq> j \<and> v = w"
| "evolves Other j w v \<longleftrightarrow> quiet w v"

definition update_where :: "('r \<Rightarrow> bool) \<Rightarrow> ('r \<Rightarrow> 'r) \<Rightarrow> 'r list \<Rightarrow> 'r list" where
  "update_where p f t = map (\<lambda>r. if p r then f r else r) t"

text \<open>An \<open>UPDATE\<close> that reports whether it changed a row.\<close>

definition update_any :: "('r \<Rightarrow> bool) \<Rightarrow> ('r \<Rightarrow> 'r) \<Rightarrow> 'r list \<Rightarrow> bool \<times> 'r list" where
  "update_any p f t = (\<exists>r \<in> set t. p r, update_where p f t)"

text \<open>The laws the queues' statements meet, whatever the table.\<close>

lemma same_key_row: "distinct (map g t) \<Longrightarrow> q \<in> set t \<Longrightarrow> r \<in> set t \<Longrightarrow> g q = g r \<Longrightarrow> q = r"
  by (auto simp: distinct_map inj_on_def)

lemma update_any_ids: "update_any p f t = (b, t') \<Longrightarrow> (\<And>r. g (f r) = g r) \<Longrightarrow> map g t' = map g t"
  by (auto simp: update_any_def update_where_def)

lemma update_any_row:
  assumes "update_any p f t = (b, t')" and "\<And>r. g (f r) = g r" and "distinct (map g t)"
    and "r \<in> set t" and "r' \<in> set t'" and "g r = g r'"
  shows "r' = (if p r then f r else r)"
proof -
  from assms(1,5) obtain q where q: "q \<in> set t" "r' = (if p q then f q else q)"
    by (auto simp: update_any_def update_where_def)
  then have "g r' = g q" using assms(2) by simp
  with same_key_row [OF assms(3,4) q(1)] assms(6) q(2) show ?thesis by simp
qed

lemma update_any_hit:
  assumes "update_any (\<lambda>r. g r = i \<and> p r) f t = (True, t')" and "distinct (map g t)" and "r \<in> set t" and "g r = i"
  shows "p r"
proof -
  from assms(1) obtain q where "q \<in> set t" "g q = i" "p q" by (auto simp: update_any_def)
  with same_key_row [OF assms(2) _ assms(3)] assms(4) show ?thesis by simp
qed

lemma quiet_refl: "quiet v v"
  by (cases v) simp

lemma other_evolves:
  assumes "update_any p f t = (b, t')" and "\<And>r. g (f r) = g r" and "distinct (map g t)"
    and "r \<in> set t" and "r' \<in> set t'" and "g r = g r'"
    and "\<And>r. p r \<Longrightarrow> quiet (view r) (view (f r))"
  shows "evolves Other (g r) (view r) (view r')"
  using update_any_row [OF assms(1-6)] assms(7) quiet_refl by simp

lemma missed_evolves:
  assumes "update_any p f t = (False, t')" and "\<And>r. g (f r) = g r" and "distinct (map g t)"
    and "r \<in> set t" and "r' \<in> set t'" and "g r = g r'"
  shows "evolves Other (g r) (view r) (view r')"
  using update_any_row [OF assms] assms(1,4) quiet_refl by (auto simp: update_any_def)

lemma hit_evolves:
  assumes "update_any (\<lambda>r. g r = i \<and> p r) f t = (True, t')" and "\<And>r. g (f r) = g r" and "distinct (map g t)"
    and "r \<in> set t" and "r' \<in> set t'" and "g r = g r'"
    and "\<And>r. p r \<Longrightarrow> evolves e i (view r) (view (f r))" and "\<And>j v. j \<noteq> i \<Longrightarrow> evolves e j v v"
  shows "evolves e (g r) (view r) (view r')"
  using update_any_row [OF assms(1-6)] update_any_hit [OF assms(1,3,4)] assms(7,8) by (cases "g r = i") auto

text \<open>The same for a statement that leaves the indexed columns of a row alone.\<close>

lemma update_any_content:
  assumes "update_any p f t = (b, t')" and "\<And>r. g (f r) = g r" and "distinct (map g t)"
    and "r \<in> set t" and "r' \<in> set t'" and "g r = g r'" and "\<And>r. h (f r) = h r"
  shows "h r' = h r"
  using update_any_row [OF assms(1-6)] assms(7) by simp

lemma other_keeps:
  assumes "update_any p f t = (b, t')" and "\<And>r. g (f r) = g r" and "distinct (map g t)"
    and "r \<in> set t" and "r' \<in> set t'" and "g r = g r'" and "\<And>r. h (f r) = h r"
    and "\<And>r. p r \<Longrightarrow> quiet (view r) (view (f r))"
  shows "evolves Other (g r) (view r) (view r') \<and> h r' = h r"
  using other_evolves [OF assms(1-6)] update_any_content [where h = h, OF assms(1-7)] assms(8) by blast

lemma missed_keeps:
  assumes "update_any p f t = (False, t')" and "\<And>r. g (f r) = g r" and "distinct (map g t)"
    and "r \<in> set t" and "r' \<in> set t'" and "g r = g r'" and "\<And>r. h (f r) = h r"
  shows "evolves Other (g r) (view r) (view r') \<and> h r' = h r"
  using missed_evolves [OF assms(1-6)] update_any_content [where h = h, OF assms] by blast

lemma hit_keeps:
  assumes "update_any (\<lambda>r. g r = i \<and> p r) f t = (True, t')" and "\<And>r. g (f r) = g r" and "distinct (map g t)"
    and "r \<in> set t" and "r' \<in> set t'" and "g r = g r'" and "\<And>r. h (f r) = h r"
    and "\<And>r. p r \<Longrightarrow> evolves e i (view r) (view (f r))" and "\<And>j v. j \<noteq> i \<Longrightarrow> evolves e j v v"
  shows "evolves e (g r) (view r) (view r') \<and> h r' = h r"
  using hit_evolves [OF assms(1-6)] update_any_content [where h = h, OF assms(1-7)] assms(8,9) by blast

lemma entered_evolves:
  assumes "distinct (map g t)" and "r \<in> set t" and "r' \<in> set (t @ [x])" and "g r = g r'" and "g x \<notin> g ` set t"
  shows "r' = r" and "evolves (Entered (g x)) (g r) (view r) (view r')"
proof -
  have ne: "g x \<noteq> g r" using assms(2,5) by auto
  with assms(3,4) have "r' \<in> set t" by auto
  with same_key_row [OF assms(1,2)] assms(4) show "r' = r" by simp
  with ne show "evolves (Entered (g x)) (g r) (view r) (view r')" by simp
qed

lemma kept_evolves:
  assumes "distinct (map g t)" and "r \<in> set t" and "r' \<in> set (filter p t)" and "g r = g r'"
  shows "r' = r" and "evolves Other (g r) (view r) (view r')"
  using same_key_row [OF assms(1,2), of r'] assms(3,4) quiet_refl by auto

lemma other_event: "j \<noteq> i \<Longrightarrow> evolves (Claimed i) j v v" "j \<noteq> i \<Longrightarrow> evolves (Retried i) j v v"
  by (cases v; simp)+

lemma same_ids: "map g t' = map g t \<Longrightarrow> r \<in> set t' \<Longrightarrow> g r \<in> g ` set t"
  by (metis image_eqI list.set_map)

locale retry_queue =
  fixes ident :: "'row \<Rightarrow> uuid" and view :: "'row \<Rightarrow> row_view"
    and step :: "'row list \<Rightarrow> queue_event \<Rightarrow> 'row list \<Rightarrow> bool"
  assumes evolution: "step t e t' \<Longrightarrow> distinct (map ident t) \<Longrightarrow> r \<in> set t \<Longrightarrow> r' \<in> set t' \<Longrightarrow> ident r = ident r' \<Longrightarrow>
      evolves e (ident r) (view r) (view r')"
    and entry: "step t e t' \<Longrightarrow> distinct (map ident t) \<Longrightarrow> r' \<in> set t' \<Longrightarrow> ident r' \<notin> ident ` set t \<Longrightarrow>
      \<exists>m. e = Entered (ident r') \<and> view r' = (QPending, 0, m) \<and> 0 < m"
    and idents: "step t e t' \<Longrightarrow> distinct (map ident t) \<Longrightarrow> distinct (map ident t')"
begin

text \<open>Runs, with the number of claims of each item since it entered or was last retried.\<close>

inductive reach :: "'row list \<Rightarrow> (uuid \<Rightarrow> nat) \<Rightarrow> bool" where
  start: "reach [] (\<lambda>_. 0)"
| claim: "reach t n \<Longrightarrow> step t (Claimed i) t' \<Longrightarrow> reach t' (n(i := n i + 1))"
| renew: "reach t n \<Longrightarrow> step t e t' \<Longrightarrow> e = Entered i \<or> e = Retried i \<Longrightarrow> reach t' (n(i := 0))"
| other: "reach t n \<Longrightarrow> step t Other t' \<Longrightarrow> reach t' n"

definition counted :: "nat \<Rightarrow> row_view \<Rightarrow> bool" where
  "counted k v \<longleftrightarrow> (case v of (s, n, m) \<Rightarrow> 0 < m \<and> int k \<le> m \<and>
     (case s of QPending \<Rightarrow> int k \<le> n \<and> n < m | QProcessing \<Rightarrow> int k \<le> n + 1 \<and> n < m | _ \<Rightarrow> True))"

lemma reach_idents: "reach t n \<Longrightarrow> distinct (map ident t)"
  by (induction rule: reach.induct) (auto intro: idents)

lemma reach_counted: "reach t n \<Longrightarrow> r \<in> set t \<Longrightarrow> counted (n (ident r)) (view r)"
proof (induction arbitrary: r rule: reach.induct)
  case (claim t n i t')
  obtain q where q: "q \<in> set t" "ident q = ident r"
    using entry [OF claim.hyps(2) reach_idents [OF claim.hyps(1)] claim.prems] by (cases "ident r \<in> ident ` set t") auto
  from evolution [OF claim.hyps(2) reach_idents [OF claim.hyps(1)] q(1) claim.prems q(2)] claim.IH [OF q(1)] q(2)
  show ?case by (cases "view q") (auto simp: counted_def split: if_splits)
next
  case (renew t n e t' i)
  show ?case
  proof (cases "ident r \<in> ident ` set t")
    case True
    then obtain q where q: "q \<in> set t" "ident q = ident r" by auto
    from evolution [OF renew.hyps(2) reach_idents [OF renew.hyps(1)] q(1) renew.prems q(2)] renew.IH [OF q(1)] q(2) renew.hyps(3)
    show ?thesis by (cases "view q") (auto simp: counted_def split: if_splits)
  next
    case False
    with entry [OF renew.hyps(2) reach_idents [OF renew.hyps(1)] renew.prems] renew.hyps(3) show ?thesis by (auto simp: counted_def)
  qed
next
  case (other t n t')
  obtain q where q: "q \<in> set t" "ident q = ident r"
    using entry [OF other.hyps(2) reach_idents [OF other.hyps(1)] other.prems] by (cases "ident r \<in> ident ` set t") auto
  from evolution [OF other.hyps(2) reach_idents [OF other.hyps(1)] q(1) other.prems q(2)] other.IH [OF q(1)] q(2)
  show ?case by (cases "view q"; cases "view r") (auto simp: counted_def)
qed simp

theorem claims_bounded: "reach t n \<Longrightarrow> r \<in> set t \<Longrightarrow> int (n (ident r)) \<le> snd (snd (view r))"
  using reach_counted by (fastforce simp: counted_def)

end

text \<open>Two of the queues have a partial unique index over the active rows.\<close>

locale unique_queue = retry_queue ident view step
  for ident :: "'row \<Rightarrow> uuid" and view and step +
  fixes content :: "'row \<Rightarrow> 'key"
  assumes content_kept: "step t e t' \<Longrightarrow> distinct (map ident t) \<Longrightarrow> r \<in> set t \<Longrightarrow> r' \<in> set t' \<Longrightarrow> ident r = ident r' \<Longrightarrow> content r' = content r"
    and renewed: "step t e t' \<Longrightarrow> distinct (map ident t) \<Longrightarrow> r' \<in> set t' \<Longrightarrow> e = Entered (ident r') \<or> e = Retried (ident r') \<Longrightarrow>
      q \<in> set t \<Longrightarrow> active (fst (view q)) \<Longrightarrow> content q \<noteq> content r'"
begin

lemma active_before:
  assumes "step t e t'" and "distinct (map ident t)" and "q \<in> set t" and "r \<in> set t'" and "ident q = ident r" and "active (fst (view r))"
  shows "active (fst (view q)) \<or> e = Retried (ident r)"
  using evolution [OF assms(1-5)] assms(5,6)
  by (cases e; cases "view q"; cases "view r") (auto simp: active_def split: if_splits)

lemma active_unique_step:
  assumes "step t e t'" and ids: "distinct (map ident t)"
    and IH: "\<And>r s. r \<in> set t \<Longrightarrow> s \<in> set t \<Longrightarrow> active (fst (view r)) \<Longrightarrow> active (fst (view s)) \<Longrightarrow>
        content r = content s \<Longrightarrow> ident r = ident s"
    and prems: "r \<in> set t'" "s \<in> set t'" "active (fst (view r))" "active (fst (view s))" "content r = content s"
  shows "ident r = ident s"
proof (rule ccontr)
  assume ne: "ident r \<noteq> ident s"
  have origin: "e = Entered (ident x) \<or> e = Retried (ident x)
      \<or> (\<exists>q \<in> set t. ident q = ident x \<and> active (fst (view q)) \<and> content q = content x)"
    if "x \<in> set t'" "active (fst (view x))" for x
  proof (cases "ident x \<in> ident ` set t")
    case True
    then obtain q where "q \<in> set t" "ident q = ident x" by auto
    with active_before [OF assms(1) ids _ that(1) _ that(2)] content_kept [OF assms(1) ids _ that(1)] show ?thesis by metis
  next
    case False
    with entry [OF assms(1) ids that(1)] show ?thesis by blast
  qed
  consider "e = Entered (ident r) \<or> e = Retried (ident r)" | "e = Entered (ident s) \<or> e = Retried (ident s)"
    | q p where "q \<in> set t" "ident q = ident r" "active (fst (view q))" "content q = content r"
        "p \<in> set t" "ident p = ident s" "active (fst (view p))" "content p = content s"
    using origin [OF prems(1,3)] origin [OF prems(2,4)] by metis
  then show False
  proof cases
    case 1
    then obtain p where "p \<in> set t" "active (fst (view p))" "content p = content s"
      using origin [OF prems(2,4)] ne by auto
    with renewed [OF assms(1) ids prems(1) 1] prems(5) show False by simp
  next
    case 2
    then obtain p where "p \<in> set t" "active (fst (view p))" "content p = content r"
      using origin [OF prems(1,3)] ne by auto
    with renewed [OF assms(1) ids prems(2) 2] prems(5) show False by simp
  next
    case 3
    with IH [of q p] prems(5) ne show False by simp
  qed
qed

lemma active_unique:
  "reach t n \<Longrightarrow> r \<in> set t \<Longrightarrow> s \<in> set t \<Longrightarrow> active (fst (view r)) \<Longrightarrow> active (fst (view s)) \<Longrightarrow>
     content r = content s \<Longrightarrow> ident r = ident s"
proof (induction arbitrary: r s rule: reach.induct)
  case start
  then show ?case by simp
next
  case (claim t n i t')
  show ?case by (rule active_unique_step [OF claim.hyps(2) reach_idents [OF claim.hyps(1)] claim.IH claim.prems])
next
  case (renew t n e t' i)
  show ?case by (rule active_unique_step [OF renew.hyps(2) reach_idents [OF renew.hyps(1)] renew.IH renew.prems])
next
  case (other t n t')
  show ?case by (rule active_unique_step [OF other.hyps(2) reach_idents [OF other.hyps(1)] other.IH other.prems])
qed

end

end
