(* ===== verification/Queues.thy ===== *)
theory Queues
  imports RetryQueue Json
begin

text \<open>
  The notification channels and the statements on their work queue,
  \<open>af-db/src/notifications.rs\<close>, with the defaults and constraints of the migration. Times are
  those of the statement.
\<close>

definition minutes :: "nat \<Rightarrow> nat" where "minutes n = n * 60000000"

definition stale_error :: "bool \<Rightarrow> string" where
  "stale_error exhausted =
     (if exhausted then ''permanently failed: exceeded max retries after stale recovery''
      else ''recovered from stale processing state'')"

definition newest_first :: "('r \<Rightarrow> instant) \<Rightarrow> nat \<Rightarrow> 'r list \<Rightarrow> 'r list" where
  "newest_first created limit rows = take limit (rev (sort_key created rows))"

section \<open>Notification channels\<close>

record channel =
  nc_id :: uuid
  nc_project :: uuid
  nc_name :: string
  nc_type :: string
  nc_config :: json
  nc_enabled :: bool
  nc_created :: instant
  nc_updated :: instant

record notification =
  nq_id :: uuid
  nq_project :: uuid
  nq_channel :: uuid
  nq_subject :: string
  nq_body :: string
  nq_attachment :: "uuid option"
  nq_status :: queue_status
  nq_error :: "string option"
  nq_attempts :: int
  nq_max :: int
  nq_submitted :: "uuid option"
  nq_created :: instant
  nq_updated :: instant
  nq_completed :: "instant option"

record notify_db =
  channels :: "channel list"
  notifications :: "notification list"

text \<open>\<open>UNIQUE(project_id, name)\<close> and the check on the type refuse an insert.\<close>

definition channel_types :: "string list" where
  "channel_types = [''webhook'', ''email'', ''matrix'', ''webdav'']"

definition create_channel ::
  "uuid \<Rightarrow> instant \<Rightarrow> uuid \<Rightarrow> string \<Rightarrow> string \<Rightarrow> json \<Rightarrow> notify_db \<Rightarrow> (string + channel) \<times> notify_db" where
  "create_channel fresh now proj name typ cfg db =
     (if typ \<notin> set channel_types then (Inl ''check constraint'', db)
      else if \<exists>c \<in> set (channels db). nc_project c = proj \<and> nc_name c = name then (Inl ''duplicate key'', db)
      else
        let c = \<lparr>nc_id = fresh, nc_project = proj, nc_name = name, nc_type = typ, nc_config = cfg,
                 nc_enabled = True, nc_created = now, nc_updated = now\<rparr>
        in (Inr c, db\<lparr>channels := channels db @ [c]\<rparr>))"

definition get_channel :: "uuid \<Rightarrow> notify_db \<Rightarrow> channel option" where
  "get_channel i db = List.find (\<lambda>c. nc_id c = i) (channels db)"

definition get_channel_by_name :: "uuid \<Rightarrow> string \<Rightarrow> notify_db \<Rightarrow> channel option" where
  "get_channel_by_name proj name db = List.find (\<lambda>c. nc_project c = proj \<and> nc_name c = name) (channels db)"

definition list_channels :: "(string \<Rightarrow> 'k::linorder) \<Rightarrow> uuid \<Rightarrow> notify_db \<Rightarrow> channel list" where
  "list_channels collate proj db = sort_key (collate \<circ> nc_name) (filter (\<lambda>c. nc_project c = proj) (channels db))"

definition update_channel :: "instant \<Rightarrow> uuid \<Rightarrow> json \<Rightarrow> bool \<Rightarrow> notify_db \<Rightarrow> bool \<times> notify_db" where
  "update_channel now i cfg on db =
     (case update_any (\<lambda>c. nc_id c = i) (\<lambda>c. c\<lparr>nc_config := cfg, nc_enabled := on, nc_updated := now\<rparr>) (channels db) of
        (b, cs) \<Rightarrow> (b, db\<lparr>channels := cs\<rparr>))"

definition update_channel_for_project :: "instant \<Rightarrow> uuid \<Rightarrow> uuid \<Rightarrow> json \<Rightarrow> bool \<Rightarrow> notify_db \<Rightarrow> bool \<times> notify_db" where
  "update_channel_for_project now i proj cfg on db =
     (case update_any (\<lambda>c. nc_id c = i \<and> nc_project c = proj)
             (\<lambda>c. c\<lparr>nc_config := cfg, nc_enabled := on, nc_updated := now\<rparr>) (channels db) of
        (b, cs) \<Rightarrow> (b, db\<lparr>channels := cs\<rparr>))"

text \<open>The queue's rows go with their channel.\<close>

definition delete_channels :: "(channel \<Rightarrow> bool) \<Rightarrow> notify_db \<Rightarrow> bool \<times> notify_db" where
  "delete_channels p db =
     (let gone = map nc_id (filter p (channels db))
      in (gone \<noteq> [], db\<lparr>channels := filter (\<lambda>c. \<not> p c) (channels db),
                         notifications := filter (\<lambda>r. nq_channel r \<notin> set gone) (notifications db)\<rparr>))"

definition delete_channel :: "uuid \<Rightarrow> notify_db \<Rightarrow> bool \<times> notify_db" where
  "delete_channel i = delete_channels (\<lambda>c. nc_id c = i)"

definition delete_channel_for_project :: "uuid \<Rightarrow> uuid \<Rightarrow> notify_db \<Rightarrow> bool \<times> notify_db" where
  "delete_channel_for_project i proj = delete_channels (\<lambda>c. nc_id c = i \<and> nc_project c = proj)"

section \<open>Notifications\<close>

text \<open>The reference to the channel is checked; those to the project and the artifact are too,
  which \<open>refs_ok\<close> stands for.\<close>

definition notif_enqueue ::
  "uuid \<Rightarrow> instant \<Rightarrow> bool \<Rightarrow> uuid \<Rightarrow> uuid \<Rightarrow> string \<Rightarrow> string \<Rightarrow> uuid option \<Rightarrow> uuid option \<Rightarrow> notify_db \<Rightarrow>
     (string + notification) \<times> notify_db" where
  "notif_enqueue fresh now refs_ok proj ch subj body att by_user db =
     (if \<not> refs_ok \<or> get_channel ch db = None then (Inl ''foreign key'', db)
      else
        let r = \<lparr>nq_id = fresh, nq_project = proj, nq_channel = ch, nq_subject = subj, nq_body = body,
                 nq_attachment = att, nq_status = QPending, nq_error = None, nq_attempts = 0, nq_max = 5,
                 nq_submitted = by_user, nq_created = now, nq_updated = now, nq_completed = None\<rparr>
        in (Inr r, db\<lparr>notifications := notifications db @ [r]\<rparr>))"

definition get_queue_item :: "uuid \<Rightarrow> notify_db \<Rightarrow> notification option" where
  "get_queue_item i db = List.find (\<lambda>r. nq_id r = i) (notifications db)"

definition notif_list_pending :: "nat \<Rightarrow> notify_db \<Rightarrow> notification list" where
  "notif_list_pending limit db =
     take limit (sort_key nq_created (filter (\<lambda>r. nq_status r = QPending) (notifications db)))"

definition on_queue :: "(notification list \<Rightarrow> bool \<times> notification list) \<Rightarrow> notify_db \<Rightarrow> bool \<times> notify_db" where
  "on_queue f db = (case f (notifications db) of (b, t) \<Rightarrow> (b, db\<lparr>notifications := t\<rparr>))"

definition claim_rows :: "instant \<Rightarrow> uuid \<Rightarrow> notification list \<Rightarrow> bool \<times> notification list" where
  "claim_rows now i = update_any (\<lambda>r. nq_id r = i \<and> nq_status r = QPending)
     (\<lambda>r. r\<lparr>nq_status := QProcessing, nq_updated := now\<rparr>)"

definition complete_rows :: "instant \<Rightarrow> uuid \<Rightarrow> notification list \<Rightarrow> bool \<times> notification list" where
  "complete_rows now i = update_any (\<lambda>r. nq_id r = i \<and> nq_status r = QProcessing)
     (\<lambda>r. r\<lparr>nq_status := QCompleted, nq_completed := Some now, nq_updated := now, nq_error := None\<rparr>)"

definition fail_rows :: "instant \<Rightarrow> uuid \<Rightarrow> string \<Rightarrow> notification list \<Rightarrow> bool \<times> notification list" where
  "fail_rows now i err = update_any (\<lambda>r. nq_id r = i \<and> nq_status r = QProcessing)
     (\<lambda>r. r\<lparr>nq_attempts := nq_attempts r + 1, nq_error := Some err,
             nq_status := (if nq_max r \<le> nq_attempts r + 1 then QFailed else QPending), nq_updated := now\<rparr>)"

definition fail_permanent_rows :: "instant \<Rightarrow> uuid \<Rightarrow> string \<Rightarrow> notification list \<Rightarrow> bool \<times> notification list" where
  "fail_permanent_rows now i err = update_any (\<lambda>r. nq_id r = i \<and> nq_status r = QProcessing)
     (\<lambda>r. r\<lparr>nq_status := QFailed, nq_error := Some err, nq_attempts := nq_max r, nq_updated := now\<rparr>)"

definition cancel_rows :: "instant \<Rightarrow> (notification \<Rightarrow> bool) \<Rightarrow> notification list \<Rightarrow> bool \<times> notification list" where
  "cancel_rows now p = update_any (\<lambda>r. p r \<and> nq_status r = QPending)
     (\<lambda>r. r\<lparr>nq_status := QCancelled, nq_updated := now\<rparr>)"

definition recover_rows :: "instant \<Rightarrow> nat \<Rightarrow> notification list \<Rightarrow> bool \<times> notification list" where
  "recover_rows now mins = update_any (\<lambda>r. nq_status r = QProcessing \<and> nq_updated r + minutes mins < now)
     (\<lambda>r. r\<lparr>nq_attempts := nq_attempts r + 1,
             nq_status := (if nq_max r \<le> nq_attempts r + 1 then QFailed else QPending),
             nq_error := Some (stale_error (nq_max r \<le> nq_attempts r + 1)), nq_updated := now\<rparr>)"

definition retry_rows :: "instant \<Rightarrow> (notification \<Rightarrow> bool) \<Rightarrow> notification list \<Rightarrow> bool \<times> notification list" where
  "retry_rows now p = update_any (\<lambda>r. p r \<and> nq_status r = QFailed)
     (\<lambda>r. r\<lparr>nq_status := QPending, nq_error := None, nq_attempts := 0, nq_updated := now\<rparr>)"

definition notif_claim where "notif_claim now i = on_queue (claim_rows now i)"
definition notif_complete where "notif_complete now i db = snd (on_queue (complete_rows now i) db)"
definition notif_fail where "notif_fail now i err db = snd (on_queue (fail_rows now i err) db)"
definition notif_fail_permanent where "notif_fail_permanent now i err db = snd (on_queue (fail_permanent_rows now i err) db)"
definition notif_cancel where "notif_cancel now i = on_queue (cancel_rows now (\<lambda>r. nq_id r = i))"
definition notif_cancel_for_project where
  "notif_cancel_for_project now i proj = on_queue (cancel_rows now (\<lambda>r. nq_id r = i \<and> nq_project r = proj))"
definition notif_retry where "notif_retry now i = on_queue (retry_rows now (\<lambda>r. nq_id r = i))"
definition notif_retry_for_project where
  "notif_retry_for_project now i proj = on_queue (retry_rows now (\<lambda>r. nq_id r = i \<and> nq_project r = proj))"

text \<open>\<open>recover_stale\<close> returns the rows it changed.\<close>

definition notif_recover_stale :: "instant \<Rightarrow> nat \<Rightarrow> notify_db \<Rightarrow> notification list \<times> notify_db" where
  "notif_recover_stale now mins db =
     (let db' = snd (on_queue (recover_rows now mins) db);
          hit = map nq_id (filter (\<lambda>r. nq_status r = QProcessing \<and> nq_updated r + minutes mins < now) (notifications db))
      in (filter (\<lambda>r. nq_id r \<in> set hit) (notifications db'), db'))"

definition notif_list_queue :: "uuid option \<Rightarrow> string option \<Rightarrow> nat \<Rightarrow> notify_db \<Rightarrow> notification list" where
  "notif_list_queue proj st limit db =
     newest_first nq_created limit
       (filter (\<lambda>r. (proj = None \<or> proj = Some (nq_project r)) \<and> (st = None \<or> st = Some (status_text (nq_status r))))
         (notifications db))"

text \<open>The events of the table. A statement on several rows is the statement on each of them.\<close>

inductive notif_step :: "notification list \<Rightarrow> queue_event \<Rightarrow> notification list \<Rightarrow> bool" where
  enter: "notif_enqueue i now ok proj ch subj body att u \<lparr>channels = cs, notifications = t\<rparr> = (Inr r, db) \<Longrightarrow>
    i \<notin> nq_id ` set t \<Longrightarrow> notif_step t (Entered i) (notifications db)"
| claim: "claim_rows now i t = (True, t') \<Longrightarrow> notif_step t (Claimed i) t'"
| claimed: "claim_rows now i t = (False, t') \<Longrightarrow> notif_step t Other t'"
| complete: "complete_rows now i t = (b, t') \<Longrightarrow> notif_step t Other t'"
| fail: "fail_rows now i err t = (b, t') \<Longrightarrow> notif_step t Other t'"
| fail_permanent: "fail_permanent_rows now i err t = (b, t') \<Longrightarrow> notif_step t Other t'"
| cancel: "cancel_rows now p t = (b, t') \<Longrightarrow> notif_step t Other t'"
| recover: "recover_rows now mins t = (b, t') \<Longrightarrow> notif_step t Other t'"
| retry: "retry_rows now (\<lambda>r. nq_id r = i \<and> p r) t = (True, t') \<Longrightarrow> notif_step t (Retried i) t'"
| not_retried: "retry_rows now p t = (False, t') \<Longrightarrow> notif_step t Other t'"
| drop: "t' = filter p t \<Longrightarrow> notif_step t Other t'"

definition notif_view :: "notification \<Rightarrow> row_view" where
  "notif_view r = (nq_status r, nq_attempts r, nq_max r)"

lemma notif_entered:
  assumes "notif_enqueue i now ok proj ch subj body att u \<lparr>channels = cs, notifications = t\<rparr> = (Inr x, db)"
  shows "notifications db = t @ [x]" and "nq_id x = i" and "notif_view x = (QPending, 0, 5)"
  using assms by (auto simp: notif_enqueue_def Let_def notif_view_def split: if_splits)

lemma notif_evolution:
  assumes "notif_step t e t'" and "distinct (map nq_id t)" and "r \<in> set t" and "r' \<in> set t'" and "nq_id r = nq_id r'"
  shows "evolves e (nq_id r) (notif_view r) (notif_view r')"
  using assms
proof (induction rule: notif_step.induct)
  case (enter i now ok proj ch subj body att u cs t x db)
  note new = notif_entered [OF enter(1)]
  from entered_evolves(2) [OF enter(3,4) enter(5) [unfolded new] enter(6), of notif_view] enter(2) new show ?case by simp
next
  case (claim now i t t')
  show ?case by (rule hit_evolves [OF claim(1) [unfolded claim_rows_def] _ claim(2-5)]) (simp_all add: notif_view_def other_event)
next
  case (claimed now i t t')
  show ?case by (rule missed_evolves [OF claimed(1) [unfolded claim_rows_def] _ claimed(2-5)]) simp
next
  case (complete now i t b t')
  show ?case by (rule other_evolves [OF complete(1) [unfolded complete_rows_def] _ complete(2-5)]) (simp_all add: notif_view_def)
next
  case (fail now i err t b t')
  show ?case by (rule other_evolves [OF fail(1) [unfolded fail_rows_def] _ fail(2-5)]) (simp_all add: notif_view_def)
next
  case (fail_permanent now i err t b t')
  show ?case by (rule other_evolves [OF fail_permanent(1) [unfolded fail_permanent_rows_def] _ fail_permanent(2-5)])
      (simp_all add: notif_view_def)
next
  case (cancel now p t b t')
  show ?case by (rule other_evolves [OF cancel(1) [unfolded cancel_rows_def] _ cancel(2-5)]) (simp_all add: notif_view_def)
next
  case (recover now mins t b t')
  show ?case by (rule other_evolves [OF recover(1) [unfolded recover_rows_def] _ recover(2-5)]) (simp_all add: notif_view_def)
next
  case (retry now i p t t')
  show ?case by (rule hit_evolves [OF retry(1) [unfolded retry_rows_def conj_assoc] _ retry(2-5)])
      (simp_all add: notif_view_def other_event)
next
  case (not_retried now p t t')
  show ?case by (rule missed_evolves [OF not_retried(1) [unfolded retry_rows_def] _ not_retried(2-5)]) simp
next
  case (drop t' p t)
  from kept_evolves(2) [OF drop(2,3) drop(4) [unfolded drop(1)] drop(5)] show ?case .
qed

lemmas row_statements =
  claim_rows_def complete_rows_def fail_rows_def fail_permanent_rows_def cancel_rows_def recover_rows_def retry_rows_def

lemma notif_keeps_ids:
  assumes "notif_step t e t'" and "distinct (map nq_id t)"
  shows "distinct (map nq_id t')" and "r' \<in> set t' \<Longrightarrow> nq_id r' \<notin> nq_id ` set t \<Longrightarrow>
    e = Entered (nq_id r') \<and> notif_view r' = (QPending, 0, 5)"
proof -
  have "distinct (map nq_id t') \<and> (r' \<in> set t' \<longrightarrow> nq_id r' \<notin> nq_id ` set t \<longrightarrow>
    e = Entered (nq_id r') \<and> notif_view r' = (QPending, 0, 5))"
    using assms
  proof (induction rule: notif_step.induct)
    case (enter i now ok proj ch subj body att u cs t x db)
    then show ?case using notif_entered [OF enter(1)] by auto
  next
    case (drop t' p t)
    then show ?case by (auto simp: distinct_map_filter)
  qed (unfold row_statements, (drule update_any_ids [where g = nq_id], simp, simp add: same_ids)+)
  then show "distinct (map nq_id t')" and "r' \<in> set t' \<Longrightarrow> nq_id r' \<notin> nq_id ` set t \<Longrightarrow>
    e = Entered (nq_id r') \<and> notif_view r' = (QPending, 0, 5)" by blast+
qed

interpretation notif: retry_queue nq_id notif_view notif_step
  by unfold_locales (auto dest: notif_evolution notif_keeps_ids)

end
