(* ===== verification/IngestQueues.thy ===== *)
theory IngestQueues
  imports Queues
begin

text \<open>
  The queues of the embedding and URL ingestion workers: \<open>af-db/src/embed_queue.rs\<close> and
  \<open>url_ingest.rs\<close>. Both have a unique index over the rows that are neither failed nor
  cancelled; an insert skips a row it would refuse.
\<close>

section \<open>Embeddings\<close>

record embed_item =
  eq_id :: uuid
  eq_project :: uuid
  eq_chunks :: uuid
  eq_source :: "uuid option"
  eq_tool :: string
  eq_status :: queue_status
  eq_count :: "int option"
  eq_embedded :: int
  eq_error :: "string option"
  eq_attempts :: int
  eq_max :: int
  eq_created :: instant
  eq_updated :: instant
  eq_completed :: "instant option"

text \<open>What the index is over.\<close>

definition eq_content :: "embed_item \<Rightarrow> uuid" where "eq_content r = eq_chunks r"

lemma eq_content_sel [simp]:
  "eq_content (eq_status_update f r) = eq_content r" "eq_content (eq_updated_update g r) = eq_content r"
  "eq_content (eq_attempts_update h r) = eq_content r" "eq_content (eq_error_update k r) = eq_content r"
  by (simp_all add: eq_content_def)

definition embed_enqueue ::
  "uuid \<Rightarrow> instant \<Rightarrow> uuid \<Rightarrow> uuid \<Rightarrow> uuid option \<Rightarrow> string \<Rightarrow> embed_item list \<Rightarrow> embed_item option \<times> embed_item list" where
  "embed_enqueue fresh now proj chunks source tool t =
     (if \<exists>r \<in> set t. active (eq_status r) \<and> eq_chunks r = chunks then (None, t)
      else
        let r = \<lparr>eq_id = fresh, eq_project = proj, eq_chunks = chunks, eq_source = source, eq_tool = tool,
                 eq_status = QPending, eq_count = None, eq_embedded = 0, eq_error = None, eq_attempts = 0,
                 eq_max = 5, eq_created = now, eq_updated = now, eq_completed = None\<rparr>
        in (Some r, t @ [r]))"

definition embed_view :: "embed_item \<Rightarrow> row_view" where
  "embed_view r = (eq_status r, eq_attempts r, eq_max r)"

definition embed_list_pending :: "nat \<Rightarrow> embed_item list \<Rightarrow> embed_item list" where
  "embed_list_pending limit t = take limit (sort_key eq_created (filter (\<lambda>r. eq_status r = QPending) t))"

definition embed_claim :: "instant \<Rightarrow> uuid \<Rightarrow> embed_item list \<Rightarrow> bool \<times> embed_item list" where
  "embed_claim now i = update_any (\<lambda>r. eq_id r = i \<and> eq_status r = QPending)
     (\<lambda>r. r\<lparr>eq_status := QProcessing, eq_updated := now\<rparr>)"

definition embed_update_progress :: "instant \<Rightarrow> uuid \<Rightarrow> int \<Rightarrow> int option \<Rightarrow> embed_item list \<Rightarrow> bool \<times> embed_item list" where
  "embed_update_progress now i n cnt = update_any (\<lambda>r. eq_id r = i)
     (\<lambda>r. r\<lparr>eq_embedded := n, eq_count := (case cnt of Some n \<Rightarrow> Some n | None \<Rightarrow> eq_count r), eq_updated := now\<rparr>)"

definition embed_complete :: "instant \<Rightarrow> uuid \<Rightarrow> embed_item list \<Rightarrow> bool \<times> embed_item list" where
  "embed_complete now i = update_any (\<lambda>r. eq_id r = i \<and> eq_status r = QProcessing)
     (\<lambda>r. r\<lparr>eq_status := QCompleted, eq_completed := Some now, eq_updated := now, eq_error := None\<rparr>)"

definition embed_fail :: "instant \<Rightarrow> uuid \<Rightarrow> string \<Rightarrow> embed_item list \<Rightarrow> bool \<times> embed_item list" where
  "embed_fail now i err = update_any (\<lambda>r. eq_id r = i \<and> eq_status r = QProcessing)
     (\<lambda>r. r\<lparr>eq_attempts := eq_attempts r + 1, eq_error := Some err,
             eq_status := (if eq_max r \<le> eq_attempts r + 1 then QFailed else QPending), eq_updated := now\<rparr>)"

definition embed_cancel_where :: "instant \<Rightarrow> (embed_item \<Rightarrow> bool) \<Rightarrow> embed_item list \<Rightarrow> bool \<times> embed_item list" where
  "embed_cancel_where now p = update_any (\<lambda>r. p r \<and> eq_status r = QPending)
     (\<lambda>r. r\<lparr>eq_status := QCancelled, eq_updated := now\<rparr>)"

definition embed_cancel where "embed_cancel now i = embed_cancel_where now (\<lambda>r. eq_id r = i)"

definition embed_recover :: "instant \<Rightarrow> nat \<Rightarrow> embed_item list \<Rightarrow> bool \<times> embed_item list" where
  "embed_recover now mins = update_any (\<lambda>r. eq_status r = QProcessing \<and> eq_updated r + minutes mins < now)
     (\<lambda>r. r\<lparr>eq_attempts := eq_attempts r + 1,
             eq_status := (if eq_max r \<le> eq_attempts r + 1 then QFailed else QPending),
             eq_error := Some (stale_error (eq_max r \<le> eq_attempts r + 1)), eq_updated := now\<rparr>)"

text \<open>The index refuses to make a row active again while another one holds its place; the
  statement then fails as a whole.\<close>

definition embed_retry_where :: "instant \<Rightarrow> uuid \<Rightarrow> (embed_item \<Rightarrow> bool) \<Rightarrow> embed_item list \<Rightarrow> (string + bool) \<times> embed_item list" where
  "embed_retry_where now i p t =
     (if \<exists>r \<in> set t. \<exists>s \<in> set t. eq_id r = i \<and> p r \<and> eq_status r = QFailed
           \<and> active (eq_status s) \<and> eq_content s = eq_content r
      then (Inl ''duplicate key'', t)
      else case update_any (\<lambda>r. eq_id r = i \<and> (p r \<and> eq_status r = QFailed))
             (\<lambda>r. r\<lparr>eq_status := QPending, eq_error := None, eq_attempts := 0, eq_updated := now\<rparr>) t of
        (b, t') \<Rightarrow> (Inr b, t'))"

definition embed_retry where "embed_retry now i = embed_retry_where now i (\<lambda>_. True)"

definition embed_list_queue :: "uuid option \<Rightarrow> string option \<Rightarrow> nat \<Rightarrow> embed_item list \<Rightarrow> embed_item list" where
  "embed_list_queue proj st limit t =
     newest_first eq_created limit
       (filter (\<lambda>r. (proj = None \<or> proj = Some (eq_project r)) \<and> (st = None \<or> st = Some (status_text (eq_status r)))) t)"

inductive embed_step :: "embed_item list \<Rightarrow> queue_event \<Rightarrow> embed_item list \<Rightarrow> bool" where
  enter: "embed_enqueue i now proj chunks source tool t = (Some x, t') \<Longrightarrow> i \<notin> eq_id ` set t \<Longrightarrow> embed_step t (Entered i) t'"
| claim: "embed_claim now i t = (True, t') \<Longrightarrow> embed_step t (Claimed i) t'"
| claimed: "embed_claim now i t = (False, t') \<Longrightarrow> embed_step t Other t'"
| complete: "embed_complete now i t = (b, t') \<Longrightarrow> embed_step t Other t'"
| fail: "embed_fail now i err t = (b, t') \<Longrightarrow> embed_step t Other t'"
| cancel: "embed_cancel_where now p t = (b, t') \<Longrightarrow> embed_step t Other t'"
| recover: "embed_recover now mins t = (b, t') \<Longrightarrow> embed_step t Other t'"
| retry: "embed_retry_where now i p t = (Inr True, t') \<Longrightarrow> embed_step t (Retried i) t'"
| not_retried: "embed_retry_where now i p t = (Inr False, t') \<Longrightarrow> embed_step t Other t'"
| progress: "embed_update_progress now i n cnt t = (b, t') \<Longrightarrow> embed_step t Other t'"
| drop: "t' = filter p t \<Longrightarrow> embed_step t Other t'"

lemma embed_entered:
  assumes "embed_enqueue i now proj chunks source tool t = (Some x, t')"
  shows "t' = t @ [x]" and "eq_id x = i" and "embed_view x = (QPending, 0, 5)"
    and "q \<in> set t \<Longrightarrow> active (eq_status q) \<Longrightarrow> eq_content q \<noteq> eq_content x"
  using assms by (auto simp: embed_enqueue_def Let_def embed_view_def eq_content_def split: if_splits)

lemma embed_retried:
  assumes "embed_retry_where now i p t = (Inr b, t')"
  shows "update_any (\<lambda>r. eq_id r = i \<and> (p r \<and> eq_status r = QFailed))
      (\<lambda>r. r\<lparr>eq_status := QPending, eq_error := None, eq_attempts := 0, eq_updated := now\<rparr>) t = (b, t')"
    and "r \<in> set t \<Longrightarrow> eq_id r = i \<Longrightarrow> p r \<Longrightarrow> eq_status r = QFailed \<Longrightarrow> s \<in> set t \<Longrightarrow> active (eq_status s) \<Longrightarrow>
           eq_content s \<noteq> eq_content r"
  using assms by (auto simp: embed_retry_where_def split: if_splits prod.splits)

lemma embed_evolution:
  assumes "embed_step t e t'" and "distinct (map eq_id t)" and "r \<in> set t" and "r' \<in> set t'" and "eq_id r = eq_id r'"
  shows "evolves e (eq_id r) (embed_view r) (embed_view r') \<and> eq_content r' = eq_content r"
  using assms
proof (induction rule: embed_step.induct)
  case (enter i now proj chunks source tool t x t')
  note new = embed_entered [OF enter(1)]
  from entered_evolves(1) [OF enter(3,4) enter(5) [unfolded new] enter(6)]
    entered_evolves(2) [OF enter(3,4) enter(5) [unfolded new] enter(6), of embed_view] enter(2) new show ?case by simp
next
  case (claim now i t t')
  show ?case by (rule hit_keeps [OF claim(1) [unfolded embed_claim_def] _ claim(2-5)])
    (simp_all add: embed_view_def eq_content_def other_event)
next
  case (claimed now i t t')
  show ?case by (rule missed_keeps [OF claimed(1) [unfolded embed_claim_def] _ claimed(2-5)])
    (simp_all add: embed_view_def eq_content_def other_event)
next
  case (complete now i t b t')
  show ?case by (rule other_keeps [OF complete(1) [unfolded embed_complete_def] _ complete(2-5)])
    (simp_all add: embed_view_def eq_content_def other_event)
next
  case (fail now i err t b t')
  show ?case by (rule other_keeps [OF fail(1) [unfolded embed_fail_def] _ fail(2-5)])
    (simp_all add: embed_view_def eq_content_def other_event)
next
  case (cancel now p t b t')
  show ?case by (rule other_keeps [OF cancel(1) [unfolded embed_cancel_where_def] _ cancel(2-5)])
    (simp_all add: embed_view_def eq_content_def other_event)
next
  case (recover now mins t b t')
  show ?case by (rule other_keeps [OF recover(1) [unfolded embed_recover_def] _ recover(2-5)])
    (simp_all add: embed_view_def eq_content_def other_event)
next
  case (progress now i n cnt t b t')
  show ?case by (rule other_keeps [OF progress(1) [unfolded embed_update_progress_def] _ progress(2-5)])
    (simp_all add: embed_view_def eq_content_def other_event)
next
  case (retry now i p t t')
  note upd = embed_retried(1) [OF retry(1)]
  show ?case by (rule hit_keeps [OF upd _ retry(2-5)])
    (simp_all add: embed_view_def eq_content_def other_event)
next
  case (not_retried now i p t t')
  note upd = embed_retried(1) [OF not_retried(1)]
  show ?case by (rule missed_keeps [OF upd _ not_retried(2-5)])
    (simp_all add: embed_view_def eq_content_def other_event)
next
  case (drop t' p t)
  from kept_evolves(1) [OF drop(2,3) drop(4) [unfolded drop(1)] drop(5)]
    kept_evolves(2) [OF drop(2,3) drop(4) [unfolded drop(1)] drop(5), of embed_view] show ?case by simp
qed

lemma embed_keeps_ids:
  assumes "embed_step t e t'" and "distinct (map eq_id t)"
  shows "distinct (map eq_id t')" and "r' \<in> set t' \<Longrightarrow> eq_id r' \<notin> eq_id ` set t \<Longrightarrow>
    e = Entered (eq_id r') \<and> embed_view r' = (QPending, 0, 5)"
proof -
  have "distinct (map eq_id t') \<and> (r' \<in> set t' \<longrightarrow> eq_id r' \<notin> eq_id ` set t \<longrightarrow>
    e = Entered (eq_id r') \<and> embed_view r' = (QPending, 0, 5))"
    using assms
  proof (induction rule: embed_step.induct)
    case (enter i now proj chunks source tool t x t')
    then show ?case using embed_entered [OF enter(1)] by auto
  next
    case (retry now i p t t')
    from update_any_ids [where g = eq_id, OF embed_retried(1) [OF retry(1)]] retry(2) show ?case by (simp add: same_ids)
  next
    case (not_retried now i p t t')
    from update_any_ids [where g = eq_id, OF embed_retried(1) [OF not_retried(1)]] not_retried(2) show ?case by (simp add: same_ids)
  next
    case (drop t' p t)
    then show ?case by (auto simp: distinct_map_filter)
  qed (unfold embed_claim_def embed_complete_def embed_fail_def embed_cancel_where_def embed_recover_def embed_update_progress_def,
       (drule update_any_ids [where g = eq_id], simp, simp add: same_ids)+)
  then show "distinct (map eq_id t')" and "r' \<in> set t' \<Longrightarrow> eq_id r' \<notin> eq_id ` set t \<Longrightarrow>
    e = Entered (eq_id r') \<and> embed_view r' = (QPending, 0, 5)" by blast+
qed

lemma embed_renewed:
  assumes "embed_step t e t'" and "r' \<in> set t'" and "e = Entered (eq_id r') \<or> e = Retried (eq_id r')"
    and "q \<in> set t" and "active (eq_status q)" and "distinct (map eq_id t)"
  shows "eq_content q \<noteq> eq_content r'"
  using assms
proof (induction rule: embed_step.induct)
  case (enter i now proj chunks source tool t x t')
  note new = embed_entered [OF enter(1)]
  have "r' = x" using enter(2,3,4) new by auto
  with new(4) enter(5,6) show ?case by simp
next
  case (retry now i p t t')
  have i: "eq_id r' = i" using retry(3) by simp
  from update_any_ids [where g = eq_id, OF embed_retried(1) [OF retry(1)]] retry(2)
  obtain r where r: "r \<in> set t" "eq_id r = eq_id r'" using same_ids [of eq_id t' t r'] by auto
  have "p r \<and> eq_status r = QFailed"
    using update_any_hit [OF embed_retried(1) [OF retry(1)] retry(6) r(1)] r(2) i by simp
  moreover have "eq_content r' = eq_content r"
    using embed_evolution [OF embed_step.retry [OF retry(1)] retry(6) r(1) retry(2) r(2)] by simp
  ultimately show ?case using embed_retried(2) [OF retry(1) r(1) _ _ _ retry(4,5)] r(2) i by simp
qed auto

interpretation embed: unique_queue eq_id embed_view embed_step eq_content
  proof unfold_locales
  show "eq_content q \<noteq> eq_content r'"
    if "embed_step t e t'" "distinct (map eq_id t)" "r' \<in> set t'" "e = Entered (eq_id r') \<or> e = Retried (eq_id r')"
      "q \<in> set t" "active (fst (embed_view q))" for t e t' r' q
    using embed_renewed [OF that(1,3,4,5) _ that(2)] that(6) by (simp add: embed_view_def)
qed (auto dest: embed_evolution embed_keeps_ids)

section \<open>URLs\<close>

record url_item =
  uq_id :: uuid
  uq_project :: uuid
  uq_url :: string
  uq_status :: queue_status
  uq_title :: "string option"
  uq_length :: "int option"
  uq_text :: "uuid option"
  uq_chunks :: "uuid option"
  uq_count :: "int option"
  uq_error :: "string option"
  uq_attempts :: int
  uq_max :: int
  uq_submitted :: "uuid option"
  uq_created :: instant
  uq_updated :: instant
  uq_completed :: "instant option"

definition uq_content :: "url_item \<Rightarrow> uuid \<times> string" where "uq_content r = (uq_project r, uq_url r)"

lemma uq_content_sel [simp]:
  "uq_content (uq_status_update f r) = uq_content r" "uq_content (uq_updated_update g r) = uq_content r"
  "uq_content (uq_attempts_update h r) = uq_content r" "uq_content (uq_error_update k r) = uq_content r"
  by (simp_all add: uq_content_def)

text \<open>One row of the insert; the statement inserts the URLs one after the other.\<close>

definition enqueue_url :: "uuid \<Rightarrow> instant \<Rightarrow> uuid \<Rightarrow> uuid option \<Rightarrow> string \<Rightarrow> url_item list \<Rightarrow> url_item option \<times> url_item list" where
  "enqueue_url fresh now proj by_user url t =
     (if \<exists>r \<in> set t. active (uq_status r) \<and> uq_project r = proj \<and> uq_url r = url then (None, t)
      else
        let r = \<lparr>uq_id = fresh, uq_project = proj, uq_url = url, uq_status = QPending, uq_title = None,
                 uq_length = None, uq_text = None, uq_chunks = None, uq_count = None, uq_error = None,
                 uq_attempts = 0, uq_max = 5, uq_submitted = by_user, uq_created = now, uq_updated = now,
                 uq_completed = None\<rparr>
        in (Some r, t @ [r]))"

definition enqueue_urls ::
  "(string \<Rightarrow> uuid) \<Rightarrow> instant \<Rightarrow> uuid \<Rightarrow> string list \<Rightarrow> uuid option \<Rightarrow> url_item list \<Rightarrow> url_item list \<times> url_item list" where
  "enqueue_urls fresh now proj urls by_user t =
     fold (\<lambda>url (rows, t). case enqueue_url (fresh url) now proj by_user url t of
             (Some r, t') \<Rightarrow> (rows @ [r], t') | (None, t') \<Rightarrow> (rows, t')) urls ([], t)"

definition url_view :: "url_item \<Rightarrow> row_view" where
  "url_view r = (uq_status r, uq_attempts r, uq_max r)"

definition url_list_pending :: "nat \<Rightarrow> url_item list \<Rightarrow> url_item list" where
  "url_list_pending limit t = take limit (sort_key uq_created (filter (\<lambda>r. uq_status r = QPending) t))"

definition url_claim :: "instant \<Rightarrow> uuid \<Rightarrow> url_item list \<Rightarrow> bool \<times> url_item list" where
  "url_claim now i = update_any (\<lambda>r. uq_id r = i \<and> uq_status r = QPending)
     (\<lambda>r. r\<lparr>uq_status := QProcessing, uq_updated := now\<rparr>)"

definition url_complete ::
  "instant \<Rightarrow> uuid \<Rightarrow> string option \<Rightarrow> int \<Rightarrow> uuid \<Rightarrow> uuid \<Rightarrow> int \<Rightarrow> url_item list \<Rightarrow> bool \<times> url_item list" where
  "url_complete now i title len art chunks n = update_any (\<lambda>r. uq_id r = i \<and> uq_status r = QProcessing)
     (\<lambda>r. r\<lparr>uq_status := QCompleted, uq_title := title, uq_length := Some len, uq_text := Some art,
             uq_chunks := Some chunks, uq_count := Some n, uq_error := None, uq_completed := Some now, uq_updated := now\<rparr>)"

definition url_fail :: "instant \<Rightarrow> uuid \<Rightarrow> string \<Rightarrow> url_item list \<Rightarrow> bool \<times> url_item list" where
  "url_fail now i err = update_any (\<lambda>r. uq_id r = i \<and> uq_status r = QProcessing)
     (\<lambda>r. r\<lparr>uq_attempts := uq_attempts r + 1, uq_error := Some err,
             uq_status := (if uq_max r \<le> uq_attempts r + 1 then QFailed else QPending), uq_updated := now\<rparr>)"

definition url_cancel_where :: "instant \<Rightarrow> (url_item \<Rightarrow> bool) \<Rightarrow> url_item list \<Rightarrow> bool \<times> url_item list" where
  "url_cancel_where now p = update_any (\<lambda>r. p r \<and> uq_status r = QPending)
     (\<lambda>r. r\<lparr>uq_status := QCancelled, uq_updated := now\<rparr>)"

definition url_cancel where "url_cancel now i = url_cancel_where now (\<lambda>r. uq_id r = i)"

definition url_recover :: "instant \<Rightarrow> nat \<Rightarrow> url_item list \<Rightarrow> bool \<times> url_item list" where
  "url_recover now mins = update_any (\<lambda>r. uq_status r = QProcessing \<and> uq_updated r + minutes mins < now)
     (\<lambda>r. r\<lparr>uq_attempts := uq_attempts r + 1,
             uq_status := (if uq_max r \<le> uq_attempts r + 1 then QFailed else QPending),
             uq_error := Some (stale_error (uq_max r \<le> uq_attempts r + 1)), uq_updated := now\<rparr>)"

text \<open>The index refuses to make a row active again while another one holds its place; the
  statement then fails as a whole.\<close>

definition url_retry_where :: "instant \<Rightarrow> uuid \<Rightarrow> (url_item \<Rightarrow> bool) \<Rightarrow> url_item list \<Rightarrow> (string + bool) \<times> url_item list" where
  "url_retry_where now i p t =
     (if \<exists>r \<in> set t. \<exists>s \<in> set t. uq_id r = i \<and> p r \<and> uq_status r = QFailed
           \<and> active (uq_status s) \<and> uq_content s = uq_content r
      then (Inl ''duplicate key'', t)
      else case update_any (\<lambda>r. uq_id r = i \<and> (p r \<and> uq_status r = QFailed))
             (\<lambda>r. r\<lparr>uq_status := QPending, uq_error := None, uq_attempts := 0, uq_updated := now\<rparr>) t of
        (b, t') \<Rightarrow> (Inr b, t'))"

definition url_retry where "url_retry now i = url_retry_where now i (\<lambda>_. True)"

definition url_list_queue :: "uuid option \<Rightarrow> string option \<Rightarrow> nat \<Rightarrow> url_item list \<Rightarrow> url_item list" where
  "url_list_queue proj st limit t =
     newest_first uq_created limit
       (filter (\<lambda>r. (proj = None \<or> proj = Some (uq_project r)) \<and> (st = None \<or> st = Some (status_text (uq_status r)))) t)"

inductive url_step :: "url_item list \<Rightarrow> queue_event \<Rightarrow> url_item list \<Rightarrow> bool" where
  enter: "enqueue_url i now proj u addr t = (Some x, t') \<Longrightarrow> i \<notin> uq_id ` set t \<Longrightarrow> url_step t (Entered i) t'"
| claim: "url_claim now i t = (True, t') \<Longrightarrow> url_step t (Claimed i) t'"
| claimed: "url_claim now i t = (False, t') \<Longrightarrow> url_step t Other t'"
| complete: "url_complete now i title len art chunks n t = (b, t') \<Longrightarrow> url_step t Other t'"
| fail: "url_fail now i err t = (b, t') \<Longrightarrow> url_step t Other t'"
| cancel: "url_cancel_where now p t = (b, t') \<Longrightarrow> url_step t Other t'"
| recover: "url_recover now mins t = (b, t') \<Longrightarrow> url_step t Other t'"
| retry: "url_retry_where now i p t = (Inr True, t') \<Longrightarrow> url_step t (Retried i) t'"
| not_retried: "url_retry_where now i p t = (Inr False, t') \<Longrightarrow> url_step t Other t'"
| drop: "t' = filter p t \<Longrightarrow> url_step t Other t'"

lemma url_entered:
  assumes "enqueue_url i now proj u addr t = (Some x, t')"
  shows "t' = t @ [x]" and "uq_id x = i" and "url_view x = (QPending, 0, 5)"
    and "q \<in> set t \<Longrightarrow> active (uq_status q) \<Longrightarrow> uq_content q \<noteq> uq_content x"
  using assms by (auto simp: enqueue_url_def Let_def url_view_def uq_content_def split: if_splits)

lemma url_retried:
  assumes "url_retry_where now i p t = (Inr b, t')"
  shows "update_any (\<lambda>r. uq_id r = i \<and> (p r \<and> uq_status r = QFailed))
      (\<lambda>r. r\<lparr>uq_status := QPending, uq_error := None, uq_attempts := 0, uq_updated := now\<rparr>) t = (b, t')"
    and "r \<in> set t \<Longrightarrow> uq_id r = i \<Longrightarrow> p r \<Longrightarrow> uq_status r = QFailed \<Longrightarrow> s \<in> set t \<Longrightarrow> active (uq_status s) \<Longrightarrow>
           uq_content s \<noteq> uq_content r"
  using assms by (auto simp: url_retry_where_def split: if_splits prod.splits)

lemma url_evolution:
  assumes "url_step t e t'" and "distinct (map uq_id t)" and "r \<in> set t" and "r' \<in> set t'" and "uq_id r = uq_id r'"
  shows "evolves e (uq_id r) (url_view r) (url_view r') \<and> uq_content r' = uq_content r"
  using assms
proof (induction rule: url_step.induct)
  case (enter i now proj u addr t x t')
  note new = url_entered [OF enter(1)]
  from entered_evolves(1) [OF enter(3,4) enter(5) [unfolded new] enter(6)]
    entered_evolves(2) [OF enter(3,4) enter(5) [unfolded new] enter(6), of url_view] enter(2) new show ?case by simp
next
  case (claim now i t t')
  show ?case by (rule hit_keeps [OF claim(1) [unfolded url_claim_def] _ claim(2-5)])
    (simp_all add: url_view_def uq_content_def other_event)
next
  case (claimed now i t t')
  show ?case by (rule missed_keeps [OF claimed(1) [unfolded url_claim_def] _ claimed(2-5)])
    (simp_all add: url_view_def uq_content_def other_event)
next
  case (complete now i title len art chunks n t b t')
  show ?case by (rule other_keeps [OF complete(1) [unfolded url_complete_def] _ complete(2-5)])
    (simp_all add: url_view_def uq_content_def other_event)
next
  case (fail now i err t b t')
  show ?case by (rule other_keeps [OF fail(1) [unfolded url_fail_def] _ fail(2-5)])
    (simp_all add: url_view_def uq_content_def other_event)
next
  case (cancel now p t b t')
  show ?case by (rule other_keeps [OF cancel(1) [unfolded url_cancel_where_def] _ cancel(2-5)])
    (simp_all add: url_view_def uq_content_def other_event)
next
  case (recover now mins t b t')
  show ?case by (rule other_keeps [OF recover(1) [unfolded url_recover_def] _ recover(2-5)])
    (simp_all add: url_view_def uq_content_def other_event)
next
  case (retry now i p t t')
  note upd = url_retried(1) [OF retry(1)]
  show ?case by (rule hit_keeps [OF upd _ retry(2-5)])
    (simp_all add: url_view_def uq_content_def other_event)
next
  case (not_retried now i p t t')
  note upd = url_retried(1) [OF not_retried(1)]
  show ?case by (rule missed_keeps [OF upd _ not_retried(2-5)])
    (simp_all add: url_view_def uq_content_def other_event)
next
  case (drop t' p t)
  from kept_evolves(1) [OF drop(2,3) drop(4) [unfolded drop(1)] drop(5)]
    kept_evolves(2) [OF drop(2,3) drop(4) [unfolded drop(1)] drop(5), of url_view] show ?case by simp
qed

lemma url_keeps_ids:
  assumes "url_step t e t'" and "distinct (map uq_id t)"
  shows "distinct (map uq_id t')" and "r' \<in> set t' \<Longrightarrow> uq_id r' \<notin> uq_id ` set t \<Longrightarrow>
    e = Entered (uq_id r') \<and> url_view r' = (QPending, 0, 5)"
proof -
  have "distinct (map uq_id t') \<and> (r' \<in> set t' \<longrightarrow> uq_id r' \<notin> uq_id ` set t \<longrightarrow>
    e = Entered (uq_id r') \<and> url_view r' = (QPending, 0, 5))"
    using assms
  proof (induction rule: url_step.induct)
    case (enter i now proj u addr t x t')
    then show ?case using url_entered [OF enter(1)] by auto
  next
    case (retry now i p t t')
    from update_any_ids [where g = uq_id, OF url_retried(1) [OF retry(1)]] retry(2) show ?case by (simp add: same_ids)
  next
    case (not_retried now i p t t')
    from update_any_ids [where g = uq_id, OF url_retried(1) [OF not_retried(1)]] not_retried(2) show ?case by (simp add: same_ids)
  next
    case (drop t' p t)
    then show ?case by (auto simp: distinct_map_filter)
  qed (unfold url_claim_def url_complete_def url_fail_def url_cancel_where_def url_recover_def,
       (drule update_any_ids [where g = uq_id], simp, simp add: same_ids)+)
  then show "distinct (map uq_id t')" and "r' \<in> set t' \<Longrightarrow> uq_id r' \<notin> uq_id ` set t \<Longrightarrow>
    e = Entered (uq_id r') \<and> url_view r' = (QPending, 0, 5)" by blast+
qed

lemma url_renewed:
  assumes "url_step t e t'" and "r' \<in> set t'" and "e = Entered (uq_id r') \<or> e = Retried (uq_id r')"
    and "q \<in> set t" and "active (uq_status q)" and "distinct (map uq_id t)"
  shows "uq_content q \<noteq> uq_content r'"
  using assms
proof (induction rule: url_step.induct)
  case (enter i now proj u addr t x t')
  note new = url_entered [OF enter(1)]
  have "r' = x" using enter(2,3,4) new by auto
  with new(4) enter(5,6) show ?case by simp
next
  case (retry now i p t t')
  have i: "uq_id r' = i" using retry(3) by simp
  from update_any_ids [where g = uq_id, OF url_retried(1) [OF retry(1)]] retry(2)
  obtain r where r: "r \<in> set t" "uq_id r = uq_id r'" using same_ids [of uq_id t' t r'] by auto
  have "p r \<and> uq_status r = QFailed"
    using update_any_hit [OF url_retried(1) [OF retry(1)] retry(6) r(1)] r(2) i by simp
  moreover have "uq_content r' = uq_content r"
    using url_evolution [OF url_step.retry [OF retry(1)] retry(6) r(1) retry(2) r(2)] by simp
  ultimately show ?case using url_retried(2) [OF retry(1) r(1) _ _ _ retry(4,5)] r(2) i by simp
qed auto

interpretation url: unique_queue uq_id url_view url_step uq_content
  proof unfold_locales
  show "uq_content q \<noteq> uq_content r'"
    if "url_step t e t'" "distinct (map uq_id t)" "r' \<in> set t'" "e = Entered (uq_id r') \<or> e = Retried (uq_id r')"
      "q \<in> set t" "active (fst (url_view q))" for t e t' r' q
    using url_renewed [OF that(1,3,4,5) _ that(2)] that(6) by (simp add: url_view_def)
qed (auto dest: url_evolution url_keeps_ids)

definition url_cancel_for_project where
  "url_cancel_for_project now i proj = url_cancel_where now (\<lambda>r. uq_id r = i \<and> uq_project r = proj)"

definition url_retry_for_project where
  "url_retry_for_project now i proj = url_retry_where now i (\<lambda>r. uq_project r = proj)"

end
