(* ===== verification/Utf8.thy ===== *)
theory Utf8
  imports Prelude
begin

text \<open>
  Characters of UTF-8 text, as far as the code looks at them: the bytes that continue a
  character, the positions at which a string may be cut, and the characters in turn.
\<close>

definition continuation :: "char \<Rightarrow> bool" where
  "continuation c \<longleftrightarrow> 128 \<le> (of_char c :: nat) \<and> (of_char c :: nat) < 192"

definition is_char_boundary :: "string \<Rightarrow> nat \<Rightarrow> bool" where
  "is_char_boundary str pos \<longleftrightarrow>
     pos = 0 \<or> pos = length str \<or> (pos < length str \<and> \<not> continuation (str ! pos))"

function to_chars :: "string \<Rightarrow> string list" where
  "to_chars [] = []"
| "to_chars (c # cs) = (c # takeWhile continuation cs) # to_chars (dropWhile continuation cs)"
  by pat_completeness auto
termination by (relation "measure length") (auto simp: le_imp_less_Suc length_dropWhile_le)

text \<open>\<open>chars().take(n)\<close>, and a map over characters.\<close>

definition take_chars :: "nat \<Rightarrow> string \<Rightarrow> string" where
  "take_chars n s = concat (take n (to_chars s))"

definition map_chars :: "(string \<Rightarrow> string) \<Rightarrow> string \<Rightarrow> string" where
  "map_chars f s = concat (map f (to_chars s))"

lemma to_chars_concat [simp]: "concat (to_chars s) = s"
  by (induction s rule: to_chars.induct) simp_all

lemma to_chars_ne: "c \<in> set (to_chars s) \<Longrightarrow> c \<noteq> []"
  by (induction s rule: to_chars.induct) auto

end
