(* ===== verification/Chunking.thy ===== *)
theory Chunking
  imports Utf8
begin

text \<open>
  \<open>af-builtin-tools/src/chunking.rs\<close>, and its copy in \<open>af-re-tools/src/doc_chunk.rs\<close>: a text
  cut into overlapping pieces for embedding. Texts are UTF-8; a position inside a character
  is one before a continuation byte.
\<close>

definition MAX_CHUNKS :: nat where "MAX_CHUNKS = 10000"

record chunk =
  ch_index :: nat
  ch_offset :: nat
  ch_length :: nat
  ch_text :: string
  ch_label :: string

section \<open>Positions\<close>

fun walk_down :: "string \<Rightarrow> nat \<Rightarrow> nat" where
  "walk_down str 0 = 0"
| "walk_down str (Suc pos) = (if is_char_boundary str (Suc pos) then Suc pos else walk_down str pos)"

definition floor_char_boundary :: "string \<Rightarrow> nat \<Rightarrow> nat" where
  "floor_char_boundary str pos = (if length str \<le> pos then length str else walk_down str pos)"

text \<open>\<open>str::rfind\<close>.\<close>

definition rfind_sub :: "string \<Rightarrow> string \<Rightarrow> nat option" where
  "rfind_sub p s =
     (case filter (\<lambda>i. starts_with p (drop i s)) [0..<length s] of [] \<Rightarrow> None | is \<Rightarrow> Some (last is))"

definition piece :: "string \<Rightarrow> nat \<Rightarrow> nat \<Rightarrow> string" where
  "piece str a b = take (b - a) (drop a str)"

definition find_boundary :: "string \<Rightarrow> nat \<Rightarrow> nat \<Rightarrow> nat" where
  "find_boundary str start stop =
     (let region = piece str start stop in
      case rfind_sub [CHR 0x0A, CHR 0x0A] region of
        Some pos \<Rightarrow> start + pos + 2
      | None \<Rightarrow>
     (case rfind_sub [CHR 0x0A] region of
        Some pos \<Rightarrow> start + pos + 1
      | None \<Rightarrow>
     (case rfind_sub ''. '' region of
        Some pos \<Rightarrow> start + pos + 2
      | None \<Rightarrow>
     (case rfind_sub '' '' region of
        Some pos \<Rightarrow> start + pos + 1
      | None \<Rightarrow> stop))))"

section \<open>The loop\<close>

definition push_chunk :: "string \<Rightarrow> string \<Rightarrow> nat \<Rightarrow> nat \<Rightarrow> chunk list \<Rightarrow> chunk list" where
  "push_chunk str pfx a b chunks =
     (if trim (piece str a b) = [] then chunks
      else chunks @ [\<lparr>ch_index = length chunks, ch_offset = a, ch_length = b - a, ch_text = piece str a b,
                     ch_label = pfx @ ''_chunk_'' @ show_nat (length chunks)\<rparr>])"

definition next_start :: "string \<Rightarrow> nat \<Rightarrow> nat \<Rightarrow> nat \<Rightarrow> nat" where
  "next_start str overlap start boundary =
     (let n = (if 0 < overlap \<and> overlap < boundary then floor_char_boundary str (boundary - overlap) else boundary)
      in if n \<le> start then boundary else n)"

text \<open>The loop ends by itself only when the pieces are long enough to hold a character, so
  not ending is a value: \<open>None\<close>.\<close>

partial_function (option) chunk_loop ::
  "string \<Rightarrow> nat \<Rightarrow> nat \<Rightarrow> string \<Rightarrow> nat \<Rightarrow> chunk list \<Rightarrow> chunk list option" where
  "chunk_loop str sz overlap pfx start chunks =
     (if length str \<le> start \<or> MAX_CHUNKS \<le> length chunks then Some chunks
      else
        let stop = floor_char_boundary str (min (start + sz) (length str))
        in if length str \<le> stop then Some (push_chunk str pfx start (length str) chunks)
           else
             let boundary = find_boundary str start stop
             in chunk_loop str sz overlap pfx (next_start str overlap start boundary)
                  (push_chunk str pfx start boundary chunks))"


definition chunk_text :: "string \<Rightarrow> nat \<Rightarrow> nat \<Rightarrow> string \<Rightarrow> chunk list option" where
  "chunk_text str sz overlap pfx =
     (if str = [] \<or> sz = 0 then Some [] else chunk_loop str sz overlap pfx 0 [])"

section \<open>Progress\<close>

text \<open>What UTF-8 gives: a text starts with a character, no character has more than three
  continuation bytes, and an ASCII character has none.\<close>

definition utf8 :: "string \<Rightarrow> bool" where
  "utf8 str \<longleftrightarrow> (\<forall>i < length str. \<exists>k \<le> 3. k \<le> i \<and> \<not> continuation (str ! (i - k)))
     \<and> (\<forall>i. Suc i < length str \<longrightarrow> (of_char (str ! i) :: nat) < 128 \<longrightarrow> \<not> continuation (str ! Suc i))"

lemma walk_down_le: "walk_down str pos \<le> pos"
  by (induction str pos rule: walk_down.induct) auto

lemma walk_down_boundary: "is_char_boundary str (walk_down str pos)"
  by (induction str pos rule: walk_down.induct) (auto simp: is_char_boundary_def)

lemma walk_down_ge: "is_char_boundary str b \<Longrightarrow> b \<le> pos \<Longrightarrow> b \<le> walk_down str pos"
  by (induction str pos rule: walk_down.induct) (auto simp: le_Suc_eq)

lemma floor_props:
  "floor_char_boundary str pos \<le> length str"
  "pos \<le> length str \<Longrightarrow> floor_char_boundary str pos \<le> pos"
  "is_char_boundary str (floor_char_boundary str pos)"
  using walk_down_le [of str pos] walk_down_boundary [of str pos]
  by (auto simp: floor_char_boundary_def is_char_boundary_def)

lemma floor_progress:
  assumes "utf8 str" and "start + 4 \<le> pos" and "pos \<le> length str"
  shows "start < floor_char_boundary str pos"
proof (cases "pos = length str")
  case False
  with assms(1,3) obtain k where k: "k \<le> 3" "k \<le> pos" "\<not> continuation (str ! (pos - k))"
    unfolding utf8_def by (metis le_neq_implies_less)
  then have "is_char_boundary str (pos - k)" using False assms(3) by (auto simp: is_char_boundary_def)
  then have "pos - k \<le> walk_down str pos" by (rule walk_down_ge) simp
  with k(1) assms(2) False assms(3) show ?thesis by (simp add: floor_char_boundary_def)
qed (use assms(2) in \<open>simp add: floor_char_boundary_def\<close>)

lemma rfind_sub_Some:
  assumes "rfind_sub p s = Some i"
  shows "i < length s" and "starts_with p (drop i s)"
proof -
  let ?f = "filter (\<lambda>i. starts_with p (drop i s)) [0..<length s]"
  from assms have ne: "?f \<noteq> []" and i: "i = last ?f" by (auto simp: rfind_sub_def split: list.splits)
  from last_in_set [OF ne] i show "i < length s" "starts_with p (drop i s)" by auto
qed

lemma rfind_sub_fits: "rfind_sub p s = Some i \<Longrightarrow> p \<noteq> [] \<Longrightarrow> i + length p \<le> length s"
  using rfind_sub_Some [of p s i] by (auto simp: starts_with_iff dest: arg_cong [where f = length])

lemma find_boundary_range:
  assumes "start < stop" and "stop \<le> length str"
  shows "start < find_boundary str start stop" and "find_boundary str start stop \<le> stop"
proof -
  have len: "length (piece str start stop) = stop - start" using assms by (simp add: piece_def)
  note fits = rfind_sub_fits [where s = "piece str start stop", unfolded len]
  show "start < find_boundary str start stop" using assms(1)
    by (simp add: find_boundary_def Let_def split: option.split)
  show "find_boundary str start stop \<le> stop"
    using assms(1) fits [of "[CHR 0x0A, CHR 0x0A]"] fits [of "[CHR 0x0A]"] fits [of "''. ''"] fits [of "'' ''"]
    by (auto simp: find_boundary_def Let_def split: option.split)
qed

text \<open>A text may be cut after an ASCII character.\<close>

lemma cut_after:
  assumes "utf8 str" and "starts_with p (drop i (piece str a b))" and "p \<noteq> []" and "(of_char (last p) :: nat) < 128"
    and "i + length p \<le> b - a" and "b \<le> length str"
  shows "is_char_boundary str (a + i + length p)"
proof (cases "a + i + length p = length str")
  case False
  let ?j = "a + i + (length p - 1)"
  from assms(3) obtain n where n: "length p = Suc n" by (cases p) auto
  have "last p = p ! n" using assms(3) n by (simp add: last_conv_nth)
  also from assms(2) obtain t where "drop i (piece str a b) = p @ t" by (auto simp: starts_with_iff)
  then have "p ! n = drop i (piece str a b) ! n" using n by (simp add: nth_append)
  also have "\<dots> = str ! ?j" using assms(5,6) n by (simp add: piece_def add.assoc)
  finally have "(of_char (str ! ?j) :: nat) < 128" using assms(4) by simp
  moreover have "Suc ?j < length str" using False assms(5,6) n by simp
  ultimately have "\<not> continuation (str ! Suc ?j)" using assms(1) unfolding utf8_def by blast
  then show ?thesis using False assms(5,6) n by (simp add: is_char_boundary_def)
qed (simp add: is_char_boundary_def)

lemma find_boundary_char:
  assumes "utf8 str" and "start < stop" and "stop \<le> length str" and "is_char_boundary str stop"
  shows "is_char_boundary str (find_boundary str start stop)"
proof -
  have len: "length (piece str start stop) = stop - start" using assms by (simp add: piece_def)
  have cut: "is_char_boundary str (start + i + length p)"
    if "rfind_sub p (piece str start stop) = Some i" "p \<noteq> []" "(of_char (last p) :: nat) < 128" for p i
    using cut_after [OF assms(1) rfind_sub_Some(2) [OF that(1)] that(2,3) _ assms(3)] rfind_sub_fits [OF that(1,2)] len by simp
  show ?thesis
    using assms(4) cut [of "[CHR 0x0A, CHR 0x0A]"] cut [of "[CHR 0x0A]"] cut [of "''. ''"] cut [of "'' ''"]
    by (auto simp: find_boundary_def Let_def split: option.split)
qed

lemma next_start_char:
  "is_char_boundary str boundary \<Longrightarrow> is_char_boundary str (next_start str overlap start boundary)"
  using floor_props(3) by (simp add: next_start_def Let_def)

lemma next_start_range:
  assumes "start < boundary" and "boundary \<le> length str"
  shows "start < next_start str overlap start boundary" and "next_start str overlap start boundary \<le> boundary"
proof -
  have "floor_char_boundary str (boundary - overlap) \<le> boundary - overlap"
    using assms(2) by (intro floor_props(2)) simp
  then have "floor_char_boundary str (boundary - overlap) \<le> boundary" by simp
  then show "start < next_start str overlap start boundary" "next_start str overlap start boundary \<le> boundary"
    using assms by (auto simp: next_start_def Let_def)
qed

section \<open>What the pieces are\<close>

lemma trim_Nil: "trim s = [] \<longleftrightarrow> (\<forall>c \<in> set s. is_ws c)"
proof -
  have "trim s = [] \<longleftrightarrow> (\<forall>c \<in> set (dropWhile is_ws s). is_ws c)"
    by (simp add: trim_def trim_start_matches_def trim_end_matches_def dropWhile_eq_Nil_conv)
  also have "\<dots> \<longleftrightarrow> (\<forall>c \<in> set s. is_ws c)"
    by (induction s) auto
  finally show ?thesis .
qed

definition chunk_ok :: "string \<Rightarrow> nat \<Rightarrow> string \<Rightarrow> nat \<Rightarrow> chunk \<Rightarrow> bool" where
  "chunk_ok str sz pfx i c \<longleftrightarrow>
     ch_index c = i \<and> ch_label c = pfx @ ''_chunk_'' @ show_nat i
     \<and> ch_text c = piece str (ch_offset c) (ch_offset c + ch_length c)
     \<and> ch_offset c + ch_length c \<le> length str \<and> ch_length c \<le> sz \<and> trim (ch_text c) \<noteq> []
     \<and> is_char_boundary str (ch_offset c) \<and> is_char_boundary str (ch_offset c + ch_length c)"

definition chunks_ok :: "string \<Rightarrow> nat \<Rightarrow> string \<Rightarrow> chunk list \<Rightarrow> bool" where
  "chunks_ok str sz pfx chunks \<longleftrightarrow> (\<forall>i < length chunks. chunk_ok str sz pfx i (chunks ! i))"

definition holds_pos :: "chunk \<Rightarrow> nat \<Rightarrow> bool" where
  "holds_pos c p \<longleftrightarrow> ch_offset c \<le> p \<and> p < ch_offset c + ch_length c"

definition covered :: "string \<Rightarrow> nat \<Rightarrow> chunk list \<Rightarrow> bool" where
  "covered str n chunks \<longleftrightarrow>
     (\<forall>p < n. p < length str \<longrightarrow> is_ws (str ! p) \<or> (\<exists>c \<in> set chunks. holds_pos c p))"

lemma piece_chars: "b \<le> length str \<Longrightarrow> a \<le> p \<Longrightarrow> p < b \<Longrightarrow> str ! p \<in> set (piece str a b)"
  unfolding piece_def in_set_conv_nth by (intro exI [of _ "p - a"]) auto

lemma push_ok:
  assumes "chunks_ok str sz pfx chunks" and "a \<le> b" and "b \<le> length str" and "b - a \<le> sz"
    and "is_char_boundary str a" and "is_char_boundary str b"
  shows "chunks_ok str sz pfx (push_chunk str pfx a b chunks)"
  using assms by (auto simp: chunks_ok_def push_chunk_def chunk_ok_def nth_append less_Suc_eq)

lemma push_covers:
  assumes "covered str a chunks" and "b \<le> length str"
  shows "covered str b (push_chunk str pfx a b chunks)"
  unfolding covered_def
proof (intro allI impI)
  fix p
  assume "p < b" "p < length str"
  show "is_ws (str ! p) \<or> (\<exists>c \<in> set (push_chunk str pfx a b chunks). holds_pos c p)"
  proof (cases "p < a")
    case True
    with assms(1) \<open>p < length str\<close> show ?thesis by (auto simp: covered_def push_chunk_def)
  next
    case False
    with \<open>p < b\<close> assms(2) piece_chars [of b str a p] show ?thesis
      by (auto simp: push_chunk_def trim_Nil holds_pos_def)
  qed
qed

lemma chunk_loop_total:
  assumes "utf8 str" and "4 \<le> sz" and "chunks_ok str sz pfx chunks" and "covered str start chunks"
    and "length chunks \<le> MAX_CHUNKS" and "is_char_boundary str start"
  shows "\<exists>cs. chunk_loop str sz overlap pfx start chunks = Some cs \<and> chunks_ok str sz pfx cs
      \<and> length cs \<le> MAX_CHUNKS \<and> (length cs = MAX_CHUNKS \<or> covered str (length str) cs)"
  using assms(3-)
proof (induction "length str - start" arbitrary: start chunks rule: less_induct)
  case less
  let ?stop = "floor_char_boundary str (min (start + sz) (length str))"
  show ?case
  proof (cases "length str \<le> start \<or> MAX_CHUNKS \<le> length chunks")
    case True
    moreover have "length str \<le> start \<Longrightarrow> covered str (length str) chunks"
      using less.prems(2) unfolding covered_def by (meson less_le_trans)
    ultimately show ?thesis using less.prems by (subst chunk_loop.simps) auto
  next
    case False
    show ?thesis
    proof (cases "length str \<le> ?stop")
      case True
      then have end_in_reach: "length str \<le> start + sz"
        using floor_props(2) [of "min (start + sz) (length str)" str] by simp
      have "chunks_ok str sz pfx (push_chunk str pfx start (length str) chunks)"
        using less.prems(1,4) False end_in_reach by (intro push_ok) (auto simp: is_char_boundary_def)
      moreover have "covered str (length str) (push_chunk str pfx start (length str) chunks)"
        using less.prems(2) by (intro push_covers) auto
      moreover have "length (push_chunk str pfx start (length str) chunks) \<le> MAX_CHUNKS"
        using False by (simp add: push_chunk_def)
      ultimately show ?thesis using True False by (subst chunk_loop.simps) (simp add: Let_def)
    next
      case short: False
      let ?b = "find_boundary str start ?stop"
      have stop: "start < ?stop" "?stop \<le> start + sz" "?stop \<le> length str"
      proof -
        show "?stop \<le> start + sz" "?stop \<le> length str"
          using floor_props(2) [of "min (start + sz) (length str)" str] by simp_all
        show "start < ?stop"
        proof (cases "start + sz \<le> length str")
          case True
          with assms(1,2) show ?thesis by (intro floor_progress) auto
        next
          case False
          with short show ?thesis by (simp add: floor_char_boundary_def)
        qed
      qed
      note b = find_boundary_range [OF stop(1,3)]
      have b_char: "is_char_boundary str ?b" by (rule find_boundary_char [OF assms(1) stop(1,3) floor_props(3)])
      note n_char = next_start_char [OF b_char, of overlap start]
      have b_len: "?b \<le> length str" "?b - start \<le> sz" using b stop by auto
      note n = next_start_range [OF b(1) b_len(1), of overlap]
      have "chunks_ok str sz pfx (push_chunk str pfx start ?b chunks)"
        using less.prems(1,4) b b_len b_char by (intro push_ok) auto
      moreover have "covered str (next_start str overlap start ?b) (push_chunk str pfx start ?b chunks)"
        using push_covers [OF less.prems(2) b_len(1), of pfx] n(2) by (auto simp: covered_def)
      moreover have "length (push_chunk str pfx start ?b chunks) \<le> MAX_CHUNKS"
        using False by (simp add: push_chunk_def)
      moreover have "length str - next_start str overlap start ?b < length str - start"
        using n False by auto
      ultimately obtain cs where "chunk_loop str sz overlap pfx (next_start str overlap start ?b)
          (push_chunk str pfx start ?b chunks) = Some cs" "chunks_ok str sz pfx cs"
          "length cs \<le> MAX_CHUNKS" "length cs = MAX_CHUNKS \<or> covered str (length str) cs"
        using less.hyps n_char by blast
      with short False show ?thesis by (subst chunk_loop.simps) (simp add: Let_def)
    qed
  qed
qed

text \<open>With pieces shorter than a character the loop does not end; both callers ask for at
  least a hundred bytes.\<close>

definition e_acute :: string where "e_acute = [CHR 0xC3, CHR 0xA9]"

lemma short_pieces_loop: "chunk_text e_acute 1 0 pfx = None"
proof -
  have here: "floor_char_boundary e_acute (min (0 + 1) (length e_acute)) = 0"
    by (simp add: floor_char_boundary_def is_char_boundary_def e_acute_def continuation_def)
  have "chunk_loop str sz overlap p start chunks = Some cs \<Longrightarrow>
      (str, sz, overlap, start, chunks) \<noteq> (e_acute, 1, 0, 0, [])" for str sz overlap p start chunks cs
  proof (induction rule: chunk_loop.raw_induct [rotated 1, consumes 1])
    case (1 loop str sz overlap p start chunks cs)
    show ?case
    proof
      assume args: "(str, sz, overlap, start, chunks) = (e_acute, 1, 0, 0, [])"
      have "find_boundary e_acute 0 0 = 0" "push_chunk e_acute p 0 0 [] = []" "next_start e_acute 0 0 0 = 0"
        by (simp_all add: find_boundary_def piece_def rfind_sub_def push_chunk_def trim_Nil next_start_def)
      moreover have "e_acute \<noteq> []" "MAX_CHUNKS \<noteq> 0" by (simp_all add: e_acute_def MAX_CHUNKS_def)
      ultimately have "loop e_acute 1 0 p 0 [] = Some cs"
        using 1(2) args here by (auto simp: Let_def split: if_splits)
      with 1(1) [of e_acute 1 0 p 0 "[]" cs] show False by simp
    qed
  qed
  from this [of e_acute 1 0 pfx 0 "[]"] have "chunk_loop e_acute 1 0 pfx 0 [] = None"
    by (cases "chunk_loop e_acute 1 0 pfx 0 []") simp_all
  then show ?thesis by (simp add: chunk_text_def e_acute_def)
qed

end
