(* ===== verification/QueueProps.thy ===== *)
theory QueueProps
  imports IngestQueues Chunking
begin

text \<open>
  Properties of the work queues and of the cutting of texts, with concrete runs.
\<close>

section \<open>Claims\<close>

text \<open>
  C23. A notification is handed out at most as often as it has attempts, counted from its
  entry or its last retry, in any interleaving of workers, failures, recoveries,
  cancellations and retries.
\<close>

theorem notification_claims_bounded:
  assumes "notif.reach t n" and "r \<in> set t"
  shows "int (n (nq_id r)) \<le> nq_max r"
  using notif.claims_bounded [OF assms] by (simp add: notif_view_def)

definition one_channel :: channel where
  "one_channel = \<lparr>nc_id = 5, nc_project = 1, nc_name = ''c'', nc_type = ''webhook'', nc_config = JNull, nc_enabled = True,
     nc_created = 0, nc_updated = 0\<rparr>"

definition queued_item :: notification where
  "queued_item = \<lparr>nq_id = 6, nq_project = 1, nq_channel = 5, nq_subject = ''s'', nq_body = [], nq_attachment = None,
     nq_status = QPending, nq_error = None, nq_attempts = 0, nq_max = 5, nq_submitted = None, nq_created = 0, nq_updated = 0,
     nq_completed = None\<rparr>"

lemma sample_queued_reach: "notif.reach [queued_item] (\<lambda>_. 0)"
proof -
  have enq: "notif_enqueue 6 0 True 1 5 ''s'' [] None None \<lparr>channels = [one_channel], notifications = []\<rparr> =
      (Inr queued_item, \<lparr>channels = [one_channel], notifications = [queued_item]\<rparr>)"
    by (simp add: notif_enqueue_def get_channel_def one_channel_def queued_item_def Let_def)
  have "notif_step [] (Entered 6) [queued_item]"
    using notif_step.enter [OF enq] by simp
  from notif.reach.renew [OF notif.reach.start this, of 6] show ?thesis by (simp add: fun_upd_idem)
qed

theorem notification_claims_bounded_witness:
  "\<exists>t n r. notif.reach t n \<and> r \<in> set t \<and> n (nq_id r) = 1 \<and> int (n (nq_id r)) \<le> nq_max r"
proof -
  let ?r = "queued_item\<lparr>nq_status := QProcessing, nq_updated := 0\<rparr>"
  have "claim_rows 0 6 [queued_item] = (True, [?r])"
    by (simp add: claim_rows_def update_any_def update_where_def queued_item_def)
  from notif.reach.claim [OF sample_queued_reach notif_step.claim [OF this]]
  have reach: "notif.reach [?r] ((\<lambda>_. 0)(6 := 1))" by simp
  have id: "nq_id ?r = 6" by (simp add: queued_item_def)
  from notification_claims_bounded [OF reach, of ?r] have "int (((\<lambda>_. 0)(6 := 1)) (nq_id ?r)) \<le> nq_max ?r" by simp
  with reach id show ?thesis by (intro exI [of _ "[?r]"] exI [of _ "(\<lambda>_. 0)(6 := 1)"] exI [of _ ?r]) simp
qed

text \<open>
  C22. Whatever is inserted, claimed, failed, recovered, cancelled and retried, two rows of
  the URL queue that are neither failed nor cancelled are of different projects or URLs.
\<close>

theorem active_url_unique:
  assumes "url.reach t n" and "r \<in> set t" and "s \<in> set t" and "active (uq_status r)" and "active (uq_status s)"
    and "uq_project r = uq_project s" and "uq_url r = uq_url s"
  shows "uq_id r = uq_id s"
  using url.active_unique [OF assms(1-3)] assms(4-7) by (simp add: url_view_def uq_content_def)

lemma url_entered_reach:
  assumes "enqueue_url 4 0 1 None ''u'' [] = (Some x, t)"
  shows "url.reach t (\<lambda>_. 0)"
proof -
  have "url_step [] (Entered 4) t" by (rule url_step.enter [OF assms]) simp
  from url.reach.renew [OF url.reach.start this, of 4] show ?thesis by (simp add: fun_upd_idem)
qed

theorem active_url_unique_witness:
  "\<exists>t r. url.reach t (\<lambda>_. 0) \<and> r \<in> set t \<and> enqueue_url 9 0 1 None ''u'' t = (None, t) \<and>
     (\<forall>s \<in> set t. active (uq_status s) \<longrightarrow> uq_project s = 1 \<longrightarrow> uq_url s = ''u'' \<longrightarrow> uq_id s = uq_id r)"
proof -
  obtain x t where e: "enqueue_url 4 0 1 None ''u'' [] = (Some x, t)" and t: "t = [x]"
    and x: "uq_status x = QPending" "uq_project x = 1" "uq_url x = ''u''"
    by (simp add: enqueue_url_def Let_def)
  have reach: "url.reach t (\<lambda>_. 0)" by (rule url_entered_reach [OF e])
  have "uq_id s = uq_id x" if "s \<in> set t" "active (uq_status s)" "uq_project s = 1" "uq_url s = ''u''" for s
    by (rule active_url_unique [OF reach]) (use that t x in \<open>simp_all add: active_def\<close>)
  moreover have "enqueue_url 9 0 1 None ''u'' t = (None, t)" using t x by (simp add: enqueue_url_def active_def)
  ultimately show ?thesis using reach t by (intro exI [of _ t] exI [of _ x]) simp
qed

section \<open>Pieces of a text\<close>

text \<open>
  C24. Cutting a text into pieces of at least four bytes ends. The pieces are pieces of the
  text, in order, between characters and not blank; and they hold every byte that is not white
  space, unless 10,000 of them were cut.
\<close>

theorem chunks_cover:
  assumes "utf8 str" and "4 \<le> sz"
  shows "\<exists>cs. chunk_text str sz overlap pfx = Some cs \<and> chunks_ok str sz pfx cs \<and> length cs \<le> MAX_CHUNKS \<and>
    (length cs = MAX_CHUNKS \<or> covered str (length str) cs)"
proof (cases "str = []")
  case True
  then show ?thesis using assms(2) by (simp add: chunk_text_def chunks_ok_def covered_def)
next
  case False
  have "chunks_ok str sz pfx []" "covered str 0 []" "length [] \<le> MAX_CHUNKS" "is_char_boundary str 0"
    by (simp_all add: chunks_ok_def covered_def is_char_boundary_def)
  from chunk_loop_total [OF assms this, of overlap] False assms(2) show ?thesis by (simp add: chunk_text_def)
qed

lemma ascii_utf8: "(\<And>c. c \<in> set s \<Longrightarrow> (of_char c :: nat) < 128) \<Longrightarrow> utf8 s"
  unfolding utf8_def continuation_def by (intro conjI allI impI exI [of _ 0]) (auto simp: not_le)

theorem chunks_cover_witness:
  "\<exists>cs. chunk_text ''one. two'' 6 2 ''p'' = Some cs \<and> (length cs = MAX_CHUNKS \<or> (\<exists>c \<in> set cs. holds_pos c 7))"
proof -
  have "utf8 ''one. two''" by (rule ascii_utf8) auto
  from chunks_cover [OF this, of 6 2 "''p''"] obtain cs where cs: "chunk_text ''one. two'' 6 2 ''p'' = Some cs"
      "length cs = MAX_CHUNKS \<or> covered ''one. two'' (length ''one. two'') cs" by auto
  have "\<exists>c \<in> set cs. holds_pos c 7" if "covered ''one. two'' (length ''one. two'') cs"
    using that [unfolded covered_def, rule_format, of 7] by (simp add: is_ws_def)
  with cs show ?thesis by blast
qed

end
