(* ===== verification/BlobStore.thy ===== *)
theory BlobStore
  imports Json
begin

text \<open>
  File contents and the rows that name them: \<open>af-storage/src/blob_store.rs\<close>,
  \<open>artifact_store.rs\<close>, \<open>output_store.rs\<close>, \<open>af-db/src/blobs.rs\<close>, the statements of
  \<open>af-db/src/artifacts.rs\<close> that write, and the collection of unused contents in
  \<open>af-cli/src/commands/tick.rs\<close>. A file system is a map from paths to contents; the
  temporary file of a write, gone or renamed when the write ends, is not part of it.
\<close>

section \<open>Rows\<close>

record blob_rec =
  bl_sha :: string
  bl_size :: nat
  bl_path :: string
  bl_created :: instant

record artifact_rec =
  ar_id :: uuid
  ar_project :: uuid
  ar_sha :: string
  ar_filename :: string
  ar_mime :: "string option"
  ar_source :: "uuid option"
  ar_metadata :: json
  ar_description :: "string option"
  ar_created :: instant

record storage =
  files :: "string \<rightharpoonup> string"
  blobs :: "blob_rec list"
  arts :: "artifact_rec list"
  run_links :: "(uuid \<times> uuid \<times> string) list"

datatype io_call = MakeTmp | WriteTmp | MakeDir | Rename | RemoveFile string

datatype store_stmt = UpsertBlob | InsertArtifact | LinkArtifact | DeleteBlob string

text \<open>The hash in hexadecimal, the storage root, the clock, and the calls that fail.\<close>

record store_env =
  sha256 :: "string \<Rightarrow> string"
  root :: string
  clock :: instant
  io_fault :: "io_call \<Rightarrow> string option"
  db_fault :: "store_stmt \<Rightarrow> string option"

datatype storage_error = StIo string | StDb string

section \<open>Paths\<close>

definition path_join :: "string \<Rightarrow> string \<Rightarrow> string" where
  "path_join a b = (if a = [] \<or> last a = CHR ''/'' then a @ b else a @ ''/'' @ b)"

definition blob_path :: "string \<Rightarrow> string \<Rightarrow> string" where
  "blob_path r sha = path_join (path_join (path_join (path_join r ''data'') (take 2 sha)) (take 2 (drop 2 sha))) sha"

definition tmp_path :: "string \<Rightarrow> string \<Rightarrow> string" where
  "tmp_path r name = path_join (path_join r ''tmp'') name"

section \<open>Contents\<close>

definition get_blob :: "string \<Rightarrow> storage \<Rightarrow> blob_rec option" where
  "get_blob sha st = List.find (\<lambda>b. bl_sha b = sha) (blobs st)"

definition upsert_blob :: "store_env \<Rightarrow> string \<Rightarrow> nat \<Rightarrow> string \<Rightarrow> storage \<Rightarrow> (string + blob_rec) \<times> storage" where
  "upsert_blob env sha len path st =
     (case db_fault env UpsertBlob of
        Some e \<Rightarrow> (Inl e, st)
      | None \<Rightarrow>
     (case get_blob sha st of
        Some b \<Rightarrow> (Inr b, st)
      | None \<Rightarrow>
          let b = \<lparr>bl_sha = sha, bl_size = len, bl_path = path, bl_created = clock env\<rparr>
          in (Inr b, st\<lparr>blobs := blobs st @ [b]\<rparr>)))"

text \<open>A failed rename is no error when the file is there already.\<close>

definition place :: "store_env \<Rightarrow> string \<Rightarrow> string option \<Rightarrow> storage \<Rightarrow> storage_error + storage" where
  "place env path data st =
     (case io_fault env Rename of
        None \<Rightarrow> Inr (st\<lparr>files := (files st)(path := data)\<rparr>)
      | Some e \<Rightarrow> if files st path \<noteq> None then Inr st else Inl (StIo e))"

definition io_ok :: "store_env \<Rightarrow> io_call \<Rightarrow> storage_error + unit" where
  "io_ok env c = (case io_fault env c of Some e \<Rightarrow> Inl (StIo e) | None \<Rightarrow> Inr ())"

definition record_blob ::
  "store_env \<Rightarrow> string \<Rightarrow> nat \<Rightarrow> storage \<Rightarrow> (storage_error + string \<times> string) \<times> storage" where
  "record_blob env sha len st =
     (case upsert_blob env sha len (blob_path (root env) sha) st of
        (Inl e, st') \<Rightarrow> (Inl (StDb e), st')
      | (Inr _, st') \<Rightarrow> (Inr (sha, blob_path (root env) sha), st'))"

definition store_blob :: "store_env \<Rightarrow> string \<Rightarrow> storage \<Rightarrow> (storage_error + string \<times> string) \<times> storage" where
  "store_blob env data st =
     (let sha = sha256 env data in
      case sum_bind (io_ok env MakeTmp) (\<lambda>_. sum_bind (io_ok env WriteTmp) (\<lambda>_. sum_bind (io_ok env MakeDir) (\<lambda>_.
             place env (blob_path (root env) sha) (Some data) st))) of
        Inl e \<Rightarrow> (Inl e, st)
      | Inr st' \<Rightarrow> record_blob env sha (length data) st')"

definition is_hexdigit :: "char \<Rightarrow> bool" where
  "is_hexdigit c \<longleftrightarrow> is_digit c \<or> c \<in> set ''abcdefABCDEF''"

text \<open>The temporary file is gone in every case but one: when its directory cannot be made.\<close>

definition store_blob_from_file ::
  "store_env \<Rightarrow> string \<Rightarrow> string \<Rightarrow> nat \<Rightarrow> storage \<Rightarrow> (storage_error + string \<times> string) \<times> storage" where
  "store_blob_from_file env tmp sha len st =
     (if length sha \<noteq> 64 \<or> \<not> list_all is_hexdigit sha
      then (Inl (StIo (''invalid SHA-256 hash: expected 64 hex chars, got '' @ [CHR 0x27] @ sha @ [CHR 0x27])), st)
      else case io_ok env MakeDir of
        Inl e \<Rightarrow> (Inl e, st)
      | Inr _ \<Rightarrow>
          let gone = st\<lparr>files := (files st)(tmp := None)\<rparr>
          in case place env (blob_path (root env) sha) (files st tmp) gone of
               Inl e \<Rightarrow> (Inl e, gone)
             | Inr st' \<Rightarrow> record_blob env sha len st')"

definition delete_blob_file :: "store_env \<Rightarrow> string \<Rightarrow> storage \<Rightarrow> (string + unit) \<times> storage" where
  "delete_blob_file env path st =
     (case io_fault env (RemoveFile path) of
        Some e \<Rightarrow> (Inl e, st)
      | None \<Rightarrow> (Inr (), st\<lparr>files := (files st)(path := None)\<rparr>))"

definition referenced :: "string \<Rightarrow> storage \<Rightarrow> bool" where
  "referenced sha st \<longleftrightarrow> (\<exists>a \<in> set (arts st). ar_sha a = sha)"

definition find_unreferenced_blobs :: "storage \<Rightarrow> (string \<times> string) list" where
  "find_unreferenced_blobs st = map (\<lambda>b. (bl_sha b, bl_path b)) (filter (\<lambda>b. \<not> referenced (bl_sha b) st) (blobs st))"

definition delete_blob_if_unreferenced :: "store_env \<Rightarrow> string \<Rightarrow> storage \<Rightarrow> (string + bool) \<times> storage" where
  "delete_blob_if_unreferenced env sha st =
     (case db_fault env (DeleteBlob sha) of
        Some e \<Rightarrow> (Inl e, st)
      | None \<Rightarrow>
          if referenced sha st then (Inr False, st)
          else (Inr (\<exists>b \<in> set (blobs st). bl_sha b = sha), st\<lparr>blobs := filter (\<lambda>b. bl_sha b \<noteq> sha) (blobs st)\<rparr>))"

text \<open>The collection: first the file, then the row.\<close>

definition collect_one :: "store_env \<Rightarrow> string \<times> string \<Rightarrow> storage \<Rightarrow> storage" where
  "collect_one env c st =
     (case delete_blob_file env (snd c) st of
        (Inl _, st') \<Rightarrow> st'
      | (Inr _, st') \<Rightarrow> snd (delete_blob_if_unreferenced env (fst c) st'))"

definition collect :: "store_env \<Rightarrow> (string \<times> string) list \<Rightarrow> storage \<Rightarrow> storage" where
  "collect env cands st = fold (collect_one env) cands st"

definition blob_gc :: "store_env \<Rightarrow> storage \<Rightarrow> storage" where
  "blob_gc env st = collect env (find_unreferenced_blobs st) st"

section \<open>Artifacts\<close>

text \<open>The row refers to a content; \<open>id_ok\<close> stands for the reference to the project.\<close>

definition insert_artifact ::
  "store_env \<Rightarrow> uuid \<Rightarrow> bool \<Rightarrow> uuid \<Rightarrow> string \<Rightarrow> string \<Rightarrow> string option \<Rightarrow> uuid option \<Rightarrow> json \<Rightarrow> string option \<Rightarrow>
     storage \<Rightarrow> (string + artifact_rec) \<times> storage" where
  "insert_artifact env fresh id_ok proj sha name mime source meta descr st =
     (case db_fault env InsertArtifact of
        Some e \<Rightarrow> (Inl e, st)
      | None \<Rightarrow>
          if \<not> id_ok \<or> get_blob sha st = None then (Inl ''foreign key'', st)
          else
            let a = \<lparr>ar_id = fresh, ar_project = proj, ar_sha = sha, ar_filename = name, ar_mime = mime, ar_source = source,
                     ar_metadata = meta, ar_description = descr, ar_created = clock env\<rparr>
            in (Inr a, st\<lparr>arts := arts st @ [a]\<rparr>))"

definition create_artifact where
  "create_artifact env fresh id_ok proj sha name mime source =
     insert_artifact env fresh id_ok proj sha name mime source (JObj []) None"

definition create_artifact_with_description where
  "create_artifact_with_description env fresh id_ok proj sha name mime source descr =
     insert_artifact env fresh id_ok proj sha name mime source (JObj []) (Some descr)"

definition create_artifact_with_metadata where
  "create_artifact_with_metadata env fresh id_ok proj sha name mime source meta =
     insert_artifact env fresh id_ok proj sha name mime source meta None"

definition get_artifact :: "uuid \<Rightarrow> storage \<Rightarrow> artifact_rec option" where
  "get_artifact i st = List.find (\<lambda>a. ar_id a = i) (arts st)"

definition drop_artifacts :: "(artifact_rec \<Rightarrow> bool) \<Rightarrow> storage \<Rightarrow> storage" where
  "drop_artifacts p st =
     (let gone = map ar_id (filter p (arts st))
      in st\<lparr>run_links := filter (\<lambda>l. fst (snd l) \<notin> set gone) (run_links st), arts := filter (\<lambda>a. \<not> p a) (arts st)\<rparr>)"

definition delete_artifact :: "uuid \<Rightarrow> storage \<Rightarrow> bool \<times> storage" where
  "delete_artifact i st = (\<exists>a \<in> set (arts st). ar_id a = i, drop_artifacts (\<lambda>a. ar_id a = i) st)"

definition generated :: "uuid \<Rightarrow> artifact_rec \<Rightarrow> bool" where
  "generated proj a \<longleftrightarrow> ar_project a = proj \<and> ar_source a \<noteq> None"

definition delete_generated_artifacts :: "uuid \<Rightarrow> storage \<Rightarrow> nat \<times> storage" where
  "delete_generated_artifacts proj st = (length (filter (generated proj) (arts st)), drop_artifacts (generated proj) st)"

definition update_artifact_description :: "uuid \<Rightarrow> string \<Rightarrow> storage \<Rightarrow> artifact_rec option \<times> storage" where
  "update_artifact_description i descr st =
     (let upd = (\<lambda>a. if ar_id a = i then a\<lparr>ar_description := Some descr\<rparr> else a)
      in (map_option upd (get_artifact i st), st\<lparr>arts := map upd (arts st)\<rparr>))"

datatype ingest_error = IngStorage storage_error | IngDb string

definition ingest_artifact ::
  "store_env \<Rightarrow> uuid \<Rightarrow> bool \<Rightarrow> uuid \<Rightarrow> string \<Rightarrow> string \<Rightarrow> string option \<Rightarrow> uuid option \<Rightarrow> storage \<Rightarrow>
     (ingest_error + uuid) \<times> storage" where
  "ingest_artifact env fresh id_ok proj name data mime source st =
     (case store_blob env data st of
        (Inl e, st') \<Rightarrow> (Inl (IngStorage e), st')
      | (Inr (sha, _), st') \<Rightarrow>
          (case create_artifact env fresh id_ok proj sha name mime source st' of
             (Inl e, st'') \<Rightarrow> (Inl (IngDb e), st'')
           | (Inr a, st'') \<Rightarrow> (Inr (ar_id a), st'')))"

section \<open>What a tool writes\<close>

record output_store =
  ost_project :: uuid
  ost_run :: uuid
  max_output_bytes :: u64
  max_produced :: u32
  bytes_written :: u64
  produced :: u32

definition output_store_new :: "uuid \<Rightarrow> uuid \<Rightarrow> u64 \<Rightarrow> u32 \<Rightarrow> output_store" where
  "output_store_new proj run bytes n =
     \<lparr>ost_project = proj, ost_run = run, max_output_bytes = bytes, max_produced = n, bytes_written = 0, produced = 0\<rparr>"

record output_error =
  oe_code :: string
  oe_message :: string
  oe_retryable :: bool

definition quota_message :: "output_store \<Rightarrow> string \<Rightarrow> string" where
  "quota_message out data =
     ''output would exceed quota: '' @ show_nat (unat (bytes_written out)) @ '' + '' @ show_nat (length data)
       @ '' > '' @ show_nat (unat (max_output_bytes out))"

definition store_text :: "storage_error \<Rightarrow> string" where
  "store_text e = (case e of StIo m \<Rightarrow> ''IO error: '' @ m | StDb m \<Rightarrow> ''DB error: '' @ m)"

definition store_inner ::
  "store_env \<Rightarrow> uuid \<Rightarrow> string \<Rightarrow> string \<Rightarrow> string option \<Rightarrow> json option \<Rightarrow> string option \<Rightarrow> output_store \<times> storage \<Rightarrow>
     (output_error + uuid) \<times> output_store \<times> storage" where
  "store_inner env fresh name data mime meta descr w =
     (let out = fst w; st = snd w;
          new_bytes = bytes_written out + of_nat (length data); new_count = produced out + 1 in
      if max_output_bytes out < new_bytes
      then (Inl \<lparr>oe_code = ''output_quota_exceeded'', oe_message = quota_message out data, oe_retryable = False\<rparr>, w)
      else if max_produced out < new_count
      then (Inl \<lparr>oe_code = ''artifact_count_exceeded'',
                 oe_message = ''would exceed max produced artifacts: '' @ show_nat (unat (max_produced out)), oe_retryable = False\<rparr>, w)
      else case store_blob env data st of
        (Inl e, st') \<Rightarrow> (Inl \<lparr>oe_code = ''storage_error'', oe_message = store_text e, oe_retryable = True\<rparr>, out, st')
      | (Inr (sha, _), st') \<Rightarrow>
          (case (case descr of
                   Some d \<Rightarrow> create_artifact_with_description env fresh True (ost_project out) sha name mime (Some (ost_run out)) d st'
                 | None \<Rightarrow>
                  (case meta of
                     Some m \<Rightarrow> create_artifact_with_metadata env fresh True (ost_project out) sha name mime (Some (ost_run out)) m st'
                   | None \<Rightarrow> create_artifact env fresh True (ost_project out) sha name mime (Some (ost_run out)) st')) of
             (Inl e, st'') \<Rightarrow> (Inl \<lparr>oe_code = ''db_error'', oe_message = e, oe_retryable = True\<rparr>, out, st'')
           | (Inr a, st'') \<Rightarrow>
               (case db_fault env LinkArtifact of
                  Some e \<Rightarrow> (Inl \<lparr>oe_code = ''db_error'', oe_message = e, oe_retryable = True\<rparr>, out, st'')
                | None \<Rightarrow>
                    (Inr (ar_id a),
                     out\<lparr>bytes_written := bytes_written out + of_nat (length data), produced := produced out + 1\<rparr>,
                     st''\<lparr>run_links := run_links st'' @ [(ost_run out, ar_id a, ''output'')]\<rparr>))))"

end
