(* ===== verification/BlobSteps.thy ===== *)
theory BlobSteps
  imports BlobStore
begin

text \<open>
  What the storage keeps: every artifact's content is in its file, as long as no collection
  of unused contents overlaps a write; and what happens when one does.
\<close>

section \<open>Paths\<close>

lemma path_join_eq [simp]: "path_join a b = path_join a c \<longleftrightarrow> b = c"
  by (simp add: path_join_def)

lemma path_join_data: "\<exists>x. path_join (path_join r ''data'') y = path_join r (''data/'' @ y)"
  by (auto simp: path_join_def)

lemma blob_path_alt:
  "length sha = 64 \<Longrightarrow>
   blob_path r sha = path_join r (''data/'' @ path_join (path_join (take 2 sha) (take 2 (drop 2 sha))) sha)"
proof -
  assume "length sha = 64"
  then have "take 2 sha \<noteq> []" "take 2 (drop 2 sha) \<noteq> []" by auto
  then show ?thesis by (auto simp: blob_path_def path_join_def)
qed

lemma blob_path_tail: "\<exists>u. blob_path r sha = u @ sha"
  unfolding blob_path_def by (auto simp: path_join_def)

lemma blob_path_inj: "blob_path r s = blob_path r t \<Longrightarrow> length s = length t \<Longrightarrow> s = t"
  using blob_path_tail [of r s] blob_path_tail [of r t] by auto

lemma tmp_path_alt: "tmp_path r name = path_join r (''tmp/'' @ name)"
  by (simp add: tmp_path_def path_join_def)

lemma tmp_is_no_blob: "length sha = 64 \<Longrightarrow> blob_path r sha \<noteq> tmp_path r name"
  by (simp add: blob_path_alt tmp_path_alt)

section \<open>The invariant\<close>

definition held :: "store_env \<Rightarrow> string \<Rightarrow> storage \<Rightarrow> bool" where
  "held env sha st \<longleftrightarrow>
     length sha = 64 \<and> (\<exists>b \<in> set (blobs st). bl_sha b = sha) \<and> files st (blob_path (root env) sha) \<noteq> None"

definition blob_wf :: "store_env \<Rightarrow> storage \<Rightarrow> bool" where
  "blob_wf env st \<longleftrightarrow>
     (\<forall>sha d. length sha = 64 \<longrightarrow> files st (blob_path (root env) sha) = Some d \<longrightarrow> sha256 env d = sha) \<and>
     (\<forall>b \<in> set (blobs st). bl_path b = blob_path (root env) (bl_sha b) \<and> length (bl_sha b) = 64) \<and>
     (\<forall>a \<in> set (arts st). held env (ar_sha a) st)"

lemma blob_wfD:
  assumes "blob_wf env st"
  shows "length sha = 64 \<Longrightarrow> files st (blob_path (root env) sha) = Some d \<Longrightarrow> sha256 env d = sha"
    and "b \<in> set (blobs st) \<Longrightarrow> bl_path b = blob_path (root env) (bl_sha b)"
    and "b \<in> set (blobs st) \<Longrightarrow> length (bl_sha b) = 64"
    and "a \<in> set (arts st) \<Longrightarrow> held env (ar_sha a) st"
  using assms by (simp_all add: blob_wf_def)

lemma held_mono:
  assumes "held env s st" and "blobs st' = blobs st @ extra" and "\<And>q. files st q \<noteq> None \<Longrightarrow> files st' q \<noteq> None"
  shows "held env s st'"
  using assms unfolding held_def by fastforce

text \<open>Writing a content to its path.\<close>

lemma written_wf:
  assumes wf: "blob_wf env st" and len: "length (sha256 env d) = 64"
  shows "blob_wf env (st\<lparr>files := (files st)(blob_path (root env) (sha256 env d) := Some d)\<rparr>)" (is "blob_wf env ?st")
  unfolding blob_wf_def
proof (intro conjI allI impI ballI)
  fix sha e
  assume l: "length sha = 64" and f: "files ?st (blob_path (root env) sha) = Some e"
  show "sha256 env e = sha"
  proof (cases "sha = sha256 env d")
    case False
    then have "blob_path (root env) sha \<noteq> blob_path (root env) (sha256 env d)" using blob_path_inj l len by metis
    with f blob_wfD(1) [OF wf l] show ?thesis by simp
  qed (use f in simp)
next
  fix b assume "b \<in> set (blobs ?st)"
  then show "bl_path b = blob_path (root env) (bl_sha b)" and "length (bl_sha b) = 64"
    using blob_wfD(2,3) [OF wf] by simp_all
next
  fix a assume "a \<in> set (arts ?st)"
  then have "held env (ar_sha a) st" using blob_wfD(4) [OF wf] by simp
  then show "held env (ar_sha a) ?st" by (rule held_mono [where extra = "[]"]) auto
qed

lemma place_cases:
  assumes "place env path (Some d) st = Inr st'"
  obtains "st' = st\<lparr>files := (files st)(path := Some d)\<rparr>" | "st' = st" "files st path \<noteq> None"
  using assms by (auto simp: place_def split: option.splits if_splits)

lemma place_wf:
  assumes "blob_wf env st" and "place env (blob_path (root env) sha) (Some d) st = Inr st'"
    and "sha256 env d = sha" and "length sha = 64"
  shows "blob_wf env st'" and "files st' (blob_path (root env) sha) \<noteq> None" and "blobs st' = blobs st" and "arts st' = arts st"
proof -
  show "blob_wf env st'" using assms(2)
    by (rule place_cases) (use assms(1,3,4) written_wf [of env st d] in auto)
  show "files st' (blob_path (root env) sha) \<noteq> None" using assms(2) by (rule place_cases) auto
  show "blobs st' = blobs st" using assms(2) by (rule place_cases) auto
  show "arts st' = arts st" using assms(2) by (rule place_cases) auto
qed

lemma get_blob_Some: "get_blob sha st = Some b \<Longrightarrow> b \<in> set (blobs st) \<and> bl_sha b = sha"
  unfolding get_blob_def find_Some_iff by (metis nth_mem)

lemma get_blob_None: "get_blob sha st = None \<longleftrightarrow> sha \<notin> bl_sha ` set (blobs st)"
  by (auto simp: get_blob_def find_None_iff)

text \<open>Adding a row.\<close>

lemma added_wf:
  assumes wf: "blob_wf env st" and "bl_path b = blob_path (root env) (bl_sha b)" and "length (bl_sha b) = 64"
  shows "blob_wf env (st\<lparr>blobs := blobs st @ [b]\<rparr>)" (is "blob_wf env ?st")
proof -
  have "held env (ar_sha a) ?st" if "a \<in> set (arts st)" for a
    using blob_wfD(4) [OF wf that] by (rule held_mono [where extra = "[b]"]) auto
  then show ?thesis using wf assms(2,3) by (auto simp: blob_wf_def)
qed

lemma record_cases:
  assumes "record_blob env sha n st = (r, st')"
  obtains e where "st' = st" "r = Inl e"
  | b where "st' = st" "r = Inr (sha, blob_path (root env) sha)" "b \<in> set (blobs st)" "bl_sha b = sha"
  | b where "st' = st\<lparr>blobs := blobs st @ [b]\<rparr>" "r = Inr (sha, blob_path (root env) sha)" "bl_sha b = sha"
      "bl_path b = blob_path (root env) sha"
proof (cases "db_fault env UpsertBlob")
  case (Some e)
  then show ?thesis using assms by (intro that(1)) (auto simp: record_blob_def upsert_blob_def)
next
  case None
  show ?thesis
  proof (cases "get_blob sha st")
    case None
    with \<open>db_fault env UpsertBlob = None\<close> show ?thesis using assms
      by (intro that(3) [of "\<lparr>bl_sha = sha, bl_size = n, bl_path = blob_path (root env) sha, bl_created = clock env\<rparr>"])
        (auto simp: record_blob_def upsert_blob_def Let_def)
  next
    case (Some b)
    with None get_blob_Some [OF Some] show ?thesis using assms by (intro that(2)) (auto simp: record_blob_def upsert_blob_def)
  qed
qed

lemma record_wf:
  assumes "blob_wf env st" and "files st (blob_path (root env) sha) \<noteq> None" and "length sha = 64"
    and "record_blob env sha n st = (r, st')"
  shows "blob_wf env st'" and "arts st' = arts st" and "r = Inr (s, p) \<Longrightarrow> s = sha \<and> held env sha st'"
proof -
  show "blob_wf env st'" using assms(4) by (rule record_cases) (use assms(1,3) added_wf in auto)
  show "arts st' = arts st" using assms(4) by (rule record_cases) auto
  show "s = sha \<and> held env sha st'" if "r = Inr (s, p)"
    using assms(4) by (rule record_cases) (use assms(2,3) that in \<open>auto simp: held_def\<close>)
qed

lemma store_blob_wf:
  assumes "blob_wf env st" and "length (sha256 env d) = 64" and "store_blob env d st = (r, st')"
  shows "blob_wf env st'" and "arts st' = arts st" and "r = Inr (s, p) \<Longrightarrow> s = sha256 env d \<and> held env s st'"
proof -
  have "blob_wf env st' \<and> arts st' = arts st \<and> (\<forall>s p. r = Inr (s, p) \<longrightarrow> s = sha256 env d \<and> held env s st')"
  proof (cases "sum_bind (io_ok env MakeTmp) (\<lambda>_. sum_bind (io_ok env WriteTmp) (\<lambda>_. sum_bind (io_ok env MakeDir) (\<lambda>_.
             place env (blob_path (root env) (sha256 env d)) (Some d) st)))")
    case (Inl e)
    with assms show ?thesis by (auto simp: store_blob_def Let_def)
  next
    case (Inr st1)
    then have placed: "place env (blob_path (root env) (sha256 env d)) (Some d) st = Inr st1" by (auto simp: error_iff)
    from Inr assms(3) have rec: "record_blob env (sha256 env d) (length d) st1 = (r, st')" by (simp add: store_blob_def Let_def)
    note p = place_wf [OF assms(1) placed refl assms(2)]
    from record_wf [OF p(1,2) assms(2) rec] p(4) show ?thesis by auto
  qed
  then show "blob_wf env st'" and "arts st' = arts st" and "r = Inr (s, p) \<Longrightarrow> s = sha256 env d \<and> held env s st'" by blast+
qed

lemma removed_tmp_wf:
  assumes "blob_wf env st"
  shows "blob_wf env (st\<lparr>files := (files st)(tmp_path (root env) name := v)\<rparr>)"
proof -
  have "blob_path (root env) sha \<noteq> tmp_path (root env) name" if "length sha = 64" for sha by (rule tmp_is_no_blob [OF that])
  then show ?thesis using assms unfolding blob_wf_def held_def by auto
qed

lemma from_file_cases:
  assumes "files st tmp = Some d" and "store_blob_from_file env tmp sha n st = (r, st')"
  obtains e where "st' = st" "r = Inl e"
  | e where "st' = st\<lparr>files := (files st)(tmp := None)\<rparr>" "r = Inl e"
  | st1 where "place env (blob_path (root env) sha) (Some d) (st\<lparr>files := (files st)(tmp := None)\<rparr>) = Inr st1"
      "record_blob env sha n st1 = (r, st')"
proof (cases "length sha \<noteq> 64 \<or> \<not> list_all is_hexdigit sha")
  case True
  then show ?thesis using assms(2) that(1) by (auto simp: store_blob_from_file_def)
next
  case False
  show ?thesis
  proof (cases "io_ok env MakeDir")
    case (Inl e)
    then show ?thesis using assms(2) False that(1) by (auto simp: store_blob_from_file_def)
  next
    case (Inr u)
    then show ?thesis using assms False that(2,3)
      by (cases "place env (blob_path (root env) sha) (Some d) (st\<lparr>files := (files st)(tmp := None)\<rparr>)")
        (auto simp: store_blob_from_file_def Let_def)
  qed
qed

lemma from_file_wf:
  assumes "blob_wf env st" and "files st (tmp_path (root env) name) = Some d" and "sha256 env d = sha" and "length sha = 64"
    and "store_blob_from_file env (tmp_path (root env) name) sha n st = (r, st')"
  shows "blob_wf env st'" and "arts st' = arts st" and "r = Inr (s, p) \<Longrightarrow> s = sha \<and> held env s st'"
proof -
  let ?gone = "st\<lparr>files := (files st)(tmp_path (root env) name := None)\<rparr>"
  note gone = removed_tmp_wf [OF assms(1), of name None]
  have "blob_wf env st' \<and> arts st' = arts st \<and> (\<forall>s p. r = Inr (s, p) \<longrightarrow> s = sha \<and> held env s st')"
    using assms(2,5)
  proof (rule from_file_cases)
    fix st1
    assume placed: "place env (blob_path (root env) sha) (Some d) ?gone = Inr st1" and rec: "record_blob env sha n st1 = (r, st')"
    note p = place_wf [OF gone placed assms(3,4)]
    from record_wf [OF p(1,2) assms(4) rec] p(4) show ?thesis by auto
  qed (use assms(1) gone in auto)
  then show "blob_wf env st'" and "arts st' = arts st" and "r = Inr (s, p) \<Longrightarrow> s = sha \<and> held env s st'" by blast+
qed

lemma insert_artifact_cases:
  assumes "insert_artifact env i ok proj sha name mime src meta descr st = (r, st')"
  obtains e where "st' = st" "r = Inl e"
  | a where "st' = st\<lparr>arts := arts st @ [a]\<rparr>" "r = Inr a" "ar_sha a = sha" "ar_id a = i" "ar_project a = proj"
  using assms by (auto simp: insert_artifact_def Let_def split: option.splits if_splits)

lemma held_frame: "held env s (st\<lparr>arts := x\<rparr>) = held env s st" "held env s (st\<lparr>run_links := l\<rparr>) = held env s st"
  by (simp_all add: held_def)

lemma insert_artifact_wf:
  assumes "blob_wf env st" and "held env sha st" and "insert_artifact env i ok proj sha name mime src meta descr st = (r, st')"
  shows "blob_wf env st'"
  using assms(3)
proof (rule insert_artifact_cases)
  fix a assume "st' = st\<lparr>arts := arts st @ [a]\<rparr>" "ar_sha a = sha"
  then show ?thesis using assms(1,2) by (auto simp: blob_wf_def held_frame)
qed (use assms(1) in simp)

lemma ingest_wf:
  assumes "blob_wf env st" and "\<And>d. length (sha256 env d) = 64"
  shows "blob_wf env (snd (ingest_artifact env i ok proj name d mime src st))"
proof (cases "store_blob env d st")
  case (Pair r st1)
  note s = store_blob_wf [OF assms(1,2) Pair]
  show ?thesis
  proof (cases r)
    case (Inl e)
    with Pair s(1) show ?thesis by (simp add: ingest_artifact_def)
  next
    case (Inr q)
    then obtain sha p where q: "r = Inr (sha, p)" by (cases q) simp
    from s(3) [OF this] have h: "held env sha st1" by blast
    obtain x st2 where c: "create_artifact env i ok proj sha name mime src st1 = (x, st2)" by (cases "create_artifact env i ok proj sha name mime src st1")
    from insert_artifact_wf [OF s(1) h c [unfolded create_artifact_def]] have "blob_wf env st2" .
    with Pair q c show ?thesis by (simp add: ingest_artifact_def split: sum.split)
  qed
qed

lemma store_inner_wf:
  assumes "blob_wf env (snd w)" and "\<And>d. length (sha256 env d) = 64"
  shows "blob_wf env (snd (snd (store_inner env i name d mime meta descr w)))"
proof (cases "store_blob env d (snd w)")
  case (Pair r st1)
  note s = store_blob_wf [OF assms(1,2) Pair]
  have links: "blob_wf env (st\<lparr>run_links := l\<rparr>) = blob_wf env st" for st l by (simp add: blob_wf_def held_frame)
  show ?thesis
  proof (cases r)
    case (Inl e)
    with Pair s(1) assms(1) show ?thesis by (simp add: store_inner_def Let_def)
  next
    case (Inr q)
    then obtain sha p where q: "r = Inr (sha, p)" by (cases q) simp
    from s(3) [OF this] have h: "held env sha st1" by blast
    let ?c = "case descr of
                Some d \<Rightarrow> create_artifact_with_description env i True (ost_project (fst w)) sha name mime (Some (ost_run (fst w))) d st1
              | None \<Rightarrow>
               (case meta of
                  Some m \<Rightarrow> create_artifact_with_metadata env i True (ost_project (fst w)) sha name mime (Some (ost_run (fst w))) m st1
                | None \<Rightarrow> create_artifact env i True (ost_project (fst w)) sha name mime (Some (ost_run (fst w))) st1)"
    obtain x st2 where c: "?c = (x, st2)" by (cases ?c)
    then obtain m t where "insert_artifact env i True (ost_project (fst w)) sha name mime (Some (ost_run (fst w))) m t st1 = (x, st2)"
      by (auto simp: create_artifact_def create_artifact_with_description_def create_artifact_with_metadata_def split: option.splits)
    from insert_artifact_wf [OF s(1) h this] have "blob_wf env st2" .
    with Pair q c assms(1) show ?thesis by (auto simp: store_inner_def Let_def links split: option.splits sum.splits)
  qed
qed

lemma drop_artifacts_wf: "blob_wf env st \<Longrightarrow> blob_wf env (drop_artifacts p st)"
  by (auto simp: drop_artifacts_def Let_def blob_wf_def held_def)

lemma describe_wf: "blob_wf env st \<Longrightarrow> blob_wf env (snd (update_artifact_description i descr st))"
  by (auto simp: update_artifact_description_def Let_def blob_wf_def held_def)

section \<open>Collection\<close>

definition stale :: "store_env \<Rightarrow> storage \<Rightarrow> string \<times> string \<Rightarrow> bool" where
  "stale env st c \<longleftrightarrow> length (fst c) = 64 \<and> snd c = blob_path (root env) (fst c) \<and> \<not> referenced (fst c) st"

lemma collect_one_wf:
  assumes "blob_wf env st" and "stale env st c"
  shows "blob_wf env (collect_one env c st)" and "arts (collect_one env c st) = arts st"
proof -
  let ?f = "st\<lparr>files := (files st)(snd c := None)\<rparr>"
  obtain sha where c: "c = (sha, blob_path (root env) sha)" and len: "length sha = 64" and un: "\<not> referenced sha st"
    using assms(2) by (cases c) (auto simp: stale_def)
  have ne: "bl_sha b \<noteq> sha" "blob_path (root env) (bl_sha b) \<noteq> snd c"
    if "held env (bl_sha b) st" "\<exists>a \<in> set (arts st). ar_sha a = bl_sha b" for b
    using that un len c blob_path_inj [of "root env" "bl_sha b" sha] by (auto simp: referenced_def held_def)
  have h: "held env (ar_sha a) ?f" "held env (ar_sha a) (?f\<lparr>blobs := filter (\<lambda>b. bl_sha b \<noteq> sha) (blobs st)\<rparr>)"
    if "a \<in> set (arts st)" for a
  proof -
    from blob_wfD(4) [OF assms(1) that] obtain b where b: "b \<in> set (blobs st)" "bl_sha b = ar_sha a" "held env (bl_sha b) st"
      by (auto simp: held_def)
    with ne [of b] that have n: "bl_sha b \<noteq> sha" "blob_path (root env) (bl_sha b) \<noteq> snd c" by auto
    with b show "held env (ar_sha a) ?f" "held env (ar_sha a) (?f\<lparr>blobs := filter (\<lambda>b. bl_sha b \<noteq> sha) (blobs st)\<rparr>)"
      unfolding held_def by auto
  qed
  have "files ?f q = Some d \<Longrightarrow> files st q = Some d" for q d by (auto split: if_splits)
  then have "blob_wf env ?f" "blob_wf env (?f\<lparr>blobs := filter (\<lambda>b. bl_sha b \<noteq> sha) (blobs st)\<rparr>)"
    using h blob_wfD(1-3) [OF assms(1)] unfolding blob_wf_def by (simp_all split: if_splits)
  then show "blob_wf env (collect_one env c st)" using assms(1) c un
    by (auto simp: collect_one_def delete_blob_file_def delete_blob_if_unreferenced_def referenced_def split: option.split)
  show "arts (collect_one env c st) = arts st"
    by (auto simp: collect_one_def delete_blob_file_def delete_blob_if_unreferenced_def split: option.split)
qed

lemma collect_wf:
  assumes "blob_wf env st" and "\<And>c. c \<in> set cands \<Longrightarrow> stale env st c"
  shows "blob_wf env (collect env cands st) \<and> arts (collect env cands st) = arts st"
  using assms
proof (induction cands arbitrary: st)
  case (Cons c cands)
  note one = collect_one_wf [OF Cons.prems(1) Cons.prems(2) [of c]]
  have "stale env (collect_one env c st) x" if "x \<in> set cands" for x
    using Cons.prems(2) [of x] that one(2) by (auto simp: stale_def referenced_def)
  with Cons.IH [OF one(1)] one(2) show ?case by (simp add: collect_def)
qed (simp add: collect_def)

lemma blob_gc_wf: "blob_wf env st \<Longrightarrow> blob_wf env (blob_gc env st)"
proof -
  assume wf: "blob_wf env st"
  then have "stale env st c" if "c \<in> set (find_unreferenced_blobs st)" for c
    using that by (auto simp: find_unreferenced_blobs_def stale_def blob_wf_def)
  with collect_wf [OF wf] show ?thesis by (simp add: blob_gc_def)
qed

section \<open>Runs\<close>

text \<open>The operations on one storage, each whole: writes of tools and of the ingestion, uploads,
  deletions of any artifacts, descriptions, and the tick's collection. The failures may differ
  each time.\<close>

inductive store_reach :: "(string \<Rightarrow> string) \<Rightarrow> string \<Rightarrow> storage \<Rightarrow> bool" for h r where
  start: "store_reach h r \<lparr>files = Map.empty, blobs = [], arts = [], run_links = []\<rparr>"
| ingest: "store_reach h r st \<Longrightarrow> sha256 env = h \<Longrightarrow> root env = r \<Longrightarrow>
    store_reach h r (snd (ingest_artifact env i ok proj name d mime src st))"
| tool: "store_reach h r st \<Longrightarrow> sha256 env = h \<Longrightarrow> root env = r \<Longrightarrow>
    store_reach h r (snd (snd (store_inner env i name d mime meta descr (out, st))))"
| temp: "store_reach h r st \<Longrightarrow> store_reach h r (st\<lparr>files := (files st)(tmp_path r name := v)\<rparr>)"
| upload: "store_reach h r st \<Longrightarrow> sha256 env = h \<Longrightarrow> root env = r \<Longrightarrow> files st (tmp_path r name) = Some d \<Longrightarrow>
    store_blob_from_file env (tmp_path r name) (h d) n st = (Inr (sha, p), st') \<Longrightarrow>
    store_reach h r (snd (create_artifact env i ok proj sha fname mime src st'))"
| upload_failed: "store_reach h r st \<Longrightarrow> sha256 env = h \<Longrightarrow> root env = r \<Longrightarrow> files st (tmp_path r name) = Some d \<Longrightarrow>
    store_blob_from_file env (tmp_path r name) (h d) n st = (Inl e, st') \<Longrightarrow> store_reach h r st'"
| delete: "store_reach h r st \<Longrightarrow> store_reach h r (drop_artifacts p st)"
| describe: "store_reach h r st \<Longrightarrow> store_reach h r (snd (update_artifact_description i descr st))"
| gc: "store_reach h r st \<Longrightarrow> sha256 env = h \<Longrightarrow> root env = r \<Longrightarrow> store_reach h r (blob_gc env st)"

lemma blob_wf_env: "sha256 env = sha256 env' \<Longrightarrow> root env = root env' \<Longrightarrow> blob_wf env st = blob_wf env' st"
  by (simp add: blob_wf_def held_def)

definition calm :: "(string \<Rightarrow> string) \<Rightarrow> string \<Rightarrow> store_env" where
  "calm h r = \<lparr>sha256 = h, root = r, clock = 0, io_fault = (\<lambda>_. None), db_fault = (\<lambda>_. None)\<rparr>"

lemma calm_sel [simp]: "sha256 (calm h r) = h" "root (calm h r) = r" "io_fault (calm h r) c = None" "db_fault (calm h r) s = None"
  by (simp_all add: calm_def)

lemma store_reach_wf:
  assumes "store_reach h r st" and len: "\<And>d. length (h d) = 64"
  shows "blob_wf (calm h r) st"
  using assms(1)
proof (induction rule: store_reach.induct)
  case start
  then show ?case by (simp add: blob_wf_def)
next
  case (ingest st env i ok proj name d mime src)
  then show ?case using ingest_wf [of env st] len blob_wf_env [of env "calm h r"] by simp
next
  case (tool st env i name d mime meta descr out)
  then show ?case using store_inner_wf [of env "(out, st)"] len blob_wf_env [of env "calm h r"] by simp
next
  case (temp st name v)
  then show ?case using removed_tmp_wf [of "calm h r" st name v] by simp
next
  case (upload st env name d n sha p st' i ok proj fname mime src)
  note eq = blob_wf_env [of env "calm h r"]
  have wf: "blob_wf env st" using upload eq by simp
  note f = from_file_wf [OF wf, of name d "h d" n, unfolded upload.hyps(2,3), OF upload.hyps(4) refl len upload.hyps(5)]
  from f(3) [OF refl] have "held env sha st'" by blast
  from insert_artifact_wf [OF f(1) this, of i ok proj fname mime src "JObj []" None] upload.hyps(2,3) eq
  show ?case by (cases "insert_artifact env i ok proj sha fname mime src (JObj []) None st'") (simp add: create_artifact_def)
next
  case (upload_failed st env name d n e st')
  note eq = blob_wf_env [of env "calm h r"]
  have wf: "blob_wf env st" using upload_failed eq by simp
  from from_file_wf(1) [OF wf, of name d "h d" n, unfolded upload_failed.hyps(2,3), OF upload_failed.hyps(4) refl len upload_failed.hyps(5)]
  show ?case using upload_failed.hyps(2,3) eq by simp
next
  case (delete st p)
  then show ?case by (simp add: drop_artifacts_wf)
next
  case (describe st i descr)
  then show ?case by (simp add: describe_wf)
next
  case (gc st env)
  then show ?case using blob_gc_wf [of env st] blob_wf_env [of env "calm h r"] by simp
qed

text \<open>Reading an artifact: its row, the row of its content, the file named there.\<close>

definition read_content :: "artifact_rec \<Rightarrow> storage \<Rightarrow> string option" where
  "read_content a st = Option.bind (get_blob (ar_sha a) st) (\<lambda>b. files st (bl_path b))"

lemma wf_readable:
  assumes "blob_wf env st" and "a \<in> set (arts st)"
  shows "\<exists>d. read_content a st = Some d \<and> sha256 env d = ar_sha a"
proof -
  from assms have h: "held env (ar_sha a) st" by (simp add: blob_wf_def)
  then obtain b where "get_blob (ar_sha a) st = Some b" "b \<in> set (blobs st)" "bl_sha b = ar_sha a"
    unfolding held_def get_blob_def by (metis (mono_tags, lifting) find_None_iff find_Some_iff not_None_eq nth_mem)
  with assms(1) h show ?thesis by (auto simp: read_content_def blob_wf_def held_def)
qed

section \<open>A collection that overlaps a write\<close>

lemma ingest_Inr:
  assumes "ingest_artifact env i ok p name d mime src st = (Inr x, st')" and "blob_wf env st" and "\<And>e. length (sha256 env e) = 64"
  shows "\<exists>a. arts st' = arts st @ [a] \<and> ar_sha a = sha256 env d \<and> ar_id a = i \<and> ar_project a = p"
proof (cases "store_blob env d st")
  case (Pair r s1)
  note w = store_blob_wf [OF assms(2,3) Pair]
  obtain sha q where r: "r = Inr (sha, q)" using assms(1) Pair by (cases r) (auto simp: ingest_artifact_def)
  obtain y s2 where c: "create_artifact env i ok p sha name mime src s1 = (y, s2)"
    by (cases "create_artifact env i ok p sha name mime src s1")
  from assms(1) Pair r c obtain a where a: "y = Inr a" "st' = s2" by (cases y) (auto simp: ingest_artifact_def)
  from c [unfolded create_artifact_def] show ?thesis
    by (rule insert_artifact_cases) (use a w(2,3) r in auto)
qed

lemma collect_subset: "set (blobs (collect env cands st)) \<subseteq> set (blobs st)"
proof (induction cands arbitrary: st)
  case (Cons c cands)
  have "set (blobs (collect_one env c st)) \<subseteq> set (blobs st)"
    by (auto simp: collect_one_def delete_blob_file_def delete_blob_if_unreferenced_def split: option.splits)
  with Cons.IH show ?case by (fastforce simp: collect_def)
qed (simp add: collect_def)

lemma collect_absent: "files st path = None \<Longrightarrow> files (collect env cands st) path = None"
proof (induction cands arbitrary: st)
  case (Cons c cands)
  have "files (collect_one env c st) path = None" using Cons.prems
    by (auto simp: collect_one_def delete_blob_file_def delete_blob_if_unreferenced_def split: option.splits)
  with Cons.IH show ?case by (simp add: collect_def)
qed (simp add: collect_def)

lemma collect_one_keeps:
  "arts (collect_one env c st) = arts st"
  "b \<in> set (blobs st) \<Longrightarrow> referenced (bl_sha b) st \<Longrightarrow> b \<in> set (blobs (collect_one env c st))"
  by (auto simp: collect_one_def delete_blob_file_def delete_blob_if_unreferenced_def referenced_def split: option.splits)

lemma collect_arts [simp]: "arts (collect env cands st) = arts st"
  by (induction cands arbitrary: st) (simp_all add: collect_def collect_one_keeps)

lemma collect_keeps_rows:
  "b \<in> set (blobs st) \<Longrightarrow> referenced (bl_sha b) st \<Longrightarrow> b \<in> set (blobs (collect env cands st))"
proof (induction cands arbitrary: st)
  case (Cons c cands)
  have "referenced (bl_sha b) (collect_one env c st)" using Cons.prems(2) by (simp add: referenced_def collect_one_keeps)
  with Cons.IH [OF collect_one_keeps(2) [OF Cons.prems]] show ?case by (simp add: collect_def)
qed (simp add: collect_def)

lemma collect_removes:
  assumes "(sha, path) \<in> set cands" and "\<And>p. io_fault env (RemoveFile p) = None"
  shows "files (collect env cands st) path = None"
  using assms(1)
proof (induction cands arbitrary: st)
  case (Cons c cands)
  show ?case
  proof (cases "c = (sha, path)")
    case True
    then have "files (collect_one env c st) path = None"
      by (auto simp: collect_one_def delete_blob_file_def delete_blob_if_unreferenced_def assms(2) split: option.splits)
    from collect_absent [OF this] show ?thesis by (simp add: collect_def)
  next
    case False
    with Cons show ?thesis by (simp add: collect_def)
  qed
qed simp

section \<open>Where files are\<close>

definition paths_ok :: "string \<Rightarrow> storage \<Rightarrow> bool" where
  "paths_ok r st \<longleftrightarrow>
     (\<forall>p. files st p \<noteq> None \<longrightarrow> (\<exists>sha. length sha = 64 \<and> p = blob_path r sha) \<or> (\<exists>name. p = tmp_path r name))"

lemma paths_grow:
  assumes "paths_ok r st" and "\<And>p. files st' p \<noteq> None \<Longrightarrow> files st p \<noteq> None \<or> (\<exists>sha. length sha = 64 \<and> p = blob_path r sha)"
  shows "paths_ok r st'"
  using assms unfolding paths_ok_def by blast

lemma place_files:
  "place env (blob_path (root env) sha) d st = Inr st' \<Longrightarrow> length sha = 64 \<Longrightarrow> files st' p \<noteq> None \<Longrightarrow>
     files st p \<noteq> None \<or> (\<exists>sha. length sha = 64 \<and> p = blob_path (root env) sha)"
  by (auto simp: place_def split: option.splits if_splits)

lemma record_files: "record_blob env sha n st = (r, st') \<Longrightarrow> files st' = files st"
  by (erule record_cases) auto

lemma insert_files: "insert_artifact env i ok proj sha name mime src meta descr st = (r, st') \<Longrightarrow> files st' = files st"
  by (erule insert_artifact_cases) auto

lemma create_files: "create_artifact env i ok proj sha name mime src st = (r, st') \<Longrightarrow> files st' = files st"
  unfolding create_artifact_def by (rule insert_files)

lemma store_blob_files:
  assumes "store_blob env d st = (r, st')" and "length (sha256 env d) = 64" and "files st' p \<noteq> None"
  shows "files st p \<noteq> None \<or> (\<exists>sha. length sha = 64 \<and> p = blob_path (root env) sha)"
proof (cases "sum_bind (io_ok env MakeTmp) (\<lambda>_. sum_bind (io_ok env WriteTmp) (\<lambda>_. sum_bind (io_ok env MakeDir) (\<lambda>_.
             place env (blob_path (root env) (sha256 env d)) (Some d) st)))")
  case (Inl e)
  with assms show ?thesis by (auto simp: store_blob_def Let_def)
next
  case (Inr st1)
  then have placed: "place env (blob_path (root env) (sha256 env d)) (Some d) st = Inr st1" by (auto simp: error_iff)
  from Inr assms(1) have rec: "record_blob env (sha256 env d) (length d) st1 = (r, st')" by (simp add: store_blob_def Let_def)
  from record_files [OF rec] assms(3) have "files st1 p \<noteq> None" by simp
  from place_files [OF placed assms(2) this] show ?thesis .
qed

lemma ingest_files:
  assumes "files (snd (ingest_artifact env i ok proj name d mime src st)) p \<noteq> None" and "length (sha256 env d) = 64"
  shows "files st p \<noteq> None \<or> (\<exists>sha. length sha = 64 \<and> p = blob_path (root env) sha)"
proof (cases "store_blob env d st")
  case (Pair r st1)
  have "files (snd (ingest_artifact env i ok proj name d mime src st)) = files st1"
    using Pair by (auto simp: ingest_artifact_def split: sum.split prod.split dest: create_files)
  with assms(1) store_blob_files [OF Pair assms(2)] show ?thesis by simp
qed

lemma store_inner_files:
  assumes "files (snd (snd (store_inner env i name d mime meta descr (out, st)))) p \<noteq> None" and "length (sha256 env d) = 64"
  shows "files st p \<noteq> None \<or> (\<exists>sha. length sha = 64 \<and> p = blob_path (root env) sha)"
proof (cases "store_blob env d st")
  case (Pair r st1)
  have ins: "files (snd (insert_artifact env i True (ost_project out) sha name mime (Some (ost_run out)) m t st1)) = files st1" for sha m t
    using insert_files [of env i True "ost_project out" sha name mime "Some (ost_run out)" m t st1] by (metis surjective_pairing)
  have "files (snd (snd (store_inner env i name d mime meta descr (out, st)))) \<in> {files st, files st1}"
    using Pair ins
    by (auto simp: store_inner_def Let_def create_artifact_def create_artifact_with_description_def create_artifact_with_metadata_def
        split: sum.split prod.split option.split) (metis snd_conv)+
  with assms(1) store_blob_files [OF Pair assms(2), of p] show ?thesis by (metis insertE singletonD)
qed

lemma from_file_files:
  assumes "files st tmp = Some d" and "store_blob_from_file env tmp sha n st = (r, st')" and "length sha = 64" and "files st' p \<noteq> None"
  shows "files st p \<noteq> None \<or> (\<exists>sha. length sha = 64 \<and> p = blob_path (root env) sha)"
  using assms(1,2)
proof (rule from_file_cases)
  fix st1
  assume placed: "place env (blob_path (root env) sha) (Some d) (st\<lparr>files := (files st)(tmp := None)\<rparr>) = Inr st1"
    and rec: "record_blob env sha n st1 = (r, st')"
  from record_files [OF rec] assms(4) have "files st1 p \<noteq> None" by simp
  from place_files [OF placed assms(3) this] show ?thesis by (auto split: if_splits)
qed (use assms(4) in \<open>auto split: if_splits\<close>)

lemma collect_files: "files (collect env cands st) p \<noteq> None \<Longrightarrow> files st p \<noteq> None"
  by (rule notI, erule notE, rule collect_absent)

lemma store_reach_paths:
  assumes "store_reach h r st" and len: "\<And>d. length (h d) = 64"
  shows "paths_ok r st"
  using assms(1)
proof (induction rule: store_reach.induct)
  case start
  then show ?case by (simp add: paths_ok_def)
next
  case (ingest st env i ok proj name d mime src)
  show ?case by (rule paths_grow [OF ingest.IH]) (use ingest_files [of env] ingest.hyps(2,3) len in auto)
next
  case (tool st env i name d mime meta descr out)
  show ?case by (rule paths_grow [OF tool.IH]) (use store_inner_files [of env] tool.hyps(2,3) len in auto)
next
  case (temp st name v)
  then show ?case by (auto simp: paths_ok_def split: if_splits)
next
  case (upload st env name d n sha p st' i ok proj fname mime src)
  have "files (snd (create_artifact env i ok proj sha fname mime src st')) = files st'"
    using create_files by (metis surjective_pairing)
  with paths_grow [OF upload.IH from_file_files [OF upload.hyps(4,5) len, unfolded upload.hyps(3)]] show ?case
    by (simp add: paths_ok_def)
next
  case (upload_failed st env name d n e st')
  show ?case by (rule paths_grow [OF upload_failed.IH from_file_files [OF upload_failed.hyps(4,5) len, unfolded upload_failed.hyps(3)]])
next
  case (delete st p)
  then show ?case by (simp add: paths_ok_def drop_artifacts_def Let_def)
next
  case (describe st i descr)
  then show ?case by (simp add: paths_ok_def update_artifact_description_def Let_def)
next
  case (gc st env)
  show ?case by (rule paths_grow [OF gc.IH]) (use collect_files in \<open>auto simp: blob_gc_def\<close>)
qed

end
