(* ===== verification/ArtifactApi.thy ===== *)
theory ArtifactApi
  imports ProjectApi BlobSteps Quotas
begin

text \<open>
  The artifact routes of the API, \<open>af-api/src/routes/artifacts.rs\<close>: upload with its storage
  quota, listing, download, deletion and description, each behind the access check. The
  export of an analysis project as an archive is not modelled.
\<close>

datatype upload_stmt = UpTempFile | UpWrite nat | UpFlush | UpGetQuota | UpReserve | UpRelease | UpScope | UpCommit

record upload_env =
  ue_api :: api_env
  ue_store :: store_env
  ue_max :: nat                       \<comment> \<open>\<open>upload_max_bytes\<close>\<close>
  ue_tmp :: string                    \<comment> \<open>name of the temporary file\<close>
  ue_fault :: "upload_stmt \<Rightarrow> string option"

record site =
  s_tenants :: store
  s_content :: storage
  s_quota :: quota_db

text \<open>The guard of the routes below a project: a transaction of its own.\<close>

definition project_guard :: "api_env \<Rightarrow> identity \<Rightarrow> uuid \<Rightarrow> action \<Rightarrow> api_error \<Rightarrow> store \<Rightarrow> api_error + uuid option" where
  "project_guard env i p act missing db =
     sum_bind (scope_of i) (\<lambda>v.
     case get_project v db p of
       None \<Rightarrow> Inl missing
     | Some _ \<Rightarrow> sum_bind (require_project_access (authz_fault env) v db i p act) (\<lambda>_. commit env v))"

lemma guard_may:
  assumes "project_guard env i q act e db = Inr v" and "keys_ok db" and "\<not> is_admin i" and "id_user i = Some u"
  shows "may db u q act"
proof -
  from assms(1) have "scope_of i = Inr v" "require_project_access (authz_fault env) v db i q act = Inr ()"
    by (auto simp: project_guard_def error_iff commit_def split: option.splits)
  from require_access [OF this(2,1) assms(3,4)] access_scoped [OF assms(2)] show ?thesis by simp
qed

section \<open>Upload\<close>

definition too_large :: "nat \<Rightarrow> api_error" where
  "too_large n = PayloadTooLarge (''file size exceeds max '' @ show_nat n)"

fun stream_body :: "upload_env \<Rightarrow> nat \<Rightarrow> (string + string) list \<Rightarrow> string \<Rightarrow> api_error + string" where
  "stream_body env k [] acc =
     (case ue_fault env UpFlush of Some e \<Rightarrow> Inl (Internal (''failed to flush temp file: '' @ e)) | None \<Rightarrow> Inr acc)"
| "stream_body env k (Inl e # cs) acc = Inl (BadRequest (''failed to read file data: '' @ e))"
| "stream_body env k (Inr c # cs) acc =
     (if ue_max env < length acc + length c then Inl (too_large (ue_max env))
      else case ue_fault env (UpWrite k) of
        Some e \<Rightarrow> Inl (Internal (''failed to write temp file: '' @ e))
      | None \<Rightarrow> stream_body env (k + 1) cs (acc @ c))"

text \<open>The caller's quota. A database that cannot be asked lets the upload pass.\<close>

definition reserve_upload :: "upload_env \<Rightarrow> uuid \<Rightarrow> nat \<Rightarrow> quota_db \<Rightarrow> api_error + quota_db" where
  "reserve_upload env u n q =
     sum_bind
       (case (if ue_fault env UpGetQuota = None then get_quota q u else None) of
          None \<Rightarrow> Inr ()
        | Some row \<Rightarrow>
            if max_upload_bytes row < int n
            then Inl (PayloadTooLarge (''file size '' @ show_nat n @ '' exceeds per-file upload limit '' @ show_int (max_upload_bytes row)))
            else Inr ())
       (\<lambda>_. case (if ue_fault env UpReserve = None then reserve_storage u (int n) q else Inl ''failed'') of
            Inl _ \<Rightarrow> Inr q
          | Inr (ok, q') \<Rightarrow> if ok then Inr q' else Inl (PayloadTooLarge ''storage quota exceeded''))"

definition release_upload :: "upload_env \<Rightarrow> identity \<Rightarrow> nat \<Rightarrow> quota_db \<Rightarrow> quota_db" where
  "release_upload env i n q =
     (case id_user i of
        None \<Rightarrow> q
      | Some u \<Rightarrow> (case (if ue_fault env UpRelease = None then release_storage u (int n) q else Inl ''failed'') of
                     Inl _ \<Rightarrow> q | Inr q' \<Rightarrow> q'))"

text \<open>The row is written in a transaction scoped to the caller, when there is one.\<close>

definition row_error :: "string \<Rightarrow> api_error" where
  "row_error e = api_of_db (if e = ''foreign key'' then ForeignKey else Fault e)"

definition create_uploaded ::
  "upload_env \<Rightarrow> identity \<Rightarrow> uuid \<Rightarrow> uuid \<Rightarrow> string \<Rightarrow> string \<Rightarrow> nat \<Rightarrow> site \<Rightarrow> (api_error + artifact_rec) \<times> site" where
  "create_uploaded env i fresh p sha fname n s =
     (let db = s_tenants s; v = id_user i;
          exists_p = (p \<in> proj_id ` set (projects db) \<and> sees db v p);
          r = create_artifact (ue_store env) fresh exists_p p sha fname None None (s_content s) in
      case (if v = None then None else ue_fault env UpScope) of
        Some e \<Rightarrow> (Inl (Internal ''internal database error''), s)
      | None \<Rightarrow>
      (case fst r of
         Inl e \<Rightarrow> (Inl (row_error e), s\<lparr>s_quota := release_upload env i n (s_quota s)\<rparr>)
       | Inr a \<Rightarrow>
          (case (if v = None then None else ue_fault env UpCommit) of
             Some e \<Rightarrow> (Inl (Internal ''internal database error''), s)
           | None \<Rightarrow> (Inr a, s\<lparr>s_content := snd r\<rparr>))))"

definition with_temp :: "upload_env \<Rightarrow> string option \<Rightarrow> storage \<Rightarrow> storage" where
  "with_temp env d st = st\<lparr>files := (files st)(tmp_path (root (ue_store env)) (ue_tmp env) := d)\<rparr>"

definition store_uploaded ::
  "upload_env \<Rightarrow> identity \<Rightarrow> uuid \<Rightarrow> uuid \<Rightarrow> string \<Rightarrow> string \<Rightarrow> site \<Rightarrow> (api_error + artifact_rec) \<times> site" where
  "store_uploaded env i fresh p fname data s =
     (let n = length data; sha = sha256 (ue_store env) data;
          st = with_temp env (Some data) (s_content s) in
      case (case id_user i of None \<Rightarrow> Inr (s_quota s) | Some u \<Rightarrow> reserve_upload env u n (s_quota s)) of
        Inl e \<Rightarrow> (Inl e, s\<lparr>s_content := with_temp env None st\<rparr>)
      | Inr q \<Rightarrow>
      (case store_blob_from_file (ue_store env) (tmp_path (root (ue_store env)) (ue_tmp env)) sha n st of
         (Inl e, st') \<Rightarrow> (Inl (Internal (store_text e)),
                          s\<lparr>s_content := with_temp env None st', s_quota := release_upload env i n q\<rparr>)
       | (Inr _, st') \<Rightarrow> create_uploaded env i fresh p sha fname n (s\<lparr>s_content := st', s_quota := q\<rparr>)))"

text \<open>A body is the file's name and its chunks as they arrive, or an error of the form.\<close>

type_synonym upload_body = "string + (string option \<times> (string + string) list) option"

definition upload :: "upload_env \<Rightarrow> identity \<Rightarrow> uuid \<Rightarrow> uuid \<Rightarrow> upload_body \<Rightarrow> site \<Rightarrow> (api_error + artifact_rec) \<times> site" where
  "upload env i fresh p body s =
     (case project_guard (ue_api env) i p Write (Forbidden ''access denied'') (s_tenants s) of
        Inl e \<Rightarrow> (Inl e, s)
      | Inr _ \<Rightarrow>
     (case body of
        Inl e \<Rightarrow> (Inl (BadRequest (''multipart error: '' @ e)), s)
      | Inr None \<Rightarrow> (Inl (BadRequest ''no file field in multipart body''), s)
      | Inr (Some (fname, chunks)) \<Rightarrow>
     (case ue_fault env UpTempFile of
        Some e \<Rightarrow> (Inl (Internal (''failed to create temp file: '' @ e)), s)
      | None \<Rightarrow>
     (case stream_body env 0 chunks [] of
        Inl e \<Rightarrow> (Inl e, s\<lparr>s_content := with_temp env None (s_content s)\<rparr>)
      | Inr data \<Rightarrow> store_uploaded env i fresh p (case fname of None \<Rightarrow> ''upload'' | Some f \<Rightarrow> f) data s))))"

section \<open>The other routes\<close>

definition seen_artifact :: "uuid option \<Rightarrow> uuid \<Rightarrow> site \<Rightarrow> artifact_rec option" where
  "seen_artifact v i s = List.find (\<lambda>a. ar_id a = i \<and> sees (s_tenants s) v (ar_project a)) (arts (s_content s))"

definition no_artifact :: "api_env \<Rightarrow> uuid \<Rightarrow> api_error" where
  "no_artifact env a = NotFound (''artifact '' @ api_show env a @ '' not found'')"

definition artifact_guard :: "api_env \<Rightarrow> identity \<Rightarrow> uuid \<Rightarrow> action \<Rightarrow> site \<Rightarrow> api_error + artifact_rec" where
  "artifact_guard env i x act s =
     sum_bind (scope_of i) (\<lambda>v.
     case seen_artifact v x s of
       None \<Rightarrow> Inl (no_artifact env x)
     | Some a \<Rightarrow> sum_bind (require_project_access (authz_fault env) v (s_tenants s) i (ar_project a) act) (\<lambda>_. Inr a))"

definition list_route :: "api_env \<Rightarrow> identity \<Rightarrow> uuid \<Rightarrow> site \<Rightarrow> api_error + artifact_rec list" where
  "list_route env i p s =
     sum_bind (project_guard env i p Read (not_found env p) (s_tenants s)) (\<lambda>v.
     Inr (rev (sort_key ar_created (filter (\<lambda>a. ar_project a = p) (arts (s_content s))))))"

definition download :: "api_env \<Rightarrow> identity \<Rightarrow> uuid \<Rightarrow> site \<Rightarrow> api_error + string \<times> string" where
  "download env i x s =
     sum_bind (artifact_guard env i x Read s) (\<lambda>a.
     case get_blob (ar_sha a) (s_content s) of
       None \<Rightarrow> Inl (NotFound ''blob not found'')
     | Some b \<Rightarrow> sum_bind (commit env ()) (\<lambda>_.
         case files (s_content s) (bl_path b) of
           None \<Rightarrow> Inl (Internal ''failed to open blob: not found'')
         | Some d \<Rightarrow> Inr (''attachment; filename='' @ [CHR 0x22] @ ar_filename a @ [CHR 0x22], d)))"

definition change :: "api_env \<Rightarrow> (storage \<Rightarrow> 'r \<times> storage) \<Rightarrow> site \<Rightarrow> (api_error + 'r) \<times> site" where
  "change env f s =
     (case f (s_content s) of (r, st) \<Rightarrow>
        (case commit env r of Inl e \<Rightarrow> (Inl e, s) | Inr r \<Rightarrow> (Inr r, s\<lparr>s_content := st\<rparr>)))"

definition delete_route :: "api_env \<Rightarrow> identity \<Rightarrow> uuid \<Rightarrow> site \<Rightarrow> (api_error + bool) \<times> site" where
  "delete_route env i x s =
     (case artifact_guard env i x Write s of
        Inl e \<Rightarrow> (Inl e, s)
      | Inr _ \<Rightarrow> change env (delete_artifact x) s)"

definition delete_generated_route :: "api_env \<Rightarrow> identity \<Rightarrow> uuid \<Rightarrow> site \<Rightarrow> (api_error + nat) \<times> site" where
  "delete_generated_route env i p s =
     (case project_guard env i p Write (not_found env p) (s_tenants s) of
        Inl e \<Rightarrow> (Inl e, s)
      | Inr _ \<Rightarrow> change env (delete_generated_artifacts p) s)"

definition update_description_route :: "api_env \<Rightarrow> identity \<Rightarrow> uuid \<Rightarrow> string \<Rightarrow> site \<Rightarrow> (api_error + artifact_rec option) \<times> site" where
  "update_description_route env i x descr s =
     (if descr = [] \<or> 1000 < length descr
      then (Inl (BadRequest ''description must be 1-1000 characters''), s)
      else case artifact_guard env i x Write s of
        Inl e \<Rightarrow> (Inl e, s)
      | Inr _ \<Rightarrow>
          (case fst (update_artifact_description x descr (s_content s)) of
             None \<Rightarrow> (Inl (no_artifact env x), s)
           | Some _ \<Rightarrow> change env (update_artifact_description x descr) s))"

section \<open>Requests\<close>

datatype artifact_request =
    ReqUpload uuid uuid upload_body
  | ReqDelete uuid
  | ReqDeleteGenerated uuid
  | ReqDescribe uuid string

text \<open>A request's effect, with the artifact it made.\<close>

fun serve :: "upload_env \<Rightarrow> identity \<Rightarrow> artifact_request \<Rightarrow> site \<Rightarrow> artifact_rec option \<times> site" where
  "serve env i (ReqUpload fresh p body) s =
     (case upload env i fresh p body s of (Inr a, s') \<Rightarrow> (Some a, s') | (Inl _, s') \<Rightarrow> (None, s'))"
| "serve env i (ReqDelete x) s = (None, snd (delete_route (ue_api env) i x s))"
| "serve env i (ReqDeleteGenerated p) s = (None, snd (delete_generated_route (ue_api env) i p s))"
| "serve env i (ReqDescribe x d) s = (None, snd (update_description_route (ue_api env) i x d s))"

end
