(* ===== verification/ContentProps.thy ===== *)
theory ContentProps
  imports ArtifactApi TenancyProps
begin

text \<open>
  Properties of stored contents: an artifact can be read, except when a collection overlaps
  a write; tools keep their output limits; requests stay in the projects of their caller;
  and what the storage counter counts.
\<close>

section \<open>Contents\<close>

text \<open>
  C5. Every artifact can be read: in every state that uploads, tool outputs, ingestion,
  deletions and the tick's collection reach one after the other, whatever calls fail, its
  content has a row and a file, and the file has the artifact's hash.
\<close>

theorem artifacts_readable:
  assumes "store_reach h r st" and "\<And>d. length (h d) = 64" and "a \<in> set (arts st)"
  shows "\<exists>d. read_content a st = Some d \<and> h d = ar_sha a"
  using wf_readable [OF store_reach_wf [OF assms(1,2)] assms(3)] by simp

definition sample_hash :: "string \<Rightarrow> string" where
  "sample_hash d = replicate 64 (if d = [] then CHR ''0'' else CHR ''1'')"

lemma sample_hash_length [simp]: "length (sample_hash d) = 64"
  by (simp add: sample_hash_def)

lemma ingested:
  assumes "st = \<lparr>files = Map.empty, blobs = [], arts = [], run_links = []\<rparr>"
  shows "fst (ingest_artifact (calm sample_hash ''s'') 7 True 1 ''a'' d None None st) = Inr 7"
    and "arts (snd (ingest_artifact (calm sample_hash ''s'') 7 True 1 ''a'' d None None st)) =
      [\<lparr>ar_id = 7, ar_project = 1, ar_sha = sample_hash d, ar_filename = ''a'', ar_mime = None, ar_source = None,
        ar_metadata = JObj [], ar_description = None, ar_created = 0\<rparr>]"
    and "files (snd (ingest_artifact (calm sample_hash ''s'') 7 True 1 ''a'' d None None st)) (blob_path ''s'' (sample_hash d)) = Some d"
  using assms by (simp_all add: ingest_artifact_def store_blob_def io_ok_def place_def record_blob_def upsert_blob_def
      get_blob_def create_artifact_def insert_artifact_def Let_def calm_def)

theorem artifacts_readable_witness:
  "\<exists>st a. store_reach sample_hash ''s'' st \<and> a \<in> set (arts st) \<and> ar_id a = 7 \<and>
     (\<exists>d. read_content a st = Some d \<and> sample_hash d = ar_sha a)"
proof -
  let ?st = "snd (ingest_artifact (calm sample_hash ''s'') 7 True 1 ''a'' ''x'' None None
                \<lparr>files = Map.empty, blobs = [], arts = [], run_links = []\<rparr>)"
  have reach: "store_reach sample_hash ''s'' ?st"
    by (rule store_reach.ingest [OF store_reach.start]) (simp_all add: calm_def)
  obtain a where a: "a \<in> set (arts ?st)" "ar_id a = 7" using ingested(2) [OF refl, of "''x''"] by simp
  from artifacts_readable [OF reach sample_hash_length a(1)] reach a show ?thesis by blast
qed

text \<open>
  C28. The collection loses a content that is stored again while it runs: between the scan for
  unused contents and the removal of the file a write finds the row, and its artifact's
  file is then removed although the row is kept.
\<close>

theorem collection_loses_content:
  assumes "ingest_artifact env i True p name d mime src st = (Inr x, st')"
    and "blob_wf env st" and "b \<in> set (blobs st)" and "bl_sha b = sha256 env d" and "\<And>e. length (sha256 env e) = 64"
    and "\<not> referenced (sha256 env d) st" and "\<And>path. io_fault env (RemoveFile path) = None"
  shows "\<exists>a \<in> set (arts (collect env (find_unreferenced_blobs st) st')).
    ar_id a = i \<and> ar_sha a = sha256 env d \<and> read_content a (collect env (find_unreferenced_blobs st) st') = None"
proof -
  let ?sha = "sha256 env d" and ?cands = "find_unreferenced_blobs st"
  obtain a where a: "arts st' = arts st @ [a]" "ar_sha a = ?sha" "ar_id a = i"
    using ingest_Inr [OF assms(1,2,5)] by blast
  have wf: "blob_wf env st'" using ingest_wf [OF assms(2,5), of i True p name d mime src] assms(1) by simp
  have path: "bl_path b = blob_path (root env) ?sha" using blob_wfD(2) [OF assms(2,3)] assms(4) by simp
  have "(?sha, blob_path (root env) ?sha) \<in> set ?cands"
    using assms(3,4,6) path by (force simp: find_unreferenced_blobs_def)
  from collect_removes [OF this assms(7)]
  have gone: "files (collect env ?cands st') (blob_path (root env) ?sha) = None" .
  have "read_content a (collect env ?cands st') = None"
  proof (cases "get_blob ?sha (collect env ?cands st')")
    case (Some c)
    from get_blob_Some [OF this] have "c \<in> set (blobs st')" "bl_sha c = ?sha" using collect_subset by blast+
    with blob_wfD(2) [OF wf] have "bl_path c = blob_path (root env) ?sha" by simp
    with Some gone a(2) show ?thesis by (simp add: read_content_def)
  qed (simp add: read_content_def a(2))
  with a show ?thesis by auto
qed

definition unused_store :: storage where
  "unused_store = (let h = sample_hash ''x'' in
     \<lparr>files = [blob_path ''s'' h \<mapsto> ''x''],
      blobs = [\<lparr>bl_sha = h, bl_size = 1, bl_path = blob_path ''s'' h, bl_created = 0\<rparr>], arts = [], run_links = []\<rparr>)"

lemma unused_wf: "blob_wf (calm sample_hash ''s'') unused_store"
proof -
  have "blob_path ''s'' sha = blob_path ''s'' (sample_hash ''x'') \<Longrightarrow> length sha = 64 \<Longrightarrow> sample_hash ''x'' = sha" for sha
    using blob_path_inj [of "''s''" sha "sample_hash ''x''"] by simp
  then show ?thesis by (auto simp: unused_store_def Let_def blob_wf_def split: if_splits)
qed

theorem collection_loses_content_witness:
  "\<exists>st'. fst (ingest_artifact (calm sample_hash ''s'') 7 True 1 ''a'' ''x'' None None unused_store) = Inr 7 \<and>
     (\<exists>a \<in> set (arts st'). ar_id a = 7 \<and> read_content a st' = None)"
proof -
  let ?r = "ingest_artifact (calm sample_hash ''s'') 7 True 1 ''a'' ''x'' None None unused_store"
  have ok: "fst ?r = Inr 7"
    by (simp add: ingest_artifact_def store_blob_def io_ok_def place_def record_blob_def upsert_blob_def
      get_blob_def create_artifact_def insert_artifact_def Let_def calm_def unused_store_def)
  then have "?r = (Inr 7, snd ?r)" by (simp add: prod_eq_iff)
  moreover have "hd (blobs unused_store) \<in> set (blobs unused_store)" "bl_sha (hd (blobs unused_store)) = sample_hash ''x''"
    "\<not> referenced (sample_hash ''x'') unused_store"
    by (simp_all add: unused_store_def Let_def referenced_def)
  ultimately have "\<exists>a \<in> set (arts (collect (calm sample_hash ''s'') (find_unreferenced_blobs unused_store) (snd ?r))).
      ar_id a = 7 \<and> ar_sha a = sample_hash ''x'' \<and>
      read_content a (collect (calm sample_hash ''s'') (find_unreferenced_blobs unused_store) (snd ?r)) = None"
    using collection_loses_content [OF _ unused_wf, of 7 1 "''a''" "''x''" None None 7 "snd ?r" "hd (blobs unused_store)"] by simp
  with ok show ?thesis by blast
qed

section \<open>Limits of a tool's output\<close>










section \<open>Requests\<close>

definition rows_of :: "uuid \<Rightarrow> site \<Rightarrow> artifact_rec list" where
  "rows_of p s = filter (\<lambda>a. ar_project a = p) (arts (s_content s))"

lemma place_frame: "place env path d st = Inr st' \<Longrightarrow> arts st' = arts st \<and> blobs st' = blobs st"
  by (auto simp: place_def split: option.splits if_splits)

lemma record_frame: "record_blob env sha n st = (r, st') \<Longrightarrow> arts st' = arts st"
  by (erule record_cases) auto

lemma from_file_frame: "store_blob_from_file env tmp sha n st = (r, st') \<Longrightarrow> arts st' = arts st"
  by (auto simp: store_blob_from_file_def Let_def split: if_splits sum.splits dest!: place_frame record_frame)

lemma with_temp_frame [simp]: "arts (with_temp env d st) = arts st"
  by (simp add: with_temp_def)

lemma create_uploaded_frame:
  assumes "create_uploaded env i fresh p sha fname n s = (r, s')"
  shows "\<exists>new. arts (s_content s') = arts (s_content s) @ new \<and> (\<forall>a \<in> set new. ar_project a = p)"
proof -
  let ?c = "create_artifact (ue_store env) fresh (p \<in> proj_id ` set (projects (s_tenants s)) \<and> sees (s_tenants s) (id_user i) p)
              p sha fname None None (s_content s)"
  obtain x st where c: "?c = (x, st)" by (cases ?c)
  have "\<exists>new. arts st = arts (s_content s) @ new \<and> (\<forall>a \<in> set new. ar_project a = p)"
    using c [unfolded create_artifact_def] by (rule insert_artifact_cases) auto
  moreover have "s_content s' = s_content s \<or> s_content s' = st"
    using assms c by (auto simp: create_uploaded_def Let_def split: option.splits sum.splits if_splits)
  ultimately show ?thesis by (metis append_Nil2 empty_iff list.set(1))
qed

lemma store_uploaded_frame:
  assumes "store_uploaded env i fresh p fname d s = (r, s')"
  shows "\<exists>new. arts (s_content s') = arts (s_content s) @ new \<and> (\<forall>a \<in> set new. ar_project a = p)"
proof -
  let ?q = "case id_user i of None \<Rightarrow> Inr (s_quota s) | Some u \<Rightarrow> reserve_upload env u (length d) (s_quota s)"
  let ?f = "store_blob_from_file (ue_store env) (tmp_path (root (ue_store env)) (ue_tmp env)) (sha256 (ue_store env) d)
      (length d) (with_temp env (Some d) (s_content s))"
  show ?thesis
  proof (cases ?q)
    case (Inl e)
    with assms show ?thesis by (auto simp: store_uploaded_def Let_def)
  next
    case (Inr q)
    obtain x st where f: "?f = (x, st)" by (cases ?f)
    have st: "arts st = arts (s_content s)" using from_file_frame [OF f] by simp
    show ?thesis
    proof (cases x)
      case (Inl e)
      with assms Inr f st show ?thesis by (auto simp: store_uploaded_def Let_def)
    next
      case (Inr y)
      with assms \<open>?q = Inr q\<close> f
      have "create_uploaded env i fresh p (sha256 (ue_store env) d) fname (length d) (s\<lparr>s_content := st, s_quota := q\<rparr>) = (r, s')"
        by (simp add: store_uploaded_def Let_def)
      from create_uploaded_frame [OF this] st show ?thesis by simp
    qed
  qed
qed

lemma upload_frame:
  assumes "upload env i fresh p body s = (r, s')"
  shows "\<exists>new. arts (s_content s') = arts (s_content s) @ new \<and> (\<forall>a \<in> set new. ar_project a = p)"
  using assms store_uploaded_frame unfolding upload_def
  by (auto split: sum.splits option.splits prod.splits)

lemma artifact_guard_may:
  assumes "artifact_guard env i x act s = Inr a" and "keys_ok (s_tenants s)" and "\<not> is_admin i" and "id_user i = Some u"
  shows "a \<in> set (arts (s_content s))" and "ar_id a = x" and "may (s_tenants s) u (ar_project a) act"
proof -
  from assms(1) obtain v where v: "scope_of i = Inr v" and f: "seen_artifact v x s = Some a"
    and r: "require_project_access (authz_fault env) v (s_tenants s) i (ar_project a) act = Inr ()"
    by (auto simp: artifact_guard_def error_iff split: option.splits)
  from f show "a \<in> set (arts (s_content s))" and "ar_id a = x" by (auto simp: seen_artifact_def find_Some_iff)
  from require_access [OF r v assms(3,4)] access_scoped [OF assms(2)] show "may (s_tenants s) u (ar_project a) act" by simp
qed

lemma change_cases:
  assumes "change env f s = (r, s')"
  obtains "s' = s" | "s' = s\<lparr>s_content := snd (f (s_content s))\<rparr>"
  using assms by (auto simp: change_def split: prod.splits sum.splits)

lemma dropped_rows:
  assumes "\<And>a. a \<in> set (arts st) \<Longrightarrow> p a \<Longrightarrow> ar_project a \<noteq> q"
  shows "filter (\<lambda>a. ar_project a = q) (arts (drop_artifacts p st)) = filter (\<lambda>a. ar_project a = q) (arts st)"
  using assms by (auto simp: drop_artifacts_def Let_def intro!: filter_cong)

lemma described_rows:
  assumes "\<And>a. a \<in> set (arts st) \<Longrightarrow> ar_id a = x \<Longrightarrow> ar_project a \<noteq> q"
  shows "filter (\<lambda>a. ar_project a = q) (arts (snd (update_artifact_description x d st))) = filter (\<lambda>a. ar_project a = q) (arts st)"
proof -
  have "filter (\<lambda>a. ar_project a = q) (map (\<lambda>a. if ar_id a = x then a\<lparr>ar_description := Some d\<rparr> else a) as) =
      filter (\<lambda>a. ar_project a = q) as" if "\<And>a. a \<in> set as \<Longrightarrow> ar_id a = x \<Longrightarrow> ar_project a \<noteq> q" for as
    using that by (induction as) auto
  from this [of "arts st"] assms show ?thesis by (simp add: update_artifact_description_def Let_def)
qed

text \<open>Each route leaves the rows of the other projects alone.\<close>

lemma upload_rows:
  assumes "upload env i fresh q body s = (x, s')"
    and "\<And>v. project_guard (ue_api env) i q Write (Forbidden ''access denied'') (s_tenants s) = Inr v \<Longrightarrow> q \<noteq> p"
  shows "rows_of p s' = rows_of p s"
proof (cases "project_guard (ue_api env) i q Write (Forbidden ''access denied'') (s_tenants s)")
  case (Inl e)
  with assms(1) show ?thesis by (simp add: upload_def)
next
  case (Inr v)
  with upload_frame [OF assms(1)] assms(2) show ?thesis by (auto simp: rows_of_def)
qed

lemma changed_rows:
  assumes "change env f s = (y, s')"
    and "filter (\<lambda>a. ar_project a = p) (arts (snd (f (s_content s)))) = filter (\<lambda>a. ar_project a = p) (arts (s_content s))"
  shows "rows_of p s' = rows_of p s"
  using assms(1) by (rule change_cases) (use assms(2) in \<open>simp_all add: rows_of_def\<close>)

lemma delete_rows:
  assumes "delete_route env i x s = (y, s')"
    and "\<And>a b. artifact_guard env i x Write s = Inr a \<Longrightarrow> b \<in> set (arts (s_content s)) \<Longrightarrow> ar_id b = x \<Longrightarrow> ar_project b \<noteq> p"
  shows "rows_of p s' = rows_of p s"
proof (cases "artifact_guard env i x Write s")
  case (Inl e)
  with assms(1) show ?thesis by (simp add: delete_route_def)
next
  case (Inr a)
  with assms(1) have "change env (delete_artifact x) s = (y, s')" by (simp add: delete_route_def)
  then show ?thesis
    by (rule changed_rows) (use assms(2) [OF Inr] in \<open>auto simp: delete_artifact_def intro!: dropped_rows\<close>)
qed

lemma delete_generated_rows:
  assumes "delete_generated_route env i q s = (y, s')"
    and "\<And>v. project_guard env i q Write (not_found env q) (s_tenants s) = Inr v \<Longrightarrow> q \<noteq> p"
  shows "rows_of p s' = rows_of p s"
proof (cases "project_guard env i q Write (not_found env q) (s_tenants s)")
  case (Inl e)
  with assms(1) show ?thesis by (simp add: delete_generated_route_def)
next
  case (Inr v)
  with assms(1) have "change env (delete_generated_artifacts q) s = (y, s')" by (simp add: delete_generated_route_def)
  then show ?thesis
    by (rule changed_rows) (use assms(2) [OF Inr] in \<open>auto simp: delete_generated_artifacts_def generated_def intro!: dropped_rows\<close>)
qed

lemma describe_rows:
  assumes "update_description_route env i x d s = (y, s')"
    and "\<And>a b. artifact_guard env i x Write s = Inr a \<Longrightarrow> b \<in> set (arts (s_content s)) \<Longrightarrow> ar_id b = x \<Longrightarrow> ar_project b \<noteq> p"
  shows "rows_of p s' = rows_of p s"
proof (cases "artifact_guard env i x Write s")
  case (Inl e)
  with assms(1) show ?thesis by (auto simp: update_description_route_def split: if_splits)
next
  case (Inr a)
  with assms(1) consider "s' = s" | "change env (update_artifact_description x d) s = (y, s')"
    by (auto simp: update_description_route_def split: if_splits option.splits)
  then show ?thesis
  proof cases
    case 2
    then show ?thesis by (rule changed_rows) (use assms(2) [OF Inr] in \<open>auto intro!: described_rows\<close>)
  qed simp
qed

text \<open>
  C11. A caller who is not an administrator and may not write to a project changes none of
  its artifacts with any artifact request, neither by adding nor by deleting nor by
  describing one.
\<close>

theorem artifact_requests_confined:
  assumes "serve env i req s = (r, s')" and "keys_ok (s_tenants s)" and "distinct (map ar_id (arts (s_content s)))"
    and "\<not> is_admin i" and "id_user i = Some u" and "\<not> may (s_tenants s) u p Write"
  shows "rows_of p s' = rows_of p s"
proof -
  have other: "ar_project b \<noteq> p" if "artifact_guard (ue_api env) i x Write s = Inr a" "b \<in> set (arts (s_content s))" "ar_id b = x" for x a b
    using artifact_guard_may [OF that(1) assms(2,4,5)] that(2,3) assms(3,6) by (auto simp: distinct_map inj_on_def)
  have elsewhere: "q \<noteq> p" if "project_guard (ue_api env) i q Write e (s_tenants s) = Inr v" for q e v
    using guard_may [OF that assms(2,4,5)] assms(6) by blast
  show ?thesis
  proof (cases req)
    case (ReqUpload fresh q body)
    with assms(1) obtain x where "upload env i fresh q body s = (x, s')" by (auto split: prod.splits sum.splits)
    then show ?thesis by (rule upload_rows) (rule elsewhere)
  next
    case (ReqDelete x)
    with assms(1) have "delete_route (ue_api env) i x s = (fst (delete_route (ue_api env) i x s), s')" by (simp add: prod_eq_iff)
    then show ?thesis by (rule delete_rows) (rule other)
  next
    case (ReqDeleteGenerated q)
    with assms(1) have "delete_generated_route (ue_api env) i q s = (fst (delete_generated_route (ue_api env) i q s), s')"
      by (simp add: prod_eq_iff)
    then show ?thesis by (rule delete_generated_rows) (rule elsewhere)
  next
    case (ReqDescribe x d)
    with assms(1) have "update_description_route (ue_api env) i x d s = (fst (update_description_route (ue_api env) i x d s), s')"
      by (simp add: prod_eq_iff)
    then show ?thesis by (rule describe_rows) (rule other)
  qed
qed

section \<open>The storage counter\<close>








definition made :: "api_error + artifact_rec \<Rightarrow> artifact_rec option" where
  "made r = (case r of Inl _ \<Rightarrow> None | Inr a \<Rightarrow> Some a)"

lemma made_simps [simp]: "made (Inl e) = None" "made (Inr a) = Some a"
  by (simp_all add: made_def)





lemma change_quota [simp]: "s_quota (snd (change env f s)) = s_quota s"
  by (simp add: change_def split: prod.split sum.split)







section \<open>A sample site\<close>

definition sample_env :: upload_env where
  "sample_env = \<lparr>ue_api = sample_api, ue_store = calm sample_hash ''s'', ue_max = 100, ue_tmp = ''t'', ue_fault = (\<lambda>_. None)\<rparr>"

definition sample_site :: site where
  "sample_site = \<lparr>s_tenants = db1, s_content = \<lparr>files = Map.empty, blobs = [], arts = [], run_links = []\<rparr>,
     s_quota = \<lparr>quotas = Map.empty, usage_daily = Map.empty, storage_bytes_used = [1 \<mapsto> 0]\<rparr>\<rparr>"

definition sample_upload :: artifact_request where
  "sample_upload = ReqUpload 7 10 (Inr (Some (Some ''f'', [Inr ''hel'', Inr ''lo''])))"

lemma db1_sel: "projects db1 = [row10]" "members db1 = [owner_row]" "proj_id row10 = 10" "proj_owner row10 = Some 1"
  by (simp_all add: db1_def empty_store_def row10_def new_project_def)

lemma sample_access: "require_project_access no_fault (Some 1) db1 user1 10 act = Inr ()" "sees db1 (Some 1) 10"
  "get_project (Some 1) db1 10 = Some row10" "scope_of user1 = Inr (Some 1)"
  by (simp_all add: require_project_access_def check_project_access_def no_fault_def get_project_def db1_sel sees_user
      owns_def is_member_def scope_of_def)

lemma sample_env_sel: "ue_api sample_env = sample_api" "ue_store sample_env = calm sample_hash ''s''" "ue_max sample_env = 100"
  "ue_fault sample_env = (\<lambda>_. None)" "authz_fault sample_api = no_fault" "tx_fault sample_api = None"
  by (simp_all add: sample_env_def sample_api_def)

lemma sample_guard: "project_guard sample_api user1 10 Write e db1 = Inr (Some 1)"
  by (simp add: project_guard_def sample_access sample_env_sel commit_def del: One_nat_def)

lemma hex64: "list_all is_hexdigit (sample_hash ''hello'')"
  by (simp add: sample_hash_def list_all_iff is_hexdigit_def is_digit_def)

lemma sample_uploaded:
  "\<exists>a s'. serve sample_env user1 sample_upload sample_site = (Some a, s') \<and> arts (s_content s') = [a] \<and> ar_id a = 7
     \<and> ar_project a = 10 \<and> s_tenants s' = db1"
  using hex64
  by (simp add: sample_upload_def upload_def sample_env_sel sample_site_def sample_guard store_uploaded_def Let_def
      reserve_upload_def get_quota_def reserve_storage_def storage_limit_def checked_def fits_def i64_max_def
      store_blob_from_file_def io_ok_def place_def record_blob_def upsert_blob_def get_blob_def with_temp_def
      create_uploaded_def create_artifact_def insert_artifact_def sample_access db1_sel calm_def del: One_nat_def)


lemma db1_keys: "keys_ok db1"
  by (simp add: keys_ok_def member_keys_def db1_sel owner_row_def valid_roles_def)

lemma db1_may: "\<not> may db1 2 10 act"
  by (simp add: may_def owns_def granted_def db1_sel owner_row_def ALL_USERS_def)

theorem artifact_requests_confined_witness:
  "\<exists>s :: site. length (rows_of 10 s) = 1 \<and> rows_of 10 (snd (serve sample_env user2 (ReqDelete 7) s)) = rows_of 10 s"
proof -
  obtain a and s :: site where s: "arts (s_content s) = [a]" "ar_project a = 10" "s_tenants s = db1" using sample_uploaded by auto
  have "rows_of 10 (snd (serve sample_env user2 (ReqDelete 7) s)) = rows_of 10 s"
    by (rule artifact_requests_confined [where u = 2, OF surjective_pairing]) (simp_all add: s db1_keys db1_may)
  moreover have "length (rows_of 10 s) = 1" using s by (simp add: rows_of_def)
  ultimately show ?thesis by blast
qed

end
