(* ===== verification/Notify.thy ===== *)
theory Notify
  imports Queues BlobStore Utf8
begin

text \<open>
  Notifications, \<open>af-notify\<close>: the delivery over each kind of channel (\<open>channels.rs\<close>), the
  tick's pass over the queue and the listener's single delivery (\<open>queue.rs\<close>), and the tools
  that put notifications into the queue (\<open>executor.rs\<close>). The HTTP client is a parameter that
  answers a request with a status and a body, or an error; what was sent is a list.
\<close>

section \<open>Requests\<close>

datatype http_body = BodyJson json | BodyBytes string

record http_request =
  rq_method :: string
  rq_url :: string
  rq_headers :: "(string \<times> string) list"
  rq_login :: "(string \<times> string) option"     \<comment> \<open>basic authentication\<close>
  rq_body :: http_body

datatype delivery_error = Transient string | PermanentError string | Panic

fun is_permanent :: "delivery_error \<Rightarrow> bool" where
  "is_permanent (PermanentError _) = True"
| "is_permanent _ = False"

fun error_text :: "delivery_error \<Rightarrow> string" where
  "error_text (Transient m) = m"
| "error_text (PermanentError m) = m"
| "error_text Panic = []"

text \<open>
  The client, the printing of identifiers and times, which characters are letters or digits,
  and the files.
\<close>

record notify_env =
  ne_send :: "http_request \<Rightarrow> string + nat \<times> string"
  ne_uuid :: "uuid \<Rightarrow> string"
  ne_rfc3339 :: "instant \<Rightarrow> string"
  ne_stamp :: "instant \<Rightarrow> string"
  ne_status :: "nat \<Rightarrow> string"
  ne_alnum :: "string \<Rightarrow> bool"
  ne_root :: string
  ne_now :: instant

definition BLOCKED_HEADERS :: "string list" where
  "BLOCKED_HEADERS = [''host'', ''content-length'', ''transfer-encoding'', ''connection'', ''upgrade'', ''te'',
     ''trailer'', ''proxy-authorization'', ''cookie'']"

text \<open>The text of the refusal cuts the address at byte 30, which is a panic inside a character.\<close>

definition require_https :: "string \<Rightarrow> string \<Rightarrow> delivery_error + unit" where
  "require_https url label =
     (if starts_with ''https://'' url then Inr ()
      else if \<not> is_char_boundary url (min (length url) 30) then Inl Panic
      else Inl (Transient (label @ '' URL must use https:// (got: '' @ take 30 url @ ''...)'')))"

definition sanitize_http_error :: "notify_env \<Rightarrow> nat \<Rightarrow> string \<Rightarrow> string" where
  "sanitize_http_error env st body = ''HTTP '' @ ne_status env st @ '': '' @ take_chars 200 body"

type_synonym delivery = "(delivery_error + unit) \<times> http_request list"

definition refused :: "delivery_error \<Rightarrow> delivery" where
  "refused e = (Inl e, [])"

definition send_to :: "notify_env \<Rightarrow> string \<Rightarrow> http_request \<Rightarrow> delivery" where
  "send_to env what req =
     (case ne_send env req of
        Inl e \<Rightarrow> Inl (Transient e)
      | Inr (st, body) \<Rightarrow>
          if 200 \<le> st \<and> st < 300 then Inr ()
          else Inl (Transient (what @ '' failed: '' @ sanitize_http_error env st body)), [req])"

definition str_field :: "json \<Rightarrow> string \<Rightarrow> string option" where
  "str_field cfg k = Option.bind (jget cfg k) as_str"

definition missing :: "string \<Rightarrow> string \<Rightarrow> delivery_error" where
  "missing what k = Transient (what @ '' config missing '' @ [CHR 0x27] @ k @ [CHR 0x27])"

section \<open>Channels\<close>

definition custom_headers :: "json \<Rightarrow> (string \<times> string) list" where
  "custom_headers cfg =
     (case Option.bind (jget cfg ''headers'') as_object of
        None \<Rightarrow> []
      | Some kvs \<Rightarrow> concat (map (\<lambda>(k, v). if to_lower k \<in> set BLOCKED_HEADERS then []
                                     else case as_str v of Some s \<Rightarrow> [(k, s)] | None \<Rightarrow> []) kvs))"

definition deliver_webhook :: "notify_env \<Rightarrow> notification \<Rightarrow> channel \<Rightarrow> delivery" where
  "deliver_webhook env item ch =
     (let cfg = nc_config ch in
      case str_field cfg ''url'' of
        None \<Rightarrow> refused (missing ''webhook'' ''url'')
      | Some url \<Rightarrow>
     (case require_https url ''webhook'' of
        Inl e \<Rightarrow> refused e
      | Inr _ \<Rightarrow>
          send_to env ''webhook delivery''
            \<lparr>rq_method = (if (case str_field cfg ''method'' of Some m \<Rightarrow> to_lower m = ''put'' | None \<Rightarrow> False) then ''PUT'' else ''POST''),
             rq_url = url,
             rq_headers = (''Content-Type'', ''application/json'') # custom_headers cfg,
             rq_login = None,
             rq_body = BodyJson (JObj [(''subject'', JStr (nq_subject item)), (''body'', JStr (nq_body item)),
               (''project_id'', JStr (ne_uuid env (nq_project item))), (''timestamp'', JStr (ne_rfc3339 env (nq_created item)))])\<rparr>))"

definition deliver_email :: delivery where
  "deliver_email = refused (PermanentError
     ''email channel delivery not yet integrated; use webhook channel with email bridge, or configure email.send tool directly'')"

definition unreserved :: "char \<Rightarrow> bool" where
  "unreserved c \<longleftrightarrow>
     (let n = (of_char c :: nat) in
      (65 \<le> n \<and> n \<le> 90) \<or> (97 \<le> n \<and> n \<le> 122) \<or> (48 \<le> n \<and> n \<le> 57) \<or> n = 45 \<or> n = 95 \<or> n = 46 \<or> n = 126)"

definition hex_digit :: "nat \<Rightarrow> char" where
  "hex_digit n = (if n < 10 then char_of (48 + n) else char_of (55 + n))"

definition encode_room :: "string \<Rightarrow> string" where
  "encode_room s = concat (map (\<lambda>c. if unreserved c then [c]
      else let n = (of_char c :: nat) in [CHR ''%'', hex_digit (n div 16), hex_digit (n mod 16)]) s)"

definition without_slashes :: "string \<Rightarrow> string" where
  "without_slashes s = trim_end_matches (\<lambda>c. c = CHR ''/'') s"

definition deliver_matrix :: "notify_env \<Rightarrow> notification \<Rightarrow> channel \<Rightarrow> delivery" where
  "deliver_matrix env item ch =
     (let cfg = nc_config ch in
      case str_field cfg ''homeserver'' of
        None \<Rightarrow> refused (missing ''matrix'' ''homeserver'')
      | Some home \<Rightarrow>
     (case str_field cfg ''room_id'' of
        None \<Rightarrow> refused (missing ''matrix'' ''room_id'')
      | Some room \<Rightarrow>
     (case str_field cfg ''access_token'' of
        None \<Rightarrow> refused (missing ''matrix'' ''access_token'')
      | Some token \<Rightarrow>
     (case require_https home ''matrix homeserver'' of
        Inl e \<Rightarrow> refused e
      | Inr _ \<Rightarrow>
          send_to env ''matrix delivery''
            \<lparr>rq_method = ''PUT'',
             rq_url = without_slashes home @ ''/_matrix/client/v3/rooms/'' @ encode_room room
               @ ''/send/m.room.message/'' @ ne_uuid env (nq_id item),
             rq_headers = [(''Authorization'', ''Bearer '' @ token)],
             rq_login = None,
             rq_body = BodyJson (JObj [(''msgtype'', JStr ''m.text''),
               (''body'', JStr (if nq_body item = [] then nq_subject item
                                else nq_subject item @ [CHR 0x0A, CHR 0x0A] @ nq_body item))])\<rparr>))))"

definition WEBDAV_MAX_UPLOAD_BYTES :: nat where "WEBDAV_MAX_UPLOAD_BYTES = 268435456"

definition dav_path :: "notify_env \<Rightarrow> string \<Rightarrow> string" where
  "dav_path env sha = path_join (path_join (ne_root env) (take 2 sha)) sha"

definition safe_filename :: "notify_env \<Rightarrow> string \<Rightarrow> string" where
  "safe_filename env = map_chars (\<lambda>c. if ne_alnum env c \<or> c \<in> {''.'', ''-'', ''_''} then c else ''_'')"

definition subject_slug :: "notify_env \<Rightarrow> string \<Rightarrow> string" where
  "subject_slug env s = concat (map (\<lambda>c. if ne_alnum env c then c else ''_'') (take 40 (to_chars s)))"

text \<open>What is uploaded: a name below the channel's address, headers and contents.\<close>

definition dav_upload ::
  "notify_env \<Rightarrow> storage \<Rightarrow> notification \<Rightarrow> delivery_error + string \<times> (string \<times> string) list \<times> string \<times> string" where
  "dav_upload env st item =
     (case nq_attachment item of
        Some a \<Rightarrow>
          (case get_artifact a st of
             None \<Rightarrow> Inl (Transient ''artifact not found'')
           | Some art \<Rightarrow>
          (case files st (dav_path env (ar_sha art)) of
             None \<Rightarrow> Inl (Transient ''failed to read artifact blob: not found'')
           | Some data \<Rightarrow>
               if WEBDAV_MAX_UPLOAD_BYTES < length data
               then Inl (Transient (''artifact too large for WebDAV upload ('' @ show_nat (length data) @ '' bytes, max ''
                      @ show_nat WEBDAV_MAX_UPLOAD_BYTES @ '')''))
               else Inr (safe_filename env (ar_filename art), [], data, ''webdav upload'')))
      | None \<Rightarrow>
          Inr (subject_slug env (nq_subject item) @ ''_'' @ ne_stamp env (nq_created item) @ ''.txt'',
               [(''Content-Type'', ''text/plain; charset=utf-8'')],
               nq_subject item @ [CHR 0x0A, CHR 0x0A] @ nq_body item, ''webdav text upload''))"

definition deliver_webdav :: "notify_env \<Rightarrow> storage \<Rightarrow> notification \<Rightarrow> channel \<Rightarrow> delivery" where
  "deliver_webdav env st item ch =
     (let cfg = nc_config ch in
      case str_field cfg ''url'' of
        None \<Rightarrow> refused (missing ''webdav'' ''url'')
      | Some u \<Rightarrow>
     (let base = without_slashes u;
          user = (case str_field cfg ''username'' of Some s \<Rightarrow> s | None \<Rightarrow> []);
          pass = (case str_field cfg ''password'' of Some s \<Rightarrow> s | None \<Rightarrow> []) in
      case require_https base ''webdav'' of
        Inl e \<Rightarrow> refused e
      | Inr _ \<Rightarrow>
     (case dav_upload env st item of
        Inl e \<Rightarrow> refused e
      | Inr (name, headers, data, what) \<Rightarrow>
          send_to env what
            \<lparr>rq_method = ''PUT'', rq_url = base @ ''/'' @ name, rq_headers = headers,
             rq_login = (if user = [] then None else Some (user, pass)), rq_body = BodyBytes data\<rparr>)))"

definition deliver :: "notify_env \<Rightarrow> storage \<Rightarrow> notification \<Rightarrow> channel \<Rightarrow> delivery" where
  "deliver env st item ch =
     (if nc_type ch = ''webhook'' then deliver_webhook env item ch
      else if nc_type ch = ''email'' then deliver_email
      else if nc_type ch = ''matrix'' then deliver_matrix env item ch
      else if nc_type ch = ''webdav'' then deliver_webdav env st item ch
      else refused (Transient (''unsupported channel type: '' @ nc_type ch)))"

section \<open>The queue\<close>

definition STALE_PROCESSING_MINUTES :: nat where "STALE_PROCESSING_MINUTES = 2"
definition BATCH_SIZE :: nat where "BATCH_SIZE = 20"

text \<open>What follows a claim: the outcome is recorded, unless the delivery panics.\<close>

datatype pass_outcome = Done nat | Panicked

definition deliver_claimed ::
  "notify_env \<Rightarrow> storage \<Rightarrow> notification \<Rightarrow> notify_db \<Rightarrow> pass_outcome \<times> http_request list \<times> notify_db" where
  "deliver_claimed env st item db =
     (case get_channel (nq_channel item) db of
        None \<Rightarrow> (Done 0, [], notif_fail (ne_now env) (nq_id item) ''channel not found'' db)
      | Some ch \<Rightarrow>
          if \<not> nc_enabled ch then (Done 0, [], notif_fail (ne_now env) (nq_id item) ''channel is disabled'' db)
          else case deliver env st item ch of
            (Inr _, sent) \<Rightarrow> (Done 1, sent, notif_complete (ne_now env) (nq_id item) db)
          | (Inl Panic, sent) \<Rightarrow> (Panicked, sent, db)
          | (Inl e, sent) \<Rightarrow>
              (Done 0, sent,
               if is_permanent e then notif_fail_permanent (ne_now env) (nq_id item) (error_text e) db
               else notif_fail (ne_now env) (nq_id item) (error_text e) db))"

fun process_items ::
  "notify_env \<Rightarrow> storage \<Rightarrow> notification list \<Rightarrow> notify_db \<Rightarrow> pass_outcome \<times> http_request list \<times> notify_db" where
  "process_items env st [] db = (Done 0, [], db)"
| "process_items env st (item # items) db =
     (case notif_claim (ne_now env) (nq_id item) db of
        (False, db') \<Rightarrow> process_items env st items db'
      | (True, db') \<Rightarrow>
     (case deliver_claimed env st item db' of
        (Panicked, sent, db'') \<Rightarrow> (Panicked, sent, db'')
      | (Done n, sent, db'') \<Rightarrow>
     (case process_items env st items db'' of
        (Panicked, sent', d) \<Rightarrow> (Panicked, sent @ sent', d)
      | (Done m, sent', d) \<Rightarrow> (Done (n + m), sent @ sent', d))))"

definition process_notification_queue ::
  "notify_env \<Rightarrow> storage \<Rightarrow> notify_db \<Rightarrow> pass_outcome \<times> http_request list \<times> notify_db" where
  "process_notification_queue env st db =
     (let db1 = snd (notif_recover_stale (ne_now env) STALE_PROCESSING_MINUTES db)
      in process_items env st (notif_list_pending BATCH_SIZE db1) db1)"

definition process_single ::
  "notify_env \<Rightarrow> storage \<Rightarrow> uuid \<Rightarrow> notify_db \<Rightarrow> pass_outcome \<times> http_request list \<times> notify_db" where
  "process_single env st i db =
     (case notif_claim (ne_now env) i db of
        (False, db') \<Rightarrow> (Done 0, [], db')
      | (True, db') \<Rightarrow>
          (case get_queue_item i db' of
             None \<Rightarrow> (Done 0, [], db')
           | Some item \<Rightarrow> deliver_claimed env st item db'))"

end
