(* ===== verification/NotifyApi.thy ===== *)
theory NotifyApi
  imports Notify ArtifactApi
begin

text \<open>
  Who puts notifications into the queue: the tools of \<open>af-notify/src/executor.rs\<close> and the
  routes of \<open>af-api/src/routes/notifications.rs\<close>, with the check of a channel's
  configuration.
\<close>

section \<open>Tools\<close>

record notify_tool_error =
  nte_code :: string
  nte_message :: string
  nte_retryable :: bool

definition tool_err :: "string \<Rightarrow> string \<Rightarrow> bool \<Rightarrow> notify_tool_error" where
  "tool_err code msg retry = \<lparr>nte_code = code, nte_message = msg, nte_retryable = retry\<rparr>"

definition invalid_input :: "string \<Rightarrow> notify_tool_error" where
  "invalid_input msg = tool_err ''invalid_input'' msg False"

definition MAX_CHANNEL_NAME_LEN :: nat where "MAX_CHANNEL_NAME_LEN = 100"
definition MAX_SUBJECT_LEN :: nat where "MAX_SUBJECT_LEN = 500"
definition MAX_BODY_LEN :: nat where "MAX_BODY_LEN = 100000"

definition validate_channel_name :: "string \<Rightarrow> notify_tool_error + unit" where
  "validate_channel_name name =
     (if name = [] \<or> MAX_CHANNEL_NAME_LEN < length name
      then Inl (invalid_input (''channel name must be 1-'' @ show_nat MAX_CHANNEL_NAME_LEN @ '' characters'')) else Inr ())"

definition validate_subject :: "string \<Rightarrow> notify_tool_error + unit" where
  "validate_subject subj =
     (if subj = [] \<or> MAX_SUBJECT_LEN < length subj
      then Inl (invalid_input (''subject must be 1-'' @ show_nat MAX_SUBJECT_LEN @ '' characters'')) else Inr ())"

definition validate_body :: "string \<Rightarrow> notify_tool_error + unit" where
  "validate_body body =
     (if MAX_BODY_LEN < length body
      then Inl (invalid_input (''body must not exceed '' @ show_nat MAX_BODY_LEN @ '' characters'')) else Inr ())"

text \<open>The caller's project and user, the next identifier, the clock, the readers.\<close>

record notify_ctx =
  nx_project :: uuid
  nx_user :: "uuid option"
  nx_fresh :: uuid
  nx_now :: instant
  nx_parse :: "string \<Rightarrow> uuid option"
  nx_show :: "uuid \<Rightarrow> string"
  nx_artifact :: "uuid \<Rightarrow> bool"              \<comment> \<open>the rows of \<open>artifacts\<close>, of any project\<close>
  nx_fault :: "string option"

definition required :: "json \<Rightarrow> string \<Rightarrow> notify_tool_error + string" where
  "required input k = (case str_field input k of Some s \<Rightarrow> Inr s | None \<Rightarrow> Inl (invalid_input (k @ '' is required'')))"

definition lookup_channel :: "notify_ctx \<Rightarrow> string \<Rightarrow> notify_db \<Rightarrow> notify_tool_error + channel" where
  "lookup_channel ctx name db =
     (case nx_fault ctx of
        Some e \<Rightarrow> Inl (tool_err ''db_error'' (''failed to lookup channel: '' @ e) True)
      | None \<Rightarrow>
     (case get_channel_by_name (nx_project ctx) name db of
        None \<Rightarrow> Inl (tool_err ''channel_not_found'' (''no channel named '' @ [CHR 0x27] @ name @ [CHR 0x27] @ '' in this project'') False)
      | Some ch \<Rightarrow>
          if nc_enabled ch then Inr ch
          else Inl (tool_err ''channel_disabled'' (''channel '' @ [CHR 0x27] @ name @ [CHR 0x27] @ '' is disabled'') False)))"

definition put_in_queue ::
  "notify_ctx \<Rightarrow> string \<Rightarrow> channel \<Rightarrow> string \<Rightarrow> string \<Rightarrow> uuid option \<Rightarrow> notify_db \<Rightarrow> (notify_tool_error + notification) \<times> notify_db" where
  "put_in_queue ctx what ch subj body att db =
     (case notif_enqueue (nx_fresh ctx) (nx_now ctx) (case att of None \<Rightarrow> True | Some a \<Rightarrow> nx_artifact ctx a)
             (nx_project ctx) (nc_id ch) subj body att (nx_user ctx) db of
        (Inl e, db') \<Rightarrow> (Inl (tool_err ''db_error'' (''failed to enqueue '' @ what @ '': '' @ e) True), db')
      | (Inr r, db') \<Rightarrow> (Inr r, db'))"

definition queued_json :: "notify_ctx \<Rightarrow> notification \<Rightarrow> string \<Rightarrow> (string \<times> json) list \<Rightarrow> json" where
  "queued_json ctx r name extra =
     JObj ([(''status'', JStr ''queued''), (''id'', JStr (nx_show ctx (nq_id r))), (''channel'', JStr name)] @ extra)"

definition answer :: "notify_tool_error + 'a \<Rightarrow> ('a \<Rightarrow> (notify_tool_error + json) \<times> notify_db) \<Rightarrow> notify_db \<Rightarrow> (notify_tool_error + json) \<times> notify_db" where
  "answer r f db = (case r of Inl e \<Rightarrow> (Inl e, db) | Inr x \<Rightarrow> f x)"

definition queued :: "notify_ctx \<Rightarrow> string \<Rightarrow> (string \<times> json) list \<Rightarrow> (notify_tool_error + notification) \<times> notify_db \<Rightarrow> (notify_tool_error + json) \<times> notify_db" where
  "queued ctx name extra w = (case w of (Inl e, db) \<Rightarrow> (Inl e, db) | (Inr r, db) \<Rightarrow> (Inr (queued_json ctx r name extra), db))"

definition notify_send :: "notify_ctx \<Rightarrow> json \<Rightarrow> notify_db \<Rightarrow> (notify_tool_error + json) \<times> notify_db" where
  "notify_send ctx input db =
     (let body = (case str_field input ''body'' of Some b \<Rightarrow> b | None \<Rightarrow> []) in
      answer (sum_bind (required input ''channel'') (\<lambda>name.
              sum_bind (required input ''subject'') (\<lambda>subj.
              sum_bind (validate_channel_name name) (\<lambda>_.
              sum_bind (validate_subject subj) (\<lambda>_.
              sum_bind (validate_body body) (\<lambda>_.
              sum_bind (lookup_channel ctx name db) (\<lambda>ch. Inr (name, subj, ch))))))))
        (\<lambda>(name, subj, ch). queued ctx name [(''channel_type'', JStr (nc_type ch))]
           (put_in_queue ctx ''notification'' ch subj body None db)) db)"

definition notify_upload :: "notify_ctx \<Rightarrow> json \<Rightarrow> notify_db \<Rightarrow> (notify_tool_error + json) \<times> notify_db" where
  "notify_upload ctx input db =
     answer (sum_bind (required input ''channel'') (\<lambda>name.
             sum_bind (required input ''artifact_id'') (\<lambda>text.
             sum_bind (case nx_parse ctx text of None \<Rightarrow> Inl (invalid_input ''invalid artifact_id UUID'') | Some a \<Rightarrow> Inr a) (\<lambda>a.
             sum_bind (validate_channel_name name) (\<lambda>_.
             sum_bind (lookup_channel ctx name db) (\<lambda>ch.
             if nc_type ch \<noteq> ''webdav''
             then Inl (tool_err ''invalid_channel_type'' ''notify.upload only works with webdav channels'' False)
             else Inr (name, text, a, ch)))))))
       (\<lambda>(name, text, a, ch). queued ctx name [(''artifact_id'', JStr text)]
          (put_in_queue ctx ''upload'' ch (''File upload: '' @ (case str_field input ''filename'' of Some f \<Rightarrow> f | None \<Rightarrow> text))
             [] (Some a) db)) db"

definition notify_list :: "(string \<Rightarrow> 'k::linorder) \<Rightarrow> notify_ctx \<Rightarrow> notify_db \<Rightarrow> notify_tool_error + json" where
  "notify_list collate ctx db =
     (case nx_fault ctx of
        Some e \<Rightarrow> Inl (tool_err ''db_error'' (''failed to list channels: '' @ e) True)
      | None \<Rightarrow> Inr (JObj [(''channels'', JArr (map (\<lambda>ch. JObj [(''name'', JStr (nc_name ch)), (''type'', JStr (nc_type ch)),
                 (''enabled'', JBool (nc_enabled ch))]) (list_channels collate (nx_project ctx) db)))]))"

definition test_subject :: string where "test_subject = ''Test notification from Arbeiterfarm''"
definition test_body :: string where "test_body = ''This is a test notification to verify channel configuration.''"

definition notify_test :: "notify_ctx \<Rightarrow> json \<Rightarrow> notify_db \<Rightarrow> (notify_tool_error + json) \<times> notify_db" where
  "notify_test ctx input db =
     answer (sum_bind (required input ''channel'') (\<lambda>name.
             sum_bind (lookup_channel ctx name db) (\<lambda>ch. Inr (name, ch))))
       (\<lambda>(name, ch). queued ctx name [(''message'', JStr ''Test notification queued for delivery'')]
          (put_in_queue ctx ''test'' ch test_subject test_body None db)) db"

section \<open>Configurations\<close>

definition starts_https :: "string \<Rightarrow> api_error \<Rightarrow> api_error + unit" where
  "starts_https url e = (if starts_with ''https://'' url then Inr () else Inl e)"

definition need :: "json \<Rightarrow> string \<Rightarrow> string \<Rightarrow> api_error + string" where
  "need cfg what k =
     (case str_field cfg k of Some s \<Rightarrow> Inr s | None \<Rightarrow> Inl (BadRequest (what @ '' config requires '' @ [CHR 0x27] @ k @ [CHR 0x27])))"

definition validate_config :: "string \<Rightarrow> json \<Rightarrow> api_error + unit" where
  "validate_config typ cfg =
     (if typ = ''webhook''
      then sum_bind (need cfg ''webhook'' ''url'') (\<lambda>u. starts_https u (BadRequest ''webhook URL must use https://''))
      else if typ = ''email''
      then (case Option.bind (jget cfg ''to'') as_array of
              None \<Rightarrow> Inl (BadRequest ''email config requires to array'')
            | Some tos \<Rightarrow> if tos = [] then Inl (BadRequest ''email to must not be empty'')
                          else sum_bind (need cfg ''email'' ''credential_id'') (\<lambda>_. Inr ()))
      else if typ = ''matrix''
      then sum_bind (need cfg ''matrix'' ''homeserver'') (\<lambda>_.
           sum_bind (need cfg ''matrix'' ''room_id'') (\<lambda>_.
           sum_bind (need cfg ''matrix'' ''access_token'') (\<lambda>_. Inr ())))
      else if typ = ''webdav''
      then sum_bind (need cfg ''webdav'' ''url'') (\<lambda>u. starts_https u (BadRequest ''webdav URL must use https://''))
      else Inr ())"

section \<open>Routes\<close>

definition denied :: api_error where "denied = Forbidden ''access denied''"

text \<open>Every route first checks access to the project named in its path.\<close>

definition guarded ::
  "api_env \<Rightarrow> identity \<Rightarrow> uuid \<Rightarrow> action \<Rightarrow> store \<Rightarrow> notify_db \<Rightarrow> (api_error + 'r) \<times> notify_db \<Rightarrow> (api_error + 'r) \<times> notify_db" where
  "guarded env i p act tenants db w =
     (case project_guard env i p act denied tenants of Inl e \<Rightarrow> (Inl e, db) | Inr _ \<Rightarrow> w)"

definition create_channel_route ::
  "api_env \<Rightarrow> identity \<Rightarrow> uuid \<Rightarrow> uuid \<Rightarrow> instant \<Rightarrow> string \<Rightarrow> string \<Rightarrow> json \<Rightarrow> store \<Rightarrow> notify_db \<Rightarrow> (api_error + channel) \<times> notify_db" where
  "create_channel_route env i p fresh now name typ cfg tenants db =
     guarded env i p Write tenants db
      (if name = [] \<or> 100 < length name then (Inl (BadRequest ''channel name must be 1-100 characters''), db)
       else if typ \<notin> set channel_types then (Inl (BadRequest (''invalid channel type '' @ typ)), db)
       else case validate_config typ cfg of
         Inl e \<Rightarrow> (Inl e, db)
       | Inr _ \<Rightarrow>
         (case create_channel fresh now p name typ cfg db of
            (Inl e, db') \<Rightarrow>
              (Inl (if e = ''duplicate key'' then BadRequest (''channel name '' @ name @ '' already exists in this project'')
                    else Internal (''failed to create channel: '' @ e)), db')
          | (Inr c, db') \<Rightarrow> (Inr c, db')))"

definition list_channels_route ::
  "(string \<Rightarrow> 'k::linorder) \<Rightarrow> api_env \<Rightarrow> identity \<Rightarrow> uuid \<Rightarrow> store \<Rightarrow> notify_db \<Rightarrow> api_error + channel list" where
  "list_channels_route collate env i p tenants db =
     sum_bind (project_guard env i p Read denied tenants) (\<lambda>_. Inr (list_channels collate p db))"

definition no_channel :: api_error where "no_channel = NotFound ''channel not found''"

definition own_channel :: "uuid \<Rightarrow> uuid \<Rightarrow> notify_db \<Rightarrow> api_error + channel" where
  "own_channel p c db =
     (case get_channel c db of
        None \<Rightarrow> Inl no_channel
      | Some ch \<Rightarrow> if nc_project ch = p then Inr ch else Inl no_channel)"

definition found :: "api_error \<Rightarrow> bool \<times> notify_db \<Rightarrow> (api_error + unit) \<times> notify_db" where
  "found e w = (case w of (b, db) \<Rightarrow> (if b then Inr () else Inl e, db))"

definition update_channel_route ::
  "api_env \<Rightarrow> identity \<Rightarrow> uuid \<Rightarrow> uuid \<Rightarrow> instant \<Rightarrow> json \<Rightarrow> bool option \<Rightarrow> store \<Rightarrow> notify_db \<Rightarrow> (api_error + unit) \<times> notify_db" where
  "update_channel_route env i p c now cfg on tenants db =
     guarded env i p Write tenants db
      (case sum_bind (own_channel p c db) (\<lambda>ch. sum_bind (validate_config (nc_type ch) cfg) (\<lambda>_. Inr ch)) of
         Inl e \<Rightarrow> (Inl e, db)
       | Inr ch \<Rightarrow> found no_channel (update_channel_for_project now c p cfg (case on of Some b \<Rightarrow> b | None \<Rightarrow> nc_enabled ch) db))"

definition delete_channel_route ::
  "api_env \<Rightarrow> identity \<Rightarrow> uuid \<Rightarrow> uuid \<Rightarrow> store \<Rightarrow> notify_db \<Rightarrow> (api_error + unit) \<times> notify_db" where
  "delete_channel_route env i p c tenants db =
     guarded env i p Write tenants db (found no_channel (delete_channel_for_project c p db))"

definition test_channel_route ::
  "api_env \<Rightarrow> identity \<Rightarrow> uuid \<Rightarrow> uuid \<Rightarrow> uuid \<Rightarrow> instant \<Rightarrow> store \<Rightarrow> notify_db \<Rightarrow> (api_error + notification) \<times> notify_db" where
  "test_channel_route env i p c fresh now tenants db =
     guarded env i p Write tenants db
      (case own_channel p c db of
         Inl e \<Rightarrow> (Inl e, db)
       | Inr _ \<Rightarrow>
         (case notif_enqueue fresh now True p c test_subject test_body None (id_user i) db of
            (Inl e, db') \<Rightarrow> (Inl (row_error e), db')
          | (Inr r, db') \<Rightarrow> (Inr r, db')))"

definition list_queue_route ::
  "api_env \<Rightarrow> identity \<Rightarrow> uuid \<Rightarrow> string option \<Rightarrow> store \<Rightarrow> notify_db \<Rightarrow> api_error + notification list" where
  "list_queue_route env i p st tenants db =
     sum_bind (project_guard env i p Read denied tenants) (\<lambda>_. Inr (notif_list_queue (Some p) st 100 db))"

definition cancel_notification_route ::
  "api_env \<Rightarrow> identity \<Rightarrow> uuid \<Rightarrow> uuid \<Rightarrow> instant \<Rightarrow> store \<Rightarrow> notify_db \<Rightarrow> (api_error + unit) \<times> notify_db" where
  "cancel_notification_route env i p q now tenants db =
     guarded env i p Write tenants db
      (found (NotFound ''item not found or not pending'') (notif_cancel_for_project now q p db))"

definition retry_notification_route ::
  "api_env \<Rightarrow> identity \<Rightarrow> uuid \<Rightarrow> uuid \<Rightarrow> instant \<Rightarrow> store \<Rightarrow> notify_db \<Rightarrow> (api_error + unit) \<times> notify_db" where
  "retry_notification_route env i p q now tenants db =
     guarded env i p Write tenants db
      (found (NotFound ''item not found or not failed'') (notif_retry_for_project now q p db))"

datatype notify_request =
    NCreate string string json
  | NUpdate uuid json "bool option"
  | NDelete uuid
  | NTest uuid
  | NCancel uuid
  | NRetry uuid

definition notify_serve ::
  "api_env \<Rightarrow> identity \<Rightarrow> uuid \<Rightarrow> uuid \<Rightarrow> instant \<Rightarrow> notify_request \<Rightarrow> store \<Rightarrow> notify_db \<Rightarrow> notify_db" where
  "notify_serve env i p fresh now req tenants db =
     (case req of
        NCreate name typ cfg \<Rightarrow> snd (create_channel_route env i p fresh now name typ cfg tenants db)
      | NUpdate c cfg on \<Rightarrow> snd (update_channel_route env i p c now cfg on tenants db)
      | NDelete c \<Rightarrow> snd (delete_channel_route env i p c tenants db)
      | NTest c \<Rightarrow> snd (test_channel_route env i p c fresh now tenants db)
      | NCancel q \<Rightarrow> snd (cancel_notification_route env i p q now tenants db)
      | NRetry q \<Rightarrow> snd (retry_notification_route env i p q now tenants db))"

end
