(* ===== verification/NotifyProps.thy ===== *)
theory NotifyProps
  imports NotifyApi ContentProps
begin

text \<open>
  Properties of notifications: where deliveries go, what a pass leaves of the queue, what
  stops one, and who can change a project's channels.
\<close>

section \<open>Deliveries\<close>

lemma send_to_request: "send_to env what req = (r, sent) \<Longrightarrow> sent = [req]"
  by (simp add: send_to_def)

lemma require_https_Inr: "require_https url label = Inr u \<longleftrightarrow> starts_with ''https://'' url"
  by (auto simp: require_https_def)

lemma custom_headers_allowed: "(k, v) \<in> set (custom_headers cfg) \<Longrightarrow> to_lower k \<notin> set BLOCKED_HEADERS"
  by (auto simp: custom_headers_def split: option.splits if_splits)

lemma https_trimmed: "starts_with ''https://'' url \<Longrightarrow> starts_with ''https:'' (without_slashes url)"
proof -
  assume "starts_with ''https://'' url"
  then obtain t where t: "url = ''https:'' @ ''//'' @ t" by (auto simp: starts_with_iff)
  have "trim_end_matches (\<lambda>c. c = CHR ''/'') (''https:'' @ x) = ''https:'' @ trim_end_matches (\<lambda>c. c = CHR ''/'') x" for x
    by (induction x rule: rev_induct) (simp_all add: trim_end_matches_def)
  with t show ?thesis by (simp add: without_slashes_def starts_with_def)
qed

definition secure :: "http_request \<Rightarrow> bool" where
  "secure q \<longleftrightarrow> starts_with ''https:'' (rq_url q) \<and> (\<forall>h \<in> set (rq_headers q). to_lower (fst h) \<notin> set BLOCKED_HEADERS)
     \<and> rq_method q \<in> {''PUT'', ''POST''}"

lemma starts_with_appended: "starts_with p s \<Longrightarrow> starts_with p (s @ t)"
  by (auto simp: starts_with_iff)

lemma plain_headers: "to_lower ''Content-Type'' \<notin> set BLOCKED_HEADERS" "to_lower ''Authorization'' \<notin> set BLOCKED_HEADERS"
  by (simp_all add: BLOCKED_HEADERS_def to_lower_def lower_def)

lemma https_prefix: "starts_with ''https://'' url \<Longrightarrow> starts_with ''https:'' url"
  by (auto simp: starts_with_iff)

lemma single_request:
  assumes "send_to env what req = (r, sent)" and "secure req"
  shows "length sent \<le> 1 \<and> (\<forall>q \<in> set sent. secure q)"
  using send_to_request [OF assms(1)] assms(2) by simp

lemma refused_request: "refused e = (r, sent) \<Longrightarrow> length sent \<le> 1 \<and> (\<forall>q \<in> set sent. secure q)"
  by (simp add: refused_def)

lemma https_ok: "require_https url label = Inr u \<Longrightarrow> starts_with ''https://'' url"
  by (simp add: require_https_Inr)

lemma json_headers: "h \<in> set ((''Content-Type'', x) # custom_headers cfg) \<Longrightarrow> to_lower (fst h) \<notin> set BLOCKED_HEADERS"
  using plain_headers(1) custom_headers_allowed by (cases h) auto

lemma webhook_secure:
  assumes "deliver_webhook env item ch = (r, sent)"
  shows "length sent \<le> 1 \<and> (\<forall>q \<in> set sent. secure q)"
proof (cases "str_field (nc_config ch) ''url''")
  case None
  with assms show ?thesis by (auto simp: deliver_webhook_def Let_def dest: refused_request)
next
  case (Some url)
  show ?thesis
  proof (cases "require_https url ''webhook''")
    case (Inl e)
    with assms Some show ?thesis by (auto simp: deliver_webhook_def Let_def dest: refused_request)
  next
    case (Inr u)
    note sent = assms [unfolded deliver_webhook_def Let_def Some option.case Inr sum.case]
    show ?thesis by (rule single_request [OF sent])
        (use https_prefix [OF https_ok [OF Inr]] json_headers in \<open>auto simp: secure_def\<close>)
  qed
qed

lemma matrix_secure:
  assumes "deliver_matrix env item ch = (r, sent)"
  shows "length sent \<le> 1 \<and> (\<forall>q \<in> set sent. secure q)"
proof -
  let ?f = "str_field (nc_config ch)"
  consider e where "deliver_matrix env item ch = refused e"
    | home room token u where "?f ''homeserver'' = Some home" "?f ''room_id'' = Some room" "?f ''access_token'' = Some token"
        "require_https home ''matrix homeserver'' = Inr u"
    unfolding deliver_matrix_def Let_def
    by (cases "?f ''homeserver''"; cases "?f ''room_id''"; cases "?f ''access_token''";
        cases "require_https (the (?f ''homeserver'')) ''matrix homeserver''") auto
  then show ?thesis
  proof cases
    case 1
    with assms show ?thesis using refused_request by metis
  next
    case 2
    note sent = assms [unfolded deliver_matrix_def Let_def 2 option.case sum.case]
    show ?thesis by (rule single_request [OF sent])
        (use https_trimmed [OF https_ok [OF 2(4)]] plain_headers(2) in \<open>auto simp: secure_def starts_with_appended\<close>)
  qed
qed

lemma dav_headers: "dav_upload env st item = Inr (name, headers, d, what) \<Longrightarrow> h \<in> set headers \<Longrightarrow> to_lower (fst h) \<notin> set BLOCKED_HEADERS"
  using plain_headers(1) by (auto simp: dav_upload_def split: option.splits if_splits)

lemma webdav_secure:
  assumes "deliver_webdav env st item ch = (r, sent)"
  shows "length sent \<le> 1 \<and> (\<forall>q \<in> set sent. secure q)"
proof -
  let ?f = "str_field (nc_config ch)"
  consider e where "deliver_webdav env st item ch = refused e"
    | url u x where "?f ''url'' = Some url" "require_https (without_slashes url) ''webdav'' = Inr u" "dav_upload env st item = Inr x"
    unfolding deliver_webdav_def Let_def
    by (cases "?f ''url''"; cases "require_https (without_slashes (the (?f ''url''))) ''webdav''"; cases "dav_upload env st item") auto
  then show ?thesis
  proof cases
    case 1
    with assms show ?thesis using refused_request by metis
  next
    case 2
    obtain name headers d what where x: "x = (name, headers, d, what)" by (cases x)
    note sent = assms [unfolded deliver_webdav_def Let_def 2 option.case sum.case x prod.case]
    show ?thesis by (rule single_request [OF sent])
        (use https_prefix [OF https_ok [OF 2(2)]] dav_headers [OF 2(3) [unfolded x]] in \<open>auto simp: secure_def starts_with_appended\<close>)
  qed
qed

lemma deliver_secure:
  assumes "deliver env st item ch = (r, sent)"
  shows "length sent \<le> 1 \<and> (\<forall>q \<in> set sent. secure q)"
  using assms webhook_secure matrix_secure webdav_secure
  by (auto simp: deliver_def deliver_email_def refused_def split: if_splits)

section \<open>A pass over the queue\<close>





lemma deliver_claimed_secure:
  assumes "deliver_claimed env st item db = (o', sent, db')"
  shows "length sent \<le> 1 \<and> (\<forall>q \<in> set sent. secure q)"
  using assms deliver_secure [of env st item]
  by (auto simp: deliver_claimed_def split: option.splits if_splits prod.splits sum.splits delivery_error.splits)

lemma process_items_secure:
  "process_items env st items db = (o', sent, db') \<Longrightarrow> length sent \<le> length items \<and> (\<forall>q \<in> set sent. secure q)"
proof (induction items arbitrary: db o' sent db')
  case (Cons item items)
  obtain b d1 where c: "notif_claim (ne_now env) (nq_id item) db = (b, d1)" by (metis surj_pair)
  show ?case
  proof (cases b)
    case False
    with Cons.prems c have "process_items env st items d1 = (o', sent, db')" by simp
    from Cons.IH [OF this] show ?thesis by simp
  next
    case True
    obtain p s1 d2 where d: "deliver_claimed env st item d1 = (p, s1, d2)" by (metis prod_cases3)
    note one = deliver_claimed_secure [OF d]
    show ?thesis
    proof (cases p)
      case (Done n)
      obtain p' s2 d3 where r: "process_items env st items d2 = (p', s2, d3)" by (metis prod_cases3)
      have "sent = s1 @ s2" using Cons.prems c True d Done r by (simp split: pass_outcome.splits)
      with one Cons.IH [OF r] show ?thesis by auto
    next
      case Panicked
      with Cons.prems c True d have "sent = s1" by simp
      with one show ?thesis by auto
    qed
  qed
qed simp

text \<open>
  C25. Whatever a project's channels say, a pass sends at most one request for each of the at
  most 20 notifications it takes, each over HTTPS, by PUT or POST, and without any of the
  headers that would redirect it or speak for another connection.
\<close>

theorem deliveries_secure:
  assumes "process_notification_queue env st db = (res, sent, db')"
  shows "length sent \<le> 20 \<and> (\<forall>q \<in> set sent. secure q)"
proof -
  let ?db = "snd (notif_recover_stale (ne_now env) STALE_PROCESSING_MINUTES db)"
  have "process_items env st (notif_list_pending BATCH_SIZE ?db) ?db = (res, sent, db')"
    using assms by (simp add: process_notification_queue_def Let_def)
  from process_items_secure [OF this] show ?thesis by (auto simp: notif_list_pending_def BATCH_SIZE_def)
qed



section \<open>What goes wrong\<close>

lemma path_join_length: "length (path_join a b) \<le> length a + 1 + length b" "length a + length b \<le> length (path_join a b)"
  by (simp_all add: path_join_def)

lemma dav_path_absent:
  assumes "paths_ok r st" and "length sha = 64"
  shows "files st (path_join (path_join r (take 2 sha)) sha) = None"
proof (rule ccontr)
  let ?p = "path_join (path_join r (take 2 sha)) sha"
  obtain a b t where sha: "sha = a # b # t" using assms(2) by (cases sha; cases "tl sha") auto
  have p: "?p = path_join r ([a, b] @ (if b = CHR ''/'' then sha else CHR ''/'' # sha))" by (simp add: sha path_join_def)
  assume "files st ?p \<noteq> None"
  with assms(1) consider s where "length s = 64" "?p = blob_path r s" | name where "?p = tmp_path r name"
    unfolding paths_ok_def by blast
  then show False
  proof cases
    case 1
    let ?x = "[a, b] @ (if b = CHR ''/'' then sha else CHR ''/'' # sha)"
      and ?y = "''data/'' @ path_join (path_join (take 2 s) (take 2 (drop 2 s))) s"
    from 1(2) have "?x = ?y" unfolding p blob_path_alt [OF 1(1)] path_join_eq .
    then have "length ?x = length ?y" by (rule arg_cong)
    moreover have "length ?x \<le> 67" using assms(2) by (simp add: sha)
    moreover have "length (path_join (path_join (take 2 s) (take 2 (drop 2 s))) s) \<ge> 68"
      using path_join_length(2) [of "path_join (take 2 s) (take 2 (drop 2 s))" s]
        path_join_length(2) [of "take 2 s" "take 2 (drop 2 s)"] 1(1) by simp
    ultimately show False by simp
  next
    case 2
    then show False unfolding p tmp_path_alt path_join_eq by (auto simp: sha split: if_splits)
  qed
qed

text \<open>
  C29. No file is ever delivered over WebDAV: the upload looks for the content in another
  directory than the one contents are stored in, so for every storage the program reaches it
  ends in an error before anything is sent.
\<close>

theorem attachment_never_sent:
  assumes "store_reach h (ne_root env) st" and "\<And>d. length (h d) = 64"
    and "nc_type ch = ''webdav''" and "nq_attachment item = Some a"
  shows "\<exists>e. deliver env st item ch = (Inl e, [])"
proof -
  have "\<exists>e. dav_upload env st item = Inl e"
  proof (cases "get_artifact a st")
    case None
    with assms(4) show ?thesis by (simp add: dav_upload_def)
  next
    case (Some art)
    then have "art \<in> set (storage.arts st)" by (auto simp: get_artifact_def find_Some_iff)
    with store_reach_wf [OF assms(1,2)] have "length (ar_sha art) = 64" by (auto simp: blob_wf_def held_def)
    from dav_path_absent [OF store_reach_paths [OF assms(1,2)] this] Some assms(4)
    show ?thesis by (simp add: dav_upload_def dav_path_def)
  qed
  with assms(3) show ?thesis
    by (auto simp: deliver_def deliver_webdav_def Let_def refused_def split: option.split sum.split)
qed

text \<open>
  C30. A configuration the routes accept can stop the tick: when byte 30 of a Matrix server's
  address that does not begin with https:// lies inside a character, the delivery panics, the
  pass ends there, and the notification stays claimed.
\<close>

theorem accepted_channel_panics:
  assumes "nc_type ch = ''matrix''" and "str_field (nc_config ch) ''homeserver'' = Some home"
    and "str_field (nc_config ch) ''room_id'' = Some room" and "str_field (nc_config ch) ''access_token'' = Some token"
    and "\<not> starts_with ''https://'' home" and "\<not> is_char_boundary home (min (length home) 30)"
    and "nc_enabled ch" and "get_channel (nq_channel item) db = Some ch" and "notif_claim (ne_now env) (nq_id item) db = (True, db')"
  shows "validate_config (nc_type ch) (nc_config ch) = Inr () \<and>
    process_items env st (item # items) db = (Panicked, [], db') \<and>
    (\<forall>r \<in> set (notifications db'). nq_id r = nq_id item \<longrightarrow> distinct (map nq_id (notifications db)) \<longrightarrow> nq_status r = QProcessing)"
proof -
  have "channels db' = channels db"
    using assms(9) by (auto simp: notif_claim_def on_queue_def split: prod.splits)
  with assms(8) have "get_channel (nq_channel item) db' = Some ch" by (simp add: get_channel_def)
  then have "process_items env st (item # items) db = (Panicked, [], db')"
    using assms(1-7,9)
    by (simp add: deliver_claimed_def deliver_def deliver_matrix_def Let_def require_https_def refused_def)
  moreover have "validate_config (nc_type ch) (nc_config ch) = Inr ()"
    using assms(1-4) by (simp add: validate_config_def need_def)
  moreover have "nq_status r = QProcessing"
    if r: "r \<in> set (notifications db')" "nq_id r = nq_id item" and d: "distinct (map nq_id (notifications db))" for r
  proof -
    have upd: "update_any (\<lambda>r. nq_id r = nq_id item \<and> nq_status r = QPending) (\<lambda>r. r\<lparr>nq_status := QProcessing, nq_updated := ne_now env\<rparr>)
        (notifications db) = (True, notifications db')"
      using assms(9) by (auto simp: notif_claim_def on_queue_def claim_rows_def split: prod.splits)
    then obtain q where q: "q \<in> set (notifications db)" "nq_id q = nq_id item" "nq_status q = QPending" by (auto simp: update_any_def)
    from update_any_row [OF upd _ d q(1) r(1), of] r(2) q(2,3) show ?thesis by simp
  qed
  ultimately show ?thesis by blast
qed

section \<open>Channels and projects\<close>

text \<open>A notification is queued for a channel of its own project.\<close>

definition notify_ok :: "notify_db \<Rightarrow> bool" where
  "notify_ok db \<longleftrightarrow> distinct (map nc_id (channels db)) \<and>
     (\<forall>n \<in> set (notifications db). \<exists>c \<in> set (channels db). nc_id c = nq_channel n \<and> nc_project c = nq_project n)"

definition keys :: "notification list \<Rightarrow> (uuid \<times> uuid) list" where
  "keys t = map (\<lambda>r. (nq_project r, nq_channel r)) t"

lemma notify_ok_keys:
  assumes "notify_ok db" and "map (\<lambda>c. (nc_id c, nc_project c)) (channels db') = map (\<lambda>c. (nc_id c, nc_project c)) (channels db)"
    and "set (keys (notifications db')) \<subseteq> set (keys (notifications db))"
  shows "notify_ok db'"
proof -
  have ids: "map nc_id (channels db') = map nc_id (channels db)" using arg_cong [OF assms(2), of "map fst"] by (simp add: comp_def)
  have cs: "(\<lambda>c. (nc_id c, nc_project c)) ` set (channels db') = (\<lambda>c. (nc_id c, nc_project c)) ` set (channels db)"
    using arg_cong [OF assms(2), of set] by simp
  have "\<exists>c \<in> set (channels db'). nc_id c = nq_channel n \<and> nc_project c = nq_project n" if "n \<in> set (notifications db')" for n
  proof -
    have "(nq_project n, nq_channel n) \<in> set (keys (notifications db))" using that assms(3) by (auto simp: keys_def)
    then obtain c where "c \<in> set (channels db)" "nc_id c = nq_channel n" "nc_project c = nq_project n"
      using assms(1) by (auto simp: keys_def notify_ok_def)
    with cs have "(nq_channel n, nq_project n) \<in> (\<lambda>c. (nc_id c, nc_project c)) ` set (channels db')" by force
    then show ?thesis by auto
  qed
  with assms(1) ids show ?thesis by (simp add: notify_ok_def)
qed

lemma update_any_keys: "update_any p f t = (b, t') \<Longrightarrow> (\<And>r. (nq_project (f r), nq_channel (f r)) = (nq_project r, nq_channel r)) \<Longrightarrow> keys t' = keys t"
  by (auto simp: update_any_def update_where_def keys_def)

lemma row_statement_keys:
  "keys (snd (claim_rows now i t)) = keys t" "keys (snd (complete_rows now i t)) = keys t"
  "keys (snd (fail_rows now i err t)) = keys t" "keys (snd (fail_permanent_rows now i err t)) = keys t"
  "keys (snd (cancel_rows now p t)) = keys t" "keys (snd (recover_rows now mins t)) = keys t" "keys (snd (retry_rows now p t)) = keys t"
  by (simp_all add: row_statements update_any_def update_where_def keys_def)

lemma on_queue_sel: "channels (snd (on_queue f db)) = channels db" "notifications (snd (on_queue f db)) = snd (f (notifications db))"
  by (simp_all add: on_queue_def split: prod.split)

lemma deliver_claimed_keys:
  "channels (snd (snd (deliver_claimed env st item db))) = channels db"
  "keys (notifications (snd (snd (deliver_claimed env st item db)))) = keys (notifications db)"
  by (simp_all add: deliver_claimed_def notif_fail_def notif_fail_permanent_def notif_complete_def on_queue_sel row_statement_keys
      split: option.split sum.split prod.split delivery_error.split)

lemma process_items_keys:
  "channels (snd (snd (process_items env st items db))) = channels db \<and>
   keys (notifications (snd (snd (process_items env st items db)))) = keys (notifications db)"
proof (induction items arbitrary: db)
  case (Cons item items)
  obtain b d1 where c: "notif_claim (ne_now env) (nq_id item) db = (b, d1)" by (metis surj_pair)
  then have d1: "channels d1 = channels db" "keys (notifications d1) = keys (notifications db)"
    using on_queue_sel [of "claim_rows (ne_now env) (nq_id item)" db] row_statement_keys(1) by (simp_all add: notif_claim_def)
  obtain p s1 d2 where d: "deliver_claimed env st item d1 = (p, s1, d2)" by (metis prod_cases3)
  from deliver_claimed_keys [of env st item d1] d d1
  have d2: "channels d2 = channels db" "keys (notifications d2) = keys (notifications db)" by simp_all
  show ?case using c d d1 d2 Cons.IH [of d1] Cons.IH [of d2] by (auto split: pass_outcome.split prod.split bool.split)
qed simp

inductive notify_reach :: "notify_db \<Rightarrow> bool" where
  start: "notify_reach \<lparr>channels = [], notifications = []\<rparr>"
| route: "notify_reach db \<Longrightarrow> fresh \<notin> nc_id ` set (channels db) \<Longrightarrow>
    notify_reach (notify_serve env i p fresh now req tenants db)"
| send: "notify_reach db \<Longrightarrow> notify_reach (snd (notify_send ctx input db))"
| upload: "notify_reach db \<Longrightarrow> notify_reach (snd (notify_upload ctx input db))"
| test: "notify_reach db \<Longrightarrow> notify_reach (snd (notify_test ctx input db))"
| pass: "notify_reach db \<Longrightarrow> notify_reach (snd (snd (process_notification_queue nenv st db)))"
| single: "notify_reach db \<Longrightarrow> notify_reach (snd (snd (process_single nenv st i db)))"

lemma notify_ok_enqueue:
  assumes "notify_ok db" and "c \<in> set (channels db)" and "nc_id c = ch" and "nc_project c = p"
  shows "notify_ok (snd (notif_enqueue fresh now ok p ch subj body att u db))"
  using assms by (auto simp: notif_enqueue_def Let_def notify_ok_def)

lemma lookup_channel_Inr:
  "lookup_channel ctx name db = Inr ch \<Longrightarrow> ch \<in> set (channels db) \<and> nc_project ch = nx_project ctx"
  by (auto simp: lookup_channel_def get_channel_by_name_def find_Some_iff split: option.splits if_splits)

lemma queued_snd: "snd (queued ctx name extra w) = snd w"
  by (cases w) (simp add: queued_def split: sum.split)

lemma put_in_queue_snd: "snd (put_in_queue ctx what ch subj body att db) =
    snd (notif_enqueue (nx_fresh ctx) (nx_now ctx) (case att of None \<Rightarrow> True | Some a \<Rightarrow> nx_artifact ctx a)
      (nx_project ctx) (nc_id ch) subj body att (nx_user ctx) db)"
  by (simp add: put_in_queue_def split: prod.split sum.split)

lemma answer_ok:
  assumes "notify_ok db" and "\<And>x. r = Inr x \<Longrightarrow> notify_ok (snd (f x))"
  shows "notify_ok (snd (answer r f db))"
  using assms by (auto simp: answer_def split: sum.split)

lemma tools_ok:
  assumes "notify_ok db"
  shows "notify_ok (snd (notify_send ctx input db))" and "notify_ok (snd (notify_upload ctx input db))"
    and "notify_ok (snd (notify_test ctx input db))"
  unfolding notify_send_def notify_upload_def notify_test_def Let_def
  by (rule answer_ok [OF assms],
      auto simp: error_iff queued_snd put_in_queue_snd split: if_splits option.splits
        dest!: lookup_channel_Inr intro!: notify_ok_enqueue [OF assms])+

text \<open>What a route may change: channels and notifications of the project in its path.\<close>

definition elsewhere :: "uuid \<Rightarrow> notify_db \<Rightarrow> channel list \<times> notification list" where
  "elsewhere q db = (filter (\<lambda>c. nc_project c \<noteq> q) (channels db), filter (\<lambda>n. nq_project n \<noteq> q) (notifications db))"

definition local_to :: "uuid \<Rightarrow> notify_db \<Rightarrow> notify_db \<Rightarrow> bool" where
  "local_to q db db' \<longleftrightarrow> notify_ok db' \<and> elsewhere q db' = elsewhere q db"

lemma filter_update_where:
  "(\<And>r. r \<in> set t \<Longrightarrow> p r \<Longrightarrow> \<not> k r \<and> \<not> k (f r)) \<Longrightarrow> filter k (update_where p f t) = filter k t"
  by (induction t) (auto simp: update_where_def)

lemma create_local:
  assumes "notify_ok db" and "fresh \<notin> nc_id ` set (channels db)"
  shows "local_to p db (snd (create_channel fresh now p name typ cfg db))"
  using assms by (auto simp: create_channel_def Let_def local_to_def elsewhere_def notify_ok_def)

lemma update_local:
  assumes "notify_ok db"
  shows "local_to p db (snd (update_channel_for_project now c p cfg on db))"
proof -
  let ?cs = "update_where (\<lambda>x. nc_id x = c \<and> nc_project x = p) (\<lambda>c. c\<lparr>nc_config := cfg, nc_enabled := on, nc_updated := now\<rparr>) (channels db)"
  have s: "snd (update_channel_for_project now c p cfg on db) = db\<lparr>channels := ?cs\<rparr>"
    by (simp add: update_channel_for_project_def update_any_def)
  have "map (\<lambda>c. (nc_id c, nc_project c)) ?cs = map (\<lambda>c. (nc_id c, nc_project c)) (channels db)"
    by (auto simp: update_where_def)
  then have "notify_ok (db\<lparr>channels := ?cs\<rparr>)" by (intro notify_ok_keys [OF assms]) simp_all
  moreover have "filter (\<lambda>c. nc_project c \<noteq> p) ?cs = filter (\<lambda>c. nc_project c \<noteq> p) (channels db)"
    by (rule filter_update_where) simp
  ultimately show ?thesis by (simp add: s local_to_def elsewhere_def)
qed

lemma delete_local:
  assumes ok: "notify_ok db"
  shows "local_to p db (snd (delete_channel_for_project c p db))"
proof -
  let ?P = "\<lambda>x. nc_id x = c \<and> nc_project x = p"
  let ?N = "\<lambda>r. nq_channel r \<notin> nc_id ` set (filter ?P (channels db))"
  have s: "snd (delete_channel_for_project c p db) =
      db\<lparr>channels := filter (\<lambda>x. \<not> ?P x) (channels db), notifications := filter ?N (notifications db)\<rparr>"
    by (simp add: delete_channel_for_project_def delete_channels_def Let_def)
  have own: "\<exists>x \<in> set (channels db). nc_id x = nq_channel n \<and> nc_project x = nq_project n" if "n \<in> set (notifications db)" for n
    using ok that by (simp add: notify_ok_def)
  have "\<exists>x \<in> set (filter (\<lambda>x. \<not> ?P x) (channels db)). nc_id x = nq_channel n \<and> nc_project x = nq_project n"
    if "n \<in> set (notifications db)" "?N n" for n
  proof -
    from own [OF that(1)] obtain x where x: "x \<in> set (channels db)" "nc_id x = nq_channel n" "nc_project x = nq_project n" by blast
    with that(2) have "\<not> ?P x" by force
    with x show ?thesis by auto
  qed
  moreover have "distinct (map nc_id (filter (\<lambda>x. \<not> ?P x) (channels db)))" using ok by (simp add: notify_ok_def distinct_map_filter)
  moreover have "?N n" if "n \<in> set (notifications db)" "nq_project n \<noteq> p" for n
  proof
    assume "nq_channel n \<in> nc_id ` set (filter ?P (channels db))"
    then obtain y where y: "y \<in> set (channels db)" "nc_id y = nq_channel n" "nc_project y = p" by auto
    from own [OF that(1)] obtain x where x: "x \<in> set (channels db)" "nc_id x = nq_channel n" "nc_project x = nq_project n" by blast
    have "x = y" using ok x(1,2) y(1,2) by (auto simp: notify_ok_def distinct_map inj_on_def)
    with x(3) y(3) that(2) show False by simp
  qed
  then have "filter (\<lambda>n. nq_project n \<noteq> p) (filter ?N (notifications db)) = filter (\<lambda>n. nq_project n \<noteq> p) (notifications db)"
    by (auto intro!: filter_cong)
  moreover have "filter (\<lambda>x. nc_project x \<noteq> p) (filter (\<lambda>x. \<not> ?P x) (channels db)) = filter (\<lambda>x. nc_project x \<noteq> p) (channels db)"
    by (auto intro!: filter_cong)
  ultimately show ?thesis unfolding s local_to_def elsewhere_def notify_ok_def by simp
qed

lemma enqueue_local:
  assumes "notify_ok db" and "own_channel p c db = Inr ch"
  shows "local_to p db (snd (notif_enqueue fresh now ok p c subj body att u db))"
proof -
  have "ch \<in> set (channels db)" "nc_id ch = c" "nc_project ch = p"
    using assms(2) by (auto simp: own_channel_def get_channel_def find_Some_iff split: option.splits if_splits)
  from notify_ok_enqueue [OF assms(1) this, of fresh now ok subj body att u] show ?thesis
    by (auto simp: local_to_def elsewhere_def notif_enqueue_def Let_def)
qed

lemma status_local:
  assumes "notify_ok db"
  shows "local_to p db (snd (notif_cancel_for_project now q p db))" and "local_to p db (snd (notif_retry_for_project now q p db))"
proof -
  have f: "filter (\<lambda>n. nq_project n \<noteq> p) (snd (cancel_rows now (\<lambda>r. nq_id r = q \<and> nq_project r = p) t)) = filter (\<lambda>n. nq_project n \<noteq> p) t"
    "filter (\<lambda>n. nq_project n \<noteq> p) (snd (retry_rows now (\<lambda>r. nq_id r = q \<and> nq_project r = p) t)) = filter (\<lambda>n. nq_project n \<noteq> p) t" for t
    unfolding cancel_rows_def retry_rows_def update_any_def snd_conv by (rule filter_update_where, simp)+
  have "notify_ok (snd (on_queue g db))" if "keys (snd (g (notifications db))) = keys (notifications db)" for g
    by (rule notify_ok_keys [OF assms]) (simp_all add: on_queue_sel that)
  then show "local_to p db (snd (notif_cancel_for_project now q p db))" and "local_to p db (snd (notif_retry_for_project now q p db))"
    by (simp_all add: local_to_def elsewhere_def notif_cancel_for_project_def notif_retry_for_project_def on_queue_sel row_statement_keys f)
qed

lemma local_refl: "notify_ok db \<Longrightarrow> local_to p db db"
  by (simp add: local_to_def)

lemma guarded_local:
  assumes "notify_ok db" and "\<And>v. project_guard env i p act denied tenants = Inr v \<Longrightarrow> local_to p db (snd w)"
  shows "local_to p db (snd (guarded env i p act tenants db w))"
  using assms by (auto simp: guarded_def local_refl split: sum.split)

lemma found_snd: "snd (found e w) = snd w"
  by (cases w) (simp add: found_def)

lemma serve_local:
  assumes ok: "notify_ok db" and "fresh \<notin> nc_id ` set (channels db)"
  shows "local_to p db (notify_serve env i p fresh now req tenants db)"
proof (cases req)
  case (NCreate name ty cfg)
  have "local_to p db (snd (create_channel_route env i p fresh now name ty cfg tenants db))"
    unfolding create_channel_route_def
    by (rule guarded_local [OF ok]) (use create_local [OF assms, of p now name ty cfg] in
      \<open>auto simp: local_refl [OF ok] split: sum.split prod.split\<close>)
  with NCreate show ?thesis by (simp add: notify_serve_def)
next
  case (NUpdate c cfg on)
  have "local_to p db (snd (update_channel_route env i p c now cfg on tenants db))"
    unfolding update_channel_route_def
    by (rule guarded_local [OF ok]) (auto simp: local_refl [OF ok] found_snd update_local [OF ok] split: sum.split)
  with NUpdate show ?thesis by (simp add: notify_serve_def)
next
  case (NDelete c)
  have "local_to p db (snd (delete_channel_route env i p c tenants db))"
    unfolding delete_channel_route_def by (rule guarded_local [OF ok]) (simp add: found_snd delete_local [OF ok])
  with NDelete show ?thesis by (simp add: notify_serve_def)
next
  case (NTest c)
  have "local_to p db (snd (test_channel_route env i p c fresh now tenants db))"
    unfolding test_channel_route_def
  proof (rule guarded_local [OF ok])
    show "local_to p db (snd (case own_channel p c db of Inl e \<Rightarrow> (Inl e, db) | Inr _ \<Rightarrow>
        (case notif_enqueue fresh now True p c test_subject test_body None (id_user i) db of
           (Inl e, db') \<Rightarrow> (Inl (row_error e), db') | (Inr r, db') \<Rightarrow> (Inr r, db'))))"
      using enqueue_local [OF ok, of p c _ fresh now True test_subject test_body None "id_user i"] local_refl [OF ok]
      by (auto split: sum.split prod.split)
  qed
  with NTest show ?thesis by (simp add: notify_serve_def)
next
  case (NCancel q)
  have "local_to p db (snd (cancel_notification_route env i p q now tenants db))"
    unfolding cancel_notification_route_def by (rule guarded_local [OF ok]) (simp add: found_snd status_local [OF ok])
  with NCancel show ?thesis by (simp add: notify_serve_def)
next
  case (NRetry q)
  have "local_to p db (snd (retry_notification_route env i p q now tenants db))"
    unfolding retry_notification_route_def by (rule guarded_local [OF ok]) (simp add: found_snd status_local [OF ok])
  with NRetry show ?thesis by (simp add: notify_serve_def)
qed

lemma notify_reach_ok: "notify_reach db \<Longrightarrow> notify_ok db"
proof (induction rule: notify_reach.induct)
  case start
  then show ?case by (simp add: notify_ok_def)
next
  case (route db fresh env i p now req tenants)
  with serve_local [of db fresh p env i now req tenants] show ?case by (simp add: local_to_def)
next
  case (pass db nenv st)
  let ?db = "snd (notif_recover_stale (ne_now nenv) STALE_PROCESSING_MINUTES db)"
  have "channels ?db = channels db" "keys (notifications ?db) = keys (notifications db)"
    by (simp_all add: notif_recover_stale_def Let_def on_queue_sel row_statement_keys)
  with process_items_keys [of nenv st "notif_list_pending BATCH_SIZE ?db" ?db] show ?case
    by (intro notify_ok_keys [OF pass.IH]) (simp_all add: process_notification_queue_def Let_def)
next
  case (single db nenv st i)
  obtain b d1 where c: "notif_claim (ne_now nenv) i db = (b, d1)" by (metis surj_pair)
  then have d1: "channels d1 = channels db" "keys (notifications d1) = keys (notifications db)"
    using on_queue_sel [of "claim_rows (ne_now nenv) i" db] row_statement_keys(1) by (simp_all add: notif_claim_def)
  show ?case
    by (rule notify_ok_keys [OF single.IH])
      (use c d1 deliver_claimed_keys [of nenv st _ d1] in \<open>simp_all add: process_single_def split: option.split bool.split\<close>)
qed (simp_all add: tools_ok)

text \<open>
  C12. A caller who is not an administrator and may not write to a project changes neither its
  notification channels nor its notifications by any request, in every state that routes,
  tools and passes reach.
\<close>

theorem notify_requests_confined:
  assumes "notify_reach db" and "fresh \<notin> nc_id ` set (channels db)" and "keys_ok tenants"
    and "\<not> is_admin i" and "id_user i = Some u" and "\<not> may tenants u p Write"
  shows "filter (\<lambda>c. nc_project c = p) (channels (notify_serve env i q fresh now req tenants db)) =
      filter (\<lambda>c. nc_project c = p) (channels db) \<and>
    filter (\<lambda>n. nq_project n = p) (notifications (notify_serve env i q fresh now req tenants db)) =
      filter (\<lambda>n. nq_project n = p) (notifications db)"
proof (cases "project_guard env i q Write denied tenants")
  case (Inl e)
  then have "notify_serve env i q fresh now req tenants db = db"
    by (simp add: notify_serve_def create_channel_route_def update_channel_route_def delete_channel_route_def
        test_channel_route_def cancel_notification_route_def retry_notification_route_def guarded_def split: notify_request.split)
  then show ?thesis by simp
next
  case (Inr v)
  from guard_may [OF Inr assms(3-5)] assms(6) have q: "q \<noteq> p" by blast
  from serve_local [OF notify_reach_ok [OF assms(1)] assms(2), of q env i now req tenants]
  have e: "elsewhere q (notify_serve env i q fresh now req tenants db) = elsewhere q db" by (simp add: local_to_def)
  have "filter (\<lambda>x. k x = p) xs = filter (\<lambda>x. k x = p) (filter (\<lambda>x. k x \<noteq> q) xs)" for k and xs :: "'x list"
    using q by (auto intro: filter_cong)
  with e show ?thesis unfolding elsewhere_def prod.inject by metis
qed

section \<open>Concrete instances\<close>

definition sample_nenv :: notify_env where
  "sample_nenv = \<lparr>ne_send = (\<lambda>_. Inr (200, [])), ne_uuid = show_nat, ne_rfc3339 = show_nat, ne_stamp = show_nat,
     ne_status = show_nat, ne_alnum = (\<lambda>_. True), ne_root = ''s'', ne_now = 0\<rparr>"

definition no_files :: storage where
  "no_files = \<lparr>files = Map.empty, blobs = [], arts = [], run_links = []\<rparr>"

definition sample_channel :: "string \<Rightarrow> json \<Rightarrow> channel" where
  "sample_channel typ cfg = \<lparr>nc_id = 5, nc_project = 10, nc_name = ''c'', nc_type = typ, nc_config = cfg, nc_enabled = True,
     nc_created = 0, nc_updated = 0\<rparr>"

definition sample_item :: "queue_status \<Rightarrow> uuid option \<Rightarrow> notification" where
  "sample_item st att = \<lparr>nq_id = 6, nq_project = 10, nq_channel = 5, nq_subject = ''s'', nq_body = [], nq_attachment = att,
     nq_status = st, nq_error = None, nq_attempts = 0, nq_max = 5, nq_submitted = None, nq_created = 0, nq_updated = 0,
     nq_completed = None\<rparr>"

definition hook_cfg :: json where
  "hook_cfg = JObj [(''url'', JStr ''https://h/x''), (''headers'', JObj [(''Cookie'', JStr ''a''), (''X-A'', JStr ''b'')])]"

definition hook_db :: "queue_status \<Rightarrow> notify_db" where
  "hook_db st = \<lparr>channels = [sample_channel ''webhook'' hook_cfg], notifications = [sample_item st None]\<rparr>"

lemmas pass_defs = process_notification_queue_def notif_recover_stale_def on_queue_def recover_rows_def update_any_def
  update_where_def notif_list_pending_def BATCH_SIZE_def STALE_PROCESSING_MINUTES_def notif_claim_def claim_rows_def

lemma hook_delivered:
  "\<exists>q db'. process_notification_queue sample_nenv st (hook_db QPending) = (Done 1, [q], db') \<and> rq_url q = ''https://h/x''"
  by (simp add: pass_defs hook_db_def sample_item_def sample_channel_def sample_nenv_def deliver_claimed_def get_channel_def
      deliver_def deliver_webhook_def hook_cfg_def str_field_def require_https_def starts_with_def send_to_def)

theorem deliveries_secure_witness:
  "\<exists>q db'. process_notification_queue sample_nenv no_files (hook_db QPending) = (Done 1, [q], db') \<and> secure q"
proof -
  obtain q db' where run: "process_notification_queue sample_nenv no_files (hook_db QPending) = (Done 1, [q], db')"
    using hook_delivered by blast
  from deliveries_secure [OF run] run show ?thesis by simp
qed


theorem attachment_never_sent_witness:
  "\<exists>st e. storage.arts st \<noteq> [] \<and>
     deliver sample_nenv st (sample_item QProcessing (Some 7)) (sample_channel ''webdav'' (JObj [(''url'', JStr ''https://h'')])) = (Inl e, [])"
proof -
  let ?st = "snd (ingest_artifact (calm sample_hash ''s'') 7 True 1 ''a'' ''x'' None None
                \<lparr>files = Map.empty, blobs = [], arts = [], run_links = []\<rparr>)"
  have "store_reach sample_hash (ne_root sample_nenv) ?st"
    by (rule store_reach.ingest [OF store_reach.start]) (simp_all add: calm_def sample_nenv_def)
  from attachment_never_sent [OF this sample_hash_length, of "sample_channel ''webdav'' (JObj [(''url'', JStr ''https://h'')])"
      "sample_item QProcessing (Some 7)" 7] ingested(2) [OF refl, of "''x''"]
  show ?thesis by (force simp: sample_channel_def sample_item_def)
qed

definition long_home :: string where
  "long_home = replicate 29 (CHR ''a'') @ [char_of (195 :: nat), char_of (169 :: nat)]"

lemma long_home_cut: "\<not> starts_with ''https://'' long_home" "\<not> is_char_boundary long_home (min (length long_home) 30)"
proof -
  have len: "length long_home = 31" by (simp add: long_home_def)
  have a: "hd long_home = CHR ''a''" by (simp add: long_home_def)
  show "\<not> starts_with ''https://'' long_home"
  proof
    assume "starts_with ''https://'' long_home"
    then obtain t where "long_home = ''https://'' @ t" by (auto simp: starts_with_iff)
    then have "hd long_home = hd (''https://'' @ t)" by (rule arg_cong)
    with a show False by simp
  qed
  have "long_home ! 30 = char_of (169 :: nat)" by (simp add: long_home_def nth_append)
  then show "\<not> is_char_boundary long_home (min (length long_home) 30)"
    by (simp add: is_char_boundary_def continuation_def len)
qed

definition matrix_cfg :: json where
  "matrix_cfg = JObj [(''homeserver'', JStr long_home), (''room_id'', JStr ''r''), (''access_token'', JStr ''t'')]"

theorem accepted_channel_panics_witness:
  "\<exists>(ch :: channel) item db db'. validate_config (nc_type ch) (nc_config ch) = Inr () \<and>
     process_items sample_nenv no_files [item] db = (Panicked, [], db') \<and> nq_status (hd (notifications db')) = QProcessing"
proof -
  let ?ch = "sample_channel ''matrix'' matrix_cfg" and ?item = "sample_item QPending None"
  let ?db = "\<lparr>channels = [?ch], notifications = [?item]\<rparr>"
  let ?db' = "\<lparr>channels = [?ch], notifications = [sample_item QProcessing None]\<rparr>"
  have claimed: "notif_claim (ne_now sample_nenv) (nq_id ?item) ?db = (True, ?db')"
    by (simp add: notif_claim_def on_queue_def claim_rows_def update_any_def update_where_def sample_item_def sample_nenv_def)
  have home: "str_field (nc_config ?ch) ''homeserver'' = Some long_home" "str_field (nc_config ?ch) ''room_id'' = Some ''r''"
    "str_field (nc_config ?ch) ''access_token'' = Some ''t''" "nc_type ?ch = ''matrix''" "nc_enabled ?ch"
    by (simp_all add: sample_channel_def matrix_cfg_def str_field_def)
  have cut: "\<not> starts_with ''https://'' long_home" "\<not> is_char_boundary long_home (min (length long_home) 30)"
    using long_home_cut by simp_all
  have "get_channel (nq_channel ?item) ?db = Some ?ch" by (simp add: get_channel_def sample_item_def sample_channel_def)
  from accepted_channel_panics [OF home(4,1,2,3) cut home(5) this claimed, of no_files "[]"]
  have "validate_config (nc_type ?ch) (nc_config ?ch) = Inr () \<and>
      process_items sample_nenv no_files [?item] ?db = (Panicked, [], ?db')" by blast
  moreover have "nq_status (hd (notifications ?db')) = QProcessing" by (simp add: sample_item_def)
  ultimately show ?thesis by blast
qed

theorem notify_requests_confined_witness:
  "\<exists>db. length (channels db) = 1 \<and>
     filter (\<lambda>c. nc_project c = 10) (channels (notify_serve sample_api user2 10 9 0 (NDelete 5) db1 db)) = channels db"
proof -
  let ?db = "notify_serve sample_api user1 10 5 0 (NCreate ''c'' ''webhook'' hook_cfg) db1 \<lparr>channels = [], notifications = []\<rparr>"
  have chs: "channels ?db = [sample_channel ''webhook'' hook_cfg]"
    by (simp add: notify_serve_def create_channel_route_def guarded_def sample_guard channel_types_def validate_config_def need_def
        hook_cfg_def str_field_def starts_https_def starts_with_def create_channel_def sample_channel_def Let_def del: One_nat_def)
  have "notify_reach ?db" by (rule notify_reach.route [OF notify_reach.start]) simp
  from notify_requests_confined [OF this, of 9 db1 user2 2 10 sample_api 10 0 "NDelete 5"] chs
  have "filter (\<lambda>c. nc_project c = 10) (channels (notify_serve sample_api user2 10 9 0 (NDelete 5) db1 ?db)) =
      filter (\<lambda>c. nc_project c = 10) (channels ?db)"
    by (simp add: db1_keys db1_may sample_channel_def)
  with chs have "length (channels ?db) = 1 \<and>
     filter (\<lambda>c. nc_project c = 10) (channels (notify_serve sample_api user2 10 9 0 (NDelete 5) db1 ?db)) = channels ?db"
    by (simp add: sample_channel_def)
  then show ?thesis by (rule exI)
qed

end
