(* ===== verification/Spec2Isabelle.thy ===== *)
theory Spec2Isabelle
  imports JobProps TenancyProps WebProps MailProps RunAccounting ChatProps TextProps PluginProps QueueProps ContentProps NotifyProps
begin

text \<open>
  A model of Arbeiterfarm, a server on which language-model agents analyse files with
  tools, inside projects that several users share.

  \<^bold>\<open>The program.\<close> A user belongs to projects; a project holds artifacts (files), threads
  (conversations) and members. A message in a thread starts an agent run
  (\<open>af-agents\<close>): the run sends the conversation to a model, checks and repairs the tool
  calls of its answer, hands them to the invoker of the job queue (\<open>af-jobs\<close>), and goes on
  until the model answers with a text or a budget is used up. A job becomes a row of
  \<open>tool_runs\<close> (\<open>af-db\<close>), is claimed by a worker, given a context of the project's
  artifacts, executed, and its outcome is stored; a reaper takes back the rows of dead
  workers. Some tools reach the outside: the web gateway (\<open>af-web-gateway\<close>) fetches pages
  under address and URL rules, and mail (\<open>af-email\<close>) is sent under recipient rules, at once
  or by the scheduler. The HTTP interface (\<open>af-api\<close>) and row-level security decide who may
  do what.

  \<^bold>\<open>Foundations.\<close> \<open>Prelude\<close> holds the result monad (a sum, errors left), string functions
  of the standard library, decimal printing, and the collections \<open>error_iff\<close> and
  \<open>core_simps\<close>; \<open>Json\<close> the JSON values with the depth check of \<open>af-jobs/src/enqueue.rs\<close>;
  \<open>AccessRules\<close> the locale of block-and-allow rule lists, interpreted by \<open>UrlRules\<close> and
  \<open>RecipientRules\<close>.

  \<^bold>\<open>Jobs.\<close> \<open>Registry\<close> (\<open>af-core/src/registry.rs\<close>, \<open>types.rs\<close>, with the validation at
  start-up), \<open>Resolver\<close> (\<open>resolver.rs\<close>: which fields of an input name artifacts),
  \<open>ToolRuns\<close> (\<open>af-db/src/tool_runs.rs\<close>: every statement as an atomic function of the table),
  \<open>Quotas\<close> (\<open>user_quotas.rs\<close>), \<open>Enqueue\<close> (\<open>af-jobs/src/enqueue.rs\<close>), \<open>Worker\<close>
  (\<open>worker.rs\<close>, \<open>context_builder.rs\<close>, \<open>invoker.rs\<close>). \<open>JobMachine\<close> and \<open>JobSystem\<close> put the
  operations together as step relations in which callers, workers that may die, late reports
  and the reaper interleave in any order. \<open>JobProps\<close> proves that no job sees another project's artifacts, that the
  concurrency quota holds, that a job is handed out a bounded number of times, that an
  abandoned queue drains, and that what a tool said reaches the caller.

  \<^bold>\<open>Tenancy.\<close> \<open>Projects\<close> (the tables of projects, members, settings and audit log with
  row-level security), \<open>Authz\<close> (\<open>af-auth\<close>, \<open>af-core/src/identity.rs\<close>, \<open>af-api/src/auth.rs\<close>),
  \<open>Deletion\<close> (\<open>delete_project\<close>, \<open>delete_thread\<close> and the retention purge, with every foreign
  key of the migrations), \<open>ProjectApi\<close> (the handlers of \<open>routes/projects.rs\<close> and
  \<open>routes/members.rs\<close>, and the requests as a step relation). \<open>TenancyProps\<close> proves the access
  check equal to its specification in every reachable state, who can change what, and what
  a deletion leaves.

  \<^bold>\<open>Web and mail.\<close> \<open>NetAddr\<close> (\<open>ssrf.rs\<close> and address ranges), \<open>UrlRules\<close> (\<open>rules.rs\<close>),
  \<open>RateLimit\<close> (both token buckets), \<open>Gateway\<close> and \<open>Search\<close> (\<open>gateway.rs\<close>), \<open>RecipientRules\<close>
  and \<open>MailQueue\<close> (\<open>recipient_rules.rs\<close>, \<open>scheduler.rs\<close>, the scheduled rows of
  \<open>af-db/src/email.rs\<close>; ticks and single statements as a step relation). \<open>WebProps\<close> proves
  that connections are vetted, the decisions exact, waiting bounded; \<open>MailProps\<close> that no mail
  is handed over twice.

  \<^bold>\<open>Agents.\<close> \<open>Chat\<close> (messages, token estimates, the message and memory tables,
  \<open>thread_memory.rs\<close>, the history conversion of \<open>prompt_builder.rs\<close>), \<open>Routing\<close>
  (\<open>af-llm/src/router.rs\<close>, \<open>redact.rs\<close>, \<open>request.rs\<close>), \<open>Compaction\<close> (\<open>compaction.rs\<close>),
  \<open>CwcBridge\<close> (\<open>cwc_bridge.rs\<close>), \<open>ToolNames\<close> and \<open>ToolArgs\<close> (the repairs of names and
  arguments in \<open>runtime.rs\<close>, the listing of artifacts in \<open>prompt_builder.rs\<close>, restrictions
  and route rights), \<open>ToolPrompt\<close> (prompts and tool descriptions), \<open>Evidence\<close>
  (\<open>evidence.rs\<close>, \<open>evidence_parser.rs\<close>, \<open>tool_call_parser.rs\<close>), and \<open>AgentTools\<close>,
  \<open>AgentCall\<close>, \<open>AgentLoop\<close>, \<open>AgentRun\<close>: one tool invocation, one call of a response, one
  round of either loop, the start and whole of a run (\<open>send_message\<close>,
  \<open>send_message_streaming\<close>, \<open>continue_thread_streaming\<close>). The state of a run is the record
  \<open>run_state\<close>; the run's constants are \<open>run_ctx\<close>. \<open>AgentSteps\<close> and \<open>AgentRounds\<close> show what
  each step may change (the projection \<open>core\<close>) and lift an invariant of one call to the whole
  run through the locale \<open>run_invariant\<close>, interpreted on both kinds of round. \<open>AgentProps\<close>,
  \<open>RunAccounting\<close>, \<open>ChatProps\<close> and \<open>TextProps\<close> hold the properties of runs.

  \<^bold>\<open>Effects and errors.\<close> Databases are records of tables that each operation returns
  updated; a statement is atomic, a transaction is a function that returns the old tables on
  an error. Errors are the source's error types in the left of a sum. Where a statement may
  fail, a parameter says for each statement (and round) whether it does. Rust's fixed-width
  integers are words where they may wrap or saturate (tokens, context windows, lengths), and
  integers with the column's range where the database raises. Strings are byte lists;
  characters are cut where the source cuts them.

  \<^bold>\<open>Loops.\<close> Structural recursion where the source iterates over a list; fuel where a loop's
  end depends on the outside: redirects take the limit the source has, the wait for a token
  the rounds its timeout allows (\<open>acquire_ends\<close>), an agent run the budget of calls plus
  three rounds (\<open>run_ends\<close>: two retries of an empty answer and the last round), polling for a
  job its deadline. In each case the theorem named, or the one about the component,
  shows that this fuel suffices.

  \<^bold>\<open>Parameters.\<close> The model's answers and streams, the tool executors, the schema validator,
  the JSON reader and printer, identifiers' reader and printer, regular expressions,
  resolution of host names, sockets, the geographic database, mail providers, clocks, row
  identifiers, and what other sessions write between two statements of a run
  (\<open>ae_others\<close>). Facts about them that a theorem needs are its hypotheses.

  \<^bold>\<open>Plugins.\<close> \<open>PluginDb\<close> models the database access of plugins
  (\<open>af-db/src/scoped_plugin_db.rs\<close>): the check of the SQL text, the session's role and search
  path as state of the pooled connection, transactions that abort, migrations. The effect of a
  statement is a parameter. \<open>PluginProps\<close> proves under which settings a plugin's SQL runs and
  that migrations run all or not at all.

  \<^bold>\<open>Stored contents.\<close> \<open>BlobStore\<close> (\<open>af-storage\<close>, \<open>blobs.rs\<close>, the writing statements of
  \<open>artifacts.rs\<close>, the collection of unused contents in \<open>af-cli/src/commands/tick.rs\<close>) has the
  disk as a map of paths next to the rows of contents and artifacts; \<open>BlobSteps\<close> the invariant
  \<open>blob_wf\<close> and the histories \<open>store_reach\<close>. \<open>ArtifactApi\<close> adds the handlers of
  \<open>routes/artifacts.rs\<close> with access check and storage quota. \<open>ContentProps\<close> proves that every
  artifact can be read back, that a collection with a write in between loses it, the limits of
  a tool's output, who may change which artifacts and what the storage counter counts.

  \<^bold>\<open>Queues.\<close> The notification, embedding and URL queues (\<open>af-db/src/notifications.rs\<close>,
  \<open>embed_queue.rs\<close>, \<open>url_ingest.rs\<close>) share a contract: the locales \<open>retry_queue\<close> (a row is
  claimed at most its maximum number of times between two renewals) and \<open>unique_queue\<close> (one
  active row for a content) of \<open>RetryQueue\<close>, interpreted on the three tables in \<open>Queues\<close> and
  \<open>IngestQueues\<close>. \<open>Chunking\<close> (\<open>chunking.rs\<close>, on UTF-8 bytes from \<open>Utf8\<close>) has its loop as a
  partial function, which \<open>chunks_cover\<close> of \<open>QueueProps\<close> shows to end for valid texts and
  pieces of at least four bytes.

  \<^bold>\<open>Notifications.\<close> \<open>Notify\<close> (\<open>af-notify/src/channels.rs\<close>, \<open>queue.rs\<close>) returns with each
  delivery the requests it sent; \<open>NotifyApi\<close> has the tools of \<open>executor.rs\<close> and the handlers of
  \<open>routes/notifications.rs\<close>. The statements that record an outcome are taken not to fail. A
  panic is an outcome of its own. \<open>NotifyProps\<close> proves what is sent and to where, what a pass
  leaves claimed, two deliveries that cannot succeed, and who can change channels and queue.

  \<^bold>\<open>Not modelled.\<close> Workflows and child threads (\<open>orchestrator.rs\<close>, \<open>meta_tools.rs\<close>), the command line and
  configuration (\<open>af-cli\<close>, but for the collection of unused contents), the clients of the model
  providers (\<open>af-llm\<close>), the sandbox and the individual analysis tools (\<open>arbeiterfarm/\<close>), the
  web interface (\<open>ui/\<close>), the passes that fetch pages and embed chunks, and the plain creation
  and listing routes of \<open>af-api\<close>: input and output around the parts above. Debug output, task
  spawning and the sending of events on channels are left out of the modelled functions too.
\<close>

end
